(* ===== verification/Prelude.thy ===== *)
theory Prelude
  imports Main "HOL-Library.Word" "HOL-Library.Multiset"
begin

text \<open>
  Shared vocabulary of the development.

  Rust strings are sequences of Unicode scalar values, so a string is modelled as the list of
  its code points (\<open>rstring\<close>); \<open>lit\<close> embeds an ASCII literal of the source.  The
  functions of \<open>core::str\<close> and \<open>core::char\<close> the source calls are written out here once.
  Identifiers are newtypes over \<open>Uuid\<close> in the source; a UUID is a natural number here,
  and the conversions between id newtypes (\<open>from_uuid\<close>/\<open>as_uuid\<close>) are the identity.
  A \<open>Timestamp\<close> is the number of nanoseconds since the Unix epoch.  Every call of
  \<open>Timestamp::now()\<close> in the source is an explicit argument of the model.

  The last section holds the generic list facts the component theories share.
\<close>

named_theorems outcome_simps \<open>unfolding of the result-valued operations\<close>

section \<open>Types\<close>

type_synonym rchar = nat
type_synonym rstring = "rchar list"
type_synonym uuid = nat
type_synonym task_id = uuid
type_synonym workspace_id = uuid
type_synonym repo_id = uuid
type_synonym repo_origin_id = uuid
type_synonym outbox_entry_id = uuid
type_synonym timestamp = int

definition lit :: "string \<Rightarrow> rstring" where
  "lit s = map of_char s"

lemma lit_Nil [simp]: "lit [] = []"
  by (simp add: lit_def)

lemma lit_Cons [simp]: "lit (c # cs) = of_char c # lit cs"
  by (simp add: lit_def)

lemma length_lit [simp]: "length (lit s) = length s"
  by (simp add: lit_def)

section \<open>Characters\<close>

definition is_ascii_lowercase :: "rchar \<Rightarrow> bool" where
  "is_ascii_lowercase c \<longleftrightarrow> 97 \<le> c \<and> c \<le> 122"

definition is_ascii_uppercase :: "rchar \<Rightarrow> bool" where
  "is_ascii_uppercase c \<longleftrightarrow> 65 \<le> c \<and> c \<le> 90"

definition is_ascii_digit :: "rchar \<Rightarrow> bool" where
  "is_ascii_digit c \<longleftrightarrow> 48 \<le> c \<and> c \<le> 57"

definition is_ascii_alphabetic :: "rchar \<Rightarrow> bool" where
  "is_ascii_alphabetic c \<longleftrightarrow> is_ascii_lowercase c \<or> is_ascii_uppercase c"

definition is_ascii_alphanumeric :: "rchar \<Rightarrow> bool" where
  "is_ascii_alphanumeric c \<longleftrightarrow> is_ascii_alphabetic c \<or> is_ascii_digit c"

definition to_ascii_lowercase :: "rchar \<Rightarrow> rchar" where
  "to_ascii_lowercase c = (if is_ascii_uppercase c then c + 32 else c)"

text \<open>The Unicode \<open>White_Space\<close> property, as \<open>char::is_whitespace\<close> tests it.\<close>

definition is_whitespace :: "rchar \<Rightarrow> bool" where
  "is_whitespace c \<longleftrightarrow> (9 \<le> c \<and> c \<le> 13) \<or> c = 32 \<or> c = 133 \<or> c = 160 \<or> c = 5760 \<or>
     (8192 \<le> c \<and> c \<le> 8202) \<or> c = 8232 \<or> c = 8233 \<or> c = 8239 \<or> c = 8287 \<or> c = 12288"

lemmas ascii_defs = is_ascii_lowercase_def is_ascii_uppercase_def is_ascii_digit_def
  is_ascii_alphabetic_def is_ascii_alphanumeric_def

definition len_utf8_char :: "rchar \<Rightarrow> nat" where
  "len_utf8_char c = (if c < 128 then 1 else if c < 2048 then 2 else if c < 65536 then 3 else 4)"

section \<open>Strings\<close>

text \<open>\<open>str::len\<close> counts UTF-8 bytes; \<open>chars().count()\<close> is \<open>length\<close>.\<close>

definition str_len :: "rstring \<Rightarrow> nat" where
  "str_len s = sum_list (map len_utf8_char s)"

definition trim_start :: "rstring \<Rightarrow> rstring" where
  "trim_start s = dropWhile is_whitespace s"

definition trim :: "rstring \<Rightarrow> rstring" where
  "trim s = rev (dropWhile is_whitespace (rev (trim_start s)))"

definition eq_ignore_ascii_case :: "rstring \<Rightarrow> rstring \<Rightarrow> bool" where
  "eq_ignore_ascii_case a b \<longleftrightarrow> map to_ascii_lowercase a = map to_ascii_lowercase b"

fun join :: "rstring \<Rightarrow> rstring list \<Rightarrow> rstring" where
  "join sep [] = []"
| "join sep [s] = s"
| "join sep (s # ss) = s @ sep @ join sep ss"

definition starts_with :: "rstring \<Rightarrow> rstring \<Rightarrow> bool" where
  "starts_with s p \<longleftrightarrow> take (length p) s = p"

definition strip_prefix :: "rstring \<Rightarrow> rstring \<Rightarrow> rstring option" where
  "strip_prefix s p = (if starts_with s p then Some (drop (length p) s) else None)"

text \<open>\<open>str::split\<close>: the pieces between separators, empty ones included; the empty string
  has one (empty) piece.\<close>

fun split_by :: "(rchar \<Rightarrow> bool) \<Rightarrow> rstring \<Rightarrow> rstring list" where
  "split_by P [] = [[]]"
| "split_by P (c # cs) =
     (if P c then [] # split_by P cs
      else (case split_by P cs of [] \<Rightarrow> [[c]] | w # ws \<Rightarrow> (c # w) # ws))"

text \<open>\<open>str::rsplit_once\<close>: split at the last separator.\<close>

fun rsplit_once :: "rchar \<Rightarrow> rstring \<Rightarrow> (rstring \<times> rstring) option" where
  "rsplit_once d [] = None"
| "rsplit_once d (c # cs) =
     (case rsplit_once d cs of
        Some (a, b) \<Rightarrow> Some (c # a, b)
      | None \<Rightarrow> if c = d then Some ([], cs) else None)"

text \<open>\<open>Display\<close> of an unsigned integer and of a \<open>bool\<close>.\<close>

fun show_nat :: "nat \<Rightarrow> rstring" where
  "show_nat n = (if n < 10 then [48 + n] else show_nat (n div 10) @ [48 + n mod 10])"

declare show_nat.simps [simp del]

text \<open>\<open>Display\<close> of a \<open>Uuid\<close>: 32 lowercase hex digits in groups of 8-4-4-4-12.\<close>

definition hex_digit :: "nat \<Rightarrow> rchar" where
  "hex_digit k = (if k < 10 then 48 + k else 87 + k)"

definition show_uuid :: "uuid \<Rightarrow> rstring" where
  "show_uuid u =
     (let h = map (\<lambda>i. hex_digit (u div 16 ^ i mod 16)) (rev [0..<32])
      in take 8 h @ [45] @ take 4 (drop 8 h) @ [45] @ take 4 (drop 12 h) @ [45] @
         take 4 (drop 16 h) @ [45] @ drop 20 h)"

definition show_bool :: "bool \<Rightarrow> rstring" where
  "show_bool b = (if b then lit ''true'' else lit ''false'')"

lemma show_nat_not_Nil [simp]: "show_nat n \<noteq> []"
  by (subst show_nat.simps) simp

lemma show_nat_digits: "c \<in> set (show_nat n) \<Longrightarrow> is_ascii_digit c"
proof (induction n rule: show_nat.induct)
  case (1 n)
  then show ?case by (subst (asm) show_nat.simps) (auto simp: is_ascii_digit_def split: if_splits)
qed

lemma length_show_nat: "n < 10 ^ k \<Longrightarrow> 0 < k \<Longrightarrow> length (show_nat n) \<le> k"
proof (induction n arbitrary: k rule: show_nat.induct)
  case (1 n)
  show ?case
  proof (cases "n < 10")
    case False
    then obtain j where j: "k = Suc j" "0 < j" using "1.prems" by (cases k; cases "k - 1") auto
    with "1.prems" have "n div 10 < 10 ^ j" by (simp add: less_mult_imp_div_less mult.commute)
    with "1.IH" [OF False this j(2)] j False show ?thesis by (subst show_nat.simps) simp
  qed (use "1.prems" in \<open>subst show_nat.simps, simp\<close>)
qed

text \<open>Reading the digits back.\<close>

definition read_nat :: "rstring \<Rightarrow> nat" where
  "read_nat s = foldl (\<lambda>acc c. 10 * acc + (c - 48)) 0 s"

lemma read_show_nat [simp]: "read_nat (show_nat n) = n"
proof (induction n rule: show_nat.induct)
  case (1 n)
  show ?case
  proof (cases "n < 10")
    case True
    then show ?thesis by (subst show_nat.simps) (simp add: read_nat_def)
  next
    case False
    with "1.IH" show ?thesis by (subst show_nat.simps) (simp add: read_nat_def)
  qed
qed

lemma show_nat_inject [simp]: "show_nat m = show_nat n \<longleftrightarrow> m = n"
  by (metis read_show_nat)

lemma split_by_not_Nil [simp]: "split_by P s \<noteq> []"
  by (cases s) (auto split: list.splits)

lemma split_by_pieces: "w \<in> set (split_by P s) \<Longrightarrow> c \<in> set w \<Longrightarrow> \<not> P c"
proof (induction s arbitrary: w)
  case (Cons d ds)
  then show ?case
    by (cases "split_by P ds") (fastforce split: if_splits)+
qed simp

lemma split_by_pieces_subset: "w \<in> set (split_by P s) \<Longrightarrow> set w \<subseteq> set s"
proof (induction s arbitrary: w)
  case (Cons d ds)
  then show ?case
    by (cases "split_by P ds") (fastforce split: if_splits)+
qed simp

lemma rsplit_once_Some:
  "rsplit_once d s = Some (a, b) \<Longrightarrow> s = a @ d # b \<and> d \<notin> set b"
proof (induction s arbitrary: a b)
  case (Cons c cs)
  show ?case
  proof (cases "rsplit_once d cs")
    case None
    have "d \<notin> set cs" using None
      by (induction cs) (auto split: option.splits prod.splits if_splits)
    with None Cons.prems show ?thesis by (auto split: if_splits)
  next
    case (Some ab)
    with Cons show ?thesis by (cases ab) auto
  qed
qed simp

lemma rsplit_once_append: "d \<notin> set b \<Longrightarrow> rsplit_once d (a @ d # b) = Some (a, b)"
proof (induction a)
  case Nil
  have "rsplit_once d b = None" using Nil by (induction b) auto
  then show ?case by simp
qed simp

lemma rsplit_once_None: "rsplit_once d s = None \<longleftrightarrow> d \<notin> set s"
  by (induction s) (auto split: option.splits prod.splits)

lemma eq_ignore_ascii_case_refl [simp]: "eq_ignore_ascii_case s s"
  by (simp add: eq_ignore_ascii_case_def)

lemma eq_ignore_ascii_case_sym: "eq_ignore_ascii_case a b \<Longrightarrow> eq_ignore_ascii_case b a"
  by (simp add: eq_ignore_ascii_case_def)

lemma eq_ignore_ascii_case_trans:
  "eq_ignore_ascii_case a b \<Longrightarrow> eq_ignore_ascii_case b c \<Longrightarrow> eq_ignore_ascii_case a c"
  by (simp add: eq_ignore_ascii_case_def)

lemma trim_nonempty_set: "c \<in> set (trim s) \<Longrightarrow> c \<in> set s"
  by (metis set_dropWhileD set_rev trim_def trim_start_def)

lemma hd_trim: "trim s \<noteq> [] \<Longrightarrow> \<not> is_whitespace (hd (trim s))"
proof -
  assume ne: "trim s \<noteq> []"
  let ?u = "trim_start s"
  have u: "?u \<noteq> []" using ne by (auto simp: trim_def)
  then have hu: "\<not> is_whitespace (hd ?u)"
    unfolding trim_start_def by (metis hd_dropWhile)
  have pre: "trim s @ rev (takeWhile is_whitespace (rev ?u)) = ?u"
    unfolding trim_def by (metis rev_append rev_rev_ident takeWhile_dropWhile_id)
  then have "hd (trim s) = hd ?u" using ne by (metis hd_append2)
  with hu show ?thesis by simp
qed

lemma last_trim: "trim s \<noteq> [] \<Longrightarrow> \<not> is_whitespace (last (trim s))"
  by (metis hd_dropWhile last_rev rev_is_Nil_conv trim_def)

lemma trim_id:
  assumes "s \<noteq> []" "\<not> is_whitespace (hd s)" "\<not> is_whitespace (last s)"
  shows "trim s = s"
proof -
  have "trim_start s = s" using assms(1,2) by (cases s) (auto simp: trim_start_def)
  moreover have "dropWhile is_whitespace (rev s) = rev s"
    using assms(1,3) by (cases s rule: rev_cases) auto
  ultimately show ?thesis by (simp add: trim_def)
qed

lemma trim_idem [simp]: "trim (trim s) = trim s"
proof (cases "trim s = []")
  case True
  then show ?thesis by (simp only: True) (simp add: trim_def trim_start_def)
next
  case False
  then show ?thesis by (metis hd_trim last_trim trim_id)
qed

lemma starts_with_append: "starts_with s p \<longleftrightarrow> (\<exists>r. s = p @ r)"
  unfolding starts_with_def by (metis append_eq_conv_conj append_take_drop_id)

section \<open>Lists\<close>

text \<open>\<open>Iterator::any\<close>, \<open>all\<close> and \<open>find\<close> on vectors are \<open>list_ex\<close>, \<open>list_all\<close> and
  \<open>List.find\<close>.  \<open>Vec::retain\<close> is \<open>filter\<close>.\<close>

lemma find_Some_set: "List.find P xs = Some x \<Longrightarrow> x \<in> set xs \<and> P x"
  by (auto simp: find_Some_iff)

lemma find_Some_ex: "x \<in> set xs \<Longrightarrow> P x \<Longrightarrow> \<exists>y. List.find P xs = Some y \<and> y \<in> set xs \<and> P y"
  by (metis find_None_iff find_Some_set not_None_eq)

lemma filter_length_neq: "length (filter P xs) \<noteq> length xs \<longleftrightarrow> (\<exists>x \<in> set xs. \<not> P x)"
  by (metis filter_id_conv length_filter_less less_irrefl)

text \<open>A unique key determines the element.\<close>

lemma distinct_map_key_unique:
  "distinct (map f xs) \<Longrightarrow> x \<in> set xs \<Longrightarrow> y \<in> set xs \<Longrightarrow> f x = f y \<Longrightarrow> x = y"
  by (auto simp: distinct_map inj_on_def)

lemma find_distinct_key:
  "distinct (map f xs) \<Longrightarrow> x \<in> set xs \<Longrightarrow> List.find (\<lambda>y. f y = f x) xs = Some x"
  by (metis (mono_tags, lifting) distinct_map_key_unique find_Some_ex)

text \<open>An \<open>UPDATE \<dots> WHERE id = ?\<close> statement: every row satisfying the condition is rewritten.\<close>

definition update_where :: "('a \<Rightarrow> bool) \<Rightarrow> ('a \<Rightarrow> 'a) \<Rightarrow> 'a list \<Rightarrow> 'a list" where
  "update_where P f xs = map (\<lambda>x. if P x then f x else x) xs"

lemma length_update_where [simp]: "length (update_where P f xs) = length xs"
  by (simp add: update_where_def)

lemma update_where_Nil [simp]: "update_where P f [] = []"
  by (simp add: update_where_def)

lemma update_where_Cons [simp]:
  "update_where P f (x # xs) = (if P x then f x else x) # update_where P f xs"
  by (simp add: update_where_def)

lemma update_where_append [simp]:
  "update_where P f (xs @ ys) = update_where P f xs @ update_where P f ys"
  by (simp add: update_where_def)

lemma update_where_none: "\<forall>x \<in> set xs. \<not> P x \<Longrightarrow> update_where P f xs = xs"
  by (induction xs) auto

lemma map_update_where:
  "(\<And>x. g (f x) = g x) \<Longrightarrow> map g (update_where P f xs) = map g xs"
  by (induction xs) auto

lemma set_update_where: "set (update_where P f xs) = (\<lambda>x. if P x then f x else x) ` set xs"
  by (simp add: update_where_def)

end
