(* ===== verification/Core.thy ===== *)
theory Core
  imports Prelude
begin

text \<open>
  The crate \<open>domain-core\<close>: the error type every aggregate returns, the validated project id
  and the clock value.  An operation of the source of type \<open>Result<T, DomainError>\<close> is a
  function into \<open>domain_error + 'a\<close>, with \<open>Inl\<close> for \<open>Err\<close>.
\<close>

section \<open>Errors (error.rs)\<close>

datatype domain_error =
    InvalidTransition rstring
  | Validation rstring
  | IdError rstring

type_synonym 'a dresult = "domain_error + 'a"

section \<open>Project ids (id.rs)\<close>

text \<open>\<open>ProjectId\<close> is a string that starts with \<open>PVT_\<close>; \<open>parse\<close> is the only way to make one.\<close>

datatype project_id_parse_error = EmptyProjectId | InvalidPrefix rstring

type_synonym project_id = rstring

definition parse_project_id :: "rstring \<Rightarrow> project_id_parse_error + project_id" where
  "parse_project_id s =
     (if s = [] then Inl EmptyProjectId
      else if \<not> starts_with s (lit ''PVT_'') then Inl (InvalidPrefix s)
      else Inr s)"

lemma parse_project_id_Inr_iff:
  "parse_project_id s = Inr p \<longleftrightarrow> p = s \<and> starts_with s (lit ''PVT_'')"
  by (auto simp: parse_project_id_def starts_with_def)

lemma parse_project_id_Inl_iff:
  "(\<exists>e. parse_project_id s = Inl e) \<longleftrightarrow> \<not> starts_with s (lit ''PVT_'')"
  by (auto simp: parse_project_id_def starts_with_def)

section \<open>Timestamps (time.rs)\<close>

definition epoch :: timestamp where
  "epoch = 0"

definition minus_one_second :: "timestamp \<Rightarrow> timestamp" where
  "minus_one_second t = t - 1000000000"

section \<open>The aggregate contract (aggregate.rs)\<close>

text \<open>
  An aggregate is driven by a sequence of calls of its public methods; a call that returns
  \<open>Err\<close> leaves the stored aggregate as it was, because every caller propagates the error
  before writing.
\<close>

fun run_ops ::
  "('op \<Rightarrow> timestamp \<Rightarrow> 'a \<Rightarrow> domain_error + 'a) \<Rightarrow> ('op \<times> timestamp) list \<Rightarrow> 'a \<Rightarrow> 'a" where
  "run_ops step [] a = a"
| "run_ops step ((op, now) # rest) a =
     run_ops step rest (case step op now a of Inl _ \<Rightarrow> a | Inr a' \<Rightarrow> a')"

text \<open>
  The trait \<open>Aggregate\<close>: the identity and the creation time never change, and every
  successful transition either stamps \<open>updated_at\<close> with the clock or leaves it.
\<close>

locale aggregate =
  fixes ident :: "'a \<Rightarrow> 'i"
    and created_at :: "'a \<Rightarrow> timestamp"
    and updated_at :: "'a \<Rightarrow> timestamp"
    and step :: "'op \<Rightarrow> timestamp \<Rightarrow> 'a \<Rightarrow> domain_error + 'a"
  assumes step_ident: "step op now a = Inr a' \<Longrightarrow> ident a' = ident a"
    and step_created_at: "step op now a = Inr a' \<Longrightarrow> created_at a' = created_at a"
    and step_updated_at: "step op now a = Inr a' \<Longrightarrow> updated_at a' \<in> {now, updated_at a}"
begin

lemma run_identity:
  "ident (run_ops step ops a) = ident a \<and> created_at (run_ops step ops a) = created_at a"
proof (induction ops arbitrary: a)
  case (Cons op_now ops)
  then show ?case
    by (cases op_now) (auto split: sum.splits dest: step_ident step_created_at)
qed simp

lemma run_updated_at:
  "updated_at (run_ops step ops a) \<in> insert (updated_at a) (snd ` set ops)"
proof (induction ops arbitrary: a)
  case (Cons op_now ops)
  obtain op now where op: "op_now = (op, now)" by (cases op_now)
  show ?case
  proof (cases "step op now a")
    case (Inl e)
    then show ?thesis using Cons.IH [of a] op by auto
  next
    case (Inr a')
    then show ?thesis using Cons.IH [of a'] step_updated_at [OF Inr] op by auto
  qed
qed simp

lemma run_updated_at_ge:
  "\<forall>x \<in> set ops. updated_at a \<le> snd x \<Longrightarrow> updated_at a \<le> updated_at (run_ops step ops a)"
  using run_updated_at [of ops a] by auto

end

text \<open>An aggregate with a well-formedness invariant that every method keeps.\<close>

locale guarded_aggregate = aggregate +
  fixes inv :: "'a \<Rightarrow> bool"
  assumes step_inv: "inv a \<Longrightarrow> step op now a = Inr a' \<Longrightarrow> inv a'"
begin

lemma run_inv: "inv a \<Longrightarrow> inv (run_ops step ops a)"
proof (induction ops arbitrary: a)
  case (Cons op_now ops)
  then show ?case
    by (cases op_now) (auto split: sum.splits dest: step_inv)
qed simp

end

end
