(* ===== verification/TaskEnums.thy ===== *)
theory TaskEnums
  imports Core
begin

text \<open>
  The enumerations and small value types of the crate \<open>domain-task\<close> (\<open>enums.rs\<close>,
  \<open>relation.rs\<close>) with their projections: the GitHub \<open>state\<close>/\<open>state_reason\<close> view of a
  lifecycle, the single-string form of an issue type and the reciprocal of a relation kind.
\<close>

section \<open>Lifecycle and sync state\<close>

datatype lifecycle = Open | Reopened | Completed | NotPlanned

fun is_open :: "lifecycle \<Rightarrow> bool" where
  "is_open Open = True"
| "is_open Reopened = True"
| "is_open Completed = False"
| "is_open NotPlanned = False"

fun state_reason :: "lifecycle \<Rightarrow> rstring option" where
  "state_reason Open = None"
| "state_reason Reopened = Some (lit ''reopened'')"
| "state_reason Completed = Some (lit ''completed'')"
| "state_reason NotPlanned = Some (lit ''not_planned'')"

datatype sync_state = LocalOnly | Staged | Synced | DirtyLocal | DirtyRemote | Conflict

text \<open>The derived \<open>Debug\<close> form, used in error messages.\<close>

fun debug_sync_state :: "sync_state \<Rightarrow> rstring" where
  "debug_sync_state LocalOnly = lit ''LocalOnly''"
| "debug_sync_state Staged = lit ''Staged''"
| "debug_sync_state Synced = lit ''Synced''"
| "debug_sync_state DirtyLocal = lit ''DirtyLocal''"
| "debug_sync_state DirtyRemote = lit ''DirtyRemote''"
| "debug_sync_state Conflict = lit ''Conflict''"

section \<open>Priority\<close>

text \<open>\<open>Priority\<close> derives \<open>Ord\<close>: the declaration order.\<close>

datatype priority = P0 | P1 | P2 | P3

fun priority_rank :: "priority \<Rightarrow> nat" where
  "priority_rank P0 = 0"
| "priority_rank P1 = 1"
| "priority_rank P2 = 2"
| "priority_rank P3 = 3"

lemma priority_rank_inject [simp]: "priority_rank p = priority_rank q \<longleftrightarrow> p = q"
  by (cases p; cases q) auto

lemma priority_rank_less_4: "priority_rank p < 4"
  by (cases p) auto

instantiation priority :: linorder
begin

definition less_eq_priority :: "priority \<Rightarrow> priority \<Rightarrow> bool" where
  "less_eq_priority p q \<longleftrightarrow> priority_rank p \<le> priority_rank q"

definition less_priority :: "priority \<Rightarrow> priority \<Rightarrow> bool" where
  "less_priority p q \<longleftrightarrow> priority_rank p < priority_rank q"

instance
  by standard (auto simp: less_eq_priority_def less_priority_def)

end

section \<open>Issue types\<close>

datatype issue_type = Task | Bug | Feature | Custom rstring

fun issue_type_display :: "issue_type \<Rightarrow> rstring" where
  "issue_type_display Task = lit ''task''"
| "issue_type_display Bug = lit ''bug''"
| "issue_type_display Feature = lit ''feature''"
| "issue_type_display (Custom s) = s"

definition well_known :: "rstring \<Rightarrow> issue_type option" where
  "well_known s =
     (if eq_ignore_ascii_case s (lit ''task'') then Some Task
      else if eq_ignore_ascii_case s (lit ''bug'') then Some Bug
      else if eq_ignore_ascii_case s (lit ''feature'') then Some Feature
      else None)"

text \<open>\<open>impl From<&str>\<close> and \<open>impl From<String>\<close> compute the same value.\<close>

definition issue_type_from :: "rstring \<Rightarrow> issue_type" where
  "issue_type_from s = (case well_known s of Some it \<Rightarrow> it | None \<Rightarrow> Custom s)"

lemma well_known_cases:
  "well_known s = Some it \<Longrightarrow>
     it \<in> {Task, Bug, Feature} \<and> eq_ignore_ascii_case s (issue_type_display it)"
  by (auto simp: well_known_def split: if_splits)

lemma well_known_display: "it \<in> {Task, Bug, Feature} \<Longrightarrow> well_known (issue_type_display it) = Some it"
  by (auto simp: well_known_def eq_ignore_ascii_case_def to_ascii_lowercase_def
      is_ascii_uppercase_def)

lemma well_known_cong:
  "eq_ignore_ascii_case a b \<Longrightarrow> well_known a = well_known b"
  by (simp add: well_known_def eq_ignore_ascii_case_def)

section \<open>Relations\<close>

datatype relation_kind = BlockedBy | Blocks | Duplicates | ParentOf | ChildOf | RelatedTo

fun inverse_kind :: "relation_kind \<Rightarrow> relation_kind" where
  "inverse_kind BlockedBy = Blocks"
| "inverse_kind Blocks = BlockedBy"
| "inverse_kind ParentOf = ChildOf"
| "inverse_kind ChildOf = ParentOf"
| "inverse_kind RelatedTo = RelatedTo"
| "inverse_kind Duplicates = Duplicates"

lemma inverse_kind_involutive [simp]: "inverse_kind (inverse_kind k) = k"
  by (cases k) auto

lemma inverse_kind_inject [simp]: "inverse_kind j = inverse_kind k \<longleftrightarrow> j = k"
  by (metis inverse_kind_involutive)

record task_relation =
  rel_kind :: relation_kind
  rel_other :: task_id

record remote_ref =
  rr_provider :: rstring
  rr_remote_id :: rstring
  rr_node_id :: "rstring option"

definition remote_ref_new :: "rstring \<Rightarrow> rstring \<Rightarrow> remote_ref" where
  "remote_ref_new provider remote_id =
     \<lparr>rr_provider = provider, rr_remote_id = remote_id, rr_node_id = None\<rparr>"

record task_comment =
  c_local_id :: "rstring option"
  c_remote_id :: "rstring option"
  c_author :: rstring
  c_body :: rstring
  c_created_at :: timestamp

end
