(* ===== verification/TaskDomain.thy ===== *)
theory TaskDomain
  imports TaskEnums
begin

text \<open>
  The \<open>Task\<close> aggregate of \<open>domain-task\<close> (\<open>snapshot.rs\<close>, \<open>task.rs\<close>): the record, its
  snapshots, the sync transitions, the lifecycle transitions, dirty detection against the
  synced baseline, and the field-level patch.

  Each method is one definition.  A method of type \<open>Result<()>\<close> on \<open>&mut self\<close> returns the
  updated task or the error; no method changes the task before it fails.  \<open>now\<close> is the clock
  read by \<open>touch\<close>, \<open>cap\<close> the one read by \<open>snapshot_view\<close>.
\<close>

section \<open>Snapshots (snapshot.rs)\<close>

datatype snapshot_source =
    SrcCreated | SrcLocalEdit | SrcPromote | SrcPush | SrcPrePull | SrcPull
  | SrcConflictResolve | SrcRollback | SrcLink | SrcFilingRepoRepair

fun debug_snapshot_source :: "snapshot_source \<Rightarrow> rstring" where
  "debug_snapshot_source SrcCreated = lit ''Created''"
| "debug_snapshot_source SrcLocalEdit = lit ''LocalEdit''"
| "debug_snapshot_source SrcPromote = lit ''Promote''"
| "debug_snapshot_source SrcPush = lit ''Push''"
| "debug_snapshot_source SrcPrePull = lit ''PrePull''"
| "debug_snapshot_source SrcPull = lit ''Pull''"
| "debug_snapshot_source SrcConflictResolve = lit ''ConflictResolve''"
| "debug_snapshot_source SrcRollback = lit ''Rollback''"
| "debug_snapshot_source SrcLink = lit ''Link''"
| "debug_snapshot_source SrcFilingRepoRepair = lit ''FilingRepoRepair''"

definition source_is_baseline :: "snapshot_source \<Rightarrow> bool" where
  "source_is_baseline src \<longleftrightarrow>
     src \<in> {SrcPromote, SrcPush, SrcPull, SrcConflictResolve, SrcLink, SrcFilingRepoRepair}"

record task_snapshot =
  s_task_id :: task_id
  s_version :: nat
  s_title :: rstring
  s_body :: rstring
  s_lifecycle :: lifecycle
  s_sync_state :: sync_state
  s_priority :: priority
  s_issue_type :: "issue_type option"
  s_issue_type_recorded :: bool
  s_assignees :: "rstring list"
  s_remote :: "remote_ref option"
  s_repo_id :: "repo_id option"
  s_repo_id_recorded :: bool
  s_filing_repo_id :: "repo_id option"
  s_source :: snapshot_source
  s_captured_at :: timestamp

definition snapshot_is_baseline :: "task_snapshot \<Rightarrow> bool" where
  "snapshot_is_baseline s =
     (if s_source s = SrcLink then s_sync_state s = Synced
      else source_is_baseline (s_source s))"

section \<open>The aggregate (task.rs)\<close>

record task =
  t_id :: task_id
  t_workspace_id :: workspace_id
  t_repo_id :: "repo_id option"
  t_filing_repo_id :: "repo_id option"
  t_title :: rstring
  t_body :: rstring
  t_lifecycle :: lifecycle
  t_sync :: sync_state
  t_priority :: priority
  t_issue_type :: "issue_type option"
  t_issue_type_pending :: bool
  t_assignees :: "rstring list"
  t_remote :: "remote_ref option"
  t_relations :: "task_relation list"
  t_comments :: "task_comment list"
  t_project_item_id :: "rstring option"
  t_project_status_option_id :: "rstring option"
  t_synced_at :: "timestamp option"
  t_hash :: rstring
  t_created_at :: timestamp
  t_updated_at :: timestamp
  t_synced_baseline :: "task_snapshot option"

datatype mirror_field = MTitle | MBody | MStatus | MAssignees

definition mirrored_fields :: "mirror_field list" where
  "mirrored_fields = [MTitle, MBody, MStatus, MAssignees]"

text \<open>Equal lengths and equal sets; the source builds two \<open>HashSet\<close>s.\<close>

definition assignees_equal :: "rstring list \<Rightarrow> rstring list \<Rightarrow> bool" where
  "assignees_equal a b = (if length a \<noteq> length b then False else set a = set b)"

fun differs :: "mirror_field \<Rightarrow> task \<Rightarrow> task_snapshot \<Rightarrow> bool" where
  "differs MTitle t b = (t_title t \<noteq> s_title b)"
| "differs MBody t b = (t_body t \<noteq> s_body b)"
| "differs MStatus t b = (t_lifecycle t \<noteq> s_lifecycle b)"
| "differs MAssignees t b = (\<not> assignees_equal (t_assignees t) (s_assignees b))"

record mirror_patch =
  mp_title :: "rstring option"
  mp_body :: "rstring option"
  mp_status :: "lifecycle option"
  mp_assignees :: "rstring list option"

definition default_patch :: mirror_patch where
  "default_patch = \<lparr>mp_title = None, mp_body = None, mp_status = None, mp_assignees = None\<rparr>"

definition patch_is_empty :: "mirror_patch \<Rightarrow> bool" where
  "patch_is_empty p \<longleftrightarrow>
     mp_title p = None \<and> mp_body p = None \<and> mp_status p = None \<and> mp_assignees p = None"

definition touch :: "timestamp \<Rightarrow> task \<Rightarrow> task" where
  "touch now t = t\<lparr>t_updated_at := now\<rparr>"

definition snapshot_view :: "timestamp \<Rightarrow> task \<Rightarrow> snapshot_source \<Rightarrow> task_snapshot" where
  "snapshot_view cap t src =
     \<lparr>s_task_id = t_id t, s_version = 0, s_title = t_title t, s_body = t_body t,
      s_lifecycle = t_lifecycle t, s_sync_state = t_sync t, s_priority = t_priority t,
      s_issue_type = t_issue_type t, s_issue_type_recorded = True,
      s_assignees = t_assignees t, s_remote = t_remote t, s_repo_id = t_repo_id t,
      s_repo_id_recorded = True, s_filing_repo_id = t_filing_repo_id t, s_source = src,
      s_captured_at = cap\<rparr>"

definition new_draft ::
  "task_id \<Rightarrow> timestamp \<Rightarrow> workspace_id \<Rightarrow> repo_id option \<Rightarrow> rstring \<Rightarrow> task dresult" where
  "new_draft fresh now ws repo title =
     (if trim title = [] then Inl (Validation (lit ''task title is empty''))
      else Inr
        \<lparr>t_id = fresh, t_workspace_id = ws, t_repo_id = repo, t_filing_repo_id = None,
         t_title = title, t_body = [], t_lifecycle = Open, t_sync = LocalOnly,
         t_priority = P3, t_issue_type = None, t_issue_type_pending = False,
         t_assignees = [], t_remote = None, t_relations = [], t_comments = [],
         t_project_item_id = None, t_project_status_option_id = None, t_synced_at = None,
         t_hash = [], t_created_at = now, t_updated_at = now, t_synced_baseline = None\<rparr>)"

definition import_mirror ::
  "task_id \<Rightarrow> timestamp \<Rightarrow> timestamp \<Rightarrow> workspace_id \<Rightarrow> repo_id option \<Rightarrow> remote_ref \<Rightarrow> rstring \<Rightarrow>
   rstring \<Rightarrow> rstring list \<Rightarrow> bool \<Rightarrow> task dresult" where
  "import_mirror fresh now cap ws repo remote title body assignees closed =
     (if trim title = [] then Inl (Validation (lit ''task title is empty''))
      else
        let t =
          \<lparr>t_id = fresh, t_workspace_id = ws, t_repo_id = repo, t_filing_repo_id = repo,
           t_title = title, t_body = body,
           t_lifecycle = (if closed then Completed else Open), t_sync = Synced,
           t_priority = P3, t_issue_type = None, t_issue_type_pending = False,
           t_assignees = assignees, t_remote = Some remote, t_relations = [], t_comments = [],
           t_project_item_id = None, t_project_status_option_id = None, t_synced_at = None,
           t_hash = [], t_created_at = now, t_updated_at = now, t_synced_baseline = None\<rparr>
        in Inr (t\<lparr>t_synced_baseline := Some (snapshot_view cap t SrcPull)\<rparr>))"

section \<open>Dirty detection\<close>

definition differs_from :: "task \<Rightarrow> task_snapshot \<Rightarrow> bool" where
  "differs_from t b = list_ex (\<lambda>f. differs f t b) mirrored_fields"

fun reconcile_verdict :: "sync_state \<Rightarrow> bool \<Rightarrow> sync_state" where
  "reconcile_verdict Synced True = DirtyLocal"
| "reconcile_verdict DirtyLocal False = Synced"
| "reconcile_verdict DirtyRemote True = Conflict"
| "reconcile_verdict other d = other"

definition reconcile_dirty_against_baseline :: "task \<Rightarrow> task" where
  "reconcile_dirty_against_baseline t =
     (case t_synced_baseline t of
        None \<Rightarrow> t
      | Some b \<Rightarrow> t\<lparr>t_sync := reconcile_verdict (t_sync t) (differs_from t b)\<rparr>)"

definition diff_against_baseline :: "task \<Rightarrow> mirror_patch" where
  "diff_against_baseline t =
     (case t_synced_baseline t of
        None \<Rightarrow> default_patch
      | Some b \<Rightarrow>
          \<lparr>mp_title = (if differs MTitle t b then Some (t_title t) else None),
           mp_body = (if differs MBody t b then Some (t_body t) else None),
           mp_status = (if differs MStatus t b then Some (t_lifecycle t) else None),
           mp_assignees = (if differs MAssignees t b then Some (t_assignees t) else None)\<rparr>)"

definition full_mirror_patch :: "task \<Rightarrow> mirror_patch" where
  "full_mirror_patch t =
     \<lparr>mp_title = Some (t_title t), mp_body = Some (t_body t),
      mp_status = Some (t_lifecycle t), mp_assignees = Some (t_assignees t)\<rparr>"

definition set_synced_baseline :: "task_snapshot \<Rightarrow> task \<Rightarrow> task" where
  "set_synced_baseline b t = reconcile_dirty_against_baseline (t\<lparr>t_synced_baseline := Some b\<rparr>)"

section \<open>Sync transitions\<close>

definition stage_for_sync :: "timestamp \<Rightarrow> task \<Rightarrow> task dresult" where
  "stage_for_sync now t =
     (if t_sync t \<in> {LocalOnly, DirtyLocal} then Inr (touch now (t\<lparr>t_sync := Staged\<rparr>))
      else Inl (InvalidTransition
        (lit ''cannot stage from sync='' @ debug_sync_state (t_sync t))))"

definition promote_to_remote :: "timestamp \<Rightarrow> timestamp \<Rightarrow> remote_ref \<Rightarrow> task \<Rightarrow> task dresult" where
  "promote_to_remote now cap remote t =
     (if t_sync t \<noteq> Staged then Inl (InvalidTransition
        (lit ''cannot promote from sync='' @ debug_sync_state (t_sync t)))
      else
        let t' = touch now (t\<lparr>t_remote := Some remote, t_sync := Synced\<rparr>)
        in Inr (t'\<lparr>t_synced_baseline := Some (snapshot_view cap t' SrcPromote)\<rparr>))"

definition confirm_synced :: "timestamp \<Rightarrow> timestamp \<Rightarrow> snapshot_source \<Rightarrow> task \<Rightarrow> task dresult" where
  "confirm_synced now cap src t =
     (if \<not> source_is_baseline src then Inl (Validation
        (lit ''confirm_synced source must be Promote/Push/Pull/ConflictResolve, got '' @
         debug_snapshot_source src))
      else if t_sync t \<in> {Staged, DirtyLocal, DirtyRemote} then
        let t' = touch now (t\<lparr>t_sync := Synced\<rparr>)
        in Inr (t'\<lparr>t_synced_baseline := Some (snapshot_view cap t' src)\<rparr>)
      else Inl (InvalidTransition
        (lit ''cannot confirm_synced from sync='' @ debug_sync_state (t_sync t))))"

text \<open>The merge of the transmitted fields over the prior baseline.\<close>

definition merge_patch :: "snapshot_source \<Rightarrow> mirror_patch \<Rightarrow> task_snapshot \<Rightarrow> task_snapshot" where
  "merge_patch src p prior =
     prior\<lparr>s_source := src,
       s_title := (case mp_title p of Some x \<Rightarrow> x | None \<Rightarrow> s_title prior),
       s_body := (case mp_body p of Some x \<Rightarrow> x | None \<Rightarrow> s_body prior),
       s_lifecycle := (case mp_status p of Some x \<Rightarrow> x | None \<Rightarrow> s_lifecycle prior),
       s_assignees := (case mp_assignees p of Some x \<Rightarrow> x | None \<Rightarrow> s_assignees prior)\<rparr>"

definition confirm_synced_fields ::
  "timestamp \<Rightarrow> snapshot_source \<Rightarrow> mirror_patch \<Rightarrow> task \<Rightarrow> task dresult" where
  "confirm_synced_fields now src p t =
     (if src \<notin> {SrcPromote, SrcPush, SrcPull, SrcConflictResolve} then Inl (Validation
        (lit ''confirm_synced_fields source must be Promote/Push/Pull/ConflictResolve, got '' @
         debug_snapshot_source src))
      else if t_sync t = Conflict \<and> src = SrcPush \<and>
        (mp_title p = None \<or> mp_body p = None \<or> mp_status p = None \<or> mp_assignees p = None)
      then Inl (Validation
        (lit ''confirm_synced_fields from Conflict (local-wins Push) requires a full mirrored-field patch '' @
         [8212] @ lit '' title, body, status, and assignees must all be present''))
      else if t_sync t = Conflict \<and> src \<noteq> SrcPush then Inl (InvalidTransition
        (lit ''cannot confirm_synced_fields from Conflict with source '' @
         debug_snapshot_source src @ lit ''; only a local-wins Push resolves a conflict''))
      else if t_sync t \<notin> {Staged, DirtyLocal, DirtyRemote, Conflict} then Inl (InvalidTransition
        (lit ''cannot confirm_synced_fields from sync='' @ debug_sync_state (t_sync t)))
      else
        (case t_synced_baseline t of
           None \<Rightarrow> Inl (InvalidTransition
             (lit ''cannot confirm_synced_fields without a synced_baseline''))
         | Some prior \<Rightarrow>
             Inr (reconcile_dirty_against_baseline
               (touch now (t\<lparr>t_synced_baseline := Some (merge_patch src p prior),
                 t_sync := Synced\<rparr>)))))"

definition adopt_aligned_state ::
  "timestamp \<Rightarrow> timestamp \<Rightarrow> snapshot_source \<Rightarrow> task \<Rightarrow> task dresult" where
  "adopt_aligned_state now cap src t =
     (if src \<notin> {SrcPush, SrcPull, SrcConflictResolve} then Inl (Validation
        (lit ''adopt_aligned_state source must be Push/Pull/ConflictResolve, got '' @
         debug_snapshot_source src))
      else if t_sync t \<in> {Synced, Conflict, DirtyLocal, DirtyRemote} then
        let t' = touch now (t\<lparr>t_sync := Synced\<rparr>)
        in Inr (t'\<lparr>t_synced_baseline := Some (snapshot_view cap t' src)\<rparr>)
      else Inl (InvalidTransition
        (lit ''cannot adopt an aligned state from sync='' @ debug_sync_state (t_sync t))))"

definition mark_dirty_local :: "timestamp \<Rightarrow> task \<Rightarrow> task dresult" where
  "mark_dirty_local now t =
     (if t_sync t = Synced then Inr (touch now (t\<lparr>t_sync := DirtyLocal\<rparr>))
      else Inl (InvalidTransition
        (lit ''cannot mark dirty_local from sync='' @ debug_sync_state (t_sync t))))"

definition mark_dirty_remote :: "timestamp \<Rightarrow> task \<Rightarrow> task dresult" where
  "mark_dirty_remote now t =
     (if t_sync t = Synced then Inr (touch now (t\<lparr>t_sync := DirtyRemote\<rparr>))
      else Inl (InvalidTransition
        (lit ''cannot mark dirty_remote from sync='' @ debug_sync_state (t_sync t))))"

definition mark_conflicted :: "timestamp \<Rightarrow> task \<Rightarrow> task dresult" where
  "mark_conflicted now t =
     (if t_sync t \<in> {DirtyLocal, DirtyRemote, Synced} then Inr (touch now (t\<lparr>t_sync := Conflict\<rparr>))
      else Inl (InvalidTransition
        (lit ''cannot mark conflict from sync='' @ debug_sync_state (t_sync t))))"

definition link_to_remote ::
  "timestamp \<Rightarrow> repo_id \<Rightarrow> remote_ref \<Rightarrow> bool \<Rightarrow> task \<Rightarrow> task dresult" where
  "link_to_remote now repo remote force_conflict t =
     (let t1 = t\<lparr>t_repo_id := Some repo, t_remote := Some remote\<rparr>;
          t2 = (if force_conflict then t1\<lparr>t_sync := Conflict\<rparr> else t1)
      in Inr (touch now t2))"

section \<open>Lifecycle transitions\<close>

definition set_lifecycle :: "timestamp \<Rightarrow> lifecycle \<Rightarrow> task \<Rightarrow> task" where
  "set_lifecycle now l t =
     (if t_lifecycle t = l then t
      else reconcile_dirty_against_baseline (touch now (t\<lparr>t_lifecycle := l\<rparr>)))"

definition start :: "task \<Rightarrow> task dresult" where
  "start t =
     (if is_open (t_lifecycle t) then Inr t
      else Inl (InvalidTransition
        (lit ''cannot start a closed task '' @ [8212] @
         lit '' use `rl task reopen` to transition it to open'')))"

definition complete :: "timestamp \<Rightarrow> task \<Rightarrow> task dresult" where
  "complete now t = Inr (set_lifecycle now Completed t)"

definition archive :: "timestamp \<Rightarrow> task \<Rightarrow> task dresult" where
  "archive now t = Inr (set_lifecycle now NotPlanned t)"

definition reopen :: "timestamp \<Rightarrow> task \<Rightarrow> task dresult" where
  "reopen now t = Inr (set_lifecycle now Reopened t)"

section \<open>Relations\<close>

definition has_relation :: "relation_kind \<Rightarrow> task_id \<Rightarrow> task \<Rightarrow> bool" where
  "has_relation k other t = list_ex (\<lambda>r. rel_kind r = k \<and> rel_other r = other) (t_relations t)"

definition add_relation :: "timestamp \<Rightarrow> relation_kind \<Rightarrow> task_id \<Rightarrow> task \<Rightarrow> task" where
  "add_relation now k other t =
     (if \<not> has_relation k other t
      then touch now (t\<lparr>t_relations := t_relations t @ [\<lparr>rel_kind = k, rel_other = other\<rparr>]\<rparr>)
      else t)"

definition remove_relation :: "timestamp \<Rightarrow> relation_kind \<Rightarrow> task_id \<Rightarrow> task \<Rightarrow> bool \<times> task" where
  "remove_relation now k other t =
     (let rs = filter (\<lambda>r. \<not> (rel_kind r = k \<and> rel_other r = other)) (t_relations t);
          removed = (length rs \<noteq> length (t_relations t));
          t' = t\<lparr>t_relations := rs\<rparr>
      in (removed, if removed then touch now t' else t'))"

definition clear_relations :: "timestamp \<Rightarrow> task \<Rightarrow> task_relation list \<times> task" where
  "clear_relations now t =
     (if t_relations t = [] then ([], t)
      else (t_relations t, touch now (t\<lparr>t_relations := []\<rparr>)))"

definition blocked_by :: "task \<Rightarrow> task_id list" where
  "blocked_by t = map rel_other (filter (\<lambda>r. rel_kind r = BlockedBy) (t_relations t))"

definition is_blocked :: "task \<Rightarrow> bool" where
  "is_blocked t = list_ex (\<lambda>r. rel_kind r = BlockedBy) (t_relations t)"

section \<open>Metadata setters\<close>

definition set_priority :: "timestamp \<Rightarrow> priority \<Rightarrow> task \<Rightarrow> task" where
  "set_priority now p t = (if t_priority t \<noteq> p then touch now (t\<lparr>t_priority := p\<rparr>) else t)"

definition set_issue_type :: "timestamp \<Rightarrow> issue_type option \<Rightarrow> task \<Rightarrow> task" where
  "set_issue_type now it t =
     (if t_issue_type t \<noteq> it
      then touch now (t\<lparr>t_issue_type := it, t_issue_type_pending := True\<rparr>) else t)"

definition set_issue_type_default :: "timestamp \<Rightarrow> issue_type \<Rightarrow> task \<Rightarrow> task" where
  "set_issue_type_default now it t =
     (if t_issue_type t \<noteq> Some it then touch now (t\<lparr>t_issue_type := Some it\<rparr>) else t)"

definition set_project_status_option_id :: "rstring option \<Rightarrow> task \<Rightarrow> bool \<times> task" where
  "set_project_status_option_id opt t =
     (if t_project_status_option_id t = opt then (False, t)
      else (True, t\<lparr>t_project_status_option_id := opt\<rparr>))"

definition set_repo_id :: "timestamp \<Rightarrow> repo_id option \<Rightarrow> task \<Rightarrow> task dresult" where
  "set_repo_id now repo t =
     (if t_repo_id t = repo then Inr t
      else if t_remote t \<noteq> None \<and> t_filing_repo_id t = None then Inl (Validation
        (lit ''cannot reassign the repo of a synced task unless a filing repo is recorded''))
      else Inr (touch now (t\<lparr>t_repo_id := repo\<rparr>)))"

definition set_filing_repo_id :: "timestamp \<Rightarrow> repo_id option \<Rightarrow> task \<Rightarrow> task dresult" where
  "set_filing_repo_id now filing t =
     (if t_filing_repo_id t = filing then Inr t
      else if t_filing_repo_id t \<noteq> None then Inl (Validation
        (lit ''cannot change or clear the filing repo of a task once it has been recorded''))
      else Inr (touch now (t\<lparr>t_filing_repo_id := filing\<rparr>)))"

definition force_set_filing_repo_id :: "timestamp \<Rightarrow> repo_id option \<Rightarrow> task \<Rightarrow> task" where
  "force_set_filing_repo_id now filing t =
     (if t_filing_repo_id t = filing then t
      else touch now (t\<lparr>t_filing_repo_id := filing\<rparr>))"

definition set_body :: "timestamp \<Rightarrow> rstring \<Rightarrow> task \<Rightarrow> task" where
  "set_body now body t = reconcile_dirty_against_baseline (touch now (t\<lparr>t_body := body\<rparr>))"

definition set_title :: "timestamp \<Rightarrow> rstring \<Rightarrow> task \<Rightarrow> task dresult" where
  "set_title now title t =
     (if trim title = [] then Inl (Validation (lit ''task title is empty''))
      else Inr (reconcile_dirty_against_baseline (touch now (t\<lparr>t_title := title\<rparr>))))"

definition set_assignees :: "timestamp \<Rightarrow> rstring list \<Rightarrow> task \<Rightarrow> task" where
  "set_assignees now assignees t =
     reconcile_dirty_against_baseline (touch now (t\<lparr>t_assignees := assignees\<rparr>))"

definition is_remote_backed :: "task \<Rightarrow> bool" where
  "is_remote_backed t \<longleftrightarrow> t_remote t \<noteq> None"

definition is_mirror :: "task \<Rightarrow> bool" where
  "is_mirror t \<longleftrightarrow> t_sync t \<noteq> LocalOnly"

definition is_issue_backed :: "task \<Rightarrow> bool" where
  "is_issue_backed t \<longleftrightarrow> t_remote t \<noteq> None"

section \<open>The method calls as one operation type\<close>

text \<open>
  Every public mutating method, so that a history of the aggregate is a list of operations;
  the ones that read the clock twice carry the capture time.
\<close>

datatype task_op =
    OpStage
  | OpPromote remote_ref timestamp
  | OpConfirm snapshot_source timestamp
  | OpConfirmFields snapshot_source mirror_patch
  | OpAdopt snapshot_source timestamp
  | OpMarkDirtyLocal
  | OpMarkDirtyRemote
  | OpMarkConflicted
  | OpLink repo_id remote_ref bool
  | OpSetBaseline task_snapshot
  | OpStart
  | OpComplete
  | OpArchive
  | OpReopen
  | OpAddRelation relation_kind task_id
  | OpRemoveRelation relation_kind task_id
  | OpClearRelations
  | OpSetPriority priority
  | OpSetIssueType "issue_type option"
  | OpSetIssueTypeDefault issue_type
  | OpSetProjectStatus "rstring option"
  | OpSetRepo "repo_id option"
  | OpSetFiling "repo_id option"
  | OpForceFiling "repo_id option"
  | OpSetBody rstring
  | OpSetTitle rstring
  | OpSetAssignees "rstring list"

fun apply_task_op :: "task_op \<Rightarrow> timestamp \<Rightarrow> task \<Rightarrow> task dresult" where
  "apply_task_op OpStage now t = stage_for_sync now t"
| "apply_task_op (OpPromote r cap) now t = promote_to_remote now cap r t"
| "apply_task_op (OpConfirm src cap) now t = confirm_synced now cap src t"
| "apply_task_op (OpConfirmFields src p) now t = confirm_synced_fields now src p t"
| "apply_task_op (OpAdopt src cap) now t = adopt_aligned_state now cap src t"
| "apply_task_op OpMarkDirtyLocal now t = mark_dirty_local now t"
| "apply_task_op OpMarkDirtyRemote now t = mark_dirty_remote now t"
| "apply_task_op OpMarkConflicted now t = mark_conflicted now t"
| "apply_task_op (OpLink repo r force) now t = link_to_remote now repo r force t"
| "apply_task_op (OpSetBaseline b) now t = Inr (set_synced_baseline b t)"
| "apply_task_op OpStart now t = start t"
| "apply_task_op OpComplete now t = complete now t"
| "apply_task_op OpArchive now t = archive now t"
| "apply_task_op OpReopen now t = reopen now t"
| "apply_task_op (OpAddRelation k other) now t = Inr (add_relation now k other t)"
| "apply_task_op (OpRemoveRelation k other) now t = Inr (snd (remove_relation now k other t))"
| "apply_task_op OpClearRelations now t = Inr (snd (clear_relations now t))"
| "apply_task_op (OpSetPriority p) now t = Inr (set_priority now p t)"
| "apply_task_op (OpSetIssueType it) now t = Inr (set_issue_type now it t)"
| "apply_task_op (OpSetIssueTypeDefault it) now t = Inr (set_issue_type_default now it t)"
| "apply_task_op (OpSetProjectStatus opt) now t = Inr (snd (set_project_status_option_id opt t))"
| "apply_task_op (OpSetRepo r) now t = set_repo_id now r t"
| "apply_task_op (OpSetFiling r) now t = set_filing_repo_id now r t"
| "apply_task_op (OpForceFiling r) now t = Inr (force_set_filing_repo_id now r t)"
| "apply_task_op (OpSetBody b) now t = Inr (set_body now b t)"
| "apply_task_op (OpSetTitle x) now t = set_title now x t"
| "apply_task_op (OpSetAssignees xs) now t = Inr (set_assignees now xs t)"

lemmas task_sync_defs = stage_for_sync_def promote_to_remote_def confirm_synced_def
  confirm_synced_fields_def adopt_aligned_state_def mark_dirty_local_def mark_dirty_remote_def
  mark_conflicted_def link_to_remote_def set_synced_baseline_def

lemmas task_edit_defs = start_def complete_def archive_def reopen_def set_lifecycle_def
  add_relation_def remove_relation_def clear_relations_def set_priority_def set_issue_type_def
  set_issue_type_default_def set_project_status_option_id_def set_repo_id_def
  set_filing_repo_id_def force_set_filing_repo_id_def set_body_def set_title_def
  set_assignees_def

lemmas task_op_defs = task_sync_defs task_edit_defs touch_def Let_def

section \<open>Facts on dirty detection\<close>

lemma differs_from_iff:
  "differs_from t b \<longleftrightarrow>
     t_title t \<noteq> s_title b \<or> t_body t \<noteq> s_body b \<or> t_lifecycle t \<noteq> s_lifecycle b \<or>
     \<not> assignees_equal (t_assignees t) (s_assignees b)"
  by (auto simp: differs_from_def mirrored_fields_def)

lemma differs_from_ex: "differs_from t b \<longleftrightarrow> (\<exists>f. differs f t b)"
proof
  show "differs_from t b \<Longrightarrow> \<exists>f. differs f t b"
    by (auto simp: differs_from_def list_ex_iff)
next
  assume "\<exists>f. differs f t b"
  then obtain f where "differs f t b" by blast
  then show "differs_from t b" by (cases f) (auto simp: differs_from_iff)
qed

lemma assignees_equal_refl [simp]: "assignees_equal a a"
  by (simp add: assignees_equal_def)

lemma assignees_equal_sym: "assignees_equal a b \<longleftrightarrow> assignees_equal b a"
  by (auto simp: assignees_equal_def)

lemma assignees_equal_trans:
  "assignees_equal a b \<Longrightarrow> assignees_equal b c \<Longrightarrow> assignees_equal a c"
  by (auto simp: assignees_equal_def split: if_splits)

lemma differs_from_snapshot_view [simp]: "\<not> differs_from t (snapshot_view cap t src)"
  by (simp add: differs_from_iff snapshot_view_def)

lemma differs_from_cong:
  assumes "t_title t = t_title u" "t_body t = t_body u" "t_lifecycle t = t_lifecycle u"
    "t_assignees t = t_assignees u"
  shows "differs_from t b = differs_from u b"
  using assms by (simp add: differs_from_iff)

lemma differs_from_updates [simp]:
  "differs_from (t\<lparr>t_sync := s\<rparr>) b = differs_from t b"
  "differs_from (t\<lparr>t_updated_at := now\<rparr>) b = differs_from t b"
  "differs_from (t\<lparr>t_synced_baseline := bl\<rparr>) b = differs_from t b"
  "differs_from (t\<lparr>t_remote := r\<rparr>) b = differs_from t b"
  "differs_from (t\<lparr>t_relations := rs\<rparr>) b = differs_from t b"
  "differs_from (t\<lparr>t_repo_id := rp\<rparr>) b = differs_from t b"
  "differs_from (t\<lparr>t_filing_repo_id := fr\<rparr>) b = differs_from t b"
  "differs_from (t\<lparr>t_priority := pr\<rparr>) b = differs_from t b"
  "differs_from (t\<lparr>t_issue_type := it\<rparr>) b = differs_from t b"
  "differs_from (t\<lparr>t_issue_type_pending := ip\<rparr>) b = differs_from t b"
  "differs_from (t\<lparr>t_project_status_option_id := po\<rparr>) b = differs_from t b"
  by (simp_all add: differs_from_iff)

text \<open>The fields reconciliation leaves alone.\<close>

lemma reconcile_fields [simp]:
  "t_id (reconcile_dirty_against_baseline t) = t_id t"
  "t_created_at (reconcile_dirty_against_baseline t) = t_created_at t"
  "t_updated_at (reconcile_dirty_against_baseline t) = t_updated_at t"
  "t_title (reconcile_dirty_against_baseline t) = t_title t"
  "t_body (reconcile_dirty_against_baseline t) = t_body t"
  "t_lifecycle (reconcile_dirty_against_baseline t) = t_lifecycle t"
  "t_assignees (reconcile_dirty_against_baseline t) = t_assignees t"
  "t_synced_baseline (reconcile_dirty_against_baseline t) = t_synced_baseline t"
  "t_relations (reconcile_dirty_against_baseline t) = t_relations t"
  "t_remote (reconcile_dirty_against_baseline t) = t_remote t"
  "t_repo_id (reconcile_dirty_against_baseline t) = t_repo_id t"
  "t_filing_repo_id (reconcile_dirty_against_baseline t) = t_filing_repo_id t"
  by (simp_all add: reconcile_dirty_against_baseline_def split: option.splits)

lemma t_sync_reconcile:
  "t_sync (reconcile_dirty_against_baseline t) =
     (case t_synced_baseline t of None \<Rightarrow> t_sync t
      | Some b \<Rightarrow> reconcile_verdict (t_sync t) (differs_from t b))"
  by (simp add: reconcile_dirty_against_baseline_def split: option.splits)

lemma differs_from_reconcile [simp]:
  "differs_from (reconcile_dirty_against_baseline t) b = differs_from t b"
  by (simp add: differs_from_iff)

lemma reconcile_verdict_cases:
  "reconcile_verdict s d =
     (if s = Synced \<and> d then DirtyLocal
      else if s = DirtyLocal \<and> \<not> d then Synced
      else if s = DirtyRemote \<and> d then Conflict else s)"
  by (cases s; cases d) auto

section \<open>The invariant of the aggregate\<close>

text \<open>
  A task that claims alignment with its remote (\<open>Synced\<close>, \<open>DirtyLocal\<close>, \<open>DirtyRemote\<close>) has a
  baseline to be aligned with; while \<open>Synced\<close> or \<open>DirtyRemote\<close> its mirrored content equals
  that baseline; its title is not blank and no relation edge is stored twice.
\<close>

definition task_wf :: "task \<Rightarrow> bool" where
  "task_wf t \<longleftrightarrow>
     (case t_synced_baseline t of
        None \<Rightarrow> t_sync t \<in> {LocalOnly, Staged, Conflict}
      | Some b \<Rightarrow> t_sync t \<in> {Synced, DirtyRemote} \<longrightarrow> \<not> differs_from t b) \<and>
     trim (t_title t) \<noteq> [] \<and>
     distinct (t_relations t)"

lemma task_wf_reconcile:
  assumes "t_synced_baseline t = None \<longrightarrow> t_sync t \<in> {LocalOnly, Staged, Conflict}"
    "trim (t_title t) \<noteq> []" "distinct (t_relations t)"
  shows "task_wf (reconcile_dirty_against_baseline t)"
  using assms
  by (auto simp: task_wf_def t_sync_reconcile reconcile_verdict_cases split: option.splits)

lemma task_wf_new_draft: "new_draft i now ws repo title = Inr t \<Longrightarrow> task_wf t"
  by (auto simp: new_draft_def task_wf_def split: if_splits)

lemma task_wf_import_mirror:
  "import_mirror i now cap ws repo r title body as closed = Inr t \<Longrightarrow> task_wf t"
  by (auto simp: import_mirror_def task_wf_def Let_def differs_from_iff snapshot_view_def
      split: if_splits)

lemma distinct_add_relation:
  "distinct (t_relations t) \<Longrightarrow> distinct (t_relations (add_relation now k other t))"
  by (auto simp: add_relation_def has_relation_def list_ex_iff touch_def)

lemma task_wf_title: "task_wf t \<Longrightarrow> trim (t_title t) \<noteq> []"
  by (simp add: task_wf_def)

lemma task_wf_distinct: "task_wf t \<Longrightarrow> distinct (t_relations t)"
  by (simp add: task_wf_def)

lemma task_wf_unbased:
  "task_wf t \<Longrightarrow> t_synced_baseline t = None \<longrightarrow> t_sync t \<in> {LocalOnly, Staged, Conflict}"
  by (auto simp: task_wf_def)

text \<open>A step that leaves content and baseline alone may only move the sync axis as listed.\<close>

lemma task_wf_frame:
  assumes "task_wf t" "t_synced_baseline t' = t_synced_baseline t" "t_title t' = t_title t"
    "t_body t' = t_body t" "t_lifecycle t' = t_lifecycle t" "t_assignees t' = t_assignees t"
    "distinct (t_relations t')"
    "t_sync t' \<in> {t_sync t, Staged, Conflict} \<or>
       t_sync t = Synced \<and> t_sync t' \<in> {DirtyLocal, DirtyRemote}"
  shows "task_wf t'"
  using assms differs_from_cong [of t' t]
  by (auto simp: task_wf_def split: option.splits)

text \<open>Every method keeps the invariant.  First the ones that leave content and baseline alone.\<close>

lemma task_wf_sync_steps:
  assumes wf: "task_wf t"
  shows "stage_for_sync now t = Inr t' \<Longrightarrow> task_wf t'"
    "mark_dirty_local now t = Inr t' \<Longrightarrow> task_wf t'"
    "mark_dirty_remote now t = Inr t' \<Longrightarrow> task_wf t'"
    "mark_conflicted now t = Inr t' \<Longrightarrow> task_wf t'"
    "link_to_remote now repo r force t = Inr t' \<Longrightarrow> task_wf t'"
    "start t = Inr t' \<Longrightarrow> task_wf t'"
  using wf task_wf_distinct [OF wf]
  by (auto simp: stage_for_sync_def mark_dirty_local_def mark_dirty_remote_def
      mark_conflicted_def link_to_remote_def start_def touch_def Let_def split: if_splits
      intro!: task_wf_frame [OF wf])

lemma task_wf_metadata_steps:
  assumes wf: "task_wf t"
  shows "set_repo_id now repo t = Inr t' \<Longrightarrow> task_wf t'"
    "set_filing_repo_id now filing t = Inr t' \<Longrightarrow> task_wf t'"
    "task_wf (force_set_filing_repo_id now filing t)"
    "task_wf (set_priority now p t)"
    "task_wf (set_issue_type now it t)"
    "task_wf (set_issue_type_default now it' t)"
    "task_wf (snd (set_project_status_option_id opt t))"
  using wf task_wf_distinct [OF wf]
  by (auto simp: set_repo_id_def set_filing_repo_id_def force_set_filing_repo_id_def
      set_priority_def set_issue_type_def set_issue_type_default_def
      set_project_status_option_id_def touch_def split: if_splits
      intro!: task_wf_frame [OF wf])

lemma task_wf_relation_steps:
  assumes wf: "task_wf t"
  shows "task_wf (add_relation now k other t)"
    "task_wf (snd (remove_relation now k other t))"
    "task_wf (snd (clear_relations now t))"
proof -
  show "task_wf (add_relation now k other t)"
    by (rule task_wf_frame [OF wf])
      (use distinct_add_relation [OF task_wf_distinct [OF wf]] in
        \<open>auto simp: add_relation_def touch_def\<close>)
  show "task_wf (snd (remove_relation now k other t))" "task_wf (snd (clear_relations now t))"
    using task_wf_distinct [OF wf]
    by (auto simp: remove_relation_def clear_relations_def touch_def Let_def
        intro!: task_wf_frame [OF wf])
qed

text \<open>The ones that take a fresh baseline: the snapshot they take is of the very task.\<close>

lemma task_wf_rebaseline:
  assumes "trim (t_title t) \<noteq> []" "distinct (t_relations t)"
  shows "task_wf (t\<lparr>t_synced_baseline := Some (snapshot_view cap t src)\<rparr>)"
  using assms by (simp add: task_wf_def)

lemma task_wf_baseline_steps:
  assumes wf: "task_wf t"
  shows "promote_to_remote now cap r t = Inr t' \<Longrightarrow> task_wf t'"
    "confirm_synced now cap src t = Inr t' \<Longrightarrow> task_wf t'"
    "adopt_aligned_state now cap src t = Inr t' \<Longrightarrow> task_wf t'"
  using task_wf_title [OF wf] task_wf_distinct [OF wf]
  by (auto simp: promote_to_remote_def confirm_synced_def adopt_aligned_state_def touch_def Let_def
      split: if_splits intro!: task_wf_rebaseline)

text \<open>The ones that re-derive the verdict from the baseline.\<close>

lemma task_wf_reconciled_steps:
  assumes wf: "task_wf t"
  shows "confirm_synced_fields now src' p t = Inr t' \<Longrightarrow> task_wf t'"
    "task_wf (set_synced_baseline b t)"
    "task_wf (set_body now body t)"
    "set_title now title t = Inr t' \<Longrightarrow> task_wf t'"
    "task_wf (set_assignees now as t)"
    "task_wf (set_lifecycle now l t)"
  using wf task_wf_title [OF wf] task_wf_distinct [OF wf] task_wf_unbased [OF wf]
  by (auto simp: confirm_synced_fields_def set_synced_baseline_def set_body_def set_title_def
      set_assignees_def set_lifecycle_def touch_def split: if_splits option.splits
      intro!: task_wf_reconcile)

lemmas task_wf_steps = task_wf_sync_steps task_wf_metadata_steps task_wf_relation_steps
  task_wf_baseline_steps task_wf_reconciled_steps

lemma apply_task_op_wf:
  assumes wf: "task_wf t" and op: "apply_task_op op now t = Inr t'"
  shows "task_wf t'"
  using op
  by (cases op) (auto simp: complete_def archive_def reopen_def intro: task_wf_steps [OF wf])

end
