(* ===== verification/TaskSync.thy ===== *)
theory TaskSync
  imports TaskDomain
begin

text \<open>
  What the \<open>Task\<close> aggregate promises to its callers: it is an aggregate in the sense of
  \<open>aggregate.rs\<close>, its sync axis moves only along the edges of an abstract state machine, a
  conflict is left only by an explicit resolution, dirty detection and the outbound patch
  agree, and confirming a transmitted patch re-bases exactly the transmitted fields.
\<close>

section \<open>The aggregate contract\<close>

definition task_frame :: "timestamp \<Rightarrow> task \<Rightarrow> task \<Rightarrow> bool" where
  "task_frame now t t' \<longleftrightarrow> t_id t' = t_id t \<and> t_created_at t' = t_created_at t \<and>
     t_updated_at t' \<in> {now, t_updated_at t}"

lemma task_frame_sync_steps:
  "stage_for_sync now t = Inr t' \<Longrightarrow> task_frame now t t'"
  "promote_to_remote now cap r t = Inr t' \<Longrightarrow> task_frame now t t'"
  "confirm_synced now cap src t = Inr t' \<Longrightarrow> task_frame now t t'"
  "confirm_synced_fields now src p t = Inr t' \<Longrightarrow> task_frame now t t'"
  "adopt_aligned_state now cap src t = Inr t' \<Longrightarrow> task_frame now t t'"
  "mark_dirty_local now t = Inr t' \<Longrightarrow> task_frame now t t'"
  "mark_dirty_remote now t = Inr t' \<Longrightarrow> task_frame now t t'"
  "mark_conflicted now t = Inr t' \<Longrightarrow> task_frame now t t'"
  "link_to_remote now repo r force t = Inr t' \<Longrightarrow> task_frame now t t'"
  "task_frame now t (set_synced_baseline b t)"
  by (auto simp: task_frame_def task_sync_defs touch_def Let_def split: if_splits option.splits)

lemma task_frame_edit_steps:
  "start t = Inr t' \<Longrightarrow> task_frame now t t'"
  "task_frame now t (set_lifecycle now l t)"
  "task_frame now t (add_relation now k other t)"
  "task_frame now t (snd (remove_relation now k other t))"
  "task_frame now t (snd (clear_relations now t))"
  "task_frame now t (set_priority now pr t)"
  "task_frame now t (set_issue_type now it t)"
  "task_frame now t (set_issue_type_default now it' t)"
  "task_frame now t (snd (set_project_status_option_id opt t))"
  "set_repo_id now repo t = Inr t' \<Longrightarrow> task_frame now t t'"
  "set_filing_repo_id now repo t = Inr t' \<Longrightarrow> task_frame now t t'"
  "task_frame now t (force_set_filing_repo_id now repo t)"
  "task_frame now t (set_body now body t)"
  "set_title now title t = Inr t' \<Longrightarrow> task_frame now t t'"
  "task_frame now t (set_assignees now as t)"
  by (auto simp: task_frame_def task_edit_defs touch_def Let_def split: if_splits)

lemma apply_task_op_frame: "apply_task_op op now t = Inr t' \<Longrightarrow> task_frame now t t'"
  by (cases op) (auto simp: complete_def archive_def reopen_def
      intro: task_frame_sync_steps task_frame_edit_steps)

interpretation task_agg: guarded_aggregate t_id t_created_at t_updated_at apply_task_op task_wf
  by unfold_locales (auto simp: task_frame_def dest: apply_task_op_frame intro: apply_task_op_wf)

text \<open>C28 Whatever sequence of methods is called on a task after it was drafted or imported,
  the task stays well formed: while it claims to be in step with its remote (\<open>Synced\<close>,
  \<open>DirtyRemote\<close>) it has a synced baseline and its mirrored content equals it, every state that
  needs a baseline has one, the title is never blank and no relation edge is stored twice.\<close>

theorem task_history_wf:
  assumes "new_draft i now ws repo title = Inr t \<or>
           import_mirror i now cap ws repo r title body as closed = Inr t"
  shows "task_wf (run_ops apply_task_op ops t)"
  using assms task_wf_new_draft task_wf_import_mirror by (blast intro: task_agg.run_inv)

theorem task_history_wf_witness:
  "task_wf (run_ops apply_task_op [(OpStage, 1), (OpSetBody (lit ''b''), 2)]
     (projr (new_draft 7 0 1 None (lit ''a''))))"
  by (rule task_history_wf [of 7 0 1 None "lit ''a''" _ 0 "remote_ref_new [] []" "[]" "[]" False])
    (simp add: new_draft_def trim_def trim_start_def is_whitespace_def)

text \<open>No method changes a task's identity or its creation time, and as long as the clock
  never goes back \<open>updated_at\<close> never does.\<close>

theorem task_identity_stable:
  "t_id (run_ops apply_task_op ops t) = t_id t \<and>
   t_created_at (run_ops apply_task_op ops t) = t_created_at t \<and>
   ((\<forall>x \<in> set ops. t_updated_at t \<le> snd x) \<longrightarrow>
     t_updated_at t \<le> t_updated_at (run_ops apply_task_op ops t))"
  using task_agg.run_identity task_agg.run_updated_at_ge by blast

theorem task_identity_stable_witness:
  "0 \<le> t_updated_at (run_ops apply_task_op [(OpSetBody (lit ''b''), 2)]
     (projr (new_draft 7 0 1 None (lit ''a''))))"
  using task_identity_stable [of "[(OpSetBody (lit ''b''), 2)]"
      "projr (new_draft 7 0 1 None (lit ''a''))"]
  by (simp add: new_draft_def trim_def trim_start_def is_whitespace_def)

section \<open>The sync axis as a state machine\<close>

text \<open>
  The abstract machine: what may happen to a task as seen from the remote side.  An operation
  of the aggregate either leaves the sync state or takes one of these edges.
\<close>

inductive sync_edge :: "sync_state \<Rightarrow> sync_state \<Rightarrow> bool" where
  staged: "s \<in> {LocalOnly, DirtyLocal} \<Longrightarrow> sync_edge s Staged"
| aligned: "s \<in> {Staged, DirtyLocal, DirtyRemote, Conflict} \<Longrightarrow> sync_edge s Synced"
| edited: "s \<in> {Synced, Staged, DirtyRemote, Conflict} \<Longrightarrow> sync_edge s DirtyLocal"
| remote_moved: "sync_edge Synced DirtyRemote"
| diverged: "s \<noteq> Conflict \<Longrightarrow> sync_edge s Conflict"

inductive_simps sync_edge_to: "sync_edge s LocalOnly" "sync_edge s Staged" "sync_edge s Synced"
  "sync_edge s DirtyLocal" "sync_edge s DirtyRemote" "sync_edge s Conflict"

lemma confirm_synced_fields_cases:
  assumes "confirm_synced_fields now src p t = Inr t'"
  obtains prior where "t_synced_baseline t = Some prior"
    "t_sync t \<in> {Staged, DirtyLocal, DirtyRemote, Conflict}"
    "t_sync t = Conflict \<longrightarrow> src = SrcPush \<and> mp_title p \<noteq> None \<and> mp_body p \<noteq> None \<and>
       mp_status p \<noteq> None \<and> mp_assignees p \<noteq> None"
    "t' = reconcile_dirty_against_baseline
       (t\<lparr>t_synced_baseline := Some (merge_patch src p prior), t_sync := Synced,
          t_updated_at := now\<rparr>)"
  using assms by (auto simp: confirm_synced_fields_def touch_def split: if_splits option.splits)

lemma t_sync_set_lifecycle:
  "t_sync (set_lifecycle now l t) = t_sync t \<or>
     (\<exists>d. t_sync (set_lifecycle now l t) = reconcile_verdict (t_sync t) d)"
  by (auto simp: set_lifecycle_def touch_def t_sync_reconcile split: option.splits)

text \<open>Operations that edit content follow the verdict table; the others are listed.\<close>

definition sync_moves :: "task \<Rightarrow> task \<Rightarrow> bool" where
  "sync_moves t t' \<longleftrightarrow> t_sync t' = t_sync t \<or> sync_edge (t_sync t) (t_sync t')"

lemma sync_moves_reconcile:
  "t_sync u = t_sync t \<Longrightarrow> sync_moves t (reconcile_dirty_against_baseline u)"
  by (auto simp: sync_moves_def t_sync_reconcile reconcile_verdict_cases sync_edge_to
      split: option.splits)

lemma sync_moves_refl [simp]: "sync_moves t t"
  by (simp add: sync_moves_def)

lemma sync_moves_sync_steps:
  "stage_for_sync now t = Inr t' \<Longrightarrow> sync_moves t t'"
  "promote_to_remote now cap r t = Inr t' \<Longrightarrow> sync_moves t t'"
  "confirm_synced now cap src t = Inr t' \<Longrightarrow> sync_moves t t'"
  "adopt_aligned_state now cap src t = Inr t' \<Longrightarrow> sync_moves t t'"
  "mark_dirty_local now t = Inr t' \<Longrightarrow> sync_moves t t'"
  "mark_dirty_remote now t = Inr t' \<Longrightarrow> sync_moves t t'"
  "mark_conflicted now t = Inr t' \<Longrightarrow> sync_moves t t'"
  "link_to_remote now repo r force t = Inr t' \<Longrightarrow> sync_moves t t'"
  by (auto simp: sync_moves_def sync_edge_to task_sync_defs touch_def Let_def split: if_splits)

lemma sync_moves_confirm_fields:
  "confirm_synced_fields now src p t = Inr t' \<Longrightarrow> sync_moves t t'"
  by (erule confirm_synced_fields_cases)
    (auto simp: sync_moves_def t_sync_reconcile reconcile_verdict_cases sync_edge_to)

lemma sync_moves_edit_steps:
  "sync_moves t (set_synced_baseline b t)"
  "sync_moves t (set_body now body t)"
  "set_title now title t = Inr t' \<Longrightarrow> sync_moves t t'"
  "sync_moves t (set_assignees now as t)"
  "sync_moves t (set_lifecycle now l t)"
  by (auto simp: set_synced_baseline_def set_body_def set_title_def set_assignees_def
      set_lifecycle_def touch_def split: if_splits intro: sync_moves_reconcile)

text \<open>The methods outside the sync machinery leave the axis, the content and the baseline.\<close>

definition same_mirror :: "task \<Rightarrow> task \<Rightarrow> bool" where
  "same_mirror t t' \<longleftrightarrow> t_sync t' = t_sync t \<and> t_synced_baseline t' = t_synced_baseline t \<and>
     diff_against_baseline t' = diff_against_baseline t"

lemma same_mirrorI:
  assumes "t_sync t' = t_sync t" "t_synced_baseline t' = t_synced_baseline t"
    "t_title t' = t_title t" "t_body t' = t_body t" "t_lifecycle t' = t_lifecycle t"
    "t_assignees t' = t_assignees t"
  shows "same_mirror t t'"
  using assms by (simp add: same_mirror_def diff_against_baseline_def split: option.splits)

lemma same_mirror_relation_steps:
  "start t = Inr t' \<Longrightarrow> same_mirror t t'"
  "same_mirror t (add_relation now k other t)"
  "same_mirror t (snd (remove_relation now k other t))"
  "same_mirror t (snd (clear_relations now t))"
  by (auto simp: start_def add_relation_def remove_relation_def clear_relations_def touch_def
      Let_def split: if_splits intro!: same_mirrorI)

lemma same_mirror_metadata_steps:
  "same_mirror t (set_priority now pr t)"
  "same_mirror t (set_issue_type now it t)"
  "same_mirror t (set_issue_type_default now it' t)"
  "same_mirror t (snd (set_project_status_option_id opt t))"
  "set_repo_id now repo t = Inr t' \<Longrightarrow> same_mirror t t'"
  "set_filing_repo_id now repo t = Inr t' \<Longrightarrow> same_mirror t t'"
  "same_mirror t (force_set_filing_repo_id now repo t)"
  by (auto simp: set_priority_def set_issue_type_def set_issue_type_default_def
      set_project_status_option_id_def set_repo_id_def set_filing_repo_id_def
      force_set_filing_repo_id_def touch_def split: if_splits intro!: same_mirrorI)

lemmas same_mirror_steps = same_mirror_relation_steps same_mirror_metadata_steps

lemma same_mirror_moves: "same_mirror t t' \<Longrightarrow> sync_moves t t'"
  by (simp add: same_mirror_def sync_moves_def)

lemma apply_task_op_moves: "apply_task_op op now t = Inr t' \<Longrightarrow> sync_moves t t'"
  by (cases op) (auto simp: complete_def archive_def reopen_def
      intro: sync_moves_sync_steps sync_moves_confirm_fields sync_moves_edit_steps
        same_mirror_moves same_mirror_steps)

lemma run_sync_path: "sync_edge\<^sup>*\<^sup>* (t_sync t) (t_sync (run_ops apply_task_op ops t))"
proof (induction ops arbitrary: t)
  case (Cons op_now ops)
  obtain op now where op: "op_now = (op, now)" by (cases op_now)
  show ?case
  proof (cases "apply_task_op op now t")
    case (Inl e)
    then show ?thesis using Cons.IH [of t] op by simp
  next
    case (Inr t')
    with apply_task_op_moves [OF Inr] Cons.IH [of t'] op show ?thesis
      by (auto simp: sync_moves_def intro: converse_rtranclp_into_rtranclp)
  qed
qed simp

lemma local_only_not_reentered: "sync_edge\<^sup>*\<^sup>* s s' \<Longrightarrow> s' = LocalOnly \<Longrightarrow> s = LocalOnly"
  by (induction rule: rtranclp_induct) (auto simp: sync_edge_to)

text \<open>C29 The aggregate refines the sync machine: every successful method call leaves the sync
  state or takes one edge of \<open>sync_edge\<close>, so every history is a path of the machine, and once a
  task has left \<open>LocalOnly\<close> no history brings it back.\<close>

theorem sync_machine_refinement:
  "(\<forall>op now t'. apply_task_op op now t = Inr t' \<longrightarrow>
      t_sync t' = t_sync t \<or> sync_edge (t_sync t) (t_sync t')) \<and>
   sync_edge\<^sup>*\<^sup>* (t_sync t) (t_sync (run_ops apply_task_op ops t)) \<and>
   (t_sync t \<noteq> LocalOnly \<longrightarrow> t_sync (run_ops apply_task_op ops t) \<noteq> LocalOnly)"
  using apply_task_op_moves [of _ _ t] run_sync_path [of t ops] local_only_not_reentered
  unfolding sync_moves_def by blast

theorem sync_machine_refinement_witness:
  "t_sync (run_ops apply_task_op [(OpSetBody (lit ''b''), 2), (OpMarkDirtyRemote, 3)]
     (projr (import_mirror 7 0 0 1 None (remote_ref_new [] []) (lit ''a'') [] [] False))) \<noteq> LocalOnly"
proof -
  let ?t = "projr (import_mirror 7 0 0 1 None (remote_ref_new [] []) (lit ''a'') [] [] False)"
  have "t_sync ?t \<noteq> LocalOnly"
    by (simp add: import_mirror_def Let_def trim_def trim_start_def is_whitespace_def)
  then show ?thesis
    using sync_machine_refinement [of ?t] by blast
qed

lemma conflict_kept_reconcile:
  "t_sync u = Conflict \<Longrightarrow> t_sync (reconcile_dirty_against_baseline u) = Conflict"
  by (simp add: t_sync_reconcile split: option.splits)

lemma conflict_kept_edits:
  assumes "t_sync t = Conflict"
  shows "t_sync (set_synced_baseline b t) = Conflict"
    "t_sync (set_body now body t) = Conflict"
    "set_title now title t = Inr t' \<Longrightarrow> t_sync t' = Conflict"
    "t_sync (set_assignees now as t) = Conflict"
    "t_sync (set_lifecycle now l t) = Conflict"
    "link_to_remote now repo r force t = Inr t' \<Longrightarrow> t_sync t' = Conflict"
  using assms
  by (auto simp: set_synced_baseline_def set_body_def set_title_def set_assignees_def
      set_lifecycle_def link_to_remote_def touch_def Let_def conflict_kept_reconcile
      split: if_splits)

lemma conflict_refused:
  assumes "t_sync t = Conflict"
  shows "stage_for_sync now t \<noteq> Inr t'" "promote_to_remote now cap r t \<noteq> Inr t'"
    "confirm_synced now cap src t \<noteq> Inr t'" "mark_dirty_local now t \<noteq> Inr t'"
    "mark_dirty_remote now t \<noteq> Inr t'" "mark_conflicted now t \<noteq> Inr t'"
  using assms by (simp_all add: task_sync_defs)

lemma same_mirror_conflict: "same_mirror t t' \<Longrightarrow> t_sync t = Conflict \<Longrightarrow> t_sync t' = Conflict"
  by (simp add: same_mirror_def)

lemmas conflict_kept_metadata = same_mirror_steps [THEN same_mirror_conflict]

lemma conflict_kept:
  assumes "t_sync t = Conflict" "apply_task_op op now t = Inr t'"
    "\<And>src cap. op \<noteq> OpAdopt src cap" "\<And>src p. op \<noteq> OpConfirmFields src p"
  shows "t_sync t' = Conflict"
  using assms
  by (cases op) (auto simp: complete_def archive_def reopen_def conflict_refused
      intro: conflict_kept_edits conflict_kept_metadata)

text \<open>A task in \<open>Conflict\<close> leaves that state only through an explicit resolution: adopting
  an aligned state from a push, a pull or a conflict resolution, or a local-wins push whose
  patch carries all four mirrored fields.  No edit, no plain confirmation and no link does.\<close>

theorem conflict_escape:
  assumes "t_sync t = Conflict" "apply_task_op op now t = Inr t'" "t_sync t' \<noteq> Conflict"
  shows "(\<exists>src cap. op = OpAdopt src cap \<and> src \<in> {SrcPush, SrcPull, SrcConflictResolve}) \<or>
         (\<exists>p. op = OpConfirmFields SrcPush p \<and> mp_title p \<noteq> None \<and> mp_body p \<noteq> None \<and>
            mp_status p \<noteq> None \<and> mp_assignees p \<noteq> None)"
proof (cases op)
  case (OpConfirmFields src p)
  with assms show ?thesis by (auto elim!: confirm_synced_fields_cases)
next
  case (OpAdopt src cap)
  with assms show ?thesis by (auto simp: adopt_aligned_state_def split: if_splits)
qed (use conflict_kept [OF assms(1,2)] assms(3) in auto)

text \<open>A mirrored task the witnesses start from.\<close>

definition sample_mirror :: task where
  "sample_mirror = projr (import_mirror 7 0 0 1 (Some 4) (remote_ref_new (lit ''github'') (lit ''o/r#1''))
     (lit ''a'') (lit ''b'') [lit ''x'', lit ''y''] False)"

lemmas sample_simps = sample_mirror_def import_mirror_def Let_def trim_def trim_start_def
  is_whitespace_def snapshot_view_def

theorem conflict_escape_witness:
  "\<exists>src cap. OpAdopt SrcPull 6 = OpAdopt src cap \<and> src \<in> {SrcPush, SrcPull, SrcConflictResolve}"
proof -
  let ?t = "sample_mirror\<lparr>t_sync := Conflict\<rparr>"
  have "apply_task_op (OpAdopt SrcPull 6) 5 ?t = Inr (projr (adopt_aligned_state 5 6 SrcPull ?t))"
    "t_sync (projr (adopt_aligned_state 5 6 SrcPull ?t)) = Synced"
    by (simp_all add: sample_simps adopt_aligned_state_def touch_def)
  then show ?thesis using conflict_escape [of ?t "OpAdopt SrcPull 6" 5] by simp
qed

section \<open>Dirty detection and the outbound patch\<close>

lemma patch_empty_iff:
  "patch_is_empty (diff_against_baseline t) \<longleftrightarrow>
     (\<forall>b. t_synced_baseline t = Some b \<longrightarrow> \<not> differs_from t b)"
  by (auto simp: patch_is_empty_def diff_against_baseline_def default_patch_def differs_from_iff
      split: option.splits)

lemma reconcile_synced_iff_patch_empty:
  assumes "t_synced_baseline t = Some b" "t_sync t \<in> {Synced, DirtyLocal}"
  shows "t_sync (reconcile_dirty_against_baseline t) =
    (if patch_is_empty (diff_against_baseline (reconcile_dirty_against_baseline t))
     then Synced else DirtyLocal)"
  using assms by (auto simp: patch_empty_iff t_sync_reconcile reconcile_verdict_cases)

text \<open>The calls that rewrite a mirrored field of the task; a lifecycle call that names the
  state the task is already in does nothing.\<close>

fun content_edit :: "task_op \<Rightarrow> task \<Rightarrow> bool" where
  "content_edit (OpSetBody _) t = True"
| "content_edit (OpSetTitle _) t = True"
| "content_edit (OpSetAssignees _) t = True"
| "content_edit OpComplete t = (t_lifecycle t \<noteq> Completed)"
| "content_edit OpArchive t = (t_lifecycle t \<noteq> NotPlanned)"
| "content_edit OpReopen t = (t_lifecycle t \<noteq> Reopened)"
| "content_edit _ t = False"

definition reconciled_from :: "task \<Rightarrow> task \<Rightarrow> bool" where
  "reconciled_from t t' \<longleftrightarrow> (\<exists>u. t' = reconcile_dirty_against_baseline u \<and>
     t_sync u = t_sync t \<and> t_synced_baseline u = t_synced_baseline t)"

lemma reconciled_fromI:
  "t_sync u = t_sync t \<Longrightarrow> t_synced_baseline u = t_synced_baseline t \<Longrightarrow>
     reconciled_from t (reconcile_dirty_against_baseline u)"
  by (auto simp: reconciled_from_def)

lemma content_edit_reconciles:
  "content_edit op t \<Longrightarrow> apply_task_op op now t = Inr t' \<Longrightarrow> reconciled_from t t'"
  by (cases op)
    (auto simp: set_body_def set_title_def set_assignees_def complete_def archive_def reopen_def
      set_lifecycle_def touch_def split: if_splits intro!: reconciled_fromI)

text \<open>Dirty detection and the outbound patch can never disagree: after any edit of a mirrored
  field of a task that was in step or locally dirty, the task is \<open>Synced\<close> exactly when the patch a
  push would send is empty, and \<open>DirtyLocal\<close> otherwise; reverting an edit makes it clean again.
  A task that was \<open>DirtyRemote\<close> becomes \<open>Conflict\<close> exactly when the patch is not empty, and
  \<open>Staged\<close> and \<open>Conflict\<close> stay.\<close>

theorem edit_verdict_matches_patch:
  assumes "content_edit op t" "apply_task_op op now t = Inr t'" "t_synced_baseline t = Some b"
  shows "t_sync t' =
    (if t_sync t \<in> {Synced, DirtyLocal}
     then (if patch_is_empty (diff_against_baseline t') then Synced else DirtyLocal)
     else if t_sync t = DirtyRemote
     then (if patch_is_empty (diff_against_baseline t') then DirtyRemote else Conflict)
     else t_sync t)"
  using content_edit_reconciles [OF assms(1,2)] assms(3)
  by (auto simp: reconciled_from_def patch_empty_iff t_sync_reconcile reconcile_verdict_cases)

theorem edit_verdict_matches_patch_witness:
  "t_sync (set_body 5 (lit ''new'') sample_mirror) = DirtyLocal"
proof -
  obtain b where b: "t_synced_baseline sample_mirror = Some b" "s_body b = lit ''b''"
    "t_sync sample_mirror = Synced"
    by (simp add: sample_simps)
  then have "\<not> patch_is_empty (diff_against_baseline (set_body 5 (lit ''new'') sample_mirror))"
    by (auto simp: patch_empty_iff set_body_def touch_def differs_from_iff)
  with b edit_verdict_matches_patch [of "OpSetBody (lit ''new'')" sample_mirror 5 _ b]
  show ?thesis by simp
qed

text \<open>Metadata never reaches the mirror: starting work, relations, priority, issue type, the
  cached board status and both repository bindings leave the sync state, the synced baseline and
  the patch a push would send untouched.\<close>

theorem metadata_keeps_mirror:
  assumes "apply_task_op op now t = Inr t'"
    "op \<in> {OpStart, OpClearRelations} \<union> range OpSetPriority \<union> range OpSetIssueType \<union>
       range OpSetIssueTypeDefault \<union> range OpSetProjectStatus \<union> range OpSetRepo \<union>
       range OpSetFiling \<union> range OpForceFiling \<union> {o'. \<exists>k x. o' = OpAddRelation k x} \<union>
       {o'. \<exists>k x. o' = OpRemoveRelation k x}"
  shows "t_sync t' = t_sync t \<and> t_synced_baseline t' = t_synced_baseline t \<and>
    diff_against_baseline t' = diff_against_baseline t"
proof -
  have "same_mirror t t'" using assms by (auto intro: same_mirror_steps)
  then show ?thesis by (simp add: same_mirror_def)
qed

theorem metadata_keeps_mirror_witness:
  "t_sync (set_priority 5 P0 sample_mirror) = t_sync sample_mirror"
  using metadata_keeps_mirror [of "OpSetPriority P0" 5 sample_mirror] by simp

section \<open>Confirming a push\<close>

lemma differs_from_merge_patch:
  "differs_from t (merge_patch src p prior) \<longleftrightarrow>
     (case mp_title p of None \<Rightarrow> differs MTitle t prior | Some v \<Rightarrow> v \<noteq> t_title t) \<or>
     (case mp_body p of None \<Rightarrow> differs MBody t prior | Some v \<Rightarrow> v \<noteq> t_body t) \<or>
     (case mp_status p of None \<Rightarrow> differs MStatus t prior | Some v \<Rightarrow> v \<noteq> t_lifecycle t) \<or>
     (case mp_assignees p of None \<Rightarrow> differs MAssignees t prior
      | Some v \<Rightarrow> \<not> assignees_equal v (t_assignees t))"
  by (auto simp: differs_from_iff merge_patch_def assignees_equal_sym split: option.splits)

lemma merge_diff_patch_clean:
  "t_synced_baseline t = Some prior \<Longrightarrow>
     \<not> differs_from t (merge_patch src (diff_against_baseline t) prior)"
  by (auto simp: differs_from_merge_patch diff_against_baseline_def)

lemma merge_full_patch_clean: "\<not> differs_from t (merge_patch src (full_mirror_patch t) prior)"
  by (auto simp: differs_from_merge_patch full_mirror_patch_def)

text \<open>A push converges: confirming the patch that was computed from the task itself succeeds
  from every pushable state and leaves the task \<open>Synced\<close> with nothing left to send; from
  \<open>Conflict\<close> the full patch (local wins) does the same.\<close>

theorem confirm_own_patch_converges:
  assumes "t_synced_baseline t = Some b"
    "t_sync t \<in> {Staged, DirtyLocal, DirtyRemote} \<and> p = diff_against_baseline t \<or>
     t_sync t \<in> {Staged, DirtyLocal, DirtyRemote, Conflict} \<and> p = full_mirror_patch t"
  shows "\<exists>t'. confirm_synced_fields now SrcPush p t = Inr t' \<and> t_sync t' = Synced \<and>
    patch_is_empty (diff_against_baseline t') \<and> t_title t' = t_title t \<and> t_body t' = t_body t \<and>
    t_lifecycle t' = t_lifecycle t \<and> t_assignees t' = t_assignees t"
proof -
  have clean: "\<not> differs_from t (merge_patch SrcPush p b)"
    using assms merge_diff_patch_clean [OF assms(1)] merge_full_patch_clean by auto
  have full: "t_sync t = Conflict \<Longrightarrow> p = full_mirror_patch t" using assms by auto
  show ?thesis
    using assms clean full
    by (auto simp: confirm_synced_fields_def full_mirror_patch_def touch_def t_sync_reconcile
        patch_empty_iff)
qed

theorem confirm_own_patch_converges_witness:
  "\<exists>t'. confirm_synced_fields 9 SrcPush
     (full_mirror_patch (sample_mirror\<lparr>t_sync := Conflict, t_body := lit ''mine''\<rparr>))
     (sample_mirror\<lparr>t_sync := Conflict, t_body := lit ''mine''\<rparr>) = Inr t' \<and> t_sync t' = Synced"
  using confirm_own_patch_converges [of "sample_mirror\<lparr>t_sync := Conflict, t_body := lit ''mine''\<rparr>"
      "the (t_synced_baseline sample_mirror)" _ 9]
  by (fastforce simp: sample_simps)

text \<open>Confirming a patch re-bases exactly the transmitted fields: a mirrored field is dirty
  afterwards if it was not transmitted and was dirty before, or was transmitted with another
  value than the task has now (an edit made while the push was in flight); the task is
  \<open>DirtyLocal\<close> when any field is, and \<open>Synced\<close> otherwise.\<close>

theorem confirm_fields_rebases_transmitted:
  assumes "confirm_synced_fields now src p t = Inr t'" "t_synced_baseline t = Some b"
  shows "t_sync t' =
    (if (case mp_title p of None \<Rightarrow> differs MTitle t b | Some v \<Rightarrow> v \<noteq> t_title t) \<or>
        (case mp_body p of None \<Rightarrow> differs MBody t b | Some v \<Rightarrow> v \<noteq> t_body t) \<or>
        (case mp_status p of None \<Rightarrow> differs MStatus t b | Some v \<Rightarrow> v \<noteq> t_lifecycle t) \<or>
        (case mp_assignees p of None \<Rightarrow> differs MAssignees t b
         | Some v \<Rightarrow> \<not> assignees_equal v (t_assignees t))
     then DirtyLocal else Synced) \<and>
    patch_is_empty (diff_against_baseline t') = (t_sync t' = Synced)"
proof -
  from assms have t': "t' = reconcile_dirty_against_baseline
    (t\<lparr>t_synced_baseline := Some (merge_patch src p b), t_sync := Synced, t_updated_at := now\<rparr>)"
    by (auto elim: confirm_synced_fields_cases)
  then have "t_sync t' = (if differs_from t (merge_patch src p b) then DirtyLocal else Synced)"
    "patch_is_empty (diff_against_baseline t') \<longleftrightarrow> \<not> differs_from t (merge_patch src p b)"
    by (simp_all add: t_sync_reconcile reconcile_verdict_cases patch_empty_iff)
  then show ?thesis unfolding differs_from_merge_patch by simp
qed

theorem confirm_fields_rebases_transmitted_witness:
  "t_sync (projr (confirm_synced_fields 9 SrcPush (default_patch\<lparr>mp_body := Some (lit ''sent'')\<rparr>)
     (sample_mirror\<lparr>t_sync := DirtyLocal, t_body := lit ''newer''\<rparr>))) = DirtyLocal"
proof -
  let ?t = "sample_mirror\<lparr>t_sync := DirtyLocal, t_body := lit ''newer''\<rparr>"
  let ?p = "default_patch\<lparr>mp_body := Some (lit ''sent'')\<rparr>"
  have "confirm_synced_fields 9 SrcPush ?p ?t = Inr (projr (confirm_synced_fields 9 SrcPush ?p ?t))"
    "t_synced_baseline ?t = Some (the (t_synced_baseline sample_mirror))"
    by (simp_all add: sample_simps confirm_synced_fields_def)
  from confirm_fields_rebases_transmitted [OF this] show ?thesis
    by (simp add: sample_simps default_patch_def)
qed

section \<open>The filing repository\<close>

lemma filing_kept_steps:
  assumes "t_filing_repo_id t = Some r" "apply_task_op op now t = Inr t'" "\<And>x. op \<noteq> OpForceFiling x"
  shows "t_filing_repo_id t' = Some r"
proof (cases op)
  case (OpConfirmFields src p)
  with assms show ?thesis by (auto elim!: confirm_synced_fields_cases)
qed (use assms in \<open>auto simp: stage_for_sync_def promote_to_remote_def confirm_synced_def
    adopt_aligned_state_def mark_dirty_local_def mark_dirty_remote_def mark_conflicted_def
    link_to_remote_def set_synced_baseline_def task_edit_defs touch_def Let_def
    split: if_splits\<close>)

text \<open>Where a task's backing issue was filed is recorded once: no history of method calls that
  does not contain the repair override changes or clears a recorded filing repository.\<close>

theorem filing_repo_immutable:
  assumes "t_filing_repo_id t = Some r" "\<forall>x \<in> set ops. \<forall>f. fst x \<noteq> OpForceFiling f"
  shows "t_filing_repo_id (run_ops apply_task_op ops t) = Some r"
  using assms
proof (induction ops arbitrary: t)
  case (Cons op_now ops)
  obtain op now where op: "op_now = (op, now)" by (cases op_now)
  with Cons.prems have "apply_task_op op now t = Inr t' \<Longrightarrow> t_filing_repo_id t' = Some r" for t'
    using filing_kept_steps [of t r op now t'] by auto
  then have "t_filing_repo_id (case apply_task_op op now t of Inl _ \<Rightarrow> t | Inr a \<Rightarrow> a) = Some r"
    using Cons.prems by (auto split: sum.splits)
  with Cons show ?case by (simp add: op)
qed simp

theorem filing_repo_immutable_witness:
  "t_filing_repo_id (run_ops apply_task_op [(OpSetFiling (Some 9), 1), (OpSetRepo (Some 9), 2)]
     sample_mirror) = Some 4"
  by (rule filing_repo_immutable) (simp_all add: sample_simps)

end
