(* ===== verification/ProjectBoard.thy ===== *)
theory ProjectBoard
  imports TaskEnums
begin

text \<open>
  The crate \<open>domain-project\<close>: the cached GitHub Projects v2 board (\<open>project.rs\<close>), its
  classified single-select fields (\<open>field.rs\<close>), the derivation of the lifecycle and priority
  mappings from an option catalog (\<open>mapping.rs\<close>) and the org issue-type registry
  (\<open>issue_type.rs\<close>).

  \<open>lower\<close> is the Unicode lowercase table of \<open>char::to_lowercase\<close> outside ASCII.
\<close>

section \<open>Fields and options (field.rs)\<close>

record field_option =
  o_id :: rstring
  o_name :: rstring
  o_ordinal :: nat

datatype project_field_kind = FStatus | FPriority | FType | FOther

fun as_db_str :: "project_field_kind \<Rightarrow> rstring" where
  "as_db_str FStatus = lit ''status''"
| "as_db_str FPriority = lit ''priority''"
| "as_db_str FType = lit ''type''"
| "as_db_str FOther = lit ''other''"

definition from_db_str :: "rstring \<Rightarrow> project_field_kind dresult" where
  "from_db_str s =
     (if s = lit ''status'' then Inr FStatus
      else if s = lit ''priority'' then Inr FPriority
      else if s = lit ''type'' then Inr FType
      else if s = lit ''other'' then Inr FOther
      else Inl (Validation (lit ''unknown project field kind '' @ [39] @ s @ [39])))"

record project_field =
  f_id :: rstring
  f_name :: rstring
  f_kind :: project_field_kind
  f_options :: "field_option list"

definition project_field_new :: "rstring \<Rightarrow> rstring \<Rightarrow> field_option list \<Rightarrow> project_field" where
  "project_field_new i n opts = \<lparr>f_id = i, f_name = n, f_kind = FOther, f_options = opts\<rparr>"

text \<open>\<open>Iterator::position\<close>.\<close>

fun position :: "('a \<Rightarrow> bool) \<Rightarrow> 'a list \<Rightarrow> nat option" where
  "position P [] = None"
| "position P (x # xs) = (if P x then Some 0 else map_option Suc (position P xs))"

definition assign_field_kinds :: "project_field list \<Rightarrow> project_field list" where
  "assign_field_kinds fs =
     (let status_idx =
        (case position (\<lambda>f. f_name f = lit ''Status'') fs of
           Some i \<Rightarrow> Some i
         | None \<Rightarrow> if fs = [] then None else Some 0)
      in map (\<lambda>(i, f). f\<lparr>f_kind :=
           (if Some i = status_idx then FStatus
            else if f_name f = lit ''Priority'' then FPriority
            else if eq_ignore_ascii_case (f_name f) (lit ''type'') \<or>
                    eq_ignore_ascii_case (f_name f) (lit ''types'') then FType
            else FOther)\<rparr>) (enumerate 0 fs))"

section \<open>Mapping rows (status.rs, priority.rs) and their derivation (mapping.rs)\<close>

record status_mapping =
  sm_is_open :: bool
  sm_option_id :: rstring

record priority_mapping =
  pm_priority :: priority
  pm_option_id :: rstring

definition char_to_lowercase :: "(rchar \<Rightarrow> rstring) \<Rightarrow> rchar \<Rightarrow> rstring" where
  "char_to_lowercase lower c = (if c < 128 then [to_ascii_lowercase c] else lower c)"

definition normalize :: "(rchar \<Rightarrow> rstring) \<Rightarrow> rstring \<Rightarrow> rstring" where
  "normalize lower name =
     concat (map (char_to_lowercase lower)
       (filter (\<lambda>c. \<not> is_whitespace c \<and> c \<noteq> 45 \<and> c \<noteq> 95) name))"

definition first_matching ::
  "(rchar \<Rightarrow> rstring) \<Rightarrow> field_option list \<Rightarrow> rstring list \<Rightarrow> field_option option" where
  "first_matching lower options vocab =
     List.find (\<lambda>opt. normalize lower (o_name opt) \<in> set vocab) options"

definition push_mapping ::
  "status_mapping list \<Rightarrow> bool \<Rightarrow> field_option option \<Rightarrow> status_mapping list" where
  "push_mapping out is_op opt =
     (case opt of None \<Rightarrow> out
      | Some x \<Rightarrow> out @ [\<lparr>sm_is_open = is_op, sm_option_id = o_id x\<rparr>])"

definition or_else :: "'a option \<Rightarrow> 'a option \<Rightarrow> 'a option" where
  "or_else a b = (case a of Some x \<Rightarrow> Some x | None \<Rightarrow> b)"

definition first_opt :: "'a list \<Rightarrow> 'a option" where
  "first_opt xs = (case xs of [] \<Rightarrow> None | x # _ \<Rightarrow> Some x)"

definition last_opt :: "'a list \<Rightarrow> 'a option" where
  "last_opt xs = (if xs = [] then None else Some (last xs))"

definition derive_status_mappings ::
  "(rchar \<Rightarrow> rstring) \<Rightarrow> field_option list \<Rightarrow> status_mapping list" where
  "derive_status_mappings lower options =
     (if options = [] then []
      else
        let out = push_mapping [] True
              (or_else (or_else
                (first_matching lower options
                  [lit ''backlog'', lit ''todo'', lit ''open'', lit ''new''])
                (first_matching lower options
                  [lit ''inprogress'', lit ''doing'', lit ''wip'', lit ''ready'']))
                (first_opt options))
        in push_mapping out False
              (or_else
                (first_matching lower options
                  [lit ''done'', lit ''complete'', lit ''closed'', lit ''shipped''])
                (last_opt options)))"

definition priorities_by_ordinal :: "priority list" where
  "priorities_by_ordinal = [P0, P1, P2, P3]"

text \<open>\<open>sort_by_key\<close> is a stable sort, as \<open>sort_key\<close> is.\<close>

definition derive_priority_mappings :: "field_option list \<Rightarrow> priority_mapping list" where
  "derive_priority_mappings options =
     (if options = [] then []
      else
        let ordered = sort_key o_ordinal options; lst = length ordered - 1
        in map (\<lambda>(k, p). \<lparr>pm_priority = p, pm_option_id = o_id (ordered ! min k lst)\<rparr>)
             (enumerate 0 priorities_by_ordinal))"

section \<open>The registry of org issue types (issue_type.rs)\<close>

record org_issue_type =
  oit_id :: rstring
  oit_name :: rstring

record org_issue_type_registry =
  reg_owner_login :: rstring
  reg_types :: "org_issue_type list"

definition registry_is_available :: "org_issue_type_registry \<Rightarrow> bool" where
  "registry_is_available reg \<longleftrightarrow> reg_types reg \<noteq> []"

section \<open>The aggregate (project.rs)\<close>

record project =
  p_id :: project_id
  p_owner_login :: rstring
  p_number :: nat
  p_title :: rstring
  p_fields :: "project_field list"
  p_status_mappings :: "status_mapping list"
  p_priority_mappings :: "priority_mapping list"
  p_archived :: bool
  p_created_at :: timestamp
  p_updated_at :: timestamp

fun debug_priority :: "priority \<Rightarrow> rstring" where
  "debug_priority P0 = lit ''P0''"
| "debug_priority P1 = lit ''P1''"
| "debug_priority P2 = lit ''P2''"
| "debug_priority P3 = lit ''P3''"

text \<open>The two validation loops, with the set of keys seen so far.\<close>

fun validate_mappings_loop ::
  "bool list \<Rightarrow> field_option list \<Rightarrow> status_mapping list \<Rightarrow> unit dresult" where
  "validate_mappings_loop seen options [] = Inr ()"
| "validate_mappings_loop seen options (m # ms) =
     (if \<not> list_ex (\<lambda>opt. o_id opt = sm_option_id m) options then Inl (Validation
        (lit ''status mapping references unknown option_id '' @ [39] @ sm_option_id m @ [39]))
      else if sm_is_open m \<in> set seen then Inl (Validation
        (lit ''duplicate status mapping for is_open='' @ show_bool (sm_is_open m)))
      else validate_mappings_loop (sm_is_open m # seen) options ms)"

definition validate_mappings :: "status_mapping list \<Rightarrow> field_option list \<Rightarrow> unit dresult" where
  "validate_mappings ms options = validate_mappings_loop [] options ms"

fun validate_priority_mappings_loop ::
  "priority list \<Rightarrow> field_option list \<Rightarrow> priority_mapping list \<Rightarrow> unit dresult" where
  "validate_priority_mappings_loop seen options [] = Inr ()"
| "validate_priority_mappings_loop seen options (m # ms) =
     (if \<not> list_ex (\<lambda>opt. o_id opt = pm_option_id m) options then Inl (Validation
        (lit ''priority mapping references unknown option_id '' @ [39] @ pm_option_id m @ [39]))
      else if pm_priority m \<in> set seen then Inl (Validation
        (lit ''duplicate priority mapping for '' @ debug_priority (pm_priority m)))
      else validate_priority_mappings_loop (seen @ [pm_priority m]) options ms)"

definition validate_priority_mappings ::
  "priority_mapping list \<Rightarrow> field_option list \<Rightarrow> unit dresult" where
  "validate_priority_mappings ms options = validate_priority_mappings_loop [] options ms"

definition options_of_kind :: "project_field_kind \<Rightarrow> project_field list \<Rightarrow> field_option list" where
  "options_of_kind k fs =
     (case List.find (\<lambda>f. f_kind f = k) fs of Some f \<Rightarrow> f_options f | None \<Rightarrow> [])"

definition from_fields ::
  "project_id \<Rightarrow> rstring \<Rightarrow> nat \<Rightarrow> rstring \<Rightarrow> project_field list \<Rightarrow> status_mapping list \<Rightarrow>
   priority_mapping list \<Rightarrow> bool \<Rightarrow> timestamp \<Rightarrow> project dresult" where
  "from_fields pid owner num title fs sms pms archived now =
     (let status_count = length (filter (\<lambda>f. f_kind f = FStatus) fs) in
      if status_count > 1 then Inl (Validation
        (lit ''project has '' @ show_nat status_count @ lit '' Status fields; expected at most one''))
      else if fs \<noteq> [] \<and> status_count = 0 then Inl (Validation
        (lit ''project has fields but none is classified as Status''))
      else
        (case validate_mappings sms (options_of_kind FStatus fs) of
           Inl e \<Rightarrow> Inl e
         | Inr _ \<Rightarrow>
             let priority_count = length (filter (\<lambda>f. f_kind f = FPriority) fs) in
             if priority_count > 1 then Inl (Validation
               (lit ''project has '' @ show_nat priority_count @
                lit '' Priority fields; expected at most one''))
             else
               (case validate_priority_mappings pms (options_of_kind FPriority fs) of
                  Inl e \<Rightarrow> Inl e
                | Inr _ \<Rightarrow> Inr
                    \<lparr>p_id = pid, p_owner_login = owner, p_number = num, p_title = title,
                     p_fields = fs, p_status_mappings = sms, p_priority_mappings = pms,
                     p_archived = archived, p_created_at = now, p_updated_at = now\<rparr>)))"

definition project_new ::
  "project_id \<Rightarrow> rstring \<Rightarrow> nat \<Rightarrow> rstring \<Rightarrow> rstring \<Rightarrow> field_option list \<Rightarrow> status_mapping list \<Rightarrow>
   bool \<Rightarrow> timestamp \<Rightarrow> project dresult" where
  "project_new pid owner num title sfid status_opts sms archived now =
     from_fields pid owner num title
       [\<lparr>f_id = sfid, f_name = lit ''Status'', f_kind = FStatus, f_options = status_opts\<rparr>]
       sms [] archived now"

definition status_field :: "project \<Rightarrow> project_field option" where
  "status_field p = List.find (\<lambda>f. f_kind f = FStatus) (p_fields p)"

definition status_field_id :: "project \<Rightarrow> rstring option" where
  "status_field_id p = map_option f_id (status_field p)"

definition status_options :: "project \<Rightarrow> field_option list" where
  "status_options p = (case status_field p of Some f \<Rightarrow> f_options f | None \<Rightarrow> [])"

definition priority_field :: "project \<Rightarrow> project_field option" where
  "priority_field p = List.find (\<lambda>f. f_kind f = FPriority) (p_fields p)"

definition priority_field_id :: "project \<Rightarrow> rstring option" where
  "priority_field_id p = map_option f_id (priority_field p)"

definition priority_options :: "project \<Rightarrow> field_option list" where
  "priority_options p = (case priority_field p of Some f \<Rightarrow> f_options f | None \<Rightarrow> [])"

definition resolved_priority_option_id_for :: "priority \<Rightarrow> project \<Rightarrow> rstring option" where
  "resolved_priority_option_id_for pr p =
     map_option pm_option_id (List.find (\<lambda>m. pm_priority m = pr) (p_priority_mappings p))"

definition priority_for_option_id :: "rstring \<Rightarrow> project \<Rightarrow> priority option" where
  "priority_for_option_id oid p =
     map_option pm_priority (List.find (\<lambda>m. pm_option_id m = oid) (p_priority_mappings p))"

definition type_field :: "project \<Rightarrow> project_field option" where
  "type_field p = (case filter (\<lambda>f. f_kind f = FType) (p_fields p) of [f] \<Rightarrow> Some f | _ \<Rightarrow> None)"

definition has_ambiguous_type_field :: "project \<Rightarrow> bool" where
  "has_ambiguous_type_field p \<longleftrightarrow> length (filter (\<lambda>f. f_kind f = FType) (p_fields p)) > 1"

definition type_field_id :: "project \<Rightarrow> rstring option" where
  "type_field_id p = map_option f_id (type_field p)"

definition type_options :: "project \<Rightarrow> field_option list" where
  "type_options p = (case type_field p of Some f \<Rightarrow> f_options f | None \<Rightarrow> [])"

definition resolved_type_option_id_for :: "issue_type \<Rightarrow> project \<Rightarrow> rstring option" where
  "resolved_type_option_id_for it p =
     (case type_field p of None \<Rightarrow> None
      | Some f \<Rightarrow> map_option o_id
          (List.find (\<lambda>opt. eq_ignore_ascii_case (o_name opt) (issue_type_display it)) (f_options f)))"

definition set_mappings :: "status_mapping list \<Rightarrow> timestamp \<Rightarrow> project \<Rightarrow> project dresult" where
  "set_mappings ms now p =
     (case validate_mappings ms (status_options p) of Inl e \<Rightarrow> Inl e
      | Inr _ \<Rightarrow> Inr (p\<lparr>p_status_mappings := ms, p_updated_at := now\<rparr>))"

definition set_priority_mappings ::
  "priority_mapping list \<Rightarrow> timestamp \<Rightarrow> project \<Rightarrow> project dresult" where
  "set_priority_mappings ms now p =
     (case validate_priority_mappings ms (priority_options p) of Inl e \<Rightarrow> Inl e
      | Inr _ \<Rightarrow> Inr (p\<lparr>p_priority_mappings := ms, p_updated_at := now\<rparr>))"

text \<open>\<open>iter_mut().find(..)\<close> rewrites the first match only.\<close>

fun update_first :: "('a \<Rightarrow> bool) \<Rightarrow> ('a \<Rightarrow> 'a) \<Rightarrow> 'a list \<Rightarrow> 'a list" where
  "update_first P f [] = []"
| "update_first P f (x # xs) = (if P x then f x # xs else x # update_first P f xs)"

definition replace_status_options :: "field_option list \<Rightarrow> timestamp \<Rightarrow> project \<Rightarrow> project" where
  "replace_status_options options now p =
     p\<lparr>p_status_mappings :=
         filter (\<lambda>m. list_ex (\<lambda>opt. o_id opt = sm_option_id m) options) (p_status_mappings p),
       p_fields := update_first (\<lambda>f. f_kind f = FStatus) (\<lambda>f. f\<lparr>f_options := options\<rparr>) (p_fields p),
       p_updated_at := now\<rparr>"

definition option_id_for :: "bool \<Rightarrow> project \<Rightarrow> rstring option" where
  "option_id_for is_op p =
     map_option sm_option_id (List.find (\<lambda>m. sm_is_open m = is_op) (p_status_mappings p))"

definition resolved_option_id_for :: "bool \<Rightarrow> project \<Rightarrow> rstring option" where
  "resolved_option_id_for is_op p = option_id_for is_op p"

definition option_name_for :: "rstring \<Rightarrow> project \<Rightarrow> rstring option" where
  "option_name_for oid p =
     map_option o_name (List.find (\<lambda>opt. o_id opt = oid) (status_options p))"

section \<open>Validation\<close>

lemma list_ex_option_id: "list_ex (\<lambda>opt. o_id opt = x) options \<longleftrightarrow> x \<in> o_id ` set options"
  by (auto simp: list_ex_iff)

lemma validate_mappings_loop_iff:
  "validate_mappings_loop seen options ms = Inr () \<longleftrightarrow>
     (\<forall>m \<in> set ms. sm_option_id m \<in> o_id ` set options) \<and>
     distinct (map sm_is_open ms) \<and> set seen \<inter> sm_is_open ` set ms = {}"
  by (induction seen options ms rule: validate_mappings_loop.induct)
    (auto simp: list_ex_option_id)

lemma validate_mappings_iff:
  "validate_mappings ms options = Inr u \<longleftrightarrow>
     (\<forall>m \<in> set ms. sm_option_id m \<in> o_id ` set options) \<and> distinct (map sm_is_open ms)"
  by (simp add: validate_mappings_def validate_mappings_loop_iff)

lemma validate_priority_mappings_loop_iff:
  "validate_priority_mappings_loop seen options ms = Inr () \<longleftrightarrow>
     (\<forall>m \<in> set ms. pm_option_id m \<in> o_id ` set options) \<and>
     distinct (map pm_priority ms) \<and> set seen \<inter> pm_priority ` set ms = {}"
  by (induction seen options ms rule: validate_priority_mappings_loop.induct)
    (auto simp: list_ex_option_id)

lemma validate_priority_mappings_iff:
  "validate_priority_mappings ms options = Inr u \<longleftrightarrow>
     (\<forall>m \<in> set ms. pm_option_id m \<in> o_id ` set options) \<and> distinct (map pm_priority ms)"
  by (simp add: validate_priority_mappings_def validate_priority_mappings_loop_iff)

lemma options_of_kind_project:
  "status_options p = options_of_kind FStatus (p_fields p)"
  "priority_options p = options_of_kind FPriority (p_fields p)"
  by (simp_all add: status_options_def status_field_def priority_options_def priority_field_def
      options_of_kind_def)

section \<open>The invariant of the board\<close>

definition fields_wf :: "project_field list \<Rightarrow> bool" where
  "fields_wf fs \<longleftrightarrow> length (filter (\<lambda>f. f_kind f = FStatus) fs) \<le> 1 \<and>
     (fs \<noteq> [] \<longrightarrow> filter (\<lambda>f. f_kind f = FStatus) fs \<noteq> []) \<and>
     length (filter (\<lambda>f. f_kind f = FPriority) fs) \<le> 1"

definition project_wf :: "project \<Rightarrow> bool" where
  "project_wf p \<longleftrightarrow> fields_wf (p_fields p) \<and>
     (\<forall>m \<in> set (p_status_mappings p). sm_option_id m \<in> o_id ` set (status_options p)) \<and>
     distinct (map sm_is_open (p_status_mappings p)) \<and>
     (\<forall>m \<in> set (p_priority_mappings p). pm_option_id m \<in> o_id ` set (priority_options p)) \<and>
     distinct (map pm_priority (p_priority_mappings p))"

lemma from_fields_iff:
  "from_fields pid owner num title fs sms pms ar now = Inr p \<longleftrightarrow>
     fields_wf fs \<and>
     (\<forall>m \<in> set sms. sm_option_id m \<in> o_id ` set (options_of_kind FStatus fs)) \<and>
     distinct (map sm_is_open sms) \<and>
     (\<forall>m \<in> set pms. pm_option_id m \<in> o_id ` set (options_of_kind FPriority fs)) \<and>
     distinct (map pm_priority pms) \<and>
     p = \<lparr>p_id = pid, p_owner_login = owner, p_number = num, p_title = title, p_fields = fs,
          p_status_mappings = sms, p_priority_mappings = pms, p_archived = ar,
          p_created_at = now, p_updated_at = now\<rparr>"
  unfolding from_fields_def fields_wf_def Let_def
  using validate_mappings_iff [of sms "options_of_kind FStatus fs" "()"]
    validate_priority_mappings_iff [of pms "options_of_kind FPriority fs" "()"]
  by (auto split: sum.splits)

lemma project_wf_from_fields:
  "from_fields pid owner num title fs sms pms ar now = Inr p \<Longrightarrow> project_wf p"
  by (simp add: from_fields_iff project_wf_def options_of_kind_project)

lemma kinds_update_first:
  "(\<And>f. f_kind (g f) = f_kind f) \<Longrightarrow>
     map f_kind (update_first P g fs) = map f_kind fs"
  by (induction fs) auto

lemma length_filter_kind: "length (filter (\<lambda>f. f_kind f = k) fs) = count_list (map f_kind fs) k"
  by (induction fs) auto

lemma fields_wf_update_first:
  assumes "\<And>f. f_kind (g f) = f_kind f"
  shows "fields_wf (update_first P g fs) = fields_wf fs"
proof -
  have "length (filter (\<lambda>f. f_kind f = k) (update_first P g fs)) =
    length (filter (\<lambda>f. f_kind f = k) fs)" for k
    by (simp add: length_filter_kind kinds_update_first [OF assms])
  moreover have "update_first P g fs = [] \<longleftrightarrow> fs = []" by (cases fs) auto
  ultimately show ?thesis unfolding fields_wf_def by (metis length_0_conv)
qed

lemma options_of_kind_update_status:
  "options_of_kind k (update_first (\<lambda>f. f_kind f = FStatus) (\<lambda>f. f\<lparr>f_options := opts\<rparr>) fs) =
     (if k = FStatus \<and> list_ex (\<lambda>f. f_kind f = FStatus) fs then opts else options_of_kind k fs)"
  by (induction fs) (auto simp: options_of_kind_def)

lemma no_status_field_no_mappings:
  assumes "project_wf p" "\<not> list_ex (\<lambda>f. f_kind f = FStatus) (p_fields p)"
  shows "p_status_mappings p = []"
proof -
  have "options_of_kind FStatus (p_fields p) = []"
    using assms(2) by (auto simp: options_of_kind_def list_ex_iff find_None_iff split: option.splits
        dest: find_Some_set)
  then show ?thesis
    using assms(1) by (cases "p_status_mappings p") (auto simp: project_wf_def options_of_kind_project)
qed

lemma project_wf_replace_status_options:
  assumes "project_wf p"
  shows "project_wf (replace_status_options opts now p)"
proof -
  have "list_ex (\<lambda>f. f_kind f = FStatus) (p_fields p) \<or> p_status_mappings p = []"
    using assms no_status_field_no_mappings by blast
  with assms show ?thesis
    unfolding project_wf_def replace_status_options_def options_of_kind_project
    by (auto simp: fields_wf_update_first options_of_kind_update_status list_ex_option_id
        distinct_map inj_on_def)
qed

datatype project_op =
    OpSetMappings "status_mapping list"
  | OpSetPriorityMappings "priority_mapping list"
  | OpReplaceStatusOptions "field_option list"

fun apply_project_op :: "project_op \<Rightarrow> timestamp \<Rightarrow> project \<Rightarrow> project dresult" where
  "apply_project_op (OpSetMappings ms) now p = set_mappings ms now p"
| "apply_project_op (OpSetPriorityMappings ms) now p = set_priority_mappings ms now p"
| "apply_project_op (OpReplaceStatusOptions opts) now p = Inr (replace_status_options opts now p)"

lemma apply_project_op_wf:
  assumes "project_wf p" "apply_project_op op now p = Inr p'"
  shows "project_wf p'"
proof (cases op)
  case (OpReplaceStatusOptions opts)
  with assms project_wf_replace_status_options show ?thesis by auto
next
  case (OpSetMappings ms)
  with assms validate_mappings_iff [of ms "status_options p" "()"] show ?thesis
    by (auto simp: set_mappings_def project_wf_def options_of_kind_project split: sum.splits)
next
  case (OpSetPriorityMappings ms)
  with assms validate_priority_mappings_iff [of ms "priority_options p" "()"] show ?thesis
    by (auto simp: set_priority_mappings_def project_wf_def options_of_kind_project split: sum.splits)
qed

interpretation project_agg: guarded_aggregate p_id p_created_at p_updated_at apply_project_op project_wf
proof
  fix op now p p'
  assume "apply_project_op op now p = Inr p'"
  then show "p_id p' = p_id p" "p_created_at p' = p_created_at p" "p_updated_at p' \<in> {now, p_updated_at p}"
    by (cases op; auto simp: set_mappings_def set_priority_mappings_def replace_status_options_def
        split: sum.splits)+
qed (rule apply_project_op_wf)

lemma option_id_for_on_board:
  "project_wf p \<Longrightarrow> resolved_option_id_for b p = Some x \<Longrightarrow> x \<in> o_id ` set (status_options p)"
  by (auto simp: project_wf_def resolved_option_id_for_def option_id_for_def dest!: find_Some_set)

lemma priority_option_on_board:
  "project_wf p \<Longrightarrow> resolved_priority_option_id_for pr p = Some x \<Longrightarrow>
     x \<in> o_id ` set (priority_options p)"
  by (auto simp: project_wf_def resolved_priority_option_id_for_def dest!: find_Some_set)

text \<open>A linked board never points at an option it does not have: after any sequence of
  mapping edits and option refreshes on a board that was accepted by the constructor there is at
  most one Status and one Priority field, no lifecycle bit and no priority is mapped twice, and
  whatever option the board projection resolves for a task exists in the current catalog.\<close>

theorem project_options_resolve:
  assumes "from_fields pid owner num title fs sms pms ar t0 = Inr p0"
    "p = run_ops apply_project_op ops p0"
  shows "project_wf p \<and>
    (\<forall>b x. resolved_option_id_for b p = Some x \<longrightarrow> x \<in> o_id ` set (status_options p)) \<and>
    (\<forall>pr x. resolved_priority_option_id_for pr p = Some x \<longrightarrow>
       x \<in> o_id ` set (priority_options p))"
proof -
  have "project_wf p" unfolding assms(2)
    by (rule project_agg.run_inv) (rule project_wf_from_fields [OF assms(1)])
  then show ?thesis using option_id_for_on_board priority_option_on_board by blast
qed

definition sample_options :: "field_option list" where
  "sample_options = [\<lparr>o_id = [1], o_name = lit ''Todo'', o_ordinal = 0\<rparr>,
     \<lparr>o_id = [2], o_name = lit ''Done'', o_ordinal = 1\<rparr>]"

definition sample_project :: project where
  "sample_project = projr (project_new (lit ''PVT_1'') (lit ''o'') 1 (lit ''b'') (lit ''F'') sample_options
     [\<lparr>sm_is_open = True, sm_option_id = [1]\<rparr>] False 0)"

theorem project_options_resolve_witness:
  "project_wf (run_ops apply_project_op [(OpReplaceStatusOptions [], 3)] sample_project)"
proof -
  have "from_fields (lit ''PVT_1'') (lit ''o'') 1 (lit ''b'')
    [\<lparr>f_id = lit ''F'', f_name = lit ''Status'', f_kind = FStatus, f_options = sample_options\<rparr>]
    [\<lparr>sm_is_open = True, sm_option_id = [1]\<rparr>] [] False 0 = Inr sample_project"
    by (simp add: sample_project_def project_new_def from_fields_def validate_mappings_def
        validate_priority_mappings_def options_of_kind_def sample_options_def)
  from project_options_resolve [OF this refl] show ?thesis by blast
qed

section \<open>Derived mappings\<close>

lemma position_less: "position P xs = Some i \<Longrightarrow> i < length xs"
  by (induction xs arbitrary: i) (auto split: if_splits)

lemma count_enumerate_index:
  "length (filter (\<lambda>(i, f). i = j) (enumerate n xs)) = (if n \<le> j \<and> j < n + length xs then 1 else 0)"
proof (induction xs arbitrary: n)
  case (Cons x xs)
  show ?case using Cons [of "Suc n"] by (auto simp del: length_0_conv)
qed simp

lemma assign_field_kinds_one_status:
  assumes "fs \<noteq> []"
  shows "length (filter (\<lambda>f. f_kind f = FStatus) (assign_field_kinds fs)) = 1"
proof -
  define idx where "idx = (case position (\<lambda>f. f_name f = lit ''Status'') fs of
    Some i \<Rightarrow> Some i | None \<Rightarrow> if fs = [] then None else Some 0)"
  then obtain j where j: "idx = Some j" "j < length fs"
    using assms position_less by (cases "position (\<lambda>f. f_name f = lit ''Status'') fs") auto
  have "filter (\<lambda>f. f_kind f = FStatus) (assign_field_kinds fs) =
    map (\<lambda>(i, f). f\<lparr>f_kind := FStatus\<rparr>) (filter (\<lambda>(i, f). i = j) (enumerate 0 fs))"
    unfolding assign_field_kinds_def idx_def [symmetric] j Let_def filter_map
    by (intro map_cong filter_cong) (auto simp: split_def)
  then show ?thesis using j(2) by (simp add: count_enumerate_index)
qed

lemma assign_field_kinds_Nil [simp]: "assign_field_kinds [] = []"
  by (simp add: assign_field_kinds_def)

lemma derive_status_mappings_valid:
  "(\<forall>m \<in> set (derive_status_mappings lower opts). sm_option_id m \<in> o_id ` set opts) \<and>
   map sm_is_open (derive_status_mappings lower opts) = (if opts = [] then [] else [True, False])"
proof (cases "opts = []")
  case False
  have fm: "first_matching lower opts v = Some x \<Longrightarrow> x \<in> set opts" for v x
    by (auto simp: first_matching_def dest: find_Some_set)
  define a where "a = or_else (or_else
    (first_matching lower opts [lit ''backlog'', lit ''todo'', lit ''open'', lit ''new''])
    (first_matching lower opts [lit ''inprogress'', lit ''doing'', lit ''wip'', lit ''ready'']))
    (first_opt opts)"
  define b where "b = or_else
    (first_matching lower opts [lit ''done'', lit ''complete'', lit ''closed'', lit ''shipped''])
    (last_opt opts)"
  have "\<exists>x \<in> set opts. a = Some x" "\<exists>y \<in> set opts. b = Some y"
    using False fm
    by (auto simp: a_def b_def or_else_def first_opt_def last_opt_def neq_Nil_conv split: option.splits)
  then show ?thesis using False
    unfolding derive_status_mappings_def a_def [symmetric] b_def [symmetric]
    by (auto simp: push_mapping_def)
qed (simp add: derive_status_mappings_def)

lemma derive_priority_mappings_eq:
  "opts \<noteq> [] \<Longrightarrow> derive_priority_mappings opts =
     map (\<lambda>p. \<lparr>pm_priority = p,
       pm_option_id = o_id (sort_key o_ordinal opts ! min (priority_rank p) (length opts - 1))\<rparr>)
       [P0, P1, P2, P3]"
  by (simp add: derive_priority_mappings_def priorities_by_ordinal_def Let_def numeral_eq_Suc)

lemma clamped_in_options:
  "opts \<noteq> [] \<Longrightarrow> sort_key o_ordinal opts ! min k (length opts - 1) \<in> set opts"
proof -
  assume "opts \<noteq> []"
  then have "min k (length opts - 1) < length (sort_key o_ordinal opts)"
    by (simp add: min_less_iff_disj)
  from nth_mem [OF this] show ?thesis by simp
qed

definition clamped_id :: "field_option list \<Rightarrow> priority \<Rightarrow> rstring" where
  "clamped_id opts p = o_id (sort_key o_ordinal opts ! min (priority_rank p) (length opts - 1))"

lemma derive_priority_mappings_clamped:
  "opts \<noteq> [] \<Longrightarrow> derive_priority_mappings opts =
     map (\<lambda>p. \<lparr>pm_priority = p, pm_option_id = clamped_id opts p\<rparr>) [P0, P1, P2, P3]"
  unfolding clamped_id_def by (rule derive_priority_mappings_eq)

lemma derive_priority_mappings_valid:
  "(\<forall>m \<in> set (derive_priority_mappings opts). pm_option_id m \<in> o_id ` set opts) \<and>
   distinct (map pm_priority (derive_priority_mappings opts))"
proof (cases "opts = []")
  case False
  then have "clamped_id opts p \<in> o_id ` set opts" for p
    by (simp add: clamped_id_def clamped_in_options del: One_nat_def)
  then show ?thesis by (simp add: derive_priority_mappings_clamped False)
qed (simp add: derive_priority_mappings_def)

text \<open>Linking succeeds on every board GitHub can present except one with two Priority
  fields: classifying the fetched fields and deriving both mappings always yields what the
  constructor accepts, and the lifecycle mapping covers the open and the closed bit whenever the
  chosen Status field has an option at all.\<close>

theorem derived_mappings_accepted:
  assumes "fs' = assign_field_kinds fs"
  shows "((\<exists>p. from_fields pid owner num title fs'
              (derive_status_mappings lower (options_of_kind FStatus fs'))
              (derive_priority_mappings (options_of_kind FPriority fs')) ar now = Inr p) \<longleftrightarrow>
          length (filter (\<lambda>f. f_kind f = FPriority) fs') \<le> 1) \<and>
    (\<forall>p b. from_fields pid owner num title fs'
              (derive_status_mappings lower (options_of_kind FStatus fs'))
              (derive_priority_mappings (options_of_kind FPriority fs')) ar now = Inr p \<longrightarrow>
       options_of_kind FStatus fs' \<noteq> [] \<longrightarrow> resolved_option_id_for b p \<noteq> None)"
proof -
  have one: "length (filter (\<lambda>f. f_kind f = FStatus) fs') = (if fs = [] then 0 else 1)"
    using assign_field_kinds_one_status [of fs] assms by auto
  moreover have "fs' = [] \<longleftrightarrow> fs = []"
    using assms one by (metis assign_field_kinds_Nil filter.simps(1) length_0_conv zero_neq_one)
  ultimately have wf: "fields_wf fs' \<longleftrightarrow> length (filter (\<lambda>f. f_kind f = FPriority) fs') \<le> 1"
    unfolding fields_wf_def by (auto split: if_splits)
  have st: "map sm_is_open (derive_status_mappings lower opts) =
    (if opts = [] then [] else [True, False])" for opts
    using derive_status_mappings_valid by blast
  have cover: "\<exists>m. List.find (\<lambda>m. sm_is_open m = b) (derive_status_mappings lower opts) = Some m"
    if "opts \<noteq> []" for opts b
  proof -
    have "b \<in> set (map sm_is_open (derive_status_mappings lower opts))" using st that by (cases b) simp_all
    then show ?thesis using find_Some_ex [of _ "derive_status_mappings lower opts"
        "\<lambda>m. sm_is_open m = b"] by fastforce
  qed
  show ?thesis
    using derive_status_mappings_valid [of lower "options_of_kind FStatus fs'"]
      derive_priority_mappings_valid [of "options_of_kind FPriority fs'"] cover
    by (auto simp: from_fields_iff wf resolved_option_id_for_def option_id_for_def)
qed

theorem derived_mappings_accepted_witness:
  "\<exists>p. from_fields (lit ''PVT_1'') [] 1 []
     (assign_field_kinds [project_field_new (lit ''F'') (lit ''Stage'') sample_options])
     (derive_status_mappings (\<lambda>c. [c]) (options_of_kind FStatus
       (assign_field_kinds [project_field_new (lit ''F'') (lit ''Stage'') sample_options])))
     (derive_priority_mappings (options_of_kind FPriority
       (assign_field_kinds [project_field_new (lit ''F'') (lit ''Stage'') sample_options]))) False 0 = Inr p"
proof -
  let ?fs = "assign_field_kinds [project_field_new (lit ''F'') (lit ''Stage'') sample_options]"
  have "length (filter (\<lambda>f. f_kind f = FPriority) ?fs) \<le> 1"
    by (simp add: assign_field_kinds_def project_field_new_def)
  with derived_mappings_accepted [OF refl, of "lit ''PVT_1''" "[]" 1 "[]"
      "[project_field_new (lit ''F'') (lit ''Stage'') sample_options]" "\<lambda>c. [c]" False 0]
  show ?thesis by blast
qed

lemma clamped_id_inj:
  assumes "4 \<le> length opts" "distinct (map o_id opts)"
  shows "clamped_id opts q = clamped_id opts q' \<longleftrightarrow> q = q'"
proof -
  let ?s = "sort_key o_ordinal opts"
  have d: "distinct (map o_id ?s)" using assms(2) by (simp add: distinct_map)
  have k: "min (priority_rank x) (length opts - 1) = priority_rank x"
    "priority_rank x < length (map o_id ?s)" for x
    using assms(1) priority_rank_less_4 [of x] by simp_all
  have "clamped_id opts x = map o_id ?s ! priority_rank x" for x
    using k [of x] by (simp only: clamped_id_def nth_map length_map)
  then show ?thesis using nth_eq_iff_index_eq [OF d k(2) k(2), of q q'] by simp
qed

text \<open>The positional priority rule: on a board with derived mappings every priority resolves
  to the option at its rank in the board's severity order, clamped to the last option; with at
  least four options with distinct ids the reverse lookup gives the priority back.\<close>

theorem priority_projection_roundtrip:
  assumes "p_priority_mappings p = derive_priority_mappings opts" "opts \<noteq> []"
  shows "resolved_priority_option_id_for pr p =
      Some (o_id (sort_key o_ordinal opts ! min (priority_rank pr) (length opts - 1))) \<and>
    (4 \<le> length opts \<and> distinct (map o_id opts) \<longrightarrow>
      priority_for_option_id (the (resolved_priority_option_id_for pr p)) p = Some pr)"
proof -
  have r: "resolved_priority_option_id_for pr p = Some (clamped_id opts pr)"
    unfolding resolved_priority_option_id_for_def assms(1) derive_priority_mappings_clamped [OF assms(2)]
    by (cases pr) simp_all
  have "priority_for_option_id (clamped_id opts pr) p = Some pr"
    if "4 \<le> length opts" "distinct (map o_id opts)"
  proof -
    have inj: "clamped_id opts q = clamped_id opts q' \<longleftrightarrow> q = q'" for q q'
      by (rule clamped_id_inj [OF that])
    show ?thesis
      unfolding priority_for_option_id_def assms(1) derive_priority_mappings_clamped [OF assms(2)]
      by (cases pr) (simp_all add: inj)
  qed
  with r show ?thesis by (simp add: clamped_id_def)
qed

theorem priority_projection_roundtrip_witness:
  "priority_for_option_id [4] (sample_project\<lparr>p_priority_mappings := derive_priority_mappings
     (map (\<lambda>k. \<lparr>o_id = [k], o_name = [], o_ordinal = 9 - k\<rparr>) [1, 2, 3, 4, 5])\<rparr>) = Some P1"
proof -
  let ?opts = "map (\<lambda>k. \<lparr>o_id = [k], o_name = [], o_ordinal = 9 - k\<rparr>) [1, 2, 3, 4, 5 :: nat]"
  let ?p = "sample_project\<lparr>p_priority_mappings := derive_priority_mappings ?opts\<rparr>"
  have four: "resolved_priority_option_id_for P1 ?p = Some [4]"
    by (simp add: resolved_priority_option_id_for_def derive_priority_mappings_def
        priorities_by_ordinal_def sort_key_def)
  have ok: "p_priority_mappings ?p = derive_priority_mappings ?opts" "?opts \<noteq> []"
    "4 \<le> length ?opts \<and> distinct (map o_id ?opts)"
    by simp_all
  from conjunct2 [OF priority_projection_roundtrip [OF ok(1,2), of P1]] ok(3)
  have "priority_for_option_id (the (resolved_priority_option_id_for P1 ?p)) ?p = Some P1" by blast
  then show ?thesis unfolding four option.sel .
qed

end
