(* ===== verification/Workspaces.thy ===== *)
theory Workspaces
  imports Core
begin

text \<open>
  The crate \<open>domain-workspace\<close>: the validated name (\<open>name.rs\<close>), the status (\<open>status.rs\<close>) and
  the \<open>Workspace\<close> aggregate with its lifecycle transitions (\<open>workspace.rs\<close>).
\<close>

section \<open>Names (name.rs)\<close>

type_synonym workspace_name = rstring

definition workspace_name_new :: "rstring \<Rightarrow> workspace_name dresult" where
  "workspace_name_new s =
     (let trimmed = trim s in
      if trimmed = [] \<or> str_len trimmed > 128 then Inl (Validation
        (lit ''workspace name must be 1..=128 chars''))
      else if \<not> list_all (\<lambda>c. is_ascii_alphanumeric c \<or> c = 45 \<or> c = 95 \<or> c = 32) trimmed
      then Inl (Validation
        (lit ''workspace name may only contain ascii alphanumerics, dash, underscore, space''))
      else Inr trimmed)"

definition workspace_name_wf :: "workspace_name \<Rightarrow> bool" where
  "workspace_name_wf n \<longleftrightarrow> workspace_name_new n = Inr n"

lemma workspace_name_new_wf: "workspace_name_new s = Inr n \<Longrightarrow> workspace_name_wf n"
  by (auto simp: workspace_name_wf_def workspace_name_new_def Let_def split: if_splits)

section \<open>The aggregate (status.rs, workspace.rs)\<close>

datatype workspace_status = WCreated | WActive | WPaused | WArchived | WDeleted

fun debug_workspace_status :: "workspace_status \<Rightarrow> rstring" where
  "debug_workspace_status WCreated = lit ''Created''"
| "debug_workspace_status WActive = lit ''Active''"
| "debug_workspace_status WPaused = lit ''Paused''"
| "debug_workspace_status WArchived = lit ''Archived''"
| "debug_workspace_status WDeleted = lit ''Deleted''"

record workspace =
  w_id :: workspace_id
  w_name :: workspace_name
  w_description :: "rstring option"
  w_status :: workspace_status
  w_local_only :: bool
  w_project_id :: "project_id option"
  w_filing_repo_id :: "repo_id option"
  w_default_issue_type :: "rstring option"
  w_default_sub_issue_type :: "rstring option"
  w_created_at :: timestamp
  w_updated_at :: timestamp

definition workspace_new ::
  "workspace_id \<Rightarrow> timestamp \<Rightarrow> workspace_name \<Rightarrow> rstring option \<Rightarrow> bool \<Rightarrow> workspace" where
  "workspace_new fresh now name descr local_only =
     \<lparr>w_id = fresh, w_name = name, w_description = descr, w_status = WCreated,
      w_local_only = local_only, w_project_id = None, w_filing_repo_id = None,
      w_default_issue_type = None, w_default_sub_issue_type = None,
      w_created_at = now, w_updated_at = now\<rparr>"

definition ws_touch :: "timestamp \<Rightarrow> workspace \<Rightarrow> workspace" where
  "ws_touch now w = w\<lparr>w_updated_at := now\<rparr>"

definition ws_activate :: "timestamp \<Rightarrow> workspace \<Rightarrow> workspace dresult" where
  "ws_activate now w =
     (if w_status w \<in> {WCreated, WPaused} then Inr (ws_touch now (w\<lparr>w_status := WActive\<rparr>))
      else Inl (InvalidTransition
        (lit ''cannot activate from '' @ debug_workspace_status (w_status w))))"

definition ws_pause :: "timestamp \<Rightarrow> workspace \<Rightarrow> workspace dresult" where
  "ws_pause now w =
     (if w_status w = WActive then Inr (ws_touch now (w\<lparr>w_status := WPaused\<rparr>))
      else Inl (InvalidTransition
        (lit ''cannot pause from '' @ debug_workspace_status (w_status w))))"

definition ws_archive :: "timestamp \<Rightarrow> workspace \<Rightarrow> workspace dresult" where
  "ws_archive now w =
     (if w_status w \<in> {WCreated, WActive, WPaused}
      then Inr (ws_touch now (w\<lparr>w_status := WArchived\<rparr>))
      else Inl (InvalidTransition
        (lit ''cannot archive from '' @ debug_workspace_status (w_status w))))"

definition ws_unarchive :: "timestamp \<Rightarrow> workspace \<Rightarrow> workspace dresult" where
  "ws_unarchive now w =
     (if w_status w = WArchived then Inr (ws_touch now (w\<lparr>w_status := WActive\<rparr>))
      else Inl (InvalidTransition
        (lit ''cannot unarchive from '' @ debug_workspace_status (w_status w))))"

definition ws_set_filing_repo_id :: "timestamp \<Rightarrow> repo_id option \<Rightarrow> workspace \<Rightarrow> workspace" where
  "ws_set_filing_repo_id now r w = ws_touch now (w\<lparr>w_filing_repo_id := r\<rparr>)"

definition set_default_issue_types ::
  "timestamp \<Rightarrow> rstring option \<Rightarrow> rstring option \<Rightarrow> workspace \<Rightarrow> workspace" where
  "set_default_issue_types now standalone sub_issue w =
     ws_touch now (w\<lparr>w_default_issue_type := standalone, w_default_sub_issue_type := sub_issue\<rparr>)"

definition ws_edit ::
  "timestamp \<Rightarrow> workspace_name option \<Rightarrow> rstring option \<Rightarrow> workspace \<Rightarrow> workspace" where
  "ws_edit now name descr w =
     (let w1 = (case name of Some n \<Rightarrow> w\<lparr>w_name := n\<rparr> | None \<Rightarrow> w);
          w2 = (case descr of Some d \<Rightarrow> w1\<lparr>w_description := Some d\<rparr> | None \<Rightarrow> w1)
      in ws_touch now w2)"

section \<open>The lifecycle as a state machine\<close>

text \<open>A rename takes a raw string: the service validates it before calling \<open>edit\<close>.\<close>

datatype workspace_op =
    OpActivate | OpPause | OpWsArchive | OpUnarchive
  | OpWsSetFiling "repo_id option"
  | OpSetDefaultTypes "rstring option" "rstring option"
  | OpWsEdit "rstring option" "rstring option"

fun apply_workspace_op :: "workspace_op \<Rightarrow> timestamp \<Rightarrow> workspace \<Rightarrow> workspace dresult" where
  "apply_workspace_op OpActivate now w = ws_activate now w"
| "apply_workspace_op OpPause now w = ws_pause now w"
| "apply_workspace_op OpWsArchive now w = ws_archive now w"
| "apply_workspace_op OpUnarchive now w = ws_unarchive now w"
| "apply_workspace_op (OpWsSetFiling r) now w = Inr (ws_set_filing_repo_id now r w)"
| "apply_workspace_op (OpSetDefaultTypes a b) now w = Inr (set_default_issue_types now a b w)"
| "apply_workspace_op (OpWsEdit None d) now w = Inr (ws_edit now None d w)"
| "apply_workspace_op (OpWsEdit (Some n) d) now w =
     (case workspace_name_new n of Inl e \<Rightarrow> Inl e | Inr n' \<Rightarrow> Inr (ws_edit now (Some n') d w))"

lemmas workspace_defs = ws_activate_def ws_pause_def ws_archive_def ws_unarchive_def
  ws_set_filing_repo_id_def set_default_issue_types_def ws_edit_def ws_touch_def Let_def

inductive status_edge :: "workspace_status \<Rightarrow> workspace_op \<Rightarrow> workspace_status \<Rightarrow> bool" where
  activate: "s \<in> {WCreated, WPaused} \<Longrightarrow> status_edge s OpActivate WActive"
| pause: "status_edge WActive OpPause WPaused"
| archive: "s \<in> {WCreated, WActive, WPaused} \<Longrightarrow> status_edge s OpWsArchive WArchived"
| unarchive: "status_edge WArchived OpUnarchive WActive"
| filing: "status_edge s (OpWsSetFiling r) s"
| types: "status_edge s (OpSetDefaultTypes a b) s"
| edit: "(\<And>x. n = Some x \<Longrightarrow> \<exists>y. workspace_name_new x = Inr y) \<Longrightarrow> status_edge s (OpWsEdit n d) s"

inductive_simps status_edge_simps: "status_edge s OpActivate s'" "status_edge s OpPause s'"
  "status_edge s OpWsArchive s'" "status_edge s OpUnarchive s'" "status_edge s (OpWsSetFiling r) s'"
  "status_edge s (OpSetDefaultTypes a b) s'" "status_edge s (OpWsEdit n d) s'"

definition workspace_wf :: "workspace \<Rightarrow> bool" where
  "workspace_wf w \<longleftrightarrow> w_status w \<noteq> WDeleted \<and> workspace_name_wf (w_name w)"

lemma apply_workspace_op_step:
  assumes "apply_workspace_op op now w = Inr w'"
  shows "w_id w' = w_id w" "w_created_at w' = w_created_at w" "w_updated_at w' = now"
    "workspace_wf w \<Longrightarrow> workspace_wf w'" "status_edge (w_status w) op (w_status w')"
  using assms
  by (cases "(op, now, w)" rule: apply_workspace_op.cases;
      auto simp: workspace_defs workspace_wf_def status_edge_simps workspace_name_new_wf
      split: if_splits option.splits sum.splits)+

lemma status_edge_applies:
  assumes "status_edge (w_status w) op s'"
  shows "\<exists>w'. apply_workspace_op op now w = Inr w' \<and> w_status w' = s'"
  using assms
  by (cases "(op, now, w)" rule: apply_workspace_op.cases)
    (auto simp: workspace_defs status_edge_simps split: option.splits)

interpretation workspace_agg: guarded_aggregate w_id w_created_at w_updated_at
  apply_workspace_op workspace_wf
  by unfold_locales (auto dest: apply_workspace_op_step)

text \<open>C39 A workspace call succeeds exactly along the edges of the lifecycle machine and moves
  the status as the edge says; in particular an archived workspace is left only by unarchiving it,
  and no history of calls ever reaches \<open>Deleted\<close> or stores an invalid name.\<close>

theorem workspace_lifecycle_machine:
  assumes "workspace_name_new s = Inr name" "w = run_ops apply_workspace_op ops (workspace_new i t0 name d lo)"
  shows "((\<exists>w'. apply_workspace_op op now w = Inr w' \<and> w_status w' = st) \<longleftrightarrow>
          status_edge (w_status w) op st) \<and>
    (w_status w = WArchived \<and> st \<noteq> WArchived \<and> status_edge (w_status w) op st \<longrightarrow>
       op = OpUnarchive \<and> st = WActive) \<and>
    w_status w \<noteq> WDeleted \<and> workspace_name_new (w_name w) = Inr (w_name w)"
proof -
  have "workspace_wf (workspace_new i t0 name d lo)"
    using workspace_name_new_wf [OF assms(1)] by (simp add: workspace_wf_def workspace_new_def)
  then have "workspace_wf w" unfolding assms(2) by (rule workspace_agg.run_inv)
  moreover have "(\<exists>w'. apply_workspace_op op now w = Inr w' \<and> w_status w' = st) \<longleftrightarrow>
    status_edge (w_status w) op st"
    using apply_workspace_op_step(5) status_edge_applies by blast
  moreover have "status_edge WArchived op st \<Longrightarrow> st \<noteq> WArchived \<Longrightarrow> op = OpUnarchive \<and> st = WActive"
    by (cases op) (auto simp: status_edge_simps)
  ultimately show ?thesis by (auto simp: workspace_wf_def workspace_name_wf_def)
qed

theorem workspace_lifecycle_machine_witness:
  "w_status (run_ops apply_workspace_op [(OpActivate, 1), (OpWsArchive, 2), (OpActivate, 3)]
     (workspace_new 1 0 (lit ''a'') None False)) \<noteq> WDeleted"
proof -
  have "workspace_name_new (lit '' a'') = Inr (lit ''a'')"
    by (simp add: workspace_name_new_def trim_def trim_start_def is_whitespace_def str_len_def
        len_utf8_char_def ascii_defs)
  from workspace_lifecycle_machine [OF this refl] show ?thesis by blast
qed

end
