(* ===== verification/SyncTypes.thy ===== *)
theory SyncTypes
  imports TaskSync ProjectBoard Workspaces
begin

text \<open>
  The vocabulary of synchronisation: the outbox types, the reconciliation decision and the
  filing chain of \<open>domain-sync\<close>, the transfer structs and errors of \<open>ports\<close>, and the pure
  projections at the boundary between a task and its remote issue
  (\<open>application-sync/src/lib.rs\<close>, \<open>summary.rs\<close>).
\<close>

section \<open>Outbox entries (domain-sync/src/outbox.rs)\<close>

datatype outbox_mutation =
    UpdateRemote (um_canonical_repo: rstring) (um_remote_id: rstring) (um_title: "rstring option")
      (um_body: "rstring option") (um_closed: "bool option")
  | AddItem (ai_project_node_id: rstring) (ai_issue_node_id: rstring)
  | CreateDraftIssue (cd_project_node_id: rstring) (cd_title: rstring) (cd_body: rstring)
  | UpdateDraftIssue (ud_item_node_id: rstring) (ud_title: "rstring option") (ud_body: "rstring option")
  | ConvertDraftToIssue (cv_item_node_id: rstring) (cv_repo_node_id: rstring)
  | SetProjectStatus (sps_project_node_id: rstring) (sps_item_node_id: rstring)
      (sps_status_field_id: rstring) (sps_option_id: rstring)
  | SetProjectPriority (spp_project_node_id: rstring) (spp_item_node_id: rstring)
      (spp_priority_field_id: rstring) (spp_option_id: rstring)
  | SetProjectType (spt_project_node_id: rstring) (spt_item_node_id: rstring)
      (spt_type_field_id: rstring) (spt_option_id: "rstring option")
      (spt_local_issue_type: "rstring option") (spt_recorded: bool)
  | SetIssueType (sit_issue_node_id: rstring) (sit_issue_type_id: "rstring option")
      (sit_local_issue_type: "rstring option") (sit_recorded: bool)
  | AddSubIssue (asi_parent_canonical: rstring) (asi_parent_remote_id: rstring)
      (asi_child_canonical: rstring) (asi_child_remote_id: rstring)
  | RemoveSubIssue (rsi_parent_canonical: rstring) (rsi_parent_remote_id: rstring)
      (rsi_child_canonical: rstring) (rsi_child_remote_id: rstring)
  | AddBlockedBy (abb_blocked_canonical: rstring) (abb_blocked_remote_id: rstring)
      (abb_blocker_canonical: rstring) (abb_blocker_remote_id: rstring)
  | RemoveBlockedBy (rbb_blocked_canonical: rstring) (rbb_blocked_remote_id: rstring)
      (rbb_blocker_canonical: rstring) (rbb_blocker_remote_id: rstring)

fun kind :: "outbox_mutation \<Rightarrow> rstring" where
  "kind (UpdateRemote _ _ _ _ _) = lit ''update_remote''"
| "kind (AddItem _ _) = lit ''add_item''"
| "kind (CreateDraftIssue _ _ _) = lit ''create_draft_issue''"
| "kind (UpdateDraftIssue _ _ _) = lit ''update_draft_issue''"
| "kind (ConvertDraftToIssue _ _) = lit ''convert_draft_to_issue''"
| "kind (SetProjectStatus _ _ _ _) = lit ''set_project_status''"
| "kind (SetProjectPriority _ _ _ _) = lit ''set_project_priority''"
| "kind (SetProjectType _ _ _ _ _ _) = lit ''set_project_type''"
| "kind (SetIssueType _ _ _ _) = lit ''set_issue_type''"
| "kind (AddSubIssue _ _ _ _) = lit ''add_sub_issue''"
| "kind (RemoveSubIssue _ _ _ _) = lit ''remove_sub_issue''"
| "kind (AddBlockedBy _ _ _ _) = lit ''add_blocked_by''"
| "kind (RemoveBlockedBy _ _ _ _) = lit ''remove_blocked_by''"

datatype outbox_status = Pending | Inflight | Succeeded | Failed

record outbox_entry =
  e_id :: outbox_entry_id
  e_task_id :: task_id
  e_mutation :: outbox_mutation
  e_status :: outbox_status
  e_attempts :: nat
  e_last_error :: "rstring option"
  e_next_attempt_at :: "timestamp option"
  e_enqueued_at :: timestamp
  e_updated_at :: timestamp

definition outbox_entry_new ::
  "outbox_entry_id \<Rightarrow> timestamp \<Rightarrow> task_id \<Rightarrow> outbox_mutation \<Rightarrow> outbox_entry" where
  "outbox_entry_new fresh now tid m =
     \<lparr>e_id = fresh, e_task_id = tid, e_mutation = m, e_status = Pending, e_attempts = 0,
      e_last_error = None, e_next_attempt_at = None, e_enqueued_at = now, e_updated_at = now\<rparr>"

section \<open>Reconciliation (domain-sync/src/policy.rs, filing.rs)\<close>

datatype sync_decision = Noop | PushLocal | PullRemote

datatype conflict_kind =
    LocalEditedRemoteEdited | RemoteDeletedLocalEdited | LocalDeletedRemoteEdited
  | AssigneeMismatch | ProjectStatusMismatch | RelationMismatch | TargetRemapped

fun debug_conflict_kind :: "conflict_kind \<Rightarrow> rstring" where
  "debug_conflict_kind LocalEditedRemoteEdited = lit ''LocalEditedRemoteEdited''"
| "debug_conflict_kind RemoteDeletedLocalEdited = lit ''RemoteDeletedLocalEdited''"
| "debug_conflict_kind LocalDeletedRemoteEdited = lit ''LocalDeletedRemoteEdited''"
| "debug_conflict_kind AssigneeMismatch = lit ''AssigneeMismatch''"
| "debug_conflict_kind ProjectStatusMismatch = lit ''ProjectStatusMismatch''"
| "debug_conflict_kind RelationMismatch = lit ''RelationMismatch''"
| "debug_conflict_kind TargetRemapped = lit ''TargetRemapped''"

fun decide :: "sync_state \<Rightarrow> bool \<Rightarrow> sync_decision" where
  "decide LocalOnly remote_dirty = Noop"
| "decide Staged remote_dirty = PushLocal"
| "decide DirtyLocal remote_dirty = (if remote_dirty then PullRemote else PushLocal)"
| "decide Synced remote_dirty = (if remote_dirty then PullRemote else Noop)"
| "decide DirtyRemote remote_dirty = PullRemote"
| "decide Conflict remote_dirty = PullRemote"

definition resolve_filing_repo ::
  "repo_origin_id option \<Rightarrow> repo_origin_id option \<Rightarrow> repo_origin_id option \<Rightarrow> repo_origin_id option" where
  "resolve_filing_repo explicit_override workspace_default logical_origin =
     or_else (or_else explicit_override workspace_default) logical_origin"

section \<open>Ports (ports/src/error.rs, remote_task.rs)\<close>

datatype port_error =
    NotFound rstring
  | PConflict "rstring option" rstring
  | Backend rstring
  | Network rstring
  | IssueMoved rstring rstring rstring rstring

type_synonym 'a port_result = "port_error + 'a"

fun conflict_target :: "port_error \<Rightarrow> rstring option" where
  "conflict_target (PConflict (Some t) m) = Some t"
| "conflict_target _ = None"

fun port_error_msg :: "port_error \<Rightarrow> rstring" where
  "port_error_msg (NotFound s) = lit ''not found: '' @ s"
| "port_error_msg (PConflict t m) =
     lit ''conflict'' @ (case t of Some x \<Rightarrow> lit '' on '' @ x | None \<Rightarrow> []) @ lit '': '' @ m"
| "port_error_msg (Backend s) = lit ''backend failure: '' @ s"
| "port_error_msg (Network s) = lit ''network failure: '' @ s"
| "port_error_msg (IssueMoved fc fi tc ti) =
     lit ''remote issue '' @ fc @ lit ''#'' @ fi @ lit '' moved to '' @ tc @ lit ''#'' @ ti"

datatype remote_state_reason = RCompleted | RNotPlanned | RDuplicate | RReopened

record remote_task_update =
  u_canonical_repo :: rstring
  u_remote_id :: rstring
  u_title :: "rstring option"
  u_body :: "rstring option"
  u_closed :: "bool option"
  u_state_reason :: "remote_state_reason option"
  u_assignees :: "rstring list option"

record remote_task_snapshot =
  rs_remote_id :: rstring
  rs_node_id :: "rstring option"
  rs_title :: rstring
  rs_body :: rstring
  rs_closed :: bool
  rs_updated_at :: timestamp
  rs_assignees :: "rstring list"
  rs_labels :: "rstring list"

section \<open>Errors of the sync layer (application-sync/src/error.rs)\<close>

datatype sync_error =
    SePort port_error
  | SeDomain domain_error
  | SeBadId rstring
  | SeNoRepo
  | SeNoRemote
  | SeAmbiguousPromoteTarget rstring nat rstring
  | SeArchived

type_synonym 'a sync_result = "sync_error + 'a"

fun domain_error_msg :: "domain_error \<Rightarrow> rstring" where
  "domain_error_msg (InvalidTransition m) = lit ''invalid state transition: '' @ m"
| "domain_error_msg (Validation m) = lit ''validation failed: '' @ m"
| "domain_error_msg (IdError m) = m"

fun sync_error_msg :: "sync_error \<Rightarrow> rstring" where
  "sync_error_msg (SePort e) = port_error_msg e"
| "sync_error_msg (SeDomain e) = domain_error_msg e"
| "sync_error_msg (SeBadId s) = lit ''invalid id: '' @ s"
| "sync_error_msg SeNoRepo = lit ''task is not bound to a repo''"
| "sync_error_msg SeNoRemote = lit ''task has no remote reference; promote it first''"
| "sync_error_msg (SeAmbiguousPromoteTarget repo n issues) =
     lit ''cannot promote: '' @ repo @ lit '' already has '' @ show_nat n @
     lit '' untracked issues matching this task ('' @ issues @
     lit ''); attach the right one with `rl task link` or edit the task so it no longer matches''"
| "sync_error_msg SeArchived = lit ''task is archived; unarchive before syncing''"

section \<open>Projections (application-sync/src/lib.rs)\<close>

definition board_option_for_lifecycle :: "project \<Rightarrow> bool \<Rightarrow> rstring option" where
  "board_option_for_lifecycle p is_op = resolved_option_id_for is_op p"

fun lifecycle_to_remote_state :: "lifecycle \<Rightarrow> bool \<times> remote_state_reason option" where
  "lifecycle_to_remote_state Completed = (True, Some RCompleted)"
| "lifecycle_to_remote_state NotPlanned = (True, Some RNotPlanned)"
| "lifecycle_to_remote_state Reopened = (False, Some RReopened)"
| "lifecycle_to_remote_state Open = (False, None)"

definition remote_state_to_lifecycle :: "bool \<Rightarrow> lifecycle \<Rightarrow> lifecycle" where
  "remote_state_to_lifecycle remote_closed current =
     (case (remote_closed, is_open current) of
        (True, False) \<Rightarrow> current
      | (False, True) \<Rightarrow> current
      | (True, True) \<Rightarrow> Completed
      | (False, False) \<Rightarrow> Reopened)"

definition inbound_mirrors_baseline ::
  "rstring \<Rightarrow> rstring \<Rightarrow> rstring list \<Rightarrow> bool \<Rightarrow> task_snapshot \<Rightarrow> bool" where
  "inbound_mirrors_baseline title body assignees remote_closed b \<longleftrightarrow>
     title = s_title b \<and> body = s_body b \<and> assignees_equal assignees (s_assignees b) \<and>
     remote_closed \<noteq> is_open (s_lifecycle b)"

definition superseded_inbound_fields ::
  "task \<Rightarrow> rstring \<Rightarrow> rstring \<Rightarrow> rstring list \<Rightarrow> bool \<Rightarrow> rstring list" where
  "superseded_inbound_fields t title body assignees closed =
     (if t_title t \<noteq> title then [lit ''title''] else []) @
     (if t_body t \<noteq> body then [lit ''body''] else []) @
     (if t_lifecycle t \<noteq> remote_state_to_lifecycle closed (t_lifecycle t)
      then [lit ''status''] else []) @
     (if \<not> assignees_equal (t_assignees t) assignees then [lit ''assignees''] else [])"

definition copy_inbound_mirror_from_snap ::
  "task \<Rightarrow> rstring \<Rightarrow> rstring \<Rightarrow> rstring list \<Rightarrow> bool \<Rightarrow> task" where
  "copy_inbound_mirror_from_snap t title body assignees closed =
     t\<lparr>t_title := title, t_body := body, t_assignees := assignees,
       t_lifecycle := remote_state_to_lifecycle closed (t_lifecycle t)\<rparr>"

definition build_update_from_patch ::
  "mirror_patch \<Rightarrow> rstring \<Rightarrow> rstring \<Rightarrow> remote_task_update option" where
  "build_update_from_patch p canonical_repo remote_id =
     (if patch_is_empty p then None
      else
        let (closed, reason) =
          (case mp_status p of
             Some s \<Rightarrow> (case lifecycle_to_remote_state s of (c, r) \<Rightarrow> (Some c, r))
           | None \<Rightarrow> (None, None))
        in Some \<lparr>u_canonical_repo = canonical_repo, u_remote_id = remote_id,
             u_title = mp_title p, u_body = mp_body p, u_closed = closed,
             u_state_reason = reason, u_assignees = mp_assignees p\<rparr>)"

section \<open>Helpers of the service (application-sync/src/summary.rs)\<close>

definition ensure_not_archived :: "task \<Rightarrow> unit sync_result" where
  "ensure_not_archived t = (if t_lifecycle t = NotPlanned then Inl SeArchived else Inr ())"

definition remote_mirrors_baseline :: "remote_task_snapshot \<Rightarrow> task_snapshot \<Rightarrow> bool" where
  "remote_mirrors_baseline snap b =
     inbound_mirrors_baseline (rs_title snap) (rs_body snap) (rs_assignees snap) (rs_closed snap) b"

definition provider_label :: "rstring \<Rightarrow> rstring" where
  "provider_label canonical =
     (if starts_with canonical (lit ''github.com/'') then lit ''github'' else lit ''remote'')"

section \<open>Properties\<close>

lemma remote_state_to_lifecycle_open [simp]: "is_open (remote_state_to_lifecycle closed l) \<longleftrightarrow> \<not> closed"
  by (cases l; cases closed) (simp_all add: remote_state_to_lifecycle_def)

lemma remote_state_to_lifecycle_stable:
  "closed \<noteq> is_open l \<Longrightarrow> remote_state_to_lifecycle closed l = l"
  by (cases l; cases closed) (simp_all add: remote_state_to_lifecycle_def)

text \<open>A pull converges in one step: copying the remote fields and adopting them leaves the task
  Synced with nothing to push, its new baseline mirrors that remote state, and pulling the same
  state again would supersede no field.\<close>

theorem inbound_adoption_converges:
  assumes "src \<in> {SrcPush, SrcPull, SrcConflictResolve}"
    "t_sync t \<in> {Synced, Conflict, DirtyLocal, DirtyRemote}"
  shows "\<exists>t' b. adopt_aligned_state now cap src
        (copy_inbound_mirror_from_snap t title body assignees closed) = Inr t' \<and>
      t_sync t' = Synced \<and> patch_is_empty (diff_against_baseline t') \<and>
      t_synced_baseline t' = Some b \<and> inbound_mirrors_baseline title body assignees closed b \<and>
      superseded_inbound_fields t' title body assignees closed = [] \<and>
      remote_state_to_lifecycle closed (t_lifecycle t') = t_lifecycle t'"
  using assms
  by (auto simp: adopt_aligned_state_def copy_inbound_mirror_from_snap_def Let_def touch_def
      snapshot_view_def patch_empty_iff differs_from_iff inbound_mirrors_baseline_def
      superseded_inbound_fields_def remote_state_to_lifecycle_stable)

theorem inbound_adoption_converges_witness:
  "\<exists>t'. adopt_aligned_state 5 6 SrcPull
     (copy_inbound_mirror_from_snap (sample_mirror\<lparr>t_sync := Conflict\<rparr>) (lit ''r'') [] [] True) = Inr t' \<and>
     patch_is_empty (diff_against_baseline t')"
  using inbound_adoption_converges [of SrcPull "sample_mirror\<lparr>t_sync := Conflict\<rparr>" 5 6 "lit ''r''" "[]" "[]" True]
  by auto

text \<open>The close state survives the round trip to the remote, and the outbound update carries
  exactly the patched fields: there is an update iff the patch is non-empty, reading its state
  back keeps the lifecycle, and the pair sent distinguishes all four lifecycles.\<close>

theorem outbound_projection_roundtrip:
  "(build_update_from_patch p repo rid = None \<longleftrightarrow> patch_is_empty p) \<and>
   (\<forall>u. build_update_from_patch p repo rid = Some u \<longrightarrow>
      u_canonical_repo u = repo \<and> u_remote_id u = rid \<and> u_title u = mp_title p \<and> u_body u = mp_body p \<and>
      u_assignees u = mp_assignees p \<and> (u_closed u = None \<longleftrightarrow> mp_status p = None) \<and>
      (\<forall>l. mp_status p = Some l \<longrightarrow>
         (\<exists>c. u_closed u = Some c \<and> lifecycle_to_remote_state l = (c, u_state_reason u) \<and>
              remote_state_to_lifecycle c l = l))) \<and>
   inj lifecycle_to_remote_state"
proof (intro conjI)
  have stable: "remote_state_to_lifecycle (fst (lifecycle_to_remote_state l)) l = l" for l
    by (cases l) (simp_all add: remote_state_to_lifecycle_def)
  show "build_update_from_patch p repo rid = None \<longleftrightarrow> patch_is_empty p"
    by (simp add: build_update_from_patch_def split: prod.splits)
  show "\<forall>u. build_update_from_patch p repo rid = Some u \<longrightarrow>
      u_canonical_repo u = repo \<and> u_remote_id u = rid \<and> u_title u = mp_title p \<and> u_body u = mp_body p \<and>
      u_assignees u = mp_assignees p \<and> (u_closed u = None \<longleftrightarrow> mp_status p = None) \<and>
      (\<forall>l. mp_status p = Some l \<longrightarrow>
         (\<exists>c. u_closed u = Some c \<and> lifecycle_to_remote_state l = (c, u_state_reason u) \<and>
              remote_state_to_lifecycle c l = l))"
    using stable
    by (auto simp: build_update_from_patch_def split: prod.splits if_splits option.splits)
      (metis fst_conv)
  show "inj lifecycle_to_remote_state"
  proof (rule injI)
    fix a b assume "lifecycle_to_remote_state a = lifecycle_to_remote_state b"
    then show "a = b" by (cases a; cases b) simp_all
  qed
qed

theorem outbound_projection_roundtrip_witness:
  "\<exists>u. build_update_from_patch (default_patch\<lparr>mp_status := Some Reopened\<rparr>) (lit ''r'') (lit ''1'') = Some u \<and>
     u_closed u = Some False \<and> u_state_reason u = Some RReopened"
proof -
  let ?p = "default_patch\<lparr>mp_status := Some Reopened\<rparr>"
  obtain u where "build_update_from_patch ?p (lit ''r'') (lit ''1'') = Some u"
    using outbound_projection_roundtrip [of ?p "lit ''r''" "lit ''1''"]
    by (auto simp: patch_is_empty_def default_patch_def)
  then show ?thesis using outbound_projection_roundtrip [of ?p "lit ''r''" "lit ''1''"] by auto
qed

end
