(* ===== verification/OutboxStore.thy ===== *)
theory OutboxStore
  imports SyncTypes
begin

text \<open>
  The outbox queue: the contract of the port \<open>OutboxRepository\<close> (\<open>ports/src/outbox.rs\<close>) as a
  locale, and its SQLite implementation (\<open>infra-sqlite/src/outbox_repo.rs\<close>) on the table
  \<open>outbox_entries\<close>, a list of rows in \<open>rowid\<close> order.  Each method is one transaction under the
  writer lock.  The payload column is the JSON encoding of the mutation, so equal payloads are
  equal mutations.  \<open>clk\<close> is the clock a statement reads.
\<close>

section \<open>The statements (outbox_repo.rs)\<close>

definition insert_outbox_in_tx :: "outbox_entry \<Rightarrow> outbox_entry list \<Rightarrow> outbox_entry list" where
  "insert_outbox_in_tx e tbl =
     (if kind (e_mutation e) \<notin> {lit ''set_issue_type'', lit ''set_project_type''} \<or>
        \<not> list_ex (\<lambda>s. e_task_id s = e_task_id e \<and> kind (e_mutation s) = kind (e_mutation e) \<and>
             (e_status s \<in> {Pending, Inflight} \<or>
              e_status s = Failed \<and> e_mutation s = e_mutation e)) tbl
      then tbl @ [e] else tbl)"

definition enqueue_entry :: "outbox_entry \<Rightarrow> outbox_entry list \<Rightarrow> outbox_entry list" where
  "enqueue_entry e tbl = insert_outbox_in_tx e tbl"

definition enqueue_if_absent ::
  "outbox_entry \<Rightarrow> outbox_entry list \<Rightarrow> bool \<times> outbox_entry list" where
  "enqueue_if_absent e tbl =
     (if \<not> list_ex (\<lambda>s. e_task_id s = e_task_id e \<and> e_status s \<in> {Pending, Inflight, Failed}) tbl
      then (True, tbl @ [e]) else (False, tbl))"

text \<open>The \<open>WHERE\<close> clause of the claim; rows are paired with their \<open>rowid\<close>.\<close>

definition blocks_claim :: "nat \<times> outbox_entry \<Rightarrow> nat \<times> outbox_entry \<Rightarrow> bool" where
  "blocks_claim row sib \<longleftrightarrow>
     e_task_id (snd sib) = e_task_id (snd row) \<and>
     (e_status (snd sib) = Inflight \<or>
      e_status (snd sib) = Pending \<and>
        (e_enqueued_at (snd sib) < e_enqueued_at (snd row) \<or>
         e_enqueued_at (snd sib) = e_enqueued_at (snd row) \<and> fst sib < fst row))"

definition claimable :: "timestamp \<Rightarrow> outbox_entry list \<Rightarrow> nat \<times> outbox_entry \<Rightarrow> bool" where
  "claimable now tbl row \<longleftrightarrow>
     e_status (snd row) = Pending \<and>
     (case e_next_attempt_at (snd row) of None \<Rightarrow> True | Some t \<Rightarrow> t \<le> now) \<and>
     \<not> list_ex (blocks_claim row) (enumerate 0 tbl)"

definition claim_next_eligible ::
  "timestamp \<Rightarrow> timestamp \<Rightarrow> outbox_entry list \<Rightarrow> outbox_entry option \<times> outbox_entry list" where
  "claim_next_eligible now flip_at tbl =
     (case sort_key (\<lambda>row. e_enqueued_at (snd row)) (filter (claimable now tbl) (enumerate 0 tbl)) of
        [] \<Rightarrow> (None, tbl)
      | row # _ \<Rightarrow>
          (Some ((snd row)\<lparr>e_status := Inflight, e_updated_at := flip_at\<rparr>),
           update_where (\<lambda>x. e_id x = e_id (snd row))
             (\<lambda>x. x\<lparr>e_status := Inflight, e_updated_at := flip_at\<rparr>) tbl))"

definition mark_succeeded ::
  "timestamp \<Rightarrow> outbox_entry_id \<Rightarrow> outbox_entry list \<Rightarrow> outbox_entry list" where
  "mark_succeeded clk i tbl =
     update_where (\<lambda>x. e_id x = i)
       (\<lambda>x. x\<lparr>e_status := Succeeded, e_last_error := None, e_updated_at := clk\<rparr>) tbl"

definition mark_failed ::
  "timestamp \<Rightarrow> outbox_entry_id \<Rightarrow> rstring \<Rightarrow> outbox_entry list \<Rightarrow> outbox_entry list" where
  "mark_failed clk i err tbl =
     update_where (\<lambda>x. e_id x = i)
       (\<lambda>x. x\<lparr>e_status := Failed, e_last_error := Some err, e_attempts := e_attempts x + 1,
              e_updated_at := clk\<rparr>) tbl"

definition record_retry ::
  "timestamp \<Rightarrow> outbox_entry_id \<Rightarrow> rstring \<Rightarrow> timestamp \<Rightarrow> outbox_entry list \<Rightarrow> outbox_entry list" where
  "record_retry clk i err next_at tbl =
     update_where (\<lambda>x. e_id x = i)
       (\<lambda>x. x\<lparr>e_status := Pending, e_last_error := Some err, e_attempts := e_attempts x + 1,
              e_next_attempt_at := Some next_at, e_updated_at := clk\<rparr>) tbl"

definition requeue_orphaned_inflight ::
  "timestamp \<Rightarrow> outbox_entry list \<Rightarrow> nat \<times> outbox_entry list" where
  "requeue_orphaned_inflight clk tbl =
     (length (filter (\<lambda>x. e_status x = Inflight) tbl),
      update_where (\<lambda>x. e_status x = Inflight)
        (\<lambda>x. x\<lparr>e_status := Pending, e_next_attempt_at := None, e_updated_at := clk\<rparr>) tbl)"

definition list_pending :: "task_id \<Rightarrow> outbox_entry list \<Rightarrow> outbox_entry list" where
  "list_pending tid tbl =
     sort_key e_enqueued_at (filter (\<lambda>x. e_task_id x = tid \<and> e_status x = Pending) tbl)"

definition delete_pending_add_items ::
  "task_id \<Rightarrow> outbox_entry list \<Rightarrow> nat \<times> outbox_entry list" where
  "delete_pending_add_items tid tbl =
     (let gone = (\<lambda>x. e_task_id x = tid \<and> e_status x = Pending \<and>
                      kind (e_mutation x) = lit ''add_item'')
      in (length (filter gone tbl), filter (\<lambda>x. \<not> gone x) tbl))"

definition list_failed :: "task_id \<Rightarrow> outbox_entry list \<Rightarrow> outbox_entry list" where
  "list_failed tid tbl =
     sort_key (\<lambda>x. - e_updated_at x) (filter (\<lambda>x. e_task_id x = tid \<and> e_status x = Failed) tbl)"

definition list_dead_lettered :: "outbox_entry list \<Rightarrow> outbox_entry list" where
  "list_dead_lettered tbl = sort_key (\<lambda>x. - e_updated_at x) (filter (\<lambda>x. e_status x = Failed) tbl)"

section \<open>The contract of the queue (ports/src/outbox.rs)\<close>

text \<open>
  What the drainer relies on, whatever the storage: \<open>rows\<close> are the entries in the queue.  A claim
  takes a pending entry whose task has nothing in flight and no older pending entry, and marks
  it; the resolving calls rewrite the entry with the given id; a start-up requeue touches only
  in-flight entries; an enqueue adds at most the given entry.
\<close>

locale outbox_queue =
  fixes rows :: "'s \<Rightarrow> outbox_entry list"
    and enqueue :: "outbox_entry \<Rightarrow> 's \<Rightarrow> 's"
    and claim :: "timestamp \<Rightarrow> timestamp \<Rightarrow> 's \<Rightarrow> outbox_entry option \<times> 's"
    and succeed :: "timestamp \<Rightarrow> outbox_entry_id \<Rightarrow> 's \<Rightarrow> 's"
    and dead_letter :: "timestamp \<Rightarrow> outbox_entry_id \<Rightarrow> rstring \<Rightarrow> 's \<Rightarrow> 's"
    and retry :: "timestamp \<Rightarrow> outbox_entry_id \<Rightarrow> rstring \<Rightarrow> timestamp \<Rightarrow> 's \<Rightarrow> 's"
    and requeue :: "timestamp \<Rightarrow> 's \<Rightarrow> 's"
  assumes rows_enqueue: "rows (enqueue e s) \<in> {rows s, rows s @ [e]}"
    and claim_None: "claim now fl s = (None, s') \<Longrightarrow> s' = s"
    and claim_Some: "claim now fl s = (Some e, s') \<Longrightarrow>
      \<exists>i. i < length (rows s) \<and> e_status (rows s ! i) = Pending \<and>
        e = (rows s ! i)\<lparr>e_status := Inflight, e_updated_at := fl\<rparr> \<and>
        (\<forall>j < length (rows s). e_task_id (rows s ! j) = e_task_id e \<longrightarrow>
           e_status (rows s ! j) \<noteq> Inflight) \<and>
        rows s' = update_where (\<lambda>x. e_id x = e_id e)
          (\<lambda>x. x\<lparr>e_status := Inflight, e_updated_at := fl\<rparr>) (rows s)"
    and rows_succeed: "rows (succeed clk i s) = update_where (\<lambda>x. e_id x = i)
      (\<lambda>x. x\<lparr>e_status := Succeeded, e_last_error := None, e_updated_at := clk\<rparr>) (rows s)"
    and rows_dead_letter: "rows (dead_letter clk i err s) = update_where (\<lambda>x. e_id x = i)
      (\<lambda>x. x\<lparr>e_status := Failed, e_last_error := Some err, e_attempts := e_attempts x + 1,
              e_updated_at := clk\<rparr>) (rows s)"
    and rows_retry: "rows (retry clk i err nxt s) = update_where (\<lambda>x. e_id x = i)
      (\<lambda>x. x\<lparr>e_status := Pending, e_last_error := Some err, e_attempts := e_attempts x + 1,
              e_next_attempt_at := Some nxt, e_updated_at := clk\<rparr>) (rows s)"
    and rows_requeue: "rows (requeue clk s) = update_where (\<lambda>x. e_status x = Inflight)
      (\<lambda>x. x\<lparr>e_status := Pending, e_next_attempt_at := None, e_updated_at := clk\<rparr>) (rows s)"

text \<open>At most one entry of a task is in flight, and entry ids are unique.\<close>

definition serial_rows :: "outbox_entry list \<Rightarrow> bool" where
  "serial_rows es \<longleftrightarrow> distinct (map e_id es) \<and>
     (\<forall>x \<in> set es. \<forall>y \<in> set es. e_status x = Inflight \<longrightarrow> e_status y = Inflight \<longrightarrow>
        e_task_id x = e_task_id y \<longrightarrow> x = y)"

lemma serial_rows_distinct: "serial_rows es \<Longrightarrow> distinct (map e_id es)"
  by (simp add: serial_rows_def)

text \<open>An update that keeps ids and tasks and puts nothing in flight keeps the rows serial.\<close>

lemma serial_rows_update:
  assumes "serial_rows es" "\<And>x. e_id (f x) = e_id x" "\<And>x. e_status (f x) \<noteq> Inflight"
  shows "serial_rows (update_where P f es)"
  using assms
  by (auto simp: serial_rows_def map_update_where set_update_where split: if_splits)

lemma serial_rows_append:
  "serial_rows es \<Longrightarrow> e_status e \<noteq> Inflight \<Longrightarrow> e_id e \<notin> e_id ` set es \<Longrightarrow> serial_rows (es @ [e])"
  by (auto simp: serial_rows_def)

lemma serial_rows_claim:
  assumes "serial_rows es" "e0 \<in> set es"
    "\<And>x. x \<in> set es \<Longrightarrow> e_task_id x = e_task_id e0 \<Longrightarrow> e_status x \<noteq> Inflight"
  shows "serial_rows (update_where (\<lambda>x. e_id x = e_id e0)
    (\<lambda>x. x\<lparr>e_status := Inflight, e_updated_at := fl\<rparr>) es)"
proof -
  let ?e = "e0\<lparr>e_status := Inflight, e_updated_at := fl\<rparr>"
  let ?es = "update_where (\<lambda>x. e_id x = e_id e0)
    (\<lambda>x. x\<lparr>e_status := Inflight, e_updated_at := fl\<rparr>) es"
  have uniq: "x = e0" if "x \<in> set es" "e_id x = e_id e0" for x
    using assms(1,2) that by (auto simp: serial_rows_def intro: distinct_map_key_unique)
  have sub: "x = ?e \<or> x \<in> set es" if "x \<in> set ?es" for x
    using that uniq by (auto simp: set_update_where split: if_splits)
  have e: "e_task_id ?e = e_task_id e0" by simp
  have idle: "e_task_id x \<noteq> e_task_id ?e" if "x \<in> set es" "e_status x = Inflight" for x
    using assms(3) [OF that(1)] that(2) e by metis
  have same: "x = y" if "x \<in> set es" "y \<in> set es" "e_status x = Inflight" "e_status y = Inflight"
    "e_task_id x = e_task_id y" for x y
    using assms(1) that unfolding serial_rows_def by blast
  have "x = y" if "x \<in> set ?es" "y \<in> set ?es" "e_status x = Inflight" "e_status y = Inflight"
    "e_task_id x = e_task_id y" for x y
    using sub [OF that(1)] sub [OF that(2)] idle same that(3,4,5) by metis
  moreover have "distinct (map e_id ?es)"
    using assms(1) by (simp add: serial_rows_def map_update_where)
  ultimately show ?thesis unfolding serial_rows_def by blast
qed

context outbox_queue
begin

lemma claim_Some_row:
  assumes "claim now fl s = (Some e, s')"
  obtains e0 where "e0 \<in> set (rows s)" "e_status e0 = Pending"
    "e = e0\<lparr>e_status := Inflight, e_updated_at := fl\<rparr>"
    "\<And>x. x \<in> set (rows s) \<Longrightarrow> e_task_id x = e_task_id e0 \<Longrightarrow> e_status x \<noteq> Inflight"
    "rows s' = update_where (\<lambda>x. e_id x = e_id e0)
       (\<lambda>x. x\<lparr>e_status := Inflight, e_updated_at := fl\<rparr>) (rows s)"
proof -
  from claim_Some [OF assms] obtain i where i: "i < length (rows s)" "e_status (rows s ! i) = Pending"
    "e = (rows s ! i)\<lparr>e_status := Inflight, e_updated_at := fl\<rparr>"
    "\<forall>j < length (rows s). e_task_id (rows s ! j) = e_task_id e \<longrightarrow> e_status (rows s ! j) \<noteq> Inflight"
    "rows s' = update_where (\<lambda>x. e_id x = e_id e)
       (\<lambda>x. x\<lparr>e_status := Inflight, e_updated_at := fl\<rparr>) (rows s)"
    by blast
  have "e_status x \<noteq> Inflight" if "x \<in> set (rows s)" "e_task_id x = e_task_id (rows s ! i)" for x
    using that i(3,4) by (auto simp: in_set_conv_nth)
  with i show thesis by (intro that [of "rows s ! i"]) auto
qed

lemma serial_enqueue:
  "serial_rows (rows s) \<Longrightarrow> e_status e \<noteq> Inflight \<Longrightarrow> e_id e \<notin> e_id ` set (rows s) \<Longrightarrow>
     serial_rows (rows (enqueue e s))"
  using rows_enqueue [of e s] serial_rows_append [of "rows s" e] by auto

lemma serial_claim: "serial_rows (rows s) \<Longrightarrow> serial_rows (rows (snd (claim now fl s)))"
proof (cases "claim now fl s")
  case (Pair r s')
  assume ser: "serial_rows (rows s)"
  show ?thesis
  proof (cases r)
    case None
    with Pair ser claim_None show ?thesis by auto
  next
    case (Some e)
    with Pair have "claim now fl s = (Some e, s')" by simp
    from claim_Some_row [OF this] ser serial_rows_claim Pair show ?thesis by (metis snd_conv)
  qed
qed

lemma serial_resolve:
  assumes "serial_rows (rows s)"
  shows "serial_rows (rows (succeed clk i s))" "serial_rows (rows (dead_letter clk i err s))"
    "serial_rows (rows (retry clk i err nxt s))" "serial_rows (rows (requeue clk s))"
  using assms
  by (simp_all add: rows_succeed rows_dead_letter rows_retry rows_requeue serial_rows_update)

end

section \<open>The table implements the contract\<close>

lemma set_enumerate: "(i, x) \<in> set (enumerate 0 xs) \<longleftrightarrow> i < length xs \<and> x = xs ! i"
  by (auto simp: in_set_enumerate_eq)

definition queued_before :: "outbox_entry list \<Rightarrow> nat \<Rightarrow> nat \<Rightarrow> bool" where
  "queued_before tbl j i \<longleftrightarrow> e_enqueued_at (tbl ! j) < e_enqueued_at (tbl ! i) \<or>
     e_enqueued_at (tbl ! j) = e_enqueued_at (tbl ! i) \<and> j < i"

text \<open>The head of a stable sort is the first of the least.\<close>

lemma sort_key_head:
  assumes "sort_key f xs = x # rest" "y \<in> set xs"
  shows "f x \<le> f y \<and> (f y = f x \<longrightarrow> (\<exists>ys. filter (\<lambda>z. f z = f x) xs = x # ys))"
proof -
  have "sorted (map f (x # rest))" "y \<in> set (x # rest)"
    using assms sorted_sort_key [of f xs] set_sort [of f xs] by simp_all
  moreover have "filter (\<lambda>z. f z = f x) xs = x # filter (\<lambda>z. f z = f x) rest"
    using sort_key_stable [of f "f x" xs] assms(1) by simp
  ultimately show ?thesis by auto
qed

lemma claim_next_eligible_Some:
  assumes "claim_next_eligible now fl tbl = (Some e, tbl')"
  obtains i where "i < length tbl" "claimable now tbl (i, tbl ! i)"
    "e = (tbl ! i)\<lparr>e_status := Inflight, e_updated_at := fl\<rparr>"
    "tbl' = update_where (\<lambda>x. e_id x = e_id (tbl ! i)) (\<lambda>x. x\<lparr>e_status := Inflight, e_updated_at := fl\<rparr>) tbl"
    "\<forall>j < length tbl. claimable now tbl (j, tbl ! j) \<longrightarrow> \<not> queued_before tbl j i"
proof -
  let ?f = "\<lambda>row. e_enqueued_at (snd row)" and ?rows = "filter (claimable now tbl) (enumerate 0 tbl)"
  obtain row rest where srt: "sort_key ?f ?rows = row # rest"
    using assms by (auto simp: claim_next_eligible_def split: list.splits)
  obtain i x where ix: "row = (i, x)" by force
  have "row \<in> set ?rows" using srt by (metis list.set_intros(1) set_sort)
  then have "(i, x) \<in> set (enumerate 0 tbl)" "claimable now tbl (i, x)" by (simp_all only: ix set_filter mem_Collect_eq)
  then have row: "i < length tbl" "row = (i, tbl ! i)" "claimable now tbl (i, tbl ! i)"
    by (simp_all only: set_enumerate ix)
  have first: "\<not> queued_before tbl j i" if j: "j < length tbl" "claimable now tbl (j, tbl ! j)" for j
  proof -
    have mem: "(j, tbl ! j) \<in> set ?rows" using j by (simp add: set_enumerate)
    note head = sort_key_head [OF srt mem]
    have "i \<le> j" if same: "e_enqueued_at (tbl ! j) = e_enqueued_at (snd row)"
    proof -
      obtain ys where ys: "filter (\<lambda>z. ?f z = ?f row) ?rows = row # ys" using head same by auto
      have "sorted (map fst (filter (\<lambda>z. ?f z = ?f row) ?rows))"
        by (intro sorted_filter) (simp add: sorted_filter)
      moreover have "(j, tbl ! j) \<in> set (filter (\<lambda>z. ?f z = ?f row) ?rows)" using mem same by simp
      ultimately show ?thesis unfolding ys by (auto simp: row(2))
    qed
    with head show ?thesis by (auto simp: queued_before_def row(2))
  qed
  show thesis
    by (rule that [OF row(1,3)]) (use assms srt first in \<open>simp_all add: claim_next_eligible_def row(2)\<close>)
qed

lemma claim_next_eligible_None:
  "claim_next_eligible now fl tbl = (None, tbl') \<longleftrightarrow>
     tbl' = tbl \<and> (\<forall>i < length tbl. \<not> claimable now tbl (i, tbl ! i))"
proof -
  have "sort_key (\<lambda>row. e_enqueued_at (snd row)) (filter (claimable now tbl) (enumerate 0 tbl)) = [] \<longleftrightarrow>
    filter (claimable now tbl) (enumerate 0 tbl) = []"
    by (metis set_empty set_sort)
  also have "\<dots> \<longleftrightarrow> (\<forall>i < length tbl. \<not> claimable now tbl (i, tbl ! i))"
    by (auto simp: filter_empty_conv set_enumerate)
  finally show ?thesis
    unfolding claim_next_eligible_def by (auto split: list.splits)
qed

lemma claimable_Pending: "claimable now tbl (i, x) \<Longrightarrow> e_status x = Pending"
  by (simp add: claimable_def)

lemma claimable_no_inflight_sibling:
  assumes "claimable now tbl (i, x)" "j < length tbl" "e_task_id (tbl ! j) = e_task_id x"
  shows "e_status (tbl ! j) \<noteq> Inflight"
proof -
  have "(j, tbl ! j) \<in> set (enumerate 0 tbl)" using assms(2) by (simp add: set_enumerate)
  then show ?thesis using assms(1,3) by (force simp: claimable_def blocks_claim_def list_ex_iff)
qed

interpretation sqlite_outbox: outbox_queue "\<lambda>tbl. tbl" enqueue_entry claim_next_eligible
  mark_succeeded mark_failed record_retry "\<lambda>clk tbl. snd (requeue_orphaned_inflight clk tbl)"
proof
  fix now fl :: timestamp and s s' :: "outbox_entry list" and e
  show "enqueue_entry e s \<in> {s, s @ [e]}" by (auto simp: enqueue_entry_def insert_outbox_in_tx_def)
  show "claim_next_eligible now fl s = (None, s') \<Longrightarrow> s' = s" by (simp add: claim_next_eligible_None)
  assume "claim_next_eligible now fl s = (Some e, s')"
  then obtain i where "i < length s" "claimable now s (i, s ! i)"
    "e = (s ! i)\<lparr>e_status := Inflight, e_updated_at := fl\<rparr>"
    "s' = update_where (\<lambda>x. e_id x = e_id (s ! i)) (\<lambda>x. x\<lparr>e_status := Inflight, e_updated_at := fl\<rparr>) s"
    by (rule claim_next_eligible_Some)
  then show "\<exists>i. i < length s \<and> e_status (s ! i) = Pending \<and>
    e = (s ! i)\<lparr>e_status := Inflight, e_updated_at := fl\<rparr> \<and>
    (\<forall>j < length s. e_task_id (s ! j) = e_task_id e \<longrightarrow> e_status (s ! j) \<noteq> Inflight) \<and>
    s' = update_where (\<lambda>x. e_id x = e_id e) (\<lambda>x. x\<lparr>e_status := Inflight, e_updated_at := fl\<rparr>) s"
    by (intro exI [of _ i]) (auto dest: claimable_no_inflight_sibling claimable_Pending)
qed (simp_all add: mark_succeeded_def mark_failed_def record_retry_def requeue_orphaned_inflight_def)

section \<open>First in, first out per task\<close>

lemma claimable_iff:
  "claimable now tbl (i, x) \<longleftrightarrow> e_status x = Pending \<and>
     (\<forall>t. e_next_attempt_at x = Some t \<longrightarrow> t \<le> now) \<and>
     (\<forall>j < length tbl. \<not> blocks_claim (i, x) (j, tbl ! j))"
  by (auto simp: claimable_def list_ex_iff set_enumerate split: option.splits)

text \<open>What makes an entry eligible, read off the queue: pending, past its backoff window, nothing of its
  task in flight, and every entry of its task queued before it terminal.\<close>

definition ready :: "timestamp \<Rightarrow> outbox_entry list \<Rightarrow> nat \<Rightarrow> bool" where
  "ready now tbl i \<longleftrightarrow> e_status (tbl ! i) = Pending \<and> (\<forall>t. e_next_attempt_at (tbl ! i) = Some t \<longrightarrow> t \<le> now) \<and>
     (\<forall>j < length tbl. e_task_id (tbl ! j) = e_task_id (tbl ! i) \<longrightarrow> e_status (tbl ! j) \<noteq> Inflight \<and>
        (queued_before tbl j i \<longrightarrow> e_status (tbl ! j) \<in> {Succeeded, Failed}))"

lemma claimable_ready: "claimable now tbl (i, tbl ! i) \<longleftrightarrow> ready now tbl i"
proof -
  have "\<not> blocks_claim (i, tbl ! i) (j, tbl ! j) \<longleftrightarrow> (e_task_id (tbl ! j) = e_task_id (tbl ! i) \<longrightarrow> e_status (tbl ! j) \<noteq> Inflight \<and>
      (queued_before tbl j i \<longrightarrow> e_status (tbl ! j) \<in> {Succeeded, Failed}))" if "e_status (tbl ! i) = Pending" for j
    using that by (cases "e_status (tbl ! j)") (auto simp: blocks_claim_def queued_before_def)
  then show ?thesis unfolding claimable_iff ready_def by blast
qed

text \<open>C27 What a claim hands out.  It returns nothing, and changes nothing, exactly when no entry is eligible;
  otherwise the eligible entry that comes first in the queue, by enqueue time and then insertion
  order, over all tasks, and no other row changes.  Eligible is an entry that is pending and past its
  backoff window, with nothing of its task in flight and every entry of its task queued before it
  terminal.  So a task's mutations are applied in the order they were enqueued, even when the head
  is backing off, and the oldest work that can be done is done first.\<close>

theorem claim_respects_fifo:
  assumes "distinct (map e_id tbl)"
  shows "case claim_next_eligible now fl tbl of
      (None, tbl') \<Rightarrow> tbl' = tbl \<and> (\<forall>i < length tbl. \<not> ready now tbl i)
    | (Some e, tbl') \<Rightarrow> \<exists>i < length tbl. ready now tbl i \<and>
        (\<forall>j < length tbl. ready now tbl j \<longrightarrow> \<not> queued_before tbl j i) \<and>
        e = (tbl ! i)\<lparr>e_status := Inflight, e_updated_at := fl\<rparr> \<and> tbl' = tbl[i := e]"
proof (cases "claim_next_eligible now fl tbl")
  case (Pair c tbl')
  show ?thesis
  proof (cases c)
    case None
    with Pair have "tbl' = tbl \<and> (\<forall>i < length tbl. \<not> ready now tbl i)"
      by (simp add: claim_next_eligible_None claimable_ready)
    with Pair None show ?thesis by simp
  next
    case (Some e)
    with Pair have "claim_next_eligible now fl tbl = (Some e, tbl')" by simp
    then obtain i where i: "i < length tbl" "claimable now tbl (i, tbl ! i)"
      "e = (tbl ! i)\<lparr>e_status := Inflight, e_updated_at := fl\<rparr>"
      "tbl' = update_where (\<lambda>x. e_id x = e_id (tbl ! i)) (\<lambda>x. x\<lparr>e_status := Inflight, e_updated_at := fl\<rparr>) tbl"
      "\<forall>j < length tbl. claimable now tbl (j, tbl ! j) \<longrightarrow> \<not> queued_before tbl j i"
      by (rule claim_next_eligible_Some)
    have inj: "e_id (tbl ! j) = e_id (tbl ! i) \<longleftrightarrow> j = i" if "j < length tbl" for j
      using nth_eq_iff_index_eq [OF assms, of j i] that i(1) by simp
    have "tbl' = tbl[i := e]"
      by (rule nth_equalityI) (auto simp: i(3,4) update_where_def inj nth_list_update)
    with i Some Pair show ?thesis by (auto simp: claimable_ready)
  qed
qed

definition sample_entry :: "nat \<Rightarrow> task_id \<Rightarrow> outbox_entry" where
  "sample_entry n tid = outbox_entry_new n (int n) tid (AddItem [] [])"

theorem claim_respects_fifo_witness:
  "\<exists>e tbl'. claim_next_eligible 9 9 [sample_entry 2 5, sample_entry 1 6] = (Some e, tbl') \<and> e_task_id e = 6"
proof -
  let ?tbl = "[sample_entry 2 5, sample_entry 1 6]"
  have rows: "distinct (map e_id ?tbl)" "ready 9 ?tbl 0" "ready 9 ?tbl 1" "queued_before ?tbl 1 0"
    by (auto simp: sample_entry_def outbox_entry_new_def ready_def queued_before_def less_Suc_eq)
  obtain c tbl' where c: "claim_next_eligible 9 9 ?tbl = (c, tbl')" by force
  note first = claim_respects_fifo [OF rows(1), of 9 9, unfolded c prod.case]
  show ?thesis
  proof (cases c)
    case None
    then have "\<forall>i < length ?tbl. \<not> ready 9 ?tbl i" using first by simp
    with rows(2) show ?thesis by auto
  next
    case (Some e)
    then obtain i where i: "i < length ?tbl" "\<forall>j < length ?tbl. ready 9 ?tbl j \<longrightarrow> \<not> queued_before ?tbl j i"
      "e = (?tbl ! i)\<lparr>e_status := Inflight, e_updated_at := 9\<rparr>" using first by auto
    have "\<not> queued_before ?tbl 1 i" using i(2) rows(3) by simp
    with rows(4) have "i \<noteq> 0" by metis
    with i(1) have "i = 1" by simp
    with i(3) c Some show ?thesis by (simp add: sample_entry_def outbox_entry_new_def)
  qed
qed

text \<open>Parallel across tasks: a claim comes back empty only when no task is ready.  If some
  task has nothing in flight and its oldest pending entry is past its backoff window, a claim
  returns an entry, however stuck the heads of the other tasks are.\<close>

theorem claim_not_blocked_by_other_tasks:
  assumes "i < length tbl" "e_status (tbl ! i) = Pending"
    "\<forall>t. e_next_attempt_at (tbl ! i) = Some t \<longrightarrow> t \<le> now"
    "\<forall>j < length tbl. e_task_id (tbl ! j) = e_task_id (tbl ! i) \<longrightarrow> e_status (tbl ! j) \<noteq> Inflight"
    "\<forall>j < length tbl. e_task_id (tbl ! j) = e_task_id (tbl ! i) \<longrightarrow> e_status (tbl ! j) = Pending \<longrightarrow>
       \<not> queued_before tbl j i"
  shows "\<exists>e. fst (claim_next_eligible now fl tbl) = Some e"
proof (rule ccontr)
  assume "\<not> ?thesis"
  then obtain tbl' where "claim_next_eligible now fl tbl = (None, tbl')"
    by (cases "claim_next_eligible now fl tbl") auto
  then have "\<not> claimable now tbl (i, tbl ! i)" using assms(1) by (simp add: claim_next_eligible_None)
  with assms show False by (auto simp: claimable_iff blocks_claim_def queued_before_def)
qed

theorem claim_not_blocked_by_other_tasks_witness:
  "\<exists>e. fst (claim_next_eligible 5 5
     [(sample_entry 1 7)\<lparr>e_next_attempt_at := Some 100\<rparr>, sample_entry 2 8]) = Some e"
  by (rule claim_not_blocked_by_other_tasks [of 1])
    (auto simp: sample_entry_def outbox_entry_new_def queued_before_def less_Suc_eq)

section \<open>Reachable queues\<close>

text \<open>
  Everything the program does to the table: enqueuing fresh entries, the guarded enqueue of the
  start-up reconcile, claims, resolving the entry in hand, the start-up requeue and the detach
  scrub.
\<close>

inductive outbox_step :: "outbox_entry list \<Rightarrow> outbox_entry list \<Rightarrow> bool" where
  enq: "e_status e = Pending \<Longrightarrow> e_id e \<notin> e_id ` set tbl \<Longrightarrow> outbox_step tbl (enqueue_entry e tbl)"
| enq_absent: "e_status e = Pending \<Longrightarrow> e_id e \<notin> e_id ` set tbl \<Longrightarrow>
    outbox_step tbl (snd (enqueue_if_absent e tbl))"
| claimed: "outbox_step tbl (snd (claim_next_eligible now fl tbl))"
| succeeded: "outbox_step tbl (mark_succeeded clk i tbl)"
| failed: "outbox_step tbl (mark_failed clk i err tbl)"
| retried: "x \<in> set tbl \<Longrightarrow> e_status x = Inflight \<Longrightarrow> outbox_step tbl (record_retry clk (e_id x) err nxt tbl)"
| requeued: "outbox_step tbl (snd (requeue_orphaned_inflight clk tbl))"
| scrubbed: "outbox_step tbl (snd (delete_pending_add_items tid tbl))"

definition live :: "outbox_entry \<Rightarrow> bool" where
  "live e \<longleftrightarrow> e_status e \<in> {Pending, Inflight}"

definition type_projection :: "outbox_entry \<Rightarrow> bool" where
  "type_projection e \<longleftrightarrow> kind (e_mutation e) \<in> {lit ''set_issue_type'', lit ''set_project_type''}"

text \<open>At most one live type projection of a kind per task.\<close>

definition type_unique :: "outbox_entry list \<Rightarrow> bool" where
  "type_unique tbl \<longleftrightarrow>
     (\<forall>x \<in> set tbl. \<forall>y \<in> set tbl. live x \<longrightarrow> live y \<longrightarrow> type_projection x \<longrightarrow>
        e_task_id x = e_task_id y \<longrightarrow> kind (e_mutation x) = kind (e_mutation y) \<longrightarrow> e_id x = e_id y)"

text \<open>An update that keeps id, task and mutation and revives no terminal row.\<close>

lemma type_unique_update:
  assumes "type_unique tbl"
    "\<And>x. e_id (f x) = e_id x" "\<And>x. e_task_id (f x) = e_task_id x" "\<And>x. e_mutation (f x) = e_mutation x"
    "\<And>x. x \<in> set tbl \<Longrightarrow> P x \<Longrightarrow> live (f x) \<Longrightarrow> live x"
  shows "type_unique (update_where P f tbl)"
proof -
  let ?g = "\<lambda>x. if P x then f x else x"
  have g: "e_id (?g x) = e_id x" "e_task_id (?g x) = e_task_id x" "e_mutation (?g x) = e_mutation x" for x
    using assms(2-4) by auto
  have l: "x \<in> set tbl \<Longrightarrow> live (?g x) \<Longrightarrow> live x" for x using assms(5) by (auto split: if_splits)
  have tp: "type_projection (?g x) = type_projection x" for x by (simp only: type_projection_def g)
  show ?thesis
    unfolding type_unique_def set_update_where ball_simps image_iff
    using assms(1) [unfolded type_unique_def] l by (simp only: g tp) blast
qed

lemma type_unique_filter: "type_unique tbl \<Longrightarrow> type_unique (filter P tbl)"
  by (auto simp: type_unique_def)

lemma serial_rows_filter: "serial_rows tbl \<Longrightarrow> serial_rows (filter P tbl)"
  by (auto simp: serial_rows_def distinct_map inj_on_def)

lemma type_unique_append:
  assumes "type_unique tbl"
    "\<And>x. x \<in> set tbl \<Longrightarrow> live x \<Longrightarrow> type_projection e \<Longrightarrow> e_task_id x = e_task_id e \<Longrightarrow>
       kind (e_mutation x) = kind (e_mutation e) \<Longrightarrow> False"
  shows "type_unique (tbl @ [e])"
proof -
  have tp: "kind (e_mutation x) = kind (e_mutation e) \<Longrightarrow> type_projection x = type_projection e" for x
    by (simp add: type_projection_def)
  have "e_id x = e_id y"
    if "x \<in> set (tbl @ [e])" "y \<in> set (tbl @ [e])" "live x" "live y" "type_projection x"
      "e_task_id x = e_task_id y" "kind (e_mutation x) = kind (e_mutation y)" for x y
  proof (cases "x = e")
    case True
    then have "y \<notin> set tbl" using that assms(2) [of y] by metis
    then show ?thesis using that(2) True by simp
  next
    case x: False
    then have "x \<in> set tbl" using that(1) by simp
    then have "y \<noteq> e" using that assms(2) [of x] tp [of x] by metis
    then have "y \<in> set tbl" using that(2) by simp
    with \<open>x \<in> set tbl\<close> that assms(1) show ?thesis unfolding type_unique_def by blast
  qed
  then show ?thesis unfolding type_unique_def by blast
qed

lemma type_unique_enqueue:
  assumes "type_unique tbl"
  shows "type_unique (enqueue_entry e tbl)"
proof (cases "enqueue_entry e tbl = tbl")
  case False
  then have app: "enqueue_entry e tbl = tbl @ [e]"
    and guard: "type_projection e \<longrightarrow> \<not> (\<exists>s \<in> set tbl. e_task_id s = e_task_id e \<and>
      kind (e_mutation s) = kind (e_mutation e) \<and> live s)"
    by (auto simp: enqueue_entry_def insert_outbox_in_tx_def list_ex_iff live_def type_projection_def
        split: if_splits)
  show ?thesis unfolding app by (rule type_unique_append [OF assms]) (use guard in blast)
qed (simp add: assms)

lemma type_unique_enqueue_if_absent: "type_unique tbl \<Longrightarrow> type_unique (snd (enqueue_if_absent e tbl))"
  by (auto simp: enqueue_if_absent_def list_ex_iff live_def intro!: type_unique_append)

lemma type_unique_claim:
  assumes "type_unique tbl" "distinct (map e_id tbl)"
  shows "type_unique (snd (claim_next_eligible now fl tbl))"
proof (cases "claim_next_eligible now fl tbl")
  case (Pair r tbl')
  show ?thesis
  proof (cases r)
    case None
    with Pair claim_next_eligible_None have "tbl' = tbl" by metis
    with Pair assms(1) show ?thesis by (metis snd_conv)
  next
    case (Some e)
    with Pair obtain i where i: "i < length tbl" "claimable now tbl (i, tbl ! i)"
      "tbl' = update_where (\<lambda>x. e_id x = e_id (tbl ! i))
         (\<lambda>x. x\<lparr>e_status := Inflight, e_updated_at := fl\<rparr>) tbl"
      using claim_next_eligible_Some [of now fl tbl e tbl'] by metis
    have "x = tbl ! i" if "x \<in> set tbl" "e_id x = e_id (tbl ! i)" for x
      using distinct_map_key_unique [OF assms(2) that(1) _ that(2)] i(1) by simp
    then have "live x" if "x \<in> set tbl" "e_id x = e_id (tbl ! i)" for x
      using claimable_Pending [OF i(2)] that by (auto simp: live_def)
    then show ?thesis
      using Pair i(3) by (auto intro!: type_unique_update [OF assms(1)])
  qed
qed

definition outbox_inv :: "outbox_entry list \<Rightarrow> bool" where
  "outbox_inv tbl \<longleftrightarrow> serial_rows tbl \<and> type_unique tbl"

lemma serial_enqueue_if_absent:
  "serial_rows tbl \<Longrightarrow> e_status e = Pending \<Longrightarrow> e_id e \<notin> e_id ` set tbl \<Longrightarrow>
     serial_rows (snd (enqueue_if_absent e tbl))"
  by (simp add: enqueue_if_absent_def serial_rows_append)

lemma outbox_step_serial: "outbox_step tbl tbl' \<Longrightarrow> serial_rows tbl \<Longrightarrow> serial_rows tbl'"
proof (induction rule: outbox_step.induct)
  case (enq e tbl)
  then show ?case by (simp add: sqlite_outbox.serial_enqueue)
next
  case (claimed tbl now fl)
  then show ?case by (rule sqlite_outbox.serial_claim)
next
  case (requeued tbl clk)
  then show ?case by (rule sqlite_outbox.serial_resolve)
next
  case (scrubbed tbl tid)
  then show ?case by (simp add: delete_pending_add_items_def Let_def serial_rows_filter)
qed (simp_all add: serial_enqueue_if_absent sqlite_outbox.serial_resolve)

lemma outbox_step_type_unique:
  "outbox_step tbl tbl' \<Longrightarrow> serial_rows tbl \<Longrightarrow> type_unique tbl \<Longrightarrow> type_unique tbl'"
proof (induction rule: outbox_step.induct)
  case (claimed tbl now fl)
  then show ?case by (intro type_unique_claim serial_rows_distinct)
next
  case (retried x tbl clk err nxt)
  then have "y = x" if "y \<in> set tbl" "e_id y = e_id x" for y
    using distinct_map_key_unique [OF serial_rows_distinct] that by metis
  with retried have "live y" if "y \<in> set tbl" "e_id y = e_id x" for y
    using that by (auto simp: live_def)
  with retried show ?case unfolding record_retry_def by (intro type_unique_update) auto
next
  case (succeeded tbl clk i)
  then show ?case unfolding mark_succeeded_def by (intro type_unique_update) (auto simp: live_def)
next
  case (failed tbl clk i err)
  then show ?case unfolding mark_failed_def by (intro type_unique_update) (auto simp: live_def)
next
  case (requeued tbl clk)
  then show ?case unfolding requeue_orphaned_inflight_def snd_conv
    by (intro type_unique_update) (auto simp: live_def)
next
  case (scrubbed tbl tid)
  then show ?case by (simp add: delete_pending_add_items_def Let_def type_unique_filter)
qed (simp_all add: type_unique_enqueue type_unique_enqueue_if_absent)

lemma outbox_reachable_inv: "outbox_step\<^sup>*\<^sup>* [] tbl \<Longrightarrow> outbox_inv tbl"
proof (induction rule: rtranclp_induct)
  case base
  show ?case by (simp add: outbox_inv_def serial_rows_def type_unique_def)
next
  case (step tbl tbl')
  then show ?case unfolding outbox_inv_def
    using outbox_step_serial outbox_step_type_unique by blast
qed

text \<open>C13 In every state the program can bring the queue into, at most one entry per task is in
  flight, entry ids are unique, and a task never has two live type projections of one kind.\<close>

theorem outbox_serial_per_task:
  assumes "outbox_step\<^sup>*\<^sup>* [] tbl" "x \<in> set tbl" "y \<in> set tbl" "e_task_id x = e_task_id y"
  shows "distinct (map e_id tbl) \<and>
    (e_status x = Inflight \<and> e_status y = Inflight \<longrightarrow> x = y) \<and>
    (e_status x \<in> {Pending, Inflight} \<and> e_status y \<in> {Pending, Inflight} \<and>
     kind (e_mutation x) = kind (e_mutation y) \<and>
     kind (e_mutation x) \<in> {lit ''set_issue_type'', lit ''set_project_type''} \<longrightarrow> x = y)"
proof -
  have s: "serial_rows tbl" and t: "type_unique tbl"
    using outbox_reachable_inv [OF assms(1)] by (auto simp: outbox_inv_def)
  have d: "distinct (map e_id tbl)" using s by (rule serial_rows_distinct)
  have "x = y" if "live x" "live y" "type_projection x" "kind (e_mutation x) = kind (e_mutation y)"
    using t that assms(2-4) distinct_map_key_unique [OF d assms(2,3)] unfolding type_unique_def by blast
  with s d assms(2-4) show ?thesis
    unfolding serial_rows_def live_def type_projection_def by blast
qed

theorem outbox_serial_per_task_witness:
  "distinct (map e_id (enqueue_entry (sample_entry 2 5) (enqueue_entry (sample_entry 1 5) [])))"
proof -
  let ?t1 = "enqueue_entry (sample_entry 1 5) []"
  let ?t2 = "enqueue_entry (sample_entry 2 5) ?t1"
  have t1: "?t1 = [sample_entry 1 5]"
    by (simp add: enqueue_entry_def insert_outbox_in_tx_def)
  have s1: "outbox_step [] ?t1"
    by (rule enq) (simp_all add: sample_entry_def outbox_entry_new_def)
  have s2: "outbox_step ?t1 ?t2"
    by (rule enq, unfold t1) (simp_all add: sample_entry_def outbox_entry_new_def)
  have r: "outbox_step\<^sup>*\<^sup>* [] ?t2"
    using rtranclp.rtrancl_into_rtrancl [OF r_into_rtranclp [of outbox_step, OF s1] s2] .
  have "sample_entry 1 5 \<in> set ?t2" by (simp add: t1 enqueue_entry_def insert_outbox_in_tx_def)
  from outbox_serial_per_task [OF r this this refl] show ?thesis by blast
qed

text \<open>The start-up reconcile never doubles work: the guarded enqueue inserts exactly when the
  task has no pending, no in-flight and no dead-lettered entry, and requeuing after a crash makes
  every stranded entry pending and immediately eligible without touching the others.\<close>

theorem startup_recovery:
  "(fst (enqueue_if_absent e tbl) \<longleftrightarrow>
      (\<forall>x \<in> set tbl. e_task_id x = e_task_id e \<longrightarrow> e_status x = Succeeded)) \<and>
   snd (enqueue_if_absent e tbl) = (if fst (enqueue_if_absent e tbl) then tbl @ [e] else tbl) \<and>
   (let (n, tbl') = requeue_orphaned_inflight clk tbl in
      length tbl' = length tbl \<and> n = length (filter (\<lambda>x. e_status x = Inflight) tbl) \<and>
      (\<forall>i < length tbl.
         (e_status (tbl ! i) = Inflight \<longrightarrow>
            tbl' ! i = (tbl ! i)\<lparr>e_status := Pending, e_next_attempt_at := None, e_updated_at := clk\<rparr>) \<and>
         (e_status (tbl ! i) \<noteq> Inflight \<longrightarrow> tbl' ! i = tbl ! i)))"
proof -
  have "x = Succeeded \<longleftrightarrow> x \<notin> {Pending, Inflight, Failed}" for x by (cases x) auto
  then show ?thesis
    by (auto simp: enqueue_if_absent_def requeue_orphaned_inflight_def list_ex_iff update_where_def)
qed

theorem startup_recovery_witness:
  "\<not> fst (enqueue_if_absent (sample_entry 2 5) [sample_entry 1 5])"
proof -
  have "\<not> (\<forall>x \<in> set [sample_entry 1 5]. e_task_id x = e_task_id (sample_entry 2 5) \<longrightarrow>
    e_status x = Succeeded)"
    by (simp add: sample_entry_def outbox_entry_new_def)
  with startup_recovery [of "sample_entry 2 5" "[sample_entry 1 5]"] show ?thesis by blast
qed

end
