(* ===== verification/TaskStore.thy ===== *)
theory TaskStore
  imports OutboxStore "HOL-Library.Product_Lexorder" "HOL-Library.List_Lexorder"
begin

text \<open>
  The task tables of \<open>infra-sqlite\<close> (\<open>task_repo.rs\<close>, \<open>task_snapshot_repo.rs\<close>) and the contract of
  the port \<open>TaskRepository\<close>.  A table is the list of its rows; a row of \<open>tasks\<close> is a \<open>task\<close> whose
  relations, comments and baseline columns live in their own tables.  A transaction that violates
  a constraint is rolled back, so the operation returns the error and no database.  \<open>cap\<close> is the
  clock read for \<open>captured_at\<close>.  The JSON and enum columns are decoded to the value they encode;
  the one lossy column is the issue type, stored in its single-string form.
\<close>

section \<open>Tables\<close>

record remote_mapping =
  rm_task_id :: task_id
  rm_filing_repo_id :: "repo_id option"
  rm_provider :: rstring
  rm_remote_id :: rstring
  rm_last_synced_at :: timestamp

record db =
  db_tasks :: "task list"
  db_relations :: "(task_id \<times> task_relation) list"
  db_snapshots :: "task_snapshot list"
  db_mappings :: "remote_mapping list"
  db_comments :: "(task_id \<times> task_comment) list"
  db_outbox :: "outbox_entry list"

section \<open>Reading\<close>

definition decode_issue_type :: "issue_type option \<Rightarrow> issue_type option" where
  "decode_issue_type it = map_option (\<lambda>x. issue_type_from (issue_type_display x)) it"

definition issue_type_column :: "issue_type option \<Rightarrow> rstring option" where
  "issue_type_column it = map_option issue_type_display it"

definition row_to_task :: "task \<Rightarrow> task" where
  "row_to_task row = row\<lparr>t_issue_type := decode_issue_type (t_issue_type row),
     t_relations := [], t_comments := [], t_synced_baseline := None\<rparr>"

text \<open>\<open>ORDER BY kind, other_task_id\<close> on the snake-case names of the kinds.\<close>

fun kind_order :: "relation_kind \<Rightarrow> nat" where
  "kind_order BlockedBy = 0"
| "kind_order Blocks = 1"
| "kind_order ChildOf = 2"
| "kind_order Duplicates = 3"
| "kind_order ParentOf = 4"
| "kind_order RelatedTo = 5"

definition load_relations :: "db \<Rightarrow> task_id \<Rightarrow> task_relation list" where
  "load_relations d tid =
     sort_key (\<lambda>r. (kind_order (rel_kind r), rel_other r))
       (map snd (filter (\<lambda>x. fst x = tid) (db_relations d)))"

definition load_comments :: "db \<Rightarrow> task_id \<Rightarrow> task_comment list" where
  "load_comments d tid =
     sort_key (\<lambda>c. (c_created_at c, case c_local_id c of Some i \<Rightarrow> i | None \<Rightarrow> []))
       (map snd (filter (\<lambda>x. fst x = tid) (db_comments d)))"

definition decode_snapshot :: "task_snapshot \<Rightarrow> task_snapshot" where
  "decode_snapshot s = s\<lparr>s_issue_type := decode_issue_type (s_issue_type s)\<rparr>"

text \<open>\<open>ORDER BY version DESC LIMIT 1\<close> over the baseline-eligible snapshots of the task.\<close>

definition baseline_rows :: "db \<Rightarrow> task_id \<Rightarrow> task_snapshot list" where
  "baseline_rows d tid =
     filter (\<lambda>s. s_task_id s = tid \<and>
       (s_source s \<in> {SrcPromote, SrcPush, SrcPull, SrcConflictResolve, SrcFilingRepoRepair} \<or>
        s_source s = SrcLink \<and> s_sync_state s = Synced)) (db_snapshots d)"

definition load_latest_baseline :: "db \<Rightarrow> task_id \<Rightarrow> task_snapshot option" where
  "load_latest_baseline d tid =
     map_option decode_snapshot (last_opt (sort_key s_version (baseline_rows d tid)))"

definition hydrate :: "db \<Rightarrow> task \<Rightarrow> task" where
  "hydrate d row = (row_to_task row)\<lparr>t_relations := load_relations d (t_id row),
     t_synced_baseline := load_latest_baseline d (t_id row),
     t_comments := load_comments d (t_id row)\<rparr>"

definition find_row :: "db \<Rightarrow> task_id \<Rightarrow> task option" where
  "find_row d tid = List.find (\<lambda>r. t_id r = tid) (db_tasks d)"

definition get_task :: "task_id \<Rightarrow> db \<Rightarrow> task port_result" where
  "get_task tid d =
     (case find_row d tid of None \<Rightarrow> Inl (NotFound (lit ''task '' @ show_uuid tid)) | Some row \<Rightarrow> Inr (hydrate d row))"

definition find_by_hash :: "rstring \<Rightarrow> db \<Rightarrow> task option" where
  "find_by_hash h d =
     (if h = [] then None
      else map_option (hydrate d) (List.find (\<lambda>r. t_hash r = h) (db_tasks d)))"

definition find_by_remote :: "repo_origin_id \<Rightarrow> rstring \<Rightarrow> rstring \<Rightarrow> db \<Rightarrow> task option" where
  "find_by_remote filing provider remote_id d =
     map_option (hydrate d)
       (List.find (\<lambda>r. t_filing_repo_id r = Some filing \<and>
          (case t_remote r of None \<Rightarrow> False
           | Some rr \<Rightarrow> rr_provider rr = provider \<and> rr_remote_id rr = remote_id)) (db_tasks d))"

text \<open>\<open>list\<close> with the one condition the drainer's sweep sets; comments are not loaded.\<close>

definition list_issue_type_pending :: "db \<Rightarrow> task list" where
  "list_issue_type_pending d =
     map (\<lambda>row. (hydrate d row)\<lparr>t_comments := []\<rparr>)
       (sort_key (\<lambda>r. (t_created_at r, t_id r)) (filter t_issue_type_pending (db_tasks d)))"

definition list_snapshots :: "task_id \<Rightarrow> db \<Rightarrow> task_snapshot list" where
  "list_snapshots tid d =
     map decode_snapshot (sort_key s_version (filter (\<lambda>s. s_task_id s = tid) (db_snapshots d)))"

definition get_snapshot :: "task_id \<Rightarrow> nat \<Rightarrow> db \<Rightarrow> task_snapshot port_result" where
  "get_snapshot tid v d =
     (case List.find (\<lambda>s. s_task_id s = tid \<and> s_version s = v) (db_snapshots d) of
        None \<Rightarrow> Inl (NotFound (lit ''task '' @ show_uuid tid @ lit '' version '' @ show_nat v))
      | Some s \<Rightarrow> Inr (decode_snapshot s))"

section \<open>Writing one task\<close>

definition next_version :: "db \<Rightarrow> task_id \<Rightarrow> nat" where
  "next_version d tid =
     fold (\<lambda>s m. max (s_version s) m) (filter (\<lambda>s. s_task_id s = tid) (db_snapshots d)) 0 + 1"

definition bare_row :: "task \<Rightarrow> task" where
  "bare_row t = t\<lparr>t_relations := [], t_comments := [], t_synced_baseline := None\<rparr>"

text \<open>\<open>INSERT \<dots> ON CONFLICT(id) DO UPDATE\<close>: \<open>created_at\<close> and \<open>synced_at\<close> are not in the update
  set, and the pending flag is raised by a change of the issue type and otherwise kept.\<close>

definition upsert_row :: "task \<Rightarrow> task \<Rightarrow> task" where
  "upsert_row t old = (bare_row t)\<lparr>t_created_at := t_created_at old, t_synced_at := t_synced_at old,
     t_issue_type_pending :=
       (if issue_type_column (t_issue_type t) \<noteq> issue_type_column (t_issue_type old) then True
        else t_issue_type_pending old)\<rparr>"

definition upsert_tasks :: "task \<Rightarrow> task list \<Rightarrow> task list" where
  "upsert_tasks t rows =
     (if t_id t \<in> t_id ` set rows then update_where (\<lambda>r. t_id r = t_id t) (upsert_row t) rows
      else rows @ [bare_row t])"

definition snapshot_row :: "timestamp \<Rightarrow> nat \<Rightarrow> task \<Rightarrow> snapshot_source \<Rightarrow> task_snapshot" where
  "snapshot_row cap v t src =
     \<lparr>s_task_id = t_id t, s_version = v, s_title = t_title t, s_body = t_body t,
      s_lifecycle = t_lifecycle t, s_sync_state = t_sync t, s_priority = t_priority t,
      s_issue_type = t_issue_type t, s_issue_type_recorded = True, s_assignees = t_assignees t,
      s_remote = map_option (\<lambda>r. remote_ref_new (rr_provider r) (rr_remote_id r)) (t_remote t),
      s_repo_id = t_repo_id t, s_repo_id_recorded = True, s_filing_repo_id = t_filing_repo_id t,
      s_source = src, s_captured_at = cap\<rparr>"

definition unique_violation :: "string \<Rightarrow> port_error" where
  "unique_violation cols =
     PConflict (Some (lit cols)) (lit ''UNIQUE constraint failed: '' @ lit cols)"

fun insert_relations ::
  "task list \<Rightarrow> task_id \<Rightarrow> task_relation list \<Rightarrow> (task_id \<times> task_relation) list \<Rightarrow>
   (task_id \<times> task_relation) list port_result" where
  "insert_relations rows tid [] acc = Inr acc"
| "insert_relations rows tid (r # rs) acc =
     (if (tid, r) \<in> set acc then Inl (unique_violation
        ''task_relations.task_id, task_relations.kind, task_relations.other_task_id'')
      else if rel_other r \<notin> t_id ` set rows then Inl (Backend (lit ''FOREIGN KEY constraint failed''))
      else insert_relations rows tid rs (acc @ [(tid, r)]))"

definition upsert_mapping :: "task \<Rightarrow> remote_mapping list \<Rightarrow> remote_mapping list port_result" where
  "upsert_mapping t ms =
     (case t_remote t of
        None \<Rightarrow> Inr (filter (\<lambda>m. rm_task_id m \<noteq> t_id t) ms)
      | Some remote \<Rightarrow>
          let m = \<lparr>rm_task_id = t_id t, rm_filing_repo_id = t_filing_repo_id t,
                   rm_provider = rr_provider remote, rm_remote_id = rr_remote_id remote,
                   rm_last_synced_at = t_updated_at t\<rparr>
          in if list_ex (\<lambda>x. rm_task_id x \<noteq> t_id t \<and> rm_filing_repo_id x = rm_filing_repo_id m \<and>
                 rm_provider x = rm_provider m \<and> rm_remote_id x = rm_remote_id m) ms
             then Inl (unique_violation
               ''remote_mappings.filing_repo_id, remote_mappings.provider, remote_mappings.remote_id'')
             else if t_id t \<in> rm_task_id ` set ms
             then Inr (update_where (\<lambda>x. rm_task_id x = t_id t) (\<lambda>_. m) ms)
             else Inr (ms @ [m]))"

definition write_task_in_tx ::
  "timestamp \<Rightarrow> task \<Rightarrow> snapshot_source \<Rightarrow> db \<Rightarrow> db port_result" where
  "write_task_in_tx cap t src d =
     (if t_hash t \<noteq> [] \<and> list_ex (\<lambda>r. t_id r \<noteq> t_id t \<and> t_hash r = t_hash t) (db_tasks d)
      then Inl (unique_violation ''tasks.hash'')
      else
        let rows = upsert_tasks t (db_tasks d);
            snaps = db_snapshots d @ [snapshot_row cap (next_version d (t_id t)) t src]
        in (case insert_relations rows (t_id t) (t_relations t)
                   (filter (\<lambda>x. fst x \<noteq> t_id t) (db_relations d)) of
              Inl e \<Rightarrow> Inl e
            | Inr rels \<Rightarrow>
                (case upsert_mapping t (db_mappings d) of
                   Inl e \<Rightarrow> Inl e
                 | Inr maps \<Rightarrow>
                     Inr (d\<lparr>db_tasks := rows, db_snapshots := snaps, db_relations := rels,
                            db_mappings := maps\<rparr>))))"

definition save_task :: "timestamp \<Rightarrow> task \<Rightarrow> snapshot_source \<Rightarrow> db \<Rightarrow> db port_result" where
  "save_task cap t src d = write_task_in_tx cap t src d"

fun save_many :: "timestamp \<Rightarrow> (task \<times> snapshot_source) list \<Rightarrow> db \<Rightarrow> db port_result" where
  "save_many cap [] d = Inr d"
| "save_many cap ((t, src) # rest) d =
     (case write_task_in_tx cap t src d of Inl e \<Rightarrow> Inl e | Inr d' \<Rightarrow> save_many cap rest d')"

definition insert_entries :: "outbox_entry list \<Rightarrow> db \<Rightarrow> db" where
  "insert_entries es d = d\<lparr>db_outbox := fold insert_outbox_in_tx es (db_outbox d)\<rparr>"

definition save_with_outbox ::
  "timestamp \<Rightarrow> task \<Rightarrow> snapshot_source \<Rightarrow> outbox_entry list \<Rightarrow> db \<Rightarrow> db port_result" where
  "save_with_outbox cap t src es d =
     (case write_task_in_tx cap t src d of Inl e \<Rightarrow> Inl e | Inr d' \<Rightarrow> Inr (insert_entries es d'))"

definition save_many_with_outbox ::
  "timestamp \<Rightarrow> (task \<times> snapshot_source) list \<Rightarrow> outbox_entry list \<Rightarrow> db \<Rightarrow> db port_result" where
  "save_many_with_outbox cap ts es d =
     (case save_many cap ts d of Inl e \<Rightarrow> Inl e | Inr d' \<Rightarrow> Inr (insert_entries es d'))"

section \<open>Targeted writes\<close>

definition update_row :: "task_id \<Rightarrow> (task \<Rightarrow> task) \<Rightarrow> db \<Rightarrow> db" where
  "update_row tid f d = d\<lparr>db_tasks := update_where (\<lambda>r. t_id r = tid) f (db_tasks d)\<rparr>"

definition cache_project_status :: "task_id \<Rightarrow> rstring option \<Rightarrow> db \<Rightarrow> db" where
  "cache_project_status tid opt d = update_row tid (\<lambda>r. r\<lparr>t_project_status_option_id := opt\<rparr>) d"

definition apply_polled_priority :: "task_id \<Rightarrow> priority \<Rightarrow> db \<Rightarrow> db" where
  "apply_polled_priority tid p d = update_row tid (\<lambda>r. r\<lparr>t_priority := p\<rparr>) d"

definition mark_remote_dirty :: "task_id \<Rightarrow> db \<Rightarrow> db" where
  "mark_remote_dirty tid d =
     update_row tid (\<lambda>r. if t_sync r = Synced then r\<lparr>t_sync := DirtyRemote\<rparr> else r) d"

definition cache_remote_node_id :: "task_id \<Rightarrow> rstring \<Rightarrow> db \<Rightarrow> db" where
  "cache_remote_node_id tid node d =
     update_row tid (\<lambda>r. r\<lparr>t_remote := map_option (\<lambda>x. x\<lparr>rr_node_id := Some node\<rparr>) (t_remote r)\<rparr>) d"

text \<open>Returns whether exactly one row was changed.\<close>

definition clear_issue_type_pending :: "task_id \<Rightarrow> issue_type option \<Rightarrow> db \<Rightarrow> bool \<times> db" where
  "clear_issue_type_pending tid expected d =
     (let hit = (\<lambda>r. t_id r = tid \<and> t_issue_type_pending r \<and>
                     issue_type_column (t_issue_type r) = issue_type_column expected)
      in (length (filter hit (db_tasks d)) = 1,
          d\<lparr>db_tasks := update_where hit (\<lambda>r. r\<lparr>t_issue_type_pending := False\<rparr>) (db_tasks d)\<rparr>))"

definition cache_synced_at :: "task_id \<Rightarrow> timestamp \<Rightarrow> db \<Rightarrow> db" where
  "cache_synced_at tid ts d = update_row tid (\<lambda>r. r\<lparr>t_synced_at := Some ts\<rparr>) d"

text \<open>\<open>ON DELETE CASCADE\<close> on every table that references the task.\<close>

definition delete_task :: "task_id \<Rightarrow> db \<Rightarrow> db" where
  "delete_task tid d =
     \<lparr>db_tasks = filter (\<lambda>r. t_id r \<noteq> tid) (db_tasks d),
      db_relations = filter (\<lambda>x. fst x \<noteq> tid \<and> rel_other (snd x) \<noteq> tid) (db_relations d),
      db_snapshots = filter (\<lambda>s. s_task_id s \<noteq> tid) (db_snapshots d),
      db_mappings = filter (\<lambda>m. rm_task_id m \<noteq> tid) (db_mappings d),
      db_comments = filter (\<lambda>x. fst x \<noteq> tid) (db_comments d),
      db_outbox = filter (\<lambda>e. e_task_id e \<noteq> tid) (db_outbox d)\<rparr>"

section \<open>Comments\<close>

text \<open>A pending local comment has no remote id; \<open>fresh\<close> gives the surrogate row ids.\<close>

record remote_comment =
  rc_remote_id :: rstring
  rc_author :: rstring
  rc_body :: rstring
  rc_created_at :: timestamp

definition synced_comment :: "rstring \<Rightarrow> remote_comment \<Rightarrow> task_comment" where
  "synced_comment i c = \<lparr>c_local_id = Some i, c_remote_id = Some (rc_remote_id c),
     c_author = rc_author c, c_body = rc_body c, c_created_at = rc_created_at c\<rparr>"

definition replace_comments ::
  "(nat \<Rightarrow> rstring) \<Rightarrow> task_id \<Rightarrow> remote_comment list \<Rightarrow> db \<Rightarrow> db" where
  "replace_comments fresh tid cs d = d\<lparr>db_comments :=
     filter (\<lambda>x. \<not> (fst x = tid \<and> c_remote_id (snd x) \<noteq> None)) (db_comments d) @
     map (\<lambda>(k, c). (tid, synced_comment (fresh k) c)) (enumerate 0 cs)\<rparr>"

definition add_pending_comment ::
  "rstring \<Rightarrow> task_id \<Rightarrow> rstring \<Rightarrow> rstring \<Rightarrow> timestamp \<Rightarrow> db \<Rightarrow> db" where
  "add_pending_comment fresh tid author body created d = d\<lparr>db_comments := db_comments d @
     [(tid, \<lparr>c_local_id = Some fresh, c_remote_id = None, c_author = author, c_body = body,
             c_created_at = created\<rparr>)]\<rparr>"

definition mark_comments_pushed ::
  "(nat \<Rightarrow> rstring) \<Rightarrow> task_id \<Rightarrow> rstring list \<Rightarrow> remote_comment list \<Rightarrow> db \<Rightarrow> db" where
  "mark_comments_pushed fresh tid drained pushed d = d\<lparr>db_comments :=
     filter (\<lambda>x. \<not> (fst x = tid \<and> c_local_id (snd x) \<in> Some ` set drained \<and>
                    c_remote_id (snd x) = None)) (db_comments d) @
     map (\<lambda>(k, c). (tid, synced_comment (fresh k) c)) (enumerate 0 pushed)\<rparr>"

section \<open>The contract of the repository\<close>

text \<open>What a reload gives back of a saved task.\<close>

definition same_record :: "task \<Rightarrow> task \<Rightarrow> bool" where
  "same_record t t' \<longleftrightarrow> t_id t' = t_id t \<and> t_workspace_id t' = t_workspace_id t \<and>
     t_repo_id t' = t_repo_id t \<and> t_filing_repo_id t' = t_filing_repo_id t \<and>
     t_title t' = t_title t \<and> t_body t' = t_body t \<and> t_lifecycle t' = t_lifecycle t \<and>
     t_sync t' = t_sync t \<and> t_priority t' = t_priority t \<and> t_assignees t' = t_assignees t \<and>
     t_remote t' = t_remote t \<and> t_project_item_id t' = t_project_item_id t \<and>
     t_project_status_option_id t' = t_project_status_option_id t \<and> t_hash t' = t_hash t \<and>
     t_updated_at t' = t_updated_at t \<and> set (t_relations t') = set (t_relations t) \<and>
     t_issue_type t' = decode_issue_type (t_issue_type t)"

definition makes_baseline :: "task \<Rightarrow> snapshot_source \<Rightarrow> bool" where
  "makes_baseline t src \<longleftrightarrow> (if src = SrcLink then t_sync t = Synced else source_is_baseline src)"

locale task_repository =
  fixes get :: "task_id \<Rightarrow> 's \<Rightarrow> task port_result"
    and save :: "timestamp \<Rightarrow> task \<Rightarrow> snapshot_source \<Rightarrow> 's \<Rightarrow> 's port_result"
  assumes get_id: "get i s = Inr t \<Longrightarrow> t_id t = i"
    and get_save: "save cap t src s = Inr s' \<Longrightarrow> \<exists>t'. get (t_id t) s' = Inr t' \<and> same_record t t'"
    and get_save_other: "save cap t src s = Inr s' \<Longrightarrow> i \<noteq> t_id t \<Longrightarrow> get i s' = get i s"
    and baseline_taken: "save cap t src s = Inr s' \<Longrightarrow> makes_baseline t src \<Longrightarrow>
      get (t_id t) s' = Inr t' \<Longrightarrow>
      \<exists>b. t_synced_baseline t' = Some b \<and> s_title b = t_title t \<and> s_body b = t_body t \<and>
        s_lifecycle b = t_lifecycle t \<and> s_assignees b = t_assignees t \<and> s_source b = src"
    and baseline_kept: "save cap t src s = Inr s' \<Longrightarrow> \<not> makes_baseline t src \<Longrightarrow>
      get (t_id t) s = Inr old \<Longrightarrow> get (t_id t) s' = Inr t' \<Longrightarrow>
      t_synced_baseline t' = t_synced_baseline old"
begin

lemma aligned_save:
  assumes "save cap t src s = Inr s'" "makes_baseline t src"
  shows "\<exists>t'. get (t_id t) s' = Inr t' \<and> same_record t t' \<and>
    patch_is_empty (diff_against_baseline t')"
proof -
  obtain t' where t': "get (t_id t) s' = Inr t'" "same_record t t'" using get_save [OF assms(1)] by blast
  obtain b where "t_synced_baseline t' = Some b" "s_title b = t_title t" "s_body b = t_body t"
    "s_lifecycle b = t_lifecycle t" "s_assignees b = t_assignees t"
    using baseline_taken [OF assms t'(1)] by blast
  then have "patch_is_empty (diff_against_baseline t')"
    using t'(2) by (simp add: patch_empty_iff differs_from_iff same_record_def)
  with t' show ?thesis by blast
qed

lemma push_cycle:
  assumes "get i s = Inr t" "confirm_synced_fields now SrcPush (diff_against_baseline t) t = Inr t1"
    "save cap t1 SrcPush s = Inr s'"
  shows "\<exists>t2. get i s' = Inr t2 \<and> t_sync t2 = Synced \<and> patch_is_empty (diff_against_baseline t2) \<and>
    t_title t2 = t_title t \<and> t_body t2 = t_body t \<and> t_lifecycle t2 = t_lifecycle t \<and>
    t_assignees t2 = t_assignees t"
proof -
  obtain prior where prior: "t_synced_baseline t = Some prior"
    and t1: "t1 = reconcile_dirty_against_baseline (t\<lparr>t_synced_baseline :=
      Some (merge_patch SrcPush (diff_against_baseline t) prior), t_sync := Synced, t_updated_at := now\<rparr>)"
    using assms(2) by (rule confirm_synced_fields_cases)
  have sync: "t_sync t1 = Synced"
    using merge_diff_patch_clean [OF prior, of SrcPush] by (simp add: t1 t_sync_reconcile)
  have id: "t_id t1 = i" using get_id [OF assms(1)] by (simp add: t1)
  have "makes_baseline t1 SrcPush" by (simp add: makes_baseline_def source_is_baseline_def)
  from aligned_save [OF assms(3) this] obtain t2 where
    "get i s' = Inr t2" "same_record t1 t2" "patch_is_empty (diff_against_baseline t2)"
    unfolding id by blast
  then show ?thesis using sync by (auto simp: same_record_def t1)
qed

lemma edit_cycle:
  assumes "get (t_id t) s = Inr old" "t_synced_baseline t = t_synced_baseline old"
    "save cap t src s = Inr s'" "\<not> makes_baseline t src"
  shows "\<exists>t'. get (t_id t) s' = Inr t' \<and> same_record t t' \<and>
    t_synced_baseline t' = t_synced_baseline t \<and>
    diff_against_baseline t' = diff_against_baseline t"
proof -
  obtain t' where t': "get (t_id t) s' = Inr t'" "same_record t t'" using get_save [OF assms(3)] by blast
  have "t_synced_baseline t' = t_synced_baseline t"
    using baseline_kept [OF assms(3,4,1) t'(1)] assms(2) by simp
  with t' show ?thesis
    by (auto simp: same_record_def diff_against_baseline_def split: option.splits)
qed

end

section \<open>The tables implement the contract\<close>

lemma t_id_rows [simp]: "t_id (upsert_row t old) = t_id t" "t_id (bare_row t) = t_id t"
  by (simp_all add: upsert_row_def bare_row_def)

lemma find_row_upsert_same:
  "\<exists>r. List.find (\<lambda>r. t_id r = t_id t) (upsert_tasks t rows) = Some r \<and>
     (r = bare_row t \<or> (\<exists>old \<in> set rows. r = upsert_row t old))"
proof (cases "t_id t \<in> t_id ` set rows")
  case True
  then have "\<exists>old \<in> set rows. List.find (\<lambda>r. t_id r = t_id t)
    (update_where (\<lambda>r. t_id r = t_id t) (upsert_row t) rows) = Some (upsert_row t old)"
    by (induction rows) auto
  with True show ?thesis by (auto simp: upsert_tasks_def)
next
  case False
  then have "List.find (\<lambda>r. t_id r = t_id t) (rows @ [bare_row t]) = Some (bare_row t)"
    by (induction rows) auto
  with False show ?thesis by (auto simp: upsert_tasks_def)
qed

lemma find_row_upsert_other:
  "i \<noteq> t_id t \<Longrightarrow> List.find (\<lambda>r. t_id r = i) (upsert_tasks t rows) = List.find (\<lambda>r. t_id r = i) rows"
proof -
  assume i: "i \<noteq> t_id t"
  have "List.find (\<lambda>r. t_id r = i) (update_where (\<lambda>r. t_id r = t_id t) (upsert_row t) rows) =
    List.find (\<lambda>r. t_id r = i) rows"
    using i by (induction rows) auto
  moreover have "List.find (\<lambda>r. t_id r = i) (rows @ [bare_row t]) = List.find (\<lambda>r. t_id r = i) rows"
    using i by (induction rows) auto
  ultimately show ?thesis by (simp add: upsert_tasks_def)
qed

lemma insert_relations_result:
  "insert_relations rows tid rs acc = Inr acc' \<Longrightarrow> acc' = acc @ map (\<lambda>r. (tid, r)) rs"
  by (induction rows tid rs acc rule: insert_relations.induct) (auto split: if_splits)

lemma write_task_cases:
  assumes "write_task_in_tx cap t src d = Inr d'"
  obtains maps where "d' = d\<lparr>db_tasks := upsert_tasks t (db_tasks d),
     db_snapshots := db_snapshots d @ [snapshot_row cap (next_version d (t_id t)) t src],
     db_relations := filter (\<lambda>x. fst x \<noteq> t_id t) (db_relations d) @ map (\<lambda>r. (t_id t, r)) (t_relations t),
     db_mappings := maps\<rparr>" "upsert_mapping t (db_mappings d) = Inr maps"
  using assms
  by (auto simp: write_task_in_tx_def Let_def split: if_splits sum.splits dest!: insert_relations_result)

lemma fold_max_ge:
  "x \<in> set xs \<Longrightarrow> f x \<le> fold (\<lambda>s m. max (f s) m) xs (n :: nat)"
  "n \<le> fold (\<lambda>s m. max (f s) m) xs (n :: nat)"
proof (induction xs arbitrary: n)
  case (Cons y ys)
  { case 1
    show ?case using Cons.IH(1) [of "max (f y) n"] Cons.IH(2) [of "max (f y) n"] 1 by fastforce }
  { case 2
    show ?case using Cons.IH(2) [of "max (f y) n"] by simp }
qed auto

lemma next_version_gt:
  "s \<in> set (db_snapshots d) \<Longrightarrow> s_task_id s = tid \<Longrightarrow> s_version s < next_version d tid"
  using fold_max_ge(1) [of s "filter (\<lambda>s. s_task_id s = tid) (db_snapshots d)" s_version 0]
  by (simp add: next_version_def less_Suc_eq_le)

lemma sort_key_append_greatest:
  "(\<And>x. x \<in> set xs \<Longrightarrow> f x < f y) \<Longrightarrow> sort_key f (xs @ [y]) = sort_key f xs @ [y]"
proof (induction xs)
  case (Cons x xs)
  have "insort_key f x (zs @ [y]) = insort_key f x zs @ [y]" for zs
    using Cons.prems [of x] by (induction zs) (auto simp: not_le)
  with Cons show ?case by simp
qed simp

lemma load_latest_baseline_save:
  assumes "write_task_in_tx cap t src d = Inr d'"
  shows "load_latest_baseline d' (t_id t) =
    (if makes_baseline t src
     then Some (decode_snapshot (snapshot_row cap (next_version d (t_id t)) t src))
     else load_latest_baseline d (t_id t))"
proof -
  let ?s = "snapshot_row cap (next_version d (t_id t)) t src"
  have rows: "baseline_rows d' (t_id t) =
    (if makes_baseline t src then baseline_rows d (t_id t) @ [?s] else baseline_rows d (t_id t))"
    using assms
    by (auto elim!: write_task_cases simp: baseline_rows_def snapshot_row_def makes_baseline_def
        source_is_baseline_def split: if_splits)
  have "s_version x < s_version ?s" if "x \<in> set (baseline_rows d (t_id t))" for x
    using that next_version_gt [of x d "t_id t"] by (auto simp: baseline_rows_def snapshot_row_def)
  then have "sort_key s_version (baseline_rows d (t_id t) @ [?s]) =
    sort_key s_version (baseline_rows d (t_id t)) @ [?s]"
    by (rule sort_key_append_greatest)
  then show ?thesis by (simp add: load_latest_baseline_def rows last_opt_def)
qed

lemma same_record_hydrate:
  assumes "set (load_relations d (t_id t)) = set (t_relations t)"
    and "r = bare_row t \<or> (\<exists>old. r = upsert_row t old)"
  shows "same_record t (hydrate d r)"
  using assms(2)
proof
  assume "r = bare_row t"
  with assms(1) show ?thesis by (simp add: same_record_def hydrate_def row_to_task_def bare_row_def)
next
  assume "\<exists>old. r = upsert_row t old"
  then obtain old where "r = upsert_row t old" ..
  with assms(1) show ?thesis
    by (simp add: same_record_def hydrate_def row_to_task_def upsert_row_def bare_row_def)
qed

lemma load_relations_save:
  assumes "write_task_in_tx cap t src d = Inr d'"
  shows "set (load_relations d' (t_id t)) = set (t_relations t)"
    and "i \<noteq> t_id t \<Longrightarrow> load_relations d' i = load_relations d i"
proof -
  have rels: "db_relations d' =
    filter (\<lambda>x. fst x \<noteq> t_id t) (db_relations d) @ map (\<lambda>r. (t_id t, r)) (t_relations t)"
    using assms by (auto elim!: write_task_cases)
  show "set (load_relations d' (t_id t)) = set (t_relations t)"
    by (auto simp: load_relations_def rels image_iff)
  show "load_relations d' i = load_relations d i" if "i \<noteq> t_id t"
  proof -
    have "filter (\<lambda>x. fst x = i) (filter (\<lambda>x. fst x \<noteq> t_id t) (db_relations d)) =
      filter (\<lambda>x. fst x = i) (db_relations d)"
      using that by (auto intro: filter_cong)
    with that show ?thesis by (simp add: load_relations_def rels filter_map comp_def)
  qed
qed

lemma get_save_task:
  assumes "save_task cap t src d = Inr d'"
  shows "\<exists>t'. get_task (t_id t) d' = Inr t' \<and> same_record t t' \<and>
    t_synced_baseline t' = load_latest_baseline d' (t_id t)"
proof -
  have w: "write_task_in_tx cap t src d = Inr d'" using assms by (simp add: save_task_def)
  then have "db_tasks d' = upsert_tasks t (db_tasks d)" by (auto elim!: write_task_cases)
  then obtain r where r: "find_row d' (t_id t) = Some r"
    "r = bare_row t \<or> (\<exists>old \<in> set (db_tasks d). r = upsert_row t old)"
    using find_row_upsert_same [of t "db_tasks d"] by (auto simp: find_row_def)
  have "same_record t (hydrate d' r)"
    using r(2) load_relations_save(1) [OF w] by (intro same_record_hydrate) auto
  moreover have "t_id r = t_id t" using r(2) by auto
  ultimately show ?thesis using r(1) by (auto simp: get_task_def hydrate_def)
qed

lemma get_save_task_other:
  assumes "save_task cap t src d = Inr d'" "i \<noteq> t_id t"
  shows "get_task i d' = get_task i d"
proof -
  have w: "write_task_in_tx cap t src d = Inr d'" using assms by (simp add: save_task_def)
  then have tasks: "db_tasks d' = upsert_tasks t (db_tasks d)"
    and com: "db_comments d' = db_comments d"
    and snaps: "db_snapshots d' =
      db_snapshots d @ [snapshot_row cap (next_version d (t_id t)) t src]"
    by (auto elim!: write_task_cases)
  have "load_latest_baseline d' i = load_latest_baseline d i"
    using assms(2) by (simp add: load_latest_baseline_def baseline_rows_def snaps snapshot_row_def)
  moreover have "load_comments d' i = load_comments d i" by (simp add: load_comments_def com)
  moreover have "find_row d' i = find_row d i"
    using assms(2) by (simp add: find_row_def tasks find_row_upsert_other)
  moreover have "find_row d i = Some r \<Longrightarrow> t_id r = i" for r
    by (auto simp: find_row_def find_Some_iff)
  ultimately show ?thesis
    using load_relations_save(2) [OF w assms(2)]
    by (auto simp: get_task_def hydrate_def split: option.splits)
qed

lemma get_task_id: "get_task i d = Inr t \<Longrightarrow> t_id t = i"
  by (auto simp: get_task_def find_row_def hydrate_def row_to_task_def find_Some_iff split: option.splits)

lemma get_task_baseline: "get_task i d = Inr t \<Longrightarrow> t_synced_baseline t = load_latest_baseline d i"
  by (auto simp: get_task_def find_row_def hydrate_def find_Some_iff split: option.splits)

interpretation sqlite_tasks: task_repository get_task save_task
proof
  fix i s t cap src s' t' old
  show "get_task i s = Inr t \<Longrightarrow> t_id t = i" by (rule get_task_id)
  show "save_task cap t src s = Inr s' \<Longrightarrow> i \<noteq> t_id t \<Longrightarrow> get_task i s' = get_task i s"
    by (rule get_save_task_other)
  show "save_task cap t src s = Inr s' \<Longrightarrow> \<exists>t'. get_task (t_id t) s' = Inr t' \<and> same_record t t'"
    using get_save_task by blast
  assume save: "save_task cap t src s = Inr s'" and get: "get_task (t_id t) s' = Inr t'"
  from save have "write_task_in_tx cap t src s = Inr s'" by (simp add: save_task_def)
  note base = load_latest_baseline_save [OF this]
  show "\<exists>b. t_synced_baseline t' = Some b \<and> s_title b = t_title t \<and> s_body b = t_body t \<and>
      s_lifecycle b = t_lifecycle t \<and> s_assignees b = t_assignees t \<and> s_source b = src"
    if "makes_baseline t src"
    using get_task_baseline [OF get] base that by (simp add: decode_snapshot_def snapshot_row_def)
  show "t_synced_baseline t' = t_synced_baseline old"
    if "\<not> makes_baseline t src" "get_task (t_id t) s = Inr old"
    using get_task_baseline [OF get] get_task_baseline [OF that(2)] base that(1) by simp
qed

end
