(* ===== verification/StoreHistory.thy ===== *)
theory StoreHistory
  imports TaskStore "HOL-Library.Sublist"
begin

text \<open>
  What the task tables guarantee over histories of statements: reading back what was saved, the
  baseline a reload picks, referential integrity and uniqueness, dense append-only snapshot
  versions, and the compare-and-clear discipline of the issue-type flag.
\<close>

section \<open>Reading back\<close>

definition empty_db :: db where
  "empty_db = \<lparr>db_tasks = [], db_relations = [], db_snapshots = [], db_mappings = [],
     db_comments = [], db_outbox = []\<rparr>"

text \<open>A store that holds rows of one task only accepts every edge-free save of it.\<close>

definition solo_db :: "task_id \<Rightarrow> db \<Rightarrow> bool" where
  "solo_db i d \<longleftrightarrow> (\<forall>r \<in> set (db_tasks d). t_id r = i) \<and> (\<forall>m \<in> set (db_mappings d). rm_task_id m = i)"

lemma solo_empty_db: "solo_db i empty_db"
  by (simp add: solo_db_def empty_db_def)

lemma upsert_mapping_solo:
  "\<forall>m \<in> set ms. rm_task_id m = t_id t \<Longrightarrow>
   \<exists>ms'. upsert_mapping t ms = Inr ms' \<and> (\<forall>m \<in> set ms'. rm_task_id m = t_id t)"
  by (cases "t_remote t") (auto simp: upsert_mapping_def Let_def list_ex_iff set_update_where)

lemma save_solo:
  assumes "solo_db (t_id t) d" "t_relations t = []"
  obtains d' where "save_task cap t src d = Inr d'" "solo_db (t_id t) d'"
proof -
  obtain ms where ms: "upsert_mapping t (db_mappings d) = Inr ms" "\<forall>m \<in> set ms. rm_task_id m = t_id t"
    using upsert_mapping_solo [of "db_mappings d" t] assms(1) by (auto simp: solo_db_def)
  have rows: "\<forall>r \<in> set (upsert_tasks t (db_tasks d)). t_id r = t_id t"
    using assms(1) by (auto simp: solo_db_def upsert_tasks_def set_update_where)
  have "\<not> list_ex (\<lambda>r. t_id r \<noteq> t_id t \<and> t_hash r = t_hash t) (db_tasks d)"
    using assms(1) by (auto simp: solo_db_def list_ex_iff)
  then have "\<exists>d'. save_task cap t src d = Inr d' \<and> db_tasks d' = upsert_tasks t (db_tasks d) \<and> db_mappings d' = ms"
    using ms(1) assms(2) by (simp add: save_task_def write_task_in_tx_def Let_def)
  with ms rows that show thesis by (auto simp: solo_db_def)
qed

lemma find_update_where:
  assumes "\<And>x. P x \<Longrightarrow> f (g x) = f x" "List.find (\<lambda>x. f x = k) xs = Some x"
  shows "List.find (\<lambda>x. f x = k) (update_where P g xs) = Some (if P x then g x else x)"
  using assms(2) by (induction xs) (auto simp: assms(1) split: if_splits)

lemma find_row_upsert_old:
  assumes "List.find (\<lambda>r. t_id r = t_id t) rows = Some old"
  shows "List.find (\<lambda>r. t_id r = t_id t) (upsert_tasks t rows) = Some (upsert_row t old)"
proof -
  have "t_id old = t_id t" "t_id t \<in> t_id ` set rows"
  proof -
    from assms obtain n where n: "n < length rows" "t_id (rows ! n) = t_id t" "old = rows ! n"
      unfolding find_Some_iff by blast
    then show "t_id old = t_id t" by simp
    from n have "old \<in> set rows" by simp
    with n show "t_id t \<in> t_id ` set rows" by (metis imageI)
  qed
  then show ?thesis
    using find_update_where [of "\<lambda>r. t_id r = t_id t" t_id "upsert_row t" "t_id t" rows old] assms
    by (simp add: upsert_tasks_def)
qed

lemma find_row_upsert_new:
  "List.find (\<lambda>r. t_id r = t_id t) rows = None \<Longrightarrow>
     List.find (\<lambda>r. t_id r = t_id t) (upsert_tasks t rows) = Some (bare_row t)"
  by (induction rows) (auto simp: upsert_tasks_def find_None_iff split: if_splits)

text \<open>What a save stores and what the next read makes of it, column for column.\<close>

lemma get_task_saved:
  assumes "save_task cap t src d = Inr d'"
  shows "get_task (t_id t) d' =
    Inr (hydrate d' (case find_row d (t_id t) of None \<Rightarrow> bare_row t | Some old \<Rightarrow> upsert_row t old))"
proof -
  have "db_tasks d' = upsert_tasks t (db_tasks d)"
    using assms by (auto simp: save_task_def elim!: write_task_cases)
  then show ?thesis
    by (simp add: get_task_def find_row_def find_row_upsert_old find_row_upsert_new split: option.split)
qed

lemma load_saved:
  assumes "save_task cap t src d = Inr d'"
  shows "load_relations d' (t_id t) = sort_key (\<lambda>r. (kind_order (rel_kind r), rel_other r)) (t_relations t)"
    "load_comments d' i = load_comments d i"
proof -
  have "db_relations d' = filter (\<lambda>x. fst x \<noteq> t_id t) (db_relations d) @ map (\<lambda>r. (t_id t, r)) (t_relations t)"
    "db_comments d' = db_comments d"
    using assms by (auto simp: save_task_def elim!: write_task_cases)
  then show "load_relations d' (t_id t) = sort_key (\<lambda>r. (kind_order (rel_kind r), rel_other r)) (t_relations t)"
    "load_comments d' i = load_comments d i"
    by (simp_all add: load_relations_def load_comments_def filter_map comp_def)
qed

text \<open>C32 What a save keeps and what the next read shows.  The columns a caller owns are read back as
  saved, the relations as a set and the issue type in its canonical single-string form.  Of the
  columns it does not own, \<open>created_at\<close> and \<open>synced_at\<close> of a stored row stay as they are, whatever the
  saved value says, the flag of a pending issue type is raised by a change of the type and never
  lowered, and the comments are those of the comment table.  Every other task reads as before, and the
  baseline of the reloaded task is the saved content exactly for a baseline source: then the outbound
  patch of the reloaded task is empty, whatever sync state it was saved with; otherwise the old
  baseline is kept.\<close>

theorem stored_task_roundtrip:
  assumes "save_task cap t src d = Inr d'"
  shows "\<exists>t'. get_task (t_id t) d' = Inr t' \<and> same_record t t' \<and>
      t_comments t' = load_comments d (t_id t) \<and>
      (case find_row d (t_id t) of
         None \<Rightarrow> t_created_at t' = t_created_at t \<and> t_synced_at t' = t_synced_at t \<and>
           t_issue_type_pending t' = t_issue_type_pending t
       | Some old \<Rightarrow> t_created_at t' = t_created_at old \<and> t_synced_at t' = t_synced_at old \<and>
           (t_issue_type_pending t' \<longleftrightarrow> t_issue_type_pending old \<or>
              issue_type_column (t_issue_type t) \<noteq> issue_type_column (t_issue_type old))) \<and>
      (if makes_baseline t src then patch_is_empty (diff_against_baseline t')
       else t_synced_baseline t' = load_latest_baseline d (t_id t)) \<and>
      (\<forall>i. i \<noteq> t_id t \<longrightarrow> get_task i d' = get_task i d)"
proof -
  let ?r = "case find_row d (t_id t) of None \<Rightarrow> bare_row t | Some old \<Rightarrow> upsert_row t old"
  have get: "get_task (t_id t) d' = Inr (hydrate d' ?r)" by (rule get_task_saved [OF assms])
  with get_save_task [OF assms] have same: "same_record t (hydrate d' ?r)" by auto
  have base: "if makes_baseline t src then patch_is_empty (diff_against_baseline (hydrate d' ?r))
    else t_synced_baseline (hydrate d' ?r) = load_latest_baseline d (t_id t)"
  proof (cases "makes_baseline t src")
    case True
    with sqlite_tasks.aligned_save [OF assms] get show ?thesis by auto
  next
    case False
    then have "load_latest_baseline d' (t_id t) = load_latest_baseline d (t_id t)"
      using assms load_latest_baseline_save by (simp add: save_task_def)
    with False get_task_baseline [OF get] show ?thesis by simp
  qed
  show ?thesis
    by (intro exI [of _ "hydrate d' ?r"] conjI get same base)
      (auto simp: hydrate_def row_to_task_def upsert_row_def bare_row_def load_saved(2) [OF assms] get_save_task_other [OF assms]
        split: option.split)
qed

theorem stored_task_roundtrip_witness:
  "\<exists>d' t'. save_task 5 (sample_mirror\<lparr>t_sync := DirtyLocal, t_body := lit ''edited''\<rparr>) SrcPull empty_db
     = Inr d' \<and> get_task (t_id sample_mirror) d' = Inr t' \<and> t_sync t' = DirtyLocal \<and>
     t_body t' = lit ''edited'' \<and> patch_is_empty (diff_against_baseline t')"
proof -
  let ?t = "sample_mirror\<lparr>t_sync := DirtyLocal, t_body := lit ''edited''\<rparr>"
  have "t_relations ?t = []" by (simp add: sample_simps)
  then obtain d' where d': "save_task 5 ?t SrcPull empty_db = Inr d'"
    using save_solo [of ?t empty_db] solo_empty_db by metis
  have "makes_baseline ?t SrcPull" by (simp add: makes_baseline_def source_is_baseline_def)
  with stored_task_roundtrip [OF d'] d' show ?thesis by (auto simp: same_record_def)
qed

text \<open>A full push cycle against the store converges: load the task, confirm the patch its edits
  make against the loaded baseline, save with source Push; the next load is Synced with an empty
  patch and still carries every local edit.\<close>

theorem stored_push_converges:
  assumes "get_task i d = Inr t" "t_synced_baseline t = Some prior"
    "t_sync t \<in> {Staged, DirtyLocal, DirtyRemote}"
    "save_task cap (projr (confirm_synced_fields now SrcPush (diff_against_baseline t) t)) SrcPush d = Inr d'"
  shows "\<exists>t'. get_task i d' = Inr t' \<and> t_sync t' = Synced \<and>
    patch_is_empty (diff_against_baseline t') \<and> t_title t' = t_title t \<and> t_body t' = t_body t \<and>
    t_lifecycle t' = t_lifecycle t \<and> t_assignees t' = t_assignees t"
proof -
  obtain t1 where t1: "confirm_synced_fields now SrcPush (diff_against_baseline t) t = Inr t1"
    using assms(2,3) by (auto simp: confirm_synced_fields_def)
  with assms(4) have "save_task cap t1 SrcPush d = Inr d'" by simp
  from sqlite_tasks.push_cycle [OF assms(1) t1 this] show ?thesis .
qed

theorem stored_push_converges_witness:
  "\<exists>d t d' t'. get_task (t_id sample_mirror) d = Inr t \<and> t_sync t = DirtyLocal \<and>
     save_task 7 (projr (confirm_synced_fields 6 SrcPush (diff_against_baseline t) t)) SrcPush d = Inr d' \<and>
     get_task (t_id sample_mirror) d' = Inr t' \<and> t_sync t' = Synced"
proof -
  let ?t = "sample_mirror\<lparr>t_sync := DirtyLocal\<rparr>"
  have rel: "t_relations ?t = []" by (simp add: sample_simps)
  then obtain d where d: "save_task 5 ?t SrcPull empty_db = Inr d" "solo_db (t_id ?t) d"
    using save_solo [of ?t empty_db] solo_empty_db by metis
  obtain t where t: "get_task (t_id ?t) d = Inr t" "same_record ?t t"
    using get_save_task [OF d(1)] by blast
  have "makes_baseline ?t SrcPull" by (simp add: makes_baseline_def source_is_baseline_def)
  then obtain b where b: "t_synced_baseline t = Some b"
    using sqlite_tasks.baseline_taken [OF d(1) _ t(1)] by blast
  let ?u = "projr (confirm_synced_fields 6 SrcPush (diff_against_baseline t) t)"
  have sync: "t_sync t = DirtyLocal" and rel': "t_relations t = []" and id: "t_id t = t_id ?t"
    using t(2) rel by (auto simp: same_record_def)
  then have "t_relations ?u = []" "t_id ?u = t_id ?t"
    using b by (simp_all add: confirm_synced_fields_def touch_def)
  then obtain d' where d': "save_task 7 ?u SrcPush d = Inr d'" using save_solo [of ?u d] d(2) by metis
  from stored_push_converges [OF t(1) b _ d'] sync t(1) d' show ?thesis by auto
qed

section \<open>Referential integrity and the snapshot log\<close>

text \<open>The constraints of the schema, and the two facts the code relies on without one: a task's
  snapshots are numbered \<open>1, 2, \<dots>\<close> in the order they were written.\<close>

definition versions_of :: "task_id \<Rightarrow> db \<Rightarrow> nat list" where
  "versions_of i d = map s_version (filter (\<lambda>s. s_task_id s = i) (db_snapshots d))"

definition dense_versions :: "db \<Rightarrow> bool" where
  "dense_versions d \<longleftrightarrow> (\<forall>i. versions_of i d = [1..<Suc (length (versions_of i d))])"

definition hashes_unique :: "task list \<Rightarrow> bool" where
  "hashes_unique rows \<longleftrightarrow> (\<forall>r \<in> set rows. \<forall>r' \<in> set rows. t_hash r = t_hash r' \<longrightarrow> t_hash r \<noteq> [] \<longrightarrow> t_id r = t_id r')"

definition mappings_unique :: "remote_mapping list \<Rightarrow> bool" where
  "mappings_unique ms \<longleftrightarrow> distinct (map rm_task_id ms) \<and>
     distinct (map (\<lambda>m. (rm_filing_repo_id m, rm_provider m, rm_remote_id m)) ms)"

definition db_refs :: "db \<Rightarrow> task_id set" where
  "db_refs d = fst ` set (db_relations d) \<union> (rel_other \<circ> snd) ` set (db_relations d) \<union>
     s_task_id ` set (db_snapshots d) \<union> rm_task_id ` set (db_mappings d)"

definition db_wf :: "db \<Rightarrow> bool" where
  "db_wf d \<longleftrightarrow> distinct (map t_id (db_tasks d)) \<and> hashes_unique (db_tasks d) \<and>
     distinct (db_relations d) \<and> mappings_unique (db_mappings d) \<and>
     db_refs d \<subseteq> t_id ` set (db_tasks d) \<and> dense_versions d"

lemma map_ids_update: "map t_id (update_where (\<lambda>r. t_id r = t_id t) (upsert_row t) rows) = map t_id rows"
  by (induction rows) auto

lemma map_ids_upsert_tasks:
  "map t_id (upsert_tasks t rows) =
     (if t_id t \<in> t_id ` set rows then map t_id rows else map t_id rows @ [t_id t])"
  by (simp add: upsert_tasks_def map_ids_update)

lemma ids_upsert_tasks: "t_id ` set (upsert_tasks t rows) = insert (t_id t) (t_id ` set rows)"
  unfolding set_map [symmetric] map_ids_upsert_tasks by auto

lemma distinct_ids_upsert: "distinct (map t_id rows) \<Longrightarrow> distinct (map t_id (upsert_tasks t rows))"
  by (simp add: map_ids_upsert_tasks)

lemma t_hash_rows [simp]: "t_hash (upsert_row t old) = t_hash t" "t_hash (bare_row t) = t_hash t"
  by (simp_all add: upsert_row_def bare_row_def)

lemma upsert_tasks_members:
  "r \<in> set (upsert_tasks t rows) \<Longrightarrow>
     (t_id r = t_id t \<and> t_hash r = t_hash t) \<or> (r \<in> set rows \<and> t_id r \<noteq> t_id t)"
proof -
  assume r: "r \<in> set (upsert_tasks t rows)"
  show ?thesis
  proof (cases "t_id t \<in> t_id ` set rows")
    case True
    with r obtain x where x: "x \<in> set rows" "r = (if t_id x = t_id t then upsert_row t x else x)"
      by (auto simp: upsert_tasks_def set_update_where simp del: Un_iff)
    then show ?thesis by (cases "t_id x = t_id t") simp_all
  next
    case False
    with r have "r = bare_row t \<or> r \<in> set rows" by (auto simp: upsert_tasks_def)
    with False show ?thesis by (metis image_eqI t_hash_rows(2) t_id_rows(2))
  qed
qed

lemma hashes_unique_upsert:
  assumes "hashes_unique rows"
    "\<not> (t_hash t \<noteq> [] \<and> list_ex (\<lambda>r. t_id r \<noteq> t_id t \<and> t_hash r = t_hash t) rows)"
  shows "hashes_unique (upsert_tasks t rows)"
  unfolding hashes_unique_def
proof (intro ballI impI)
  fix r r'
  assume "r \<in> set (upsert_tasks t rows)" "r' \<in> set (upsert_tasks t rows)"
  note m = this [THEN upsert_tasks_members]
  assume h: "t_hash r = t_hash r'" "t_hash r \<noteq> []"
  have other: "t_hash x \<noteq> t_hash t \<or> t_hash t = []" if "x \<in> set rows" "t_id x \<noteq> t_id t" for x
    using that assms(2) by (auto simp: list_ex_iff)
  have rows: "t_id x = t_id y" if "x \<in> set rows" "y \<in> set rows" "t_hash x = t_hash y" "t_hash x \<noteq> []" for x y
    using that assms(1) unfolding hashes_unique_def by blast
  show "t_id r = t_id r'" using m h other [of r] other [of r'] rows [of r r'] by metis
qed

lemma distinct_update_where_key:
  assumes "distinct (map f xs)" "distinct (map k xs)"
    "\<And>x. x \<in> set xs \<Longrightarrow> f x \<noteq> f m \<Longrightarrow> k x \<noteq> k m"
  shows "distinct (map k (update_where (\<lambda>x. f x = f m) (\<lambda>_. m) xs))"
  using assms
proof (induction xs)
  case (Cons x xs)
  show ?case
  proof (cases "f x = f m")
    case True
    then have none: "\<forall>y \<in> set xs. f y \<noteq> f m" using Cons.prems(1) by (metis distinct.simps(2) image_eqI list.simps(9) set_map)
    then have "k m \<notin> k ` set xs" using Cons.prems(3) by (metis imageE list.set_intros(2))
    with True none Cons.prems(2) show ?thesis by (simp add: update_where_none)
  next
    case False
    then have "k x \<noteq> k m" using Cons.prems(3) by simp
    with False Cons show ?thesis by (auto simp: set_update_where)
  qed
qed simp

lemma upsert_mapping_unique:
  assumes "mappings_unique ms" "upsert_mapping t ms = Inr ms'"
  shows "mappings_unique ms'" "rm_task_id ` set ms' \<subseteq> insert (t_id t) (rm_task_id ` set ms)"
proof -
  let ?k = "\<lambda>m. (rm_filing_repo_id m, rm_provider m, rm_remote_id m)"
  have "mappings_unique ms' \<and> rm_task_id ` set ms' \<subseteq> insert (t_id t) (rm_task_id ` set ms)"
  proof (cases "t_remote t")
    case None
    then have "ms' = filter (\<lambda>m. rm_task_id m \<noteq> t_id t) ms" using assms(2) by (simp add: upsert_mapping_def)
    with assms(1) show ?thesis by (auto simp: mappings_unique_def distinct_map_filter)
  next
    case (Some remote)
    define m where "m = \<lparr>rm_task_id = t_id t, rm_filing_repo_id = t_filing_repo_id t,
      rm_provider = rr_provider remote, rm_remote_id = rr_remote_id remote, rm_last_synced_at = t_updated_at t\<rparr>"
    have fresh: "?k x \<noteq> ?k m" if "x \<in> set ms" "rm_task_id x \<noteq> t_id t" for x
      using assms(2) Some that
      by (auto simp: upsert_mapping_def Let_def m_def list_ex_iff split: if_splits)
    have ms': "ms' = (if t_id t \<in> rm_task_id ` set ms
      then update_where (\<lambda>x. rm_task_id x = t_id t) (\<lambda>_. m) ms else ms @ [m])"
      using assms(2) Some by (simp add: upsert_mapping_def Let_def m_def split: if_splits)
    have id: "rm_task_id m = t_id t" by (simp add: m_def)
    show ?thesis
    proof (cases "t_id t \<in> rm_task_id ` set ms")
      case True
      have "map rm_task_id (update_where (\<lambda>x. rm_task_id x = t_id t) (\<lambda>_. m) ms) = map rm_task_id ms"
        by (induction ms) (auto simp: id)
      with True assms(1) distinct_update_where_key [of rm_task_id ms ?k m] fresh id show ?thesis
        by (auto simp: ms' id mappings_unique_def set_update_where)
    next
      case False
      have "rm_task_id x \<noteq> t_id t" if "x \<in> set ms" for x using False that by force
      with fresh have "\<forall>x \<in> set ms. ?k x \<noteq> ?k m" by blast
      then have "?k m \<notin> ?k ` set ms" by (metis (no_types, lifting) imageE)
      with False assms(1) show ?thesis by (simp add: ms' id mappings_unique_def subset_insertI)
    qed
  qed
  then show "mappings_unique ms'" "rm_task_id ` set ms' \<subseteq> insert (t_id t) (rm_task_id ` set ms)" by auto
qed

lemma insert_relations_ok:
  "insert_relations rows tid rs acc = Inr acc' \<Longrightarrow> distinct acc \<Longrightarrow> (rel_other \<circ> snd) ` set acc \<subseteq> t_id ` set rows \<Longrightarrow>
   distinct acc' \<and> (rel_other \<circ> snd) ` set acc' \<subseteq> t_id ` set rows"
  by (induction rows tid rs acc rule: insert_relations.induct) (auto split: if_splits)

lemma dense_versions_next:
  assumes "dense_versions d"
  shows "next_version d i = Suc (length (versions_of i d))"
proof -
  have "fold (\<lambda>s m. max (s_version s) m) xs 0 = n" if "map s_version xs = [1..<Suc n]" for xs :: "task_snapshot list" and n
    using that
  proof (induction n arbitrary: xs)
    case (Suc n)
    then obtain ys y where xs: "xs = ys @ [y]" by (cases xs rule: rev_cases) auto
    with Suc.prems have "map s_version ys = [1..<Suc n]" "s_version y = Suc n" by auto
    with Suc.IH show ?case by (simp add: xs)
  qed simp
  from this [of "filter (\<lambda>s. s_task_id s = i) (db_snapshots d)" "length (versions_of i d)"] assms
  show ?thesis by (simp add: next_version_def dense_versions_def versions_of_def)
qed

lemma dense_versions_write:
  assumes "dense_versions d" "db_snapshots d' = db_snapshots d @ [snapshot_row cap (next_version d (t_id t)) t src]"
  shows "dense_versions d'"
  unfolding dense_versions_def
proof
  fix i
  have "versions_of i d' = versions_of i d @ (if i = t_id t then [Suc (length (versions_of i d))] else [])"
    using assms(2) dense_versions_next [OF assms(1), of i] by (auto simp: versions_of_def snapshot_row_def)
  moreover have "versions_of i d = [1..<Suc (length (versions_of i d))]"
    using assms(1) by (simp add: dense_versions_def)
  ultimately show "versions_of i d' = [1..<Suc (length (versions_of i d'))]" by (cases "i = t_id t") auto
qed

lemma write_task_wf:
  assumes "db_wf d" "write_task_in_tx cap t src d = Inr d'"
  shows "db_wf d'"
proof -
  let ?acc = "filter (\<lambda>x. fst x \<noteq> t_id t) (db_relations d)"
  from assms(2) have d': "db_tasks d' = upsert_tasks t (db_tasks d)"
    "db_snapshots d' = db_snapshots d @ [snapshot_row cap (next_version d (t_id t)) t src]"
    "upsert_mapping t (db_mappings d) = Inr (db_mappings d')"
    "db_relations d' = ?acc @ map (\<lambda>r. (t_id t, r)) (t_relations t)"
    by (auto elim!: write_task_cases)
  have rels: "insert_relations (db_tasks d') (t_id t) (t_relations t) ?acc = Inr (db_relations d')"
    and hash: "\<not> (t_hash t \<noteq> [] \<and> list_ex (\<lambda>r. t_id r \<noteq> t_id t \<and> t_hash r = t_hash t) (db_tasks d))"
    using assms(2) by (auto simp: write_task_in_tx_def Let_def split: if_splits sum.splits)
  have ids: "t_id ` set (db_tasks d') = insert (t_id t) (t_id ` set (db_tasks d))"
    by (simp add: d'(1) ids_upsert_tasks)
  have refs: "db_refs d \<subseteq> t_id ` set (db_tasks d)" using assms(1) by (simp add: db_wf_def)
  then have "(rel_other \<circ> snd) ` set ?acc \<subseteq> t_id ` set (db_tasks d')" by (auto simp: ids db_refs_def)
  with insert_relations_ok [OF rels] assms(1) have
    rels': "distinct (db_relations d')" "(rel_other \<circ> snd) ` set (db_relations d') \<subseteq> t_id ` set (db_tasks d')"
    by (auto simp: db_wf_def)
  note maps = upsert_mapping_unique [OF _ d'(3)]
  have "fst ` set (db_relations d') \<subseteq> t_id ` set (db_tasks d')"
    "s_task_id ` set (db_snapshots d') \<subseteq> t_id ` set (db_tasks d')"
    using refs by (auto simp: ids db_refs_def d'(2,4) snapshot_row_def)
  moreover have "rm_task_id ` set (db_mappings d') \<subseteq> t_id ` set (db_tasks d')"
  proof -
    have "rm_task_id ` set (db_mappings d) \<subseteq> t_id ` set (db_tasks d)" using refs by (simp add: db_refs_def)
    moreover have "mappings_unique (db_mappings d)" using assms(1) by (simp add: db_wf_def)
    ultimately show ?thesis using maps(2) unfolding ids by blast
  qed
  ultimately have "db_refs d' \<subseteq> t_id ` set (db_tasks d')" using rels'(2) by (simp add: db_refs_def)
  with rels'(1) assms(1) hash maps(1) dense_versions_write [OF _ d'(2)] show ?thesis
    by (simp add: db_wf_def d'(1) distinct_ids_upsert hashes_unique_upsert)
qed

lemma update_row_wf:
  assumes "db_wf d" "\<And>r. t_id (f r) = t_id r \<and> t_hash (f r) = t_hash r"
  shows "db_wf (d\<lparr>db_tasks := update_where P f (db_tasks d)\<rparr>)"
proof -
  have "hashes_unique (update_where P f (db_tasks d))"
    unfolding hashes_unique_def
  proof (intro ballI)
    have row: "thesis" if "r \<in> set (update_where P f (db_tasks d))"
      "\<And>x. x \<in> set (db_tasks d) \<Longrightarrow> t_id r = t_id x \<Longrightarrow> t_hash r = t_hash x \<Longrightarrow> thesis" for r thesis
    proof -
      from that(1) obtain x where "x \<in> set (db_tasks d)" "r = (if P x then f x else x)"
        by (auto simp: update_where_def)
      with that(2) assms(2) show thesis by metis
    qed
    fix r r'
    assume "r \<in> set (update_where P f (db_tasks d))" "r' \<in> set (update_where P f (db_tasks d))"
    then obtain x x' where "x \<in> set (db_tasks d)" "x' \<in> set (db_tasks d)"
      "t_id r = t_id x" "t_hash r = t_hash x" "t_id r' = t_id x'" "t_hash r' = t_hash x'"
      by (elim row) blast
    with assms(1) show "t_hash r = t_hash r' \<longrightarrow> t_hash r \<noteq> [] \<longrightarrow> t_id r = t_id r'"
      unfolding db_wf_def hashes_unique_def by metis
  qed
  moreover have ids: "map t_id (update_where P f (db_tasks d)) = map t_id (db_tasks d)"
    using assms(2) by (intro map_update_where) simp
  moreover have "t_id ` set (update_where P f (db_tasks d)) = t_id ` set (db_tasks d)"
    using ids by (metis set_map)
  moreover have "db_refs (d\<lparr>db_tasks := x\<rparr>) = db_refs d" "dense_versions (d\<lparr>db_tasks := x\<rparr>) = dense_versions d" for x
    by (simp_all add: db_refs_def dense_versions_def versions_of_def)
  ultimately show ?thesis using assms(1) by (simp add: db_wf_def)
qed

lemma delete_task_wf:
  assumes "db_wf d"
  shows "db_wf (delete_task i d)"
proof -
  have v: "versions_of j (delete_task i d) = (if j = i then [] else versions_of j d)" for j
    by (auto simp: versions_of_def delete_task_def intro!: arg_cong [where f = "map s_version"] filter_cong)
  have "dense_versions (delete_task i d)"
    unfolding dense_versions_def
  proof
    fix j
    have "versions_of j d = [1..<Suc (length (versions_of j d))]"
      using assms by (simp only: db_wf_def dense_versions_def)
    then show "versions_of j (delete_task i d) = [1..<Suc (length (versions_of j (delete_task i d)))]"
      by (cases "j = i") (simp add: v, simp only: v if_False)
  qed
  moreover have "db_refs (delete_task i d) \<subseteq> db_refs d - {i}"
    by (auto simp: db_refs_def delete_task_def)
  moreover have "t_id ` set (db_tasks (delete_task i d)) = t_id ` set (db_tasks d) - {i}"
    by (auto simp: delete_task_def)
  moreover have "db_refs d \<subseteq> t_id ` set (db_tasks d)" using assms by (simp add: db_wf_def)
  ultimately have "dense_versions (delete_task i d)"
    "db_refs (delete_task i d) \<subseteq> t_id ` set (db_tasks (delete_task i d))" by auto
  moreover have "distinct (map t_id (db_tasks (delete_task i d)))" "distinct (db_relations (delete_task i d))"
    "mappings_unique (db_mappings (delete_task i d))"
    using assms by (simp_all add: db_wf_def delete_task_def mappings_unique_def distinct_map_filter)
  moreover have "hashes_unique (db_tasks (delete_task i d))"
    using assms by (simp add: db_wf_def delete_task_def hashes_unique_def)
  ultimately show ?thesis by (simp only: db_wf_def)
qed


section \<open>Histories of statements\<close>

datatype db_op =
    DbSave timestamp task snapshot_source
  | DbSaveMany timestamp "(task \<times> snapshot_source) list" "outbox_entry list"
  | DbStatus task_id "rstring option"
  | DbPriority task_id priority
  | DbRemoteDirty task_id
  | DbNodeId task_id rstring
  | DbClearType task_id "issue_type option"
  | DbSyncedAt task_id timestamp
  | DbComments "nat \<Rightarrow> rstring" task_id "remote_comment list"
  | DbAddComment rstring task_id rstring rstring timestamp
  | DbPushComments "nat \<Rightarrow> rstring" task_id "rstring list" "remote_comment list"
  | DbDelete task_id

fun apply_db_op :: "db_op \<Rightarrow> db \<Rightarrow> db port_result" where
  "apply_db_op (DbSave cap t src) d = save_task cap t src d"
| "apply_db_op (DbSaveMany cap ts es) d = save_many_with_outbox cap ts es d"
| "apply_db_op (DbStatus i opt) d = Inr (cache_project_status i opt d)"
| "apply_db_op (DbPriority i p) d = Inr (apply_polled_priority i p d)"
| "apply_db_op (DbRemoteDirty i) d = Inr (mark_remote_dirty i d)"
| "apply_db_op (DbNodeId i n) d = Inr (cache_remote_node_id i n d)"
| "apply_db_op (DbClearType i it) d = Inr (snd (clear_issue_type_pending i it d))"
| "apply_db_op (DbSyncedAt i ts) d = Inr (cache_synced_at i ts d)"
| "apply_db_op (DbComments fresh i cs) d = Inr (replace_comments fresh i cs d)"
| "apply_db_op (DbAddComment fresh i a b ts) d = Inr (add_pending_comment fresh i a b ts d)"
| "apply_db_op (DbPushComments fresh i drained pushed) d = Inr (mark_comments_pushed fresh i drained pushed d)"
| "apply_db_op (DbDelete i) d = Inr (delete_task i d)"

text \<open>A failed transaction leaves the database as it was.\<close>

fun run_db :: "db_op list \<Rightarrow> db \<Rightarrow> db" where
  "run_db [] d = d"
| "run_db (op # ops) d = run_db ops (case apply_db_op op d of Inl _ \<Rightarrow> d | Inr d' \<Rightarrow> d')"

lemma db_wf_other_tables:
  "db_wf (d\<lparr>db_comments := c\<rparr>) = db_wf d" "db_wf (d\<lparr>db_outbox := e\<rparr>) = db_wf d"
  by (simp_all add: db_wf_def db_refs_def dense_versions_def versions_of_def)

lemma save_many_wf: "db_wf d \<Longrightarrow> save_many cap ts d = Inr d' \<Longrightarrow> db_wf d'"
  by (induction cap ts d rule: save_many.induct) (auto split: sum.splits dest: write_task_wf)

lemma apply_db_op_wf: "db_wf d \<Longrightarrow> apply_db_op op d = Inr d' \<Longrightarrow> db_wf d'"
  by (cases op)
    (auto simp: save_task_def save_many_with_outbox_def insert_entries_def db_wf_other_tables
      replace_comments_def add_pending_comment_def mark_comments_pushed_def delete_task_wf cache_project_status_def
      apply_polled_priority_def mark_remote_dirty_def cache_remote_node_id_def update_row_def
      clear_issue_type_pending_def cache_synced_at_def Let_def
      split: sum.splits intro!: update_row_wf dest: write_task_wf save_many_wf)

text \<open>The snapshots of a task other than a deleted one only grow.\<close>

lemma write_task_snapshots:
  "write_task_in_tx cap t src d = Inr d' \<Longrightarrow>
     db_snapshots d' = db_snapshots d @ [snapshot_row cap (next_version d (t_id t)) t src]"
  by (auto elim!: write_task_cases)

lemma save_many_snapshots: "save_many cap ts d = Inr d' \<Longrightarrow> prefix (db_snapshots d) (db_snapshots d')"
  by (induction cap ts d rule: save_many.induct)
    (auto split: sum.splits dest!: write_task_snapshots intro: prefix_order.trans simp: append_prefixD)

definition task_log :: "task_id \<Rightarrow> db \<Rightarrow> task_snapshot list" where
  "task_log i d = filter (\<lambda>s. s_task_id s = i) (db_snapshots d)"

lemma prefix_task_log: "prefix (db_snapshots d) (db_snapshots d') \<Longrightarrow> prefix (task_log i d) (task_log i d')"
  by (auto simp: task_log_def prefix_def)

lemma apply_db_op_log:
  assumes "apply_db_op op d = Inr d'" "op \<noteq> DbDelete i"
  shows "prefix (task_log i d) (task_log i d')"
proof (cases "\<exists>j. op = DbDelete j")
  case True
  with assms have "task_log i d' = task_log i d"
    by (auto simp: task_log_def delete_task_def intro!: filter_cong [OF refl])
  then show ?thesis by simp
next
  case False
  then have "prefix (db_snapshots d) (db_snapshots d')" using assms(1)
    by (cases op)
      (auto simp: save_task_def save_many_with_outbox_def insert_entries_def replace_comments_def
        add_pending_comment_def mark_comments_pushed_def cache_project_status_def apply_polled_priority_def
        mark_remote_dirty_def cache_remote_node_id_def update_row_def clear_issue_type_pending_def
        cache_synced_at_def Let_def split: sum.splits
        dest: write_task_snapshots save_many_snapshots)
  then show ?thesis by (rule prefix_task_log)
qed

lemma run_db_log:
  "DbDelete i \<notin> set ops \<Longrightarrow> prefix (task_log i d) (task_log i (run_db ops d))"
proof (induction ops arbitrary: d)
  case (Cons op ops)
  show ?case
  proof (cases "apply_db_op op d")
    case (Inr d')
    with Cons have "prefix (task_log i d) (task_log i d')" "prefix (task_log i d') (task_log i (run_db ops d'))"
      by (auto intro: apply_db_op_log)
    then show ?thesis using Inr by (auto intro: prefix_order.trans)
  qed (use Cons in simp)
qed simp

lemma run_db_wf: "db_wf d \<Longrightarrow> db_wf (run_db ops d)"
  by (induction ops arbitrary: d) (auto split: sum.splits dest: apply_db_op_wf)

lemma empty_db_wf: "db_wf empty_db"
  by (simp add: db_wf_def empty_db_def hashes_unique_def mappings_unique_def db_refs_def
      dense_versions_def versions_of_def)

lemma find_conj_filter: "List.find (\<lambda>x. P x \<and> Q x) xs = List.find Q (filter P xs)"
  by (induction xs) auto

lemma list_snapshots_dense:
  assumes "dense_versions d"
  shows "list_snapshots i d = map decode_snapshot (task_log i d)"
    "map s_version (list_snapshots i d) = [1..<Suc (length (list_snapshots i d))]"
proof -
  have v: "map s_version (task_log i d) = [1..<Suc (length (task_log i d))]"
    using assms by (simp only: dense_versions_def versions_of_def task_log_def length_map)
  then have "sorted (map s_version (task_log i d))" by (metis sorted_upt)
  then show l: "list_snapshots i d = map decode_snapshot (task_log i d)"
    by (simp add: list_snapshots_def task_log_def sort_key_id_if_sorted)
  have "s_version \<circ> decode_snapshot = s_version" by (auto simp: decode_snapshot_def)
  then show "map s_version (list_snapshots i d) = [1..<Suc (length (list_snapshots i d))]"
    unfolding l by (simp only: map_map length_map v)
qed

text \<open>C12 Whatever sequence of statements runs, the tables stay consistent: task ids and non-empty
  hashes are unique, relation edges are distinct and both ends exist, one mapping per task and one
  task per remote issue, no dangling snapshot or mapping, and dense snapshot versions.\<close>

theorem store_integrity: "db_wf (run_db ops empty_db)"
  using run_db_wf empty_db_wf .

text \<open>The snapshot log of a task is append-only until the task is deleted: later statements only
  extend the listing, the versions are \<open>1, \<dots>, n\<close>, and a lookup by version returns the listed entry.\<close>

theorem snapshot_log_append_only:
  assumes "DbDelete i \<notin> set later" "d = run_db ops empty_db" "d' = run_db later d"
  shows "prefix (list_snapshots i d) (list_snapshots i d') \<and>
    map s_version (list_snapshots i d') = [1..<Suc (length (list_snapshots i d'))] \<and>
    (\<forall>v < length (list_snapshots i d'). get_snapshot i (Suc v) d' = Inr (list_snapshots i d' ! v))"
proof (intro conjI allI impI)
  have wf: "dense_versions d" "dense_versions d'"
    using run_db_wf [OF empty_db_wf] run_db_wf [of d later] by (auto simp: assms db_wf_def)
  note l = list_snapshots_dense(1) [OF wf(1)] list_snapshots_dense(1) [OF wf(2)]
  show "prefix (list_snapshots i d) (list_snapshots i d')"
    using run_db_log [OF assms(1), of d] unfolding l by (simp add: assms(3) map_mono_prefix)
  show v: "map s_version (list_snapshots i d') = [1..<Suc (length (list_snapshots i d'))]"
    by (rule list_snapshots_dense(2) [OF wf(2)])
  fix k assume k: "k < length (list_snapshots i d')"
  let ?s = "task_log i d' ! k"
  from k have mem: "?s \<in> set (task_log i d')" "list_snapshots i d' ! k = decode_snapshot ?s" by (simp_all add: l)
  have vl: "map s_version (task_log i d') = [1..<Suc (length (task_log i d'))]"
    using wf(2) by (simp only: dense_versions_def versions_of_def task_log_def length_map)
  have kl: "k < length (task_log i d')" using k by (simp add: l)
  then have "s_version ?s = [1..<Suc (length (task_log i d'))] ! k" by (metis nth_map vl)
  also have "\<dots> = Suc k" using kl by (subst nth_upt) auto
  finally have key: "s_version ?s = Suc k" .
  have "distinct (map s_version (task_log i d'))" unfolding vl by (rule distinct_upt)
  from find_distinct_key [OF this mem(1)]
  have "List.find (\<lambda>s. s_version s = Suc k) (task_log i d') = Some ?s" by (simp add: key)
  then show "get_snapshot i (Suc k) d' = Inr (list_snapshots i d' ! k)"
    by (simp add: get_snapshot_def find_conj_filter mem(2) flip: task_log_def)
qed

theorem snapshot_log_append_only_witness:
  "\<exists>d d'. d = run_db [DbSave 5 sample_mirror SrcPull] empty_db \<and> d' = run_db [DbSave 6 sample_mirror SrcPush] d \<and>
     length (list_snapshots (t_id sample_mirror) d') = 2 \<and>
     (\<exists>x. get_snapshot (t_id sample_mirror) 2 d' = Inr x)"
proof -
  let ?i = "t_id sample_mirror"
  define d where "d = run_db [DbSave 5 sample_mirror SrcPull] empty_db"
  define d' where "d' = run_db [DbSave 6 sample_mirror SrcPush] d"
  have rel: "t_relations sample_mirror = []" by (simp add: sample_simps)
  obtain d1 where d1: "save_task 5 sample_mirror SrcPull empty_db = Inr d1" "solo_db ?i d1"
    using save_solo [OF _ rel] solo_empty_db by metis
  obtain d2 where d2: "save_task 6 sample_mirror SrcPush d1 = Inr d2"
    using save_solo [OF _ rel] d1(2) by metis
  have "d = d1" "d' = d2" by (simp_all add: d_def d'_def d1 d2)
  with d1(1) d2 have "length (task_log ?i d') = 2"
    by (auto simp: save_task_def task_log_def snapshot_row_def empty_db_def dest!: write_task_snapshots)
  then have len: "length (list_snapshots ?i d') = 2" by (simp add: list_snapshots_def task_log_def)
  with snapshot_log_append_only [of ?i "[DbSave 6 sample_mirror SrcPush]" d _ d', OF _ d_def d'_def]
  have "get_snapshot ?i 2 d' = Inr (list_snapshots ?i d' ! 1)" by (simp add: numeral_2_eq_2)
  with d_def d'_def len show ?thesis by blast
qed

section \<open>The issue-type flag\<close>

text \<open>The flag that an issue type still has to be pushed is never lost to a race: a save raises it
  exactly when it changes the stored type and never lowers it, the last observation of the
  remote is kept, and a clear carrying the type that was pushed lowers it only while the task
  still has that type.\<close>

theorem issue_type_flag_not_lost:
  assumes "find_row d (t_id t) = Some old" "save_task cap t src d = Inr d'"
  shows "\<exists>new. find_row d' (t_id t) = Some new \<and> t_synced_at new = t_synced_at old \<and>
    t_created_at new = t_created_at old \<and> t_issue_type new = t_issue_type t \<and>
    (t_issue_type_pending new \<longleftrightarrow> t_issue_type_pending old \<or>
       issue_type_column (t_issue_type t) \<noteq> issue_type_column (t_issue_type old)) \<and>
    (\<exists>new'. find_row (snd (clear_issue_type_pending (t_id t) pushed d')) (t_id t) = Some new' \<and>
       (t_issue_type_pending new' \<longleftrightarrow> t_issue_type_pending new \<and>
          issue_type_column pushed \<noteq> issue_type_column (t_issue_type t)))"
proof -
  have "db_tasks d' = upsert_tasks t (db_tasks d)"
    using assms(2) by (auto simp: save_task_def elim!: write_task_cases)
  then have new: "find_row d' (t_id t) = Some (upsert_row t old)"
    using assms(1) find_row_upsert_old by (simp add: find_row_def)
  let ?hit = "\<lambda>r. t_id r = t_id t \<and> t_issue_type_pending r \<and>
    issue_type_column (t_issue_type r) = issue_type_column pushed"
  have "find_row (snd (clear_issue_type_pending (t_id t) pushed d')) (t_id t) =
    Some (if ?hit (upsert_row t old) then (upsert_row t old)\<lparr>t_issue_type_pending := False\<rparr> else upsert_row t old)"
    using find_update_where [of ?hit t_id "\<lambda>r. r\<lparr>t_issue_type_pending := False\<rparr>" "t_id t" "db_tasks d'"] new
    by (simp add: clear_issue_type_pending_def Let_def find_row_def)
  with new show ?thesis by (auto simp: upsert_row_def bare_row_def)
qed

theorem issue_type_flag_not_lost_witness:
  "\<exists>d d' new. find_row d (t_id sample_mirror) = Some (bare_row sample_mirror) \<and>
     save_task 6 (sample_mirror\<lparr>t_issue_type := Some Bug\<rparr>) SrcLocalEdit d = Inr d' \<and>
     find_row (snd (clear_issue_type_pending (t_id sample_mirror) None d')) (t_id sample_mirror) = Some new \<and>
     t_issue_type_pending new"
proof -
  let ?t = "sample_mirror\<lparr>t_issue_type := Some Bug\<rparr>"
  let ?d = "empty_db\<lparr>db_tasks := [bare_row sample_mirror]\<rparr>"
  have old: "find_row ?d (t_id ?t) = Some (bare_row sample_mirror)" by (simp add: find_row_def)
  have "t_relations ?t = []" "solo_db (t_id ?t) ?d" "t_issue_type sample_mirror = None"
    by (simp_all add: sample_simps solo_db_def empty_db_def bare_row_def)
  then obtain d' where d': "save_task 6 ?t SrcLocalEdit ?d = Inr d'" using save_solo by metis
  have "issue_type_column (t_issue_type (bare_row sample_mirror)) \<noteq> issue_type_column (Some Bug)"
    by (simp add: bare_row_def issue_type_column_def \<open>t_issue_type sample_mirror = None\<close>)
  with issue_type_flag_not_lost [OF old d', of None] obtain new where
    "find_row (snd (clear_issue_type_pending (t_id ?t) None d')) (t_id ?t) = Some new" "t_issue_type_pending new"
    by (auto simp: issue_type_column_def simp del: map_option_eq_Some)
  with old d' show ?thesis by auto
qed

end
