(* ===== verification/Repositories.thy ===== *)
theory Repositories
  imports Core
begin

text \<open>
  The crate \<open>domain-repo\<close>: prefix derivation (\<open>naming.rs\<close>), the shared repository identity
  (\<open>origin.rs\<close>) and a workspace's membership of it (\<open>instance.rs\<close>, \<open>link.rs\<close>), and the loop
  of \<open>application-workspace\<close> that allocates a globally unique prefix.

  \<open>is_uuid\<close> is the parser of the \<open>uuid\<close> crate and \<open>simplified\<close> the path normalisation of the
  \<open>dunce\<close> crate; both are parameters.
\<close>

section \<open>Naming (naming.rs)\<close>

definition derive_name :: "rstring \<Rightarrow> rstring" where
  "derive_name url = last (split_by (\<lambda>c. c = 47) url)"

definition PREFIX_NOISE_WORDS :: "rstring list" where
  "PREFIX_NOISE_WORDS = [lit ''app'', lit ''application'', lit ''service'', lit ''svc'',
     lit ''server'', lit ''api'', lit ''the'']"

definition is_pure_numeric :: "rstring \<Rightarrow> bool" where
  "is_pure_numeric s = list_all is_ascii_digit s"

definition is_vowel :: "rchar \<Rightarrow> bool" where
  "is_vowel c \<longleftrightarrow> to_ascii_lowercase c \<in> set (lit ''aeiou'')"

definition consonants_after_first :: "rstring \<Rightarrow> rstring" where
  "consonants_after_first word =
     filter (\<lambda>c. is_ascii_alphabetic c \<and> \<not> is_vowel c) (drop 1 word)"

text \<open>\<open>for c in cs { if result.len() >= 3 { break; } result.push(c); }\<close>\<close>

fun push_while_short :: "rstring \<Rightarrow> rstring \<Rightarrow> rstring" where
  "push_while_short result [] = result"
| "push_while_short result (c # cs) =
     (if length result \<ge> 3 then result else push_while_short (result @ [c]) cs)"

text \<open>\<open>for c in cs { result.push(c); if result.len() >= 3 { break; } }\<close>\<close>

fun push_then_check :: "rstring \<Rightarrow> rstring \<Rightarrow> rstring" where
  "push_then_check result [] = result"
| "push_then_check result (c # cs) =
     (if length (result @ [c]) \<ge> 3 then result @ [c] else push_then_check (result @ [c]) cs)"

definition first_char_or :: "rchar \<Rightarrow> rstring \<Rightarrow> rchar" where
  "first_char_or d s = (case s of [] \<Rightarrow> d | c # _ \<Rightarrow> c)"

definition prefix_from_single_word :: "rstring \<Rightarrow> rstring" where
  "prefix_from_single_word word =
     (let result = push_while_short [first_char_or 120 word] (consonants_after_first word)
      in if length result < 3
         then push_then_check result (filter is_ascii_alphabetic (drop 1 word))
         else result)"

definition prefix_from_two_words :: "rstring \<Rightarrow> rstring \<Rightarrow> rstring" where
  "prefix_from_two_words a b =
     (let first_a = first_char_or 120 a;
          first_b = first_char_or 120 b;
          a_is_longer = str_len a \<ge> str_len b;
          longer = (if a_is_longer then a else b);
          extra = (case consonants_after_first longer of
                     c # _ \<Rightarrow> c
                   | [] \<Rightarrow> first_char_or 120 (drop 1 longer))
      in if a_is_longer then [first_a, extra, first_b] else [first_a, first_b, extra])"

text \<open>The two loops of \<open>prefix_from_multi_words\<close>, over \<open>result\<close> and \<open>seen\<close>.\<close>

fun multi_initials :: "rstring \<Rightarrow> rstring \<Rightarrow> rstring list \<Rightarrow> rstring \<times> rstring" where
  "multi_initials result seen [] = (result, seen)"
| "multi_initials result seen (seg # segs) =
     (if length result \<ge> 3 then (result, seen)
      else (case seg of
              [] \<Rightarrow> multi_initials result seen segs
            | c # _ \<Rightarrow>
                if to_ascii_lowercase c \<in> set seen then multi_initials result seen segs
                else multi_initials (result @ [c]) (seen @ [to_ascii_lowercase c]) segs))"

fun multi_consonants :: "rstring \<Rightarrow> rstring \<Rightarrow> rstring list \<Rightarrow> rstring \<times> rstring" where
  "multi_consonants result seen [] = (result, seen)"
| "multi_consonants result seen (seg # segs) =
     (if length result \<ge> 3 then (result, seen)
      else (case List.find (\<lambda>c. to_ascii_lowercase c \<notin> set seen) (consonants_after_first seg) of
              None \<Rightarrow> multi_consonants result seen segs
            | Some c \<Rightarrow>
                multi_consonants (result @ [c]) (seen @ [to_ascii_lowercase c]) segs))"

definition prefix_from_multi_words :: "rstring list \<Rightarrow> rstring" where
  "prefix_from_multi_words segments =
     (case multi_initials [] [] segments of
        (result, seen) \<Rightarrow>
          if length result < 3 then fst (multi_consonants result seen segments) else result)"

definition prefix_segments :: "rstring \<Rightarrow> rstring list" where
  "prefix_segments name =
     filter (\<lambda>s. map to_ascii_lowercase s \<notin> set PREFIX_NOISE_WORDS)
       (filter (\<lambda>s. \<not> is_pure_numeric s)
         (filter (\<lambda>s. s \<noteq> []) (split_by (\<lambda>c. c = 45 \<or> c = 95 \<or> c = 32) name)))"

definition derive_prefix :: "rstring \<Rightarrow> rstring" where
  "derive_prefix name =
     (let raw = (case prefix_segments name of
                   [] \<Rightarrow> lit ''rlk''
                 | [a] \<Rightarrow> prefix_from_single_word a
                 | [a, b] \<Rightarrow> prefix_from_two_words a b
                 | segs \<Rightarrow> prefix_from_multi_words segs);
          chars = filter is_ascii_alphabetic (map to_ascii_lowercase raw)
      in case chars of
           [] \<Rightarrow> lit ''rlk''
         | [a] \<Rightarrow> [a, 120, 120]
         | [a, b] \<Rightarrow> [a, b, 120]
         | _ \<Rightarrow> take 3 chars)"

definition is_valid_prefix :: "rstring \<Rightarrow> bool" where
  "is_valid_prefix p =
     (if \<not> (2 \<le> length p \<and> length p \<le> 20) then False
      else if \<not> is_ascii_lowercase (hd p) then False
      else list_all (\<lambda>c. is_ascii_lowercase c \<or> is_ascii_digit c) (tl p))"

text \<open>The bytes of \<open>input\<close> after \<open>base\<close> are those of the remaining characters.\<close>

definition is_superseded_prefix :: "rstring \<Rightarrow> rstring \<Rightarrow> bool" where
  "is_superseded_prefix input base \<longleftrightarrow>
     base \<noteq> [] \<and> str_len input > str_len base \<and> starts_with input base \<and>
     list_all is_ascii_digit (drop (length base) input)"

section \<open>The shared identity (origin.rs)\<close>

record repo_origin =
  ro_id :: repo_origin_id
  ro_canonical_url :: rstring
  ro_remote_url :: rstring
  ro_name :: rstring
  ro_aliases :: "rstring list"
  ro_prefix :: rstring
  ro_created_at :: timestamp
  ro_updated_at :: timestamp

definition repo_origin_new ::
  "repo_origin_id \<Rightarrow> timestamp \<Rightarrow> rstring \<Rightarrow> rstring \<Rightarrow> repo_origin dresult" where
  "repo_origin_new fresh now remote_url canonical_url =
     (if trim remote_url = [] then Inl (Validation (lit ''remote_url is empty''))
      else if trim canonical_url = [] then Inl (Validation (lit ''canonical_url is empty''))
      else
        let name = derive_name canonical_url in
        if trim name = [] then Inl (Validation
          (lit ''could not derive a non-empty name from canonical_url''))
        else Inr
          \<lparr>ro_id = fresh, ro_canonical_url = canonical_url, ro_remote_url = remote_url,
           ro_name = name, ro_aliases = [], ro_prefix = derive_prefix name,
           ro_created_at = now, ro_updated_at = now\<rparr>)"

definition set_prefix :: "rstring \<Rightarrow> timestamp \<Rightarrow> repo_origin \<Rightarrow> repo_origin dresult" where
  "set_prefix new_prefix now ro =
     (if \<not> is_valid_prefix new_prefix then Inl (Validation
        (lit ''prefix must match ^[a-z][a-z0-9]{1,19}$ (2-20 lowercase alnum, must start with a letter)''))
      else if ro_prefix ro = new_prefix then Inr ro
      else Inr (ro\<lparr>ro_prefix := new_prefix, ro_updated_at := now\<rparr>))"

definition set_name :: "(rstring \<Rightarrow> bool) \<Rightarrow> rstring \<Rightarrow> timestamp \<Rightarrow> repo_origin \<Rightarrow> repo_origin dresult" where
  "set_name is_uuid new_name now ro =
     (let trimmed = trim new_name in
      if trimmed = [] then Inl (Validation (lit ''name is empty''))
      else if is_uuid trimmed then Inl (Validation
        (lit ''name may not be a UUID '' @ [8212] @
         lit '' that namespace is reserved for ID-based resolution''))
      else if trimmed \<in> set (ro_aliases ro) then Inl (Validation
        (lit ''name would collide with an existing alias''))
      else if ro_name ro = trimmed then Inr ro
      else Inr (ro\<lparr>ro_name := trimmed, ro_updated_at := now\<rparr>))"

definition add_alias ::
  "(rstring \<Rightarrow> bool) \<Rightarrow> rstring \<Rightarrow> timestamp \<Rightarrow> repo_origin \<Rightarrow> (bool \<times> repo_origin) dresult" where
  "add_alias is_uuid alias now ro =
     (let trimmed = trim alias in
      if trimmed = [] then Inl (Validation (lit ''alias is empty''))
      else if is_uuid trimmed then Inl (Validation
        (lit ''alias may not be a UUID '' @ [8212] @
         lit '' that namespace is reserved for ID-based resolution''))
      else if trimmed = ro_name ro then Inl (Validation
        (lit ''alias would collide with the current name''))
      else if trimmed \<in> set (ro_aliases ro) then Inr (False, ro)
      else Inr (True, ro\<lparr>ro_aliases := ro_aliases ro @ [trimmed], ro_updated_at := now\<rparr>))"

definition remove_alias :: "rstring \<Rightarrow> timestamp \<Rightarrow> repo_origin \<Rightarrow> bool \<times> repo_origin" where
  "remove_alias alias now ro =
     (let kept = filter (\<lambda>a. a \<noteq> alias) (ro_aliases ro);
          removed = (length kept \<noteq> length (ro_aliases ro));
          ro' = ro\<lparr>ro_aliases := kept\<rparr>
      in (removed, if removed then ro'\<lparr>ro_updated_at := now\<rparr> else ro'))"

section \<open>Membership (link.rs, instance.rs)\<close>

datatype link_status = Linked | Stale | MissingPath | Detached

record worktree_link =
  wl_path :: rstring
  wl_branch :: "rstring option"
  wl_status :: link_status
  wl_last_seen_at :: timestamp

record repo_instance =
  ri_id :: uuid
  ri_workspace_id :: workspace_id
  ri_origin_id :: repo_origin_id
  ri_tracked_branch :: "rstring option"
  ri_canonical_url :: rstring
  ri_worktrees :: "worktree_link list"
  ri_created_at :: timestamp
  ri_updated_at :: timestamp

definition repo_instance_new ::
  "uuid \<Rightarrow> timestamp \<Rightarrow> workspace_id \<Rightarrow> repo_origin_id \<Rightarrow> rstring \<Rightarrow> rstring option \<Rightarrow>
   repo_instance dresult" where
  "repo_instance_new fresh now ws origin url branch =
     (if trim url = [] then Inl (Validation (lit ''canonical_url is empty''))
      else Inr
        \<lparr>ri_id = fresh, ri_workspace_id = ws, ri_origin_id = origin, ri_tracked_branch = branch,
         ri_canonical_url = url, ri_worktrees = [], ri_created_at = now, ri_updated_at = now\<rparr>)"

definition same_worktree_path :: "(rstring \<Rightarrow> rstring) \<Rightarrow> rstring \<Rightarrow> rstring \<Rightarrow> bool" where
  "same_worktree_path simplified lhs rhs \<longleftrightarrow> simplified lhs = simplified rhs"

definition link_worktree ::
  "(rstring \<Rightarrow> rstring) \<Rightarrow> rstring \<Rightarrow> rstring option \<Rightarrow> timestamp \<Rightarrow> repo_instance \<Rightarrow> repo_instance" where
  "link_worktree simplified path branch now ri =
     ri\<lparr>ri_worktrees :=
          filter (\<lambda>w. \<not> same_worktree_path simplified (wl_path w) path) (ri_worktrees ri) @
          [\<lparr>wl_path = path, wl_branch = branch, wl_status = Linked, wl_last_seen_at = now\<rparr>],
        ri_updated_at := now\<rparr>"

definition unlink_worktree ::
  "(rstring \<Rightarrow> rstring) \<Rightarrow> rstring \<Rightarrow> timestamp \<Rightarrow> repo_instance \<Rightarrow> repo_instance dresult" where
  "unlink_worktree simplified path now ri =
     (let kept = filter (\<lambda>w. \<not> same_worktree_path simplified (wl_path w) path) (ri_worktrees ri) in
      if length kept = length (ri_worktrees ri)
      then Inl (Validation (lit ''worktree path not registered''))
      else Inr (ri\<lparr>ri_worktrees := kept, ri_updated_at := now\<rparr>))"

fun mark_first_missing ::
  "(rstring \<Rightarrow> rstring) \<Rightarrow> rstring \<Rightarrow> worktree_link list \<Rightarrow> worktree_link list option" where
  "mark_first_missing simplified path [] = None"
| "mark_first_missing simplified path (w # ws) =
     (if same_worktree_path simplified (wl_path w) path
      then Some (w\<lparr>wl_status := MissingPath\<rparr> # ws)
      else map_option (\<lambda>ws'. w # ws') (mark_first_missing simplified path ws))"

definition mark_path_missing ::
  "(rstring \<Rightarrow> rstring) \<Rightarrow> rstring \<Rightarrow> timestamp \<Rightarrow> repo_instance \<Rightarrow> repo_instance dresult" where
  "mark_path_missing simplified path now ri =
     (case mark_first_missing simplified path (ri_worktrees ri) of
        None \<Rightarrow> Inl (Validation (lit ''worktree path not registered''))
      | Some ws \<Rightarrow> Inr (ri\<lparr>ri_worktrees := ws, ri_updated_at := now\<rparr>))"

definition prune_missing :: "timestamp \<Rightarrow> repo_instance \<Rightarrow> nat \<times> repo_instance" where
  "prune_missing now ri =
     (let kept = filter (\<lambda>w. wl_status w \<noteq> MissingPath) (ri_worktrees ri);
          pruned = length (ri_worktrees ri) - length kept;
          ri' = ri\<lparr>ri_worktrees := kept\<rparr>
      in (pruned, if pruned > 0 then ri'\<lparr>ri_updated_at := now\<rparr> else ri'))"

section \<open>Allocating a unique prefix (application-workspace, repo_binding_service.rs)\<close>

text \<open>
  \<open>save_origin\<close> reports a conflict on \<open>repo_origins.prefix\<close> exactly when another origin holds
  the prefix; \<open>taken\<close> are those prefixes.  The loop ends because the suffix is capped.
\<close>

datatype alloc_error = AllocDomain domain_error | AllocExhausted rstring

definition SAFETY_CAP :: nat where "SAFETY_CAP = 1000000"

definition prefix_candidate :: "rstring \<Rightarrow> nat \<Rightarrow> rstring" where
  "prefix_candidate base suffix =
     (let suffix_str = show_nat suffix in take (20 - length suffix_str) base @ suffix_str)"

function alloc_prefix_loop ::
  "rstring list \<Rightarrow> rstring \<Rightarrow> nat \<Rightarrow> timestamp \<Rightarrow> repo_origin \<Rightarrow> alloc_error + repo_origin" where
  "alloc_prefix_loop taken base suffix now ro =
     (if ro_prefix ro \<notin> set taken then Inr ro
      else if Suc suffix > SAFETY_CAP then Inl (AllocExhausted base)
      else
        (case set_prefix (prefix_candidate base (Suc suffix)) now ro of
           Inl e \<Rightarrow> Inl (AllocDomain e)
         | Inr ro' \<Rightarrow> alloc_prefix_loop taken base (Suc suffix) now ro'))"
  by pat_completeness auto
termination
  by (relation "measure (\<lambda>(taken, base, suffix, now, ro). Suc SAFETY_CAP - suffix)") auto

declare alloc_prefix_loop.simps [simp del]

definition save_with_unique_prefix ::
  "rstring list \<Rightarrow> timestamp \<Rightarrow> repo_origin \<Rightarrow> alloc_error + repo_origin" where
  "save_with_unique_prefix taken now ro = alloc_prefix_loop taken (ro_prefix ro) 0 now ro"

section \<open>Prefixes\<close>

lemma is_ascii_lowercase_lower:
  "is_ascii_alphabetic (to_ascii_lowercase c) \<Longrightarrow> is_ascii_lowercase (to_ascii_lowercase c)"
  by (auto simp: to_ascii_lowercase_def ascii_defs split: if_splits)

lemma derive_prefix_shape:
  "length (derive_prefix name) = 3 \<and> list_all is_ascii_lowercase (derive_prefix name)"
proof -
  define chars where "chars = filter is_ascii_alphabetic (map to_ascii_lowercase
    (case prefix_segments name of [] \<Rightarrow> lit ''rlk'' | [a] \<Rightarrow> prefix_from_single_word a
     | [a, b] \<Rightarrow> prefix_from_two_words a b | segs \<Rightarrow> prefix_from_multi_words segs))"
  have low: "c \<in> set chars \<Longrightarrow> is_ascii_lowercase c" for c
    by (auto simp: chars_def intro: is_ascii_lowercase_lower)
  have d: "derive_prefix name = (case chars of [] \<Rightarrow> lit ''rlk'' | [a] \<Rightarrow> [a, 120, 120]
    | [a, b] \<Rightarrow> [a, b, 120] | _ \<Rightarrow> take 3 chars)"
    unfolding derive_prefix_def Let_def chars_def [symmetric] ..
  have "chars = [] \<or> (\<exists>a. chars = [a]) \<or> (\<exists>a b. chars = [a, b]) \<or> (\<exists>a b c r. chars = a # b # c # r)"
    by (metis list.exhaust)
  then show ?thesis
    using low unfolding d
    by (elim disjE exE) (auto simp: is_ascii_lowercase_def numeral_eq_Suc)
qed

lemma is_valid_prefix_iff:
  "is_valid_prefix p \<longleftrightarrow> 2 \<le> length p \<and> length p \<le> 20 \<and> is_ascii_lowercase (hd p) \<and>
     list_all (\<lambda>c. is_ascii_lowercase c \<or> is_ascii_digit c) p"
  by (cases p) (auto simp: is_valid_prefix_def)

lemma derive_prefix_valid: "is_valid_prefix (derive_prefix name)"
proof -
  have n: "length (derive_prefix name) = 3" and l: "list_all is_ascii_lowercase (derive_prefix name)"
    using derive_prefix_shape by auto
  then have "derive_prefix name \<noteq> []" by auto
  with n l show ?thesis by (auto simp: is_valid_prefix_iff list_all_iff)
qed

lemma prefix_candidate_short:
  assumes "length base \<le> 13" "n \<le> SAFETY_CAP"
  shows "prefix_candidate base n = base @ show_nat n"
proof -
  have "length (show_nat n) \<le> 7"
    using assms(2) by (intro length_show_nat) (simp_all add: SAFETY_CAP_def)
  with assms(1) show ?thesis by (simp add: prefix_candidate_def)
qed

lemma prefix_candidate_valid:
  assumes "is_valid_prefix base" "length base \<le> 13" "n \<le> SAFETY_CAP"
  shows "is_valid_prefix (base @ show_nat n)"
proof -
  have "length (show_nat n) \<le> 7"
    using assms(3) by (intro length_show_nat) (simp_all add: SAFETY_CAP_def)
  with assms show ?thesis
    by (auto simp: is_valid_prefix_iff show_nat_digits list_all_iff hd_append dest: show_nat_digits)
qed

lemma str_len_pos: "s \<noteq> [] \<Longrightarrow> 0 < str_len s"
  by (cases s) (auto simp: str_len_def len_utf8_char_def)

lemma superseded_candidate: "base \<noteq> [] \<Longrightarrow> is_superseded_prefix (base @ show_nat n) base"
  using str_len_pos [OF show_nat_not_Nil, of n]
  by (auto simp: is_superseded_prefix_def starts_with_append str_len_def list_all_iff
      dest: show_nat_digits)

lemma set_prefix_accepts:
  "is_valid_prefix p \<Longrightarrow>
     \<exists>ro'. set_prefix p now ro = Inr ro' \<and> ro_prefix ro' = p \<and> ro_id ro' = ro_id ro"
  by (cases "ro_prefix ro = p") (simp_all add: set_prefix_def)

text \<open>The outcome of the loop once it has tried the suffixes up to \<open>s\<close>.\<close>

definition allocated :: "rstring list \<Rightarrow> rstring \<Rightarrow> repo_origin \<Rightarrow> bool" where
  "allocated taken base ro \<longleftrightarrow> ro_prefix ro \<notin> set taken \<and> is_valid_prefix (ro_prefix ro) \<and>
     (ro_prefix ro = base \<or> is_superseded_prefix (ro_prefix ro) base)"

lemma alloc_prefix_loop_ok:
  assumes "is_valid_prefix base" "length base \<le> 13" "s < n" "n \<le> SAFETY_CAP"
    "base @ show_nat n \<notin> set taken" "is_valid_prefix (ro_prefix ro)"
    "ro_prefix ro = base \<or> is_superseded_prefix (ro_prefix ro) base"
  shows "\<exists>ro'. alloc_prefix_loop taken base s now ro = Inr ro' \<and> allocated taken base ro' \<and>
    ro_id ro' = ro_id ro"
  using assms
proof (induction taken base s now ro rule: alloc_prefix_loop.induct)
  case (1 taken base s now ro)
  show ?case
  proof (cases "ro_prefix ro \<in> set taken")
    case False
    with "1.prems" show ?thesis by (subst alloc_prefix_loop.simps) (simp add: allocated_def)
  next
    case True
    have cap: "\<not> Suc s > SAFETY_CAP" using "1.prems" by simp
    have ne: "base \<noteq> []" using "1.prems"(1) by (auto simp: is_valid_prefix_def)
    let ?c = "base @ show_nat (Suc s)"
    have c: "prefix_candidate base (Suc s) = ?c" "is_valid_prefix ?c" "is_superseded_prefix ?c base"
      using "1.prems"(1,2) cap ne
      by (simp_all add: prefix_candidate_short prefix_candidate_valid superseded_candidate)
    obtain ro1 where s: "set_prefix (prefix_candidate base (Suc s)) now ro = Inr ro1"
      and ro1: "ro_prefix ro1 = ?c" "ro_id ro1 = ro_id ro"
      using set_prefix_accepts [OF c(2)] c(1) by metis
    have step: "alloc_prefix_loop taken base s now ro = alloc_prefix_loop taken base (Suc s) now ro1"
      using True cap s by (subst alloc_prefix_loop.simps) simp
    show ?thesis
    proof (cases "n = Suc s")
      case True
      with ro1 c "1.prems"(5) show ?thesis
        unfolding step by (subst alloc_prefix_loop.simps) (simp add: allocated_def)
    next
      case False
      with "1.IH" [OF _ cap s "1.prems"(1,2) _ "1.prems"(4,5)] True "1.prems"(3) ro1 c
      show ?thesis unfolding step by auto
    qed
  qed
qed

lemma free_suffix_exists:
  assumes "length taken < SAFETY_CAP"
  shows "\<exists>n. 0 < n \<and> n \<le> SAFETY_CAP \<and> base @ show_nat n \<notin> set taken"
proof (rule ccontr)
  assume "\<not> ?thesis"
  then have "(\<lambda>n. base @ show_nat n) ` {1..SAFETY_CAP} \<subseteq> set taken" by auto
  moreover have "inj_on (\<lambda>n. base @ show_nat n) {1..SAFETY_CAP}"
    by (auto simp: inj_on_def show_nat_inject)
  ultimately have "card {1..SAFETY_CAP} \<le> card (set taken)"
    by (metis List.finite_set card_image card_mono)
  also have "\<dots> \<le> length taken" by (rule card_length)
  finally show False using assms by simp
qed

text \<open>C38 Attaching a new repository always gets a usable handle: the derived prefix is three
  lowercase letters, and as long as fewer than a million prefixes are taken the collision loop
  stops with a valid prefix nobody holds, which is the derived one or one the resolver
  recognises as its suffixed variant.\<close>

theorem attach_allocates_prefix:
  assumes "repo_origin_new fresh now remote_url canonical_url = Inr ro" "length taken < SAFETY_CAP"
  shows "length (ro_prefix ro) = 3 \<and> is_valid_prefix (ro_prefix ro) \<and>
    (\<exists>ro'. save_with_unique_prefix taken now' ro = Inr ro' \<and>
       ro_id ro' = ro_id ro \<and> ro_prefix ro' \<notin> set taken \<and> is_valid_prefix (ro_prefix ro') \<and>
       (ro_prefix ro' = ro_prefix ro \<or> is_superseded_prefix (ro_prefix ro') (ro_prefix ro)))"
proof -
  from assms(1) have p: "ro_prefix ro = derive_prefix (derive_name canonical_url)"
    by (auto simp: repo_origin_new_def Let_def split: if_splits)
  have len: "length (ro_prefix ro) = 3" and val: "is_valid_prefix (ro_prefix ro)"
    unfolding p using derive_prefix_shape derive_prefix_valid by auto
  obtain n where "0 < n" "n \<le> SAFETY_CAP" "ro_prefix ro @ show_nat n \<notin> set taken"
    using free_suffix_exists [OF assms(2)] by blast
  from alloc_prefix_loop_ok [OF val _ this val] len val show ?thesis
    by (auto simp: save_with_unique_prefix_def allocated_def)
qed

theorem attach_allocates_prefix_witness:
  "\<exists>ro'. save_with_unique_prefix [lit ''rpl''] 5
     (projr (repo_origin_new 1 0 (lit ''git@x'') (lit ''github.com/b/repo-link''))) = Inr ro' \<and>
     ro_prefix ro' \<notin> {lit ''rpl''} \<and> is_valid_prefix (ro_prefix ro')"
proof -
  have "repo_origin_new 1 0 (lit ''git@x'') (lit ''github.com/b/repo-link'') =
    Inr (projr (repo_origin_new 1 0 (lit ''git@x'') (lit ''github.com/b/repo-link'')))"
    by (simp add: repo_origin_new_def trim_def trim_start_def is_whitespace_def derive_name_def Let_def)
  from attach_allocates_prefix [OF this, of "[lit ''rpl'']" 5] show ?thesis
    by (auto simp: SAFETY_CAP_def)
qed

section \<open>Handles of an origin\<close>

definition origin_wf :: "(rstring \<Rightarrow> bool) \<Rightarrow> repo_origin \<Rightarrow> bool" where
  "origin_wf is_uuid ro \<longleftrightarrow> trim (ro_name ro) \<noteq> [] \<and> is_valid_prefix (ro_prefix ro) \<and>
     distinct (ro_aliases ro) \<and> ro_name ro \<notin> set (ro_aliases ro) \<and>
     (\<forall>a \<in> set (ro_aliases ro). a \<noteq> [] \<and> trim a = a \<and> \<not> is_uuid a)"

datatype origin_op =
    OpSetPrefix rstring
  | OpSetName rstring
  | OpAddAlias rstring
  | OpRemoveAlias rstring

fun apply_origin_op ::
  "(rstring \<Rightarrow> bool) \<Rightarrow> origin_op \<Rightarrow> timestamp \<Rightarrow> repo_origin \<Rightarrow> repo_origin dresult" where
  "apply_origin_op is_uuid (OpSetPrefix p) now ro = set_prefix p now ro"
| "apply_origin_op is_uuid (OpSetName n) now ro = set_name is_uuid n now ro"
| "apply_origin_op is_uuid (OpAddAlias a) now ro = map_sum id snd (add_alias is_uuid a now ro)"
| "apply_origin_op is_uuid (OpRemoveAlias a) now ro = Inr (snd (remove_alias a now ro))"

lemma origin_wf_new: "repo_origin_new fresh now r c = Inr ro \<Longrightarrow> origin_wf is_uuid ro"
  by (auto simp: repo_origin_new_def origin_wf_def derive_prefix_valid Let_def split: if_splits)

text \<open>What each call does when it succeeds.\<close>

lemma set_prefix_result:
  "set_prefix p now ro = Inr ro' \<Longrightarrow> is_valid_prefix p \<and>
     (ro' = ro \<or> ro' = ro\<lparr>ro_prefix := p, ro_updated_at := now\<rparr>)"
  by (auto simp: set_prefix_def split: if_splits)

lemma set_name_result:
  "set_name is_uuid n now ro = Inr ro' \<Longrightarrow> trim n \<noteq> [] \<and> trim n \<notin> set (ro_aliases ro) \<and>
     (ro' = ro \<or> ro' = ro\<lparr>ro_name := trim n, ro_updated_at := now\<rparr>)"
  by (auto simp: set_name_def Let_def split: if_splits)

lemma add_alias_result:
  "add_alias is_uuid a now ro = Inr (b, ro') \<Longrightarrow>
     trim a \<noteq> [] \<and> \<not> is_uuid (trim a) \<and> trim a \<noteq> ro_name ro \<and>
     (ro' = ro \<or> trim a \<notin> set (ro_aliases ro) \<and>
        ro' = ro\<lparr>ro_aliases := ro_aliases ro @ [trim a], ro_updated_at := now\<rparr>)"
  by (auto simp: add_alias_def Let_def split: if_splits)

lemma remove_alias_result:
  "\<exists>t \<in> {now, ro_updated_at ro}. snd (remove_alias a now ro) =
     ro\<lparr>ro_aliases := filter (\<lambda>x. x \<noteq> a) (ro_aliases ro), ro_updated_at := t\<rparr>"
  by (auto simp: remove_alias_def Let_def)

lemma map_sum_snd_Inr: "map_sum id snd x = Inr r \<Longrightarrow> \<exists>b. x = Inr (b, r)"
  by (cases x) auto

lemma apply_origin_op_step:
  assumes "apply_origin_op is_uuid op now ro = Inr ro'"
  shows "ro_id ro' = ro_id ro \<and> ro_created_at ro' = ro_created_at ro \<and>
    ro_updated_at ro' \<in> {now, ro_updated_at ro} \<and> (origin_wf is_uuid ro \<longrightarrow> origin_wf is_uuid ro')"
proof (cases op)
  case (OpSetPrefix p)
  with assms have "set_prefix p now ro = Inr ro'" by simp
  from set_prefix_result [OF this] show ?thesis
    by (elim disjE conjE) (simp_all add: origin_wf_def)
next
  case (OpSetName n)
  with assms have "set_name is_uuid n now ro = Inr ro'" by simp
  from set_name_result [OF this] show ?thesis
    by (elim disjE conjE) (simp_all add: origin_wf_def)
next
  case (OpAddAlias a)
  with assms obtain b where "add_alias is_uuid a now ro = Inr (b, ro')"
    using map_sum_snd_Inr [of "add_alias is_uuid a now ro" ro'] by auto
  from add_alias_result [OF this] show ?thesis
    by (elim disjE conjE) (simp_all add: origin_wf_def ball_Un)
next
  case (OpRemoveAlias a)
  with assms have ro': "ro' = snd (remove_alias a now ro)" by simp
  from remove_alias_result [of now ro a] obtain t where "t \<in> {now, ro_updated_at ro}"
    "ro' = ro\<lparr>ro_aliases := filter (\<lambda>x. x \<noteq> a) (ro_aliases ro), ro_updated_at := t\<rparr>"
    unfolding ro' by blast
  then show ?thesis by (simp add: origin_wf_def)
qed

interpretation origin_agg: guarded_aggregate ro_id ro_created_at ro_updated_at
  "apply_origin_op is_uuid" "origin_wf is_uuid" for is_uuid
  by unfold_locales (use apply_origin_op_step in blast)+

text \<open>The handles of a repository stay unambiguous under every sequence of renames, alias
  edits and prefix changes: the name is never blank and never one of the aliases, no alias occurs
  twice, is blank or untrimmed or parses as a UUID, and the prefix always has the documented
  shape.\<close>

theorem origin_handles_unambiguous:
  assumes "repo_origin_new fresh t0 remote_url canonical_url = Inr ro0"
    "ro = run_ops (apply_origin_op is_uuid) ops ro0"
  shows "trim (ro_name ro) \<noteq> [] \<and> is_valid_prefix (ro_prefix ro) \<and> distinct (ro_aliases ro) \<and>
    ro_name ro \<notin> set (ro_aliases ro) \<and>
    (\<forall>a \<in> set (ro_aliases ro). a \<noteq> [] \<and> trim a = a \<and> \<not> is_uuid a)"
  using origin_agg.run_inv [OF origin_wf_new [OF assms(1)], of is_uuid ops]
  by (simp add: assms(2) origin_wf_def)

theorem origin_handles_unambiguous_witness:
  "distinct (ro_aliases (run_ops (apply_origin_op (\<lambda>s. False))
     [(OpAddAlias (lit '' x''), 1), (OpAddAlias (lit ''x''), 2)]
     (projr (repo_origin_new 1 0 (lit ''git@x'') (lit ''github.com/b/repo-link'')))))"
proof -
  have "repo_origin_new 1 0 (lit ''git@x'') (lit ''github.com/b/repo-link'') =
    Inr (projr (repo_origin_new 1 0 (lit ''git@x'') (lit ''github.com/b/repo-link'')))"
    by (simp add: repo_origin_new_def trim_def trim_start_def is_whitespace_def derive_name_def Let_def)
  from origin_handles_unambiguous [OF this refl] show ?thesis by blast
qed

section \<open>Worktrees of an instance\<close>

definition instance_wf :: "(rstring \<Rightarrow> rstring) \<Rightarrow> repo_instance \<Rightarrow> bool" where
  "instance_wf simplified ri \<longleftrightarrow> distinct (map (\<lambda>w. simplified (wl_path w)) (ri_worktrees ri))"

datatype instance_op =
    OpLinkWorktree rstring "rstring option"
  | OpUnlinkWorktree rstring
  | OpMarkMissing rstring
  | OpPruneMissing

fun apply_instance_op ::
  "(rstring \<Rightarrow> rstring) \<Rightarrow> instance_op \<Rightarrow> timestamp \<Rightarrow> repo_instance \<Rightarrow> repo_instance dresult" where
  "apply_instance_op simplified (OpLinkWorktree p b) now ri = Inr (link_worktree simplified p b now ri)"
| "apply_instance_op simplified (OpUnlinkWorktree p) now ri = unlink_worktree simplified p now ri"
| "apply_instance_op simplified (OpMarkMissing p) now ri = mark_path_missing simplified p now ri"
| "apply_instance_op simplified OpPruneMissing now ri = Inr (snd (prune_missing now ri))"

lemma mark_first_missing_paths:
  "mark_first_missing simplified path ws = Some ws' \<Longrightarrow> map wl_path ws' = map wl_path ws"
  by (induction ws arbitrary: ws') (auto split: if_splits)

lemma mark_first_missing_None:
  "mark_first_missing simplified path ws = None \<longleftrightarrow>
     (\<forall>w \<in> set ws. simplified (wl_path w) \<noteq> simplified path)"
  by (induction ws) (auto simp: same_worktree_path_def)

lemma distinct_map_filter_keys:
  "distinct (map f xs) \<Longrightarrow> distinct (map f (filter P xs))"
  by (induction xs) auto

lemma apply_instance_op_wf:
  assumes "instance_wf simplified ri" "apply_instance_op simplified op now ri = Inr ri'"
  shows "instance_wf simplified ri'"
proof (cases op)
  case (OpMarkMissing p)
  with assms(2) obtain ws where ws: "mark_first_missing simplified p (ri_worktrees ri) = Some ws"
    "ri' = ri\<lparr>ri_worktrees := ws, ri_updated_at := now\<rparr>"
    by (auto simp: mark_path_missing_def split: option.splits)
  then have "map simplified (map wl_path ws) = map simplified (map wl_path (ri_worktrees ri))"
    by (simp only: mark_first_missing_paths)
  with assms(1) ws show ?thesis by (simp add: instance_wf_def comp_def)
qed (use assms in \<open>auto simp: instance_wf_def link_worktree_def unlink_worktree_def prune_missing_def
    same_worktree_path_def Let_def distinct_map_filter_keys split: if_splits\<close>)

lemma apply_instance_op_frame:
  assumes "apply_instance_op simplified op now ri = Inr ri'"
  shows "ri_id ri' = ri_id ri" "ri_created_at ri' = ri_created_at ri"
    "ri_updated_at ri' \<in> {now, ri_updated_at ri}"
  using assms
  by (cases op; auto simp: link_worktree_def unlink_worktree_def mark_path_missing_def
      prune_missing_def Let_def split: if_splits option.splits)+

interpretation instance_agg: guarded_aggregate ri_id ri_created_at ri_updated_at
  "apply_instance_op simplified" "instance_wf simplified" for simplified
  by unfold_locales (auto intro: apply_instance_op_wf dest: apply_instance_op_frame)

text \<open>A checkout path is registered at most once per workspace membership, whatever
  spelling of the path was used, and linking, unlinking and marking act on that one entry:
  unlinking and marking fail exactly when the path is not registered, after a link the path is
  there and \<open>Linked\<close>, after an unlink it is gone.\<close>

theorem worktree_paths_unique:
  assumes "repo_instance_new fresh t0 ws origin url branch = Inr ri0"
    "ri = run_ops (apply_instance_op simplified) ops ri0"
  shows "distinct (map (\<lambda>w. simplified (wl_path w)) (ri_worktrees ri)) \<and>
    ((\<exists>e. unlink_worktree simplified p now ri = Inl e) \<longleftrightarrow>
       (\<forall>w \<in> set (ri_worktrees ri). simplified (wl_path w) \<noteq> simplified p)) \<and>
    ((\<exists>e. mark_path_missing simplified p now ri = Inl e) \<longleftrightarrow>
       (\<forall>w \<in> set (ri_worktrees ri). simplified (wl_path w) \<noteq> simplified p)) \<and>
    (\<exists>w \<in> set (ri_worktrees (link_worktree simplified p b now ri)).
       wl_path w = p \<and> wl_status w = Linked) \<and>
    (\<forall>ri'. unlink_worktree simplified p now ri = Inr ri' \<longrightarrow>
       (\<forall>w \<in> set (ri_worktrees ri'). simplified (wl_path w) \<noteq> simplified p))"
proof -
  have "instance_wf simplified ri0"
    using assms(1) by (auto simp: repo_instance_new_def instance_wf_def split: if_splits)
  then have wf: "instance_wf simplified ri"
    unfolding assms(2) by (rule instance_agg.run_inv)
  have unl: "(\<exists>e. unlink_worktree simplified p now ri = Inl e) \<longleftrightarrow>
    (\<forall>w \<in> set (ri_worktrees ri). simplified (wl_path w) \<noteq> simplified p)"
    unfolding unlink_worktree_def Let_def
    using filter_length_neq [of "\<lambda>w. \<not> same_worktree_path simplified (wl_path w) p" "ri_worktrees ri"]
    by (auto simp: same_worktree_path_def)
  have "(\<exists>e. mark_path_missing simplified p now ri = Inl e) \<longleftrightarrow>
    (\<forall>w \<in> set (ri_worktrees ri). simplified (wl_path w) \<noteq> simplified p)"
    unfolding mark_first_missing_None [symmetric]
    by (auto simp: mark_path_missing_def split: option.splits)
  with wf unl show ?thesis
    by (auto simp: instance_wf_def link_worktree_def unlink_worktree_def same_worktree_path_def Let_def
        split: if_splits)
qed

theorem worktree_paths_unique_witness:
  "distinct (map (\<lambda>w. id (wl_path w)) (ri_worktrees (run_ops (apply_instance_op id)
     [(OpLinkWorktree (lit ''/a'') None, 1), (OpLinkWorktree (lit ''/a'') None, 2)]
     (projr (repo_instance_new 1 0 2 3 (lit ''u'') None)))))"
proof -
  have "repo_instance_new 1 0 2 3 (lit ''u'') None =
    Inr (projr (repo_instance_new 1 0 2 3 (lit ''u'') None))"
    by (simp add: repo_instance_new_def trim_def trim_start_def is_whitespace_def)
  from worktree_paths_unique [OF this refl] show ?thesis by blast
qed

end
