(* ===== verification/Enqueue.thy ===== *)
theory Enqueue
  imports TaskStore Repositories
begin

text \<open>
  Which outbound mutations a mirrored task owes (\<open>application-sync/src/enqueue.rs\<close>): relation
  edges, the two board projections, the two issue-type rails and the plan of an edit.  The
  look-ups of workspaces, boards, issue types and repositories of \<open>infra-sqlite\<close> read the rows
  of a \<open>catalog\<close>; the log lines of the code are not modelled.
\<close>

section \<open>Look-ups\<close>

record catalog =
  cat_workspaces :: "workspace list"
  cat_projects :: "project list"
  cat_issue_types :: "(rstring \<times> org_issue_type) list"
  cat_instances :: "repo_instance list"
  cat_origins :: "repo_origin list"

definition get_workspace :: "workspace_id \<Rightarrow> catalog \<Rightarrow> workspace port_result" where
  "get_workspace i c =
     (case List.find (\<lambda>w. w_id w = i) (cat_workspaces c) of
        None \<Rightarrow> Inl (NotFound (lit ''workspace '' @ show_uuid i)) | Some w \<Rightarrow> Inr w)"

definition get_project :: "project_id \<Rightarrow> catalog \<Rightarrow> project port_result" where
  "get_project i c =
     (case List.find (\<lambda>p. p_id p = i) (cat_projects c) of
        None \<Rightarrow> Inl (NotFound (lit ''project '' @ i)) | Some p \<Rightarrow> Inr p)"

text \<open>\<open>ORDER BY name\<close>; no row is an empty registry, never an error.\<close>

definition get_registry :: "rstring \<Rightarrow> catalog \<Rightarrow> org_issue_type_registry" where
  "get_registry owner c = \<lparr>reg_owner_login = owner,
     reg_types = sort_key oit_name (map snd (filter (\<lambda>x. fst x = owner) (cat_issue_types c)))\<rparr>"

text \<open>The binding look-up joins the instance with its origin.\<close>

definition get_binding :: "repo_id \<Rightarrow> catalog \<Rightarrow> (repo_instance \<times> repo_origin) port_result" where
  "get_binding i c =
     (case Option.bind (List.find (\<lambda>r. ri_id r = i) (cat_instances c)) (\<lambda>r.
        map_option (Pair r) (List.find (\<lambda>x. ro_id x = ri_origin_id r) (cat_origins c))) of
        None \<Rightarrow> Inl (NotFound (lit ''repo instance '' @ show_uuid i)) | Some b \<Rightarrow> Inr b)"

definition get_origin :: "repo_origin_id \<Rightarrow> catalog \<Rightarrow> repo_origin port_result" where
  "get_origin i c =
     (case List.find (\<lambda>x. ro_id x = i) (cat_origins c) of
        None \<Rightarrow> Inl (NotFound (lit ''repo origin '' @ show_uuid i)) | Some x \<Rightarrow> Inr x)"

section \<open>Relations\<close>

definition relation_mutation ::
  "relation_kind \<Rightarrow> bool \<Rightarrow> rstring \<times> rstring \<Rightarrow> rstring \<times> rstring \<Rightarrow> outbox_mutation option" where
  "relation_mutation k add this other =
     (case (case k of
        ParentOf \<Rightarrow> Some (this, other, True)
      | ChildOf \<Rightarrow> Some (other, this, True)
      | BlockedBy \<Rightarrow> Some (this, other, False)
      | Blocks \<Rightarrow> Some (other, this, False)
      | RelatedTo \<Rightarrow> None
      | Duplicates \<Rightarrow> None) of
        None \<Rightarrow> None
      | Some (addressed, related, is_sub) \<Rightarrow>
          Some (case (is_sub, add) of
            (True, True) \<Rightarrow> AddSubIssue (fst addressed) (snd addressed) (fst related) (snd related)
          | (True, False) \<Rightarrow> RemoveSubIssue (fst addressed) (snd addressed) (fst related) (snd related)
          | (False, True) \<Rightarrow> AddBlockedBy (fst addressed) (snd addressed) (fst related) (snd related)
          | (False, False) \<Rightarrow>
              RemoveBlockedBy (fst addressed) (snd addressed) (fst related) (snd related)))"

section \<open>The board\<close>

definition is_draft_backed :: "task \<Rightarrow> bool" where
  "is_draft_backed t \<longleftrightarrow> t_remote t = None \<and> t_project_item_id t \<noteq> None"

definition project_for_workspace :: "catalog \<Rightarrow> workspace \<Rightarrow> project option port_result" where
  "project_for_workspace c w =
     (case w_project_id w of None \<Rightarrow> Inr None | Some i \<Rightarrow> map_sum id Some (get_project i c))"

definition resolve_project :: "catalog \<Rightarrow> task \<Rightarrow> project option port_result" where
  "resolve_project c t =
     (case get_workspace (t_workspace_id t) c of Inl e \<Rightarrow> Inl e | Inr w \<Rightarrow> project_for_workspace c w)"

definition set_project_status_mutation :: "project \<Rightarrow> task \<Rightarrow> outbox_mutation option" where
  "set_project_status_mutation p t =
     Option.bind (t_project_item_id t) (\<lambda>item.
     Option.bind (status_field_id p) (\<lambda>fid.
     Option.bind (board_option_for_lifecycle p (is_open (t_lifecycle t))) (\<lambda>opt.
       Some (SetProjectStatus (p_id p) item fid opt))))"

definition set_project_priority_mutation :: "project \<Rightarrow> task \<Rightarrow> outbox_mutation option" where
  "set_project_priority_mutation p t =
     Option.bind (t_project_item_id t) (\<lambda>item.
     Option.bind (priority_field_id p) (\<lambda>fid.
     Option.bind (resolved_priority_option_id_for (t_priority t) p) (\<lambda>opt.
       Some (SetProjectPriority (p_id p) item fid opt))))"

definition set_project_type_mutation :: "project \<Rightarrow> task \<Rightarrow> outbox_mutation option" where
  "set_project_type_mutation p t =
     Option.bind (t_project_item_id t) (\<lambda>item.
     Option.bind (type_field_id p) (\<lambda>fid.
     Option.bind (case t_issue_type t of
         None \<Rightarrow> Some None
       | Some it \<Rightarrow> map_option Some (resolved_type_option_id_for it p)) (\<lambda>opt.
       Some (SetProjectType (p_id p) item fid opt (map_option issue_type_display (t_issue_type t)) True))))"

section \<open>Issue types\<close>

definition derive_default_issue_type ::
  "task \<Rightarrow> rstring option \<Rightarrow> rstring option \<Rightarrow> issue_type option" where
  "derive_default_issue_type t standalone_default sub_issue_default =
     map_option issue_type_from
       (if list_ex (\<lambda>r. rel_kind r = ChildOf) (t_relations t) then sub_issue_default
        else standalone_default)"

datatype issue_type_resolution = ItrMutation outbox_mutation | ItrUnmapped | ItrNoNode

definition remote_node_id :: "task \<Rightarrow> rstring option" where
  "remote_node_id t = Option.bind (t_remote t) rr_node_id"

definition set_issue_type_mutation :: "org_issue_type_registry \<Rightarrow> task \<Rightarrow> issue_type_resolution" where
  "set_issue_type_mutation reg t =
     (case remote_node_id t of
        None \<Rightarrow> ItrNoNode
      | Some node \<Rightarrow>
          (case t_issue_type t of
             None \<Rightarrow> ItrMutation (SetIssueType node None None True)
           | Some it \<Rightarrow>
               (let name = issue_type_display it
                in case List.find (\<lambda>x. eq_ignore_ascii_case (oit_name x) name) (reg_types reg) of
                     Some x \<Rightarrow> ItrMutation (SetIssueType node (Some (oit_id x)) (Some name) True)
                   | None \<Rightarrow> ItrUnmapped)))"

definition parse_github_owner :: "rstring \<Rightarrow> rstring option" where
  "parse_github_owner canonical =
     (case strip_prefix canonical (lit ''github.com/'') of
        None \<Rightarrow> None
      | Some rest \<Rightarrow>
          (case split_by (\<lambda>c. c = 47) rest of
             [owner, repo] \<Rightarrow> if owner \<noteq> [] \<and> repo \<noteq> [] then Some owner else None
           | _ \<Rightarrow> None))"

datatype issue_type_projection =
    ItpMutation outbox_mutation
  | ItpUnmapped rstring
  | ItpNoNode
  | ItpNoOwner
  | ItpRegistryUnavailable rstring

definition resolve_issue_type_projection ::
  "catalog \<Rightarrow> rstring option \<Rightarrow> task \<Rightarrow> issue_type_projection" where
  "resolve_issue_type_projection c filing_owner t =
     (if t_issue_type t = None then
        (case remote_node_id t of
           None \<Rightarrow> ItpNoNode | Some node \<Rightarrow> ItpMutation (SetIssueType node None None True))
      else
        (case filing_owner of
           None \<Rightarrow> ItpNoOwner
         | Some owner \<Rightarrow>
             (let reg = get_registry owner c
              in if \<not> registry_is_available reg then ItpRegistryUnavailable owner
                 else case set_issue_type_mutation reg t of
                        ItrMutation m \<Rightarrow> ItpMutation m
                      | ItrUnmapped \<Rightarrow> ItpUnmapped owner
                      | ItrNoNode \<Rightarrow> ItpNoNode)))"

definition resolve_type_projection ::
  "project option \<Rightarrow> catalog \<Rightarrow> rstring option \<Rightarrow> task \<Rightarrow> outbox_mutation option" where
  "resolve_type_projection proj c filing_owner t =
     (let native = (case resolve_issue_type_projection c filing_owner t of
                      ItpMutation m \<Rightarrow> Some m | _ \<Rightarrow> None)
      in case proj of
           None \<Rightarrow> native
         | Some p \<Rightarrow>
             if has_ambiguous_type_field p then native
             else if type_field_id p \<noteq> None then set_project_type_mutation p t
             else native)"

section \<open>The plan of an edit\<close>

definition plan_mutations ::
  "task \<Rightarrow> project option \<Rightarrow> rstring option \<Rightarrow> bool \<Rightarrow> outbox_mutation list" where
  "plan_mutations t proj filing_canonical content_changed =
     (if \<not> is_mirror t then []
      else
        (if is_issue_backed t then
           (case (t_remote t, filing_canonical) of
              (Some remote, Some canonical) \<Rightarrow>
                [UpdateRemote canonical (rr_remote_id remote) (Some (t_title t)) (Some (t_body t)) None]
            | _ \<Rightarrow> [])
         else if is_draft_backed t \<and> content_changed then
           [UpdateDraftIssue (case t_project_item_id t of Some i \<Rightarrow> i | None \<Rightarrow> [])
              (Some (t_title t)) (Some (t_body t))]
         else []) @
        (case proj of
           None \<Rightarrow> []
         | Some p \<Rightarrow>
             (case t_project_item_id t of
                Some _ \<Rightarrow>
                  (case set_project_status_mutation p t of Some m \<Rightarrow> [m] | None \<Rightarrow> [])
              | None \<Rightarrow>
                  (case remote_node_id t of
                     Some node \<Rightarrow> [AddItem (p_id p) node]
                   | None \<Rightarrow>
                       if t_remote t = None
                       then [CreateDraftIssue (p_id p) (t_title t) (t_body t)] else []))))"

section \<open>Properties\<close>

text \<open>A mutation determines the edge it mirrors: the two reciprocal local edges give the same
  mutation (so mirroring both would only repeat it), no other edge gives it, and adding and
  removing are never confused; only \<open>related_to\<close> and \<open>duplicates\<close> have no remote counterpart.\<close>

theorem relation_mutation_determines_edge:
  assumes "relation_mutation k add this other = Some m"
  shows "(relation_mutation k' add' this' other' = Some m \<longleftrightarrow>
      add' = add \<and> ((k', this', other') = (k, this, other) \<or>
                     (k', this', other') = (inverse_kind k, other, this))) \<and>
    (relation_mutation k' add' this' other' = None \<longleftrightarrow> k' \<in> {RelatedTo, Duplicates})"
  using assms
  by (cases k; cases k'; cases add; cases add')
    (auto simp: relation_mutation_def prod_eq_iff)

theorem relation_mutation_determines_edge_witness:
  "relation_mutation ChildOf True (lit ''a'', lit ''1'') (lit ''b'', lit ''2'') =
     Some (AddSubIssue (lit ''b'') (lit ''2'') (lit ''a'') (lit ''1'')) \<and>
   relation_mutation ParentOf True (lit ''b'', lit ''2'') (lit ''a'', lit ''1'') =
     Some (AddSubIssue (lit ''b'') (lit ''2'') (lit ''a'') (lit ''1''))"
proof -
  have m: "relation_mutation ChildOf True (lit ''a'', lit ''1'') (lit ''b'', lit ''2'') =
     Some (AddSubIssue (lit ''b'') (lit ''2'') (lit ''a'') (lit ''1''))"
    by (simp add: relation_mutation_def)
  from relation_mutation_determines_edge [OF m, of ParentOf True "(lit ''b'', lit ''2'')" "(lit ''a'', lit ''1'')"] m
  show ?thesis by simp
qed

lemma set_project_type_mutation_sound:
  assumes "set_project_type_mutation p t = Some m"
  shows "\<exists>item fid opt. t_project_item_id t = Some item \<and> type_field_id p = Some fid \<and>
    m = SetProjectType (p_id p) item fid opt (map_option issue_type_display (t_issue_type t)) True \<and>
    (case t_issue_type t of
           None \<Rightarrow> opt = None
         | Some it \<Rightarrow> \<exists>x \<in> set (type_options p). opt = Some (o_id x) \<and>
             eq_ignore_ascii_case (o_name x) (issue_type_display it))"
  using assms
  by (auto simp: set_project_type_mutation_def bind_eq_Some_conv type_options_def
      resolved_type_option_id_for_def split: option.splits dest!: find_Some_set)

lemma resolve_issue_type_projection_sound:
  assumes "resolve_issue_type_projection c owner t = ItpMutation m"
  shows "\<exists>node opt. remote_node_id t = Some node \<and>
    m = SetIssueType node opt (map_option issue_type_display (t_issue_type t)) True \<and>
    (case t_issue_type t of
           None \<Rightarrow> opt = None
         | Some it \<Rightarrow> \<exists>(o', x) \<in> set (cat_issue_types c). owner = Some o' \<and> opt = Some (oit_id x) \<and>
             eq_ignore_ascii_case (oit_name x) (issue_type_display it))"
  using assms
  by (auto simp: resolve_issue_type_projection_def set_issue_type_mutation_def get_registry_def Let_def
      split: option.splits if_splits issue_type_resolution.splits dest!: find_Some_set
      intro!: rev_bexI)

text \<open>A task's issue type takes exactly one rail.  On a board with one unambiguous Type field it
  is that field, and the option carried exists there under the type's name; otherwise it is the
  native issue type, and the id carried is registered for the owner under that name.  The
  mutation records the local type it was planned from, and clearing carries no option.\<close>

theorem type_projection_one_rail:
  assumes "resolve_type_projection proj c owner t = Some m"
  shows "(\<exists>p item fid opt. proj = Some p \<and> \<not> has_ambiguous_type_field p \<and>
        t_project_item_id t = Some item \<and> type_field_id p = Some fid \<and>
        m = SetProjectType (p_id p) item fid opt (map_option issue_type_display (t_issue_type t)) True \<and>
        (case t_issue_type t of
           None \<Rightarrow> opt = None
         | Some it \<Rightarrow> \<exists>x \<in> set (type_options p). opt = Some (o_id x) \<and>
             eq_ignore_ascii_case (o_name x) (issue_type_display it))) \<or>
     ((\<forall>p. proj = Some p \<longrightarrow> has_ambiguous_type_field p \<or> type_field_id p = None) \<and>
      (\<exists>node opt. remote_node_id t = Some node \<and>
        m = SetIssueType node opt (map_option issue_type_display (t_issue_type t)) True \<and>
        (case t_issue_type t of
           None \<Rightarrow> opt = None
         | Some it \<Rightarrow> \<exists>(o', x) \<in> set (cat_issue_types c). owner = Some o' \<and> opt = Some (oit_id x) \<and>
             eq_ignore_ascii_case (oit_name x) (issue_type_display it))))"
proof (cases "\<exists>p. proj = Some p \<and> \<not> has_ambiguous_type_field p \<and> type_field_id p \<noteq> None")
  case True
  then obtain p where p: "proj = Some p" "\<not> has_ambiguous_type_field p" "type_field_id p \<noteq> None" by blast
  with assms have "set_project_type_mutation p t = Some m" by (simp add: resolve_type_projection_def)
  with p show ?thesis using set_project_type_mutation_sound by blast
next
  case False
  then have "resolve_issue_type_projection c owner t = ItpMutation m"
    using assms by (auto simp: resolve_type_projection_def Let_def split: option.splits if_splits issue_type_projection.splits)
  with False show ?thesis using resolve_issue_type_projection_sound by blast
qed

theorem type_projection_one_rail_witness:
  "resolve_type_projection None \<lparr>cat_workspaces = [], cat_projects = [],
       cat_issue_types = [(lit ''o'', \<lparr>oit_id = lit ''IT_1'', oit_name = lit ''Bug''\<rparr>)],
       cat_instances = [], cat_origins = []\<rparr> (Some (lit ''o''))
     (sample_mirror\<lparr>t_issue_type := Some Bug,
        t_remote := Some ((remote_ref_new (lit ''github'') (lit ''o/r#1''))\<lparr>rr_node_id := Some (lit ''I_1'')\<rparr>)\<rparr>)
   = Some (SetIssueType (lit ''I_1'') (Some (lit ''IT_1'')) (Some (lit ''bug'')) True)"
proof -
  let ?c = "\<lparr>cat_workspaces = [], cat_projects = [],
    cat_issue_types = [(lit ''o'', \<lparr>oit_id = lit ''IT_1'', oit_name = lit ''Bug''\<rparr>)],
       cat_instances = [], cat_origins = []\<rparr>"
  let ?t = "sample_mirror\<lparr>t_issue_type := Some Bug,
    t_remote := Some ((remote_ref_new (lit ''github'') (lit ''o/r#1''))\<lparr>rr_node_id := Some (lit ''I_1'')\<rparr>)\<rparr>"
  obtain m where m: "resolve_type_projection None ?c (Some (lit ''o'')) ?t = Some m"
    by (simp add: resolve_type_projection_def resolve_issue_type_projection_def remote_node_id_def
        get_registry_def registry_is_available_def set_issue_type_mutation_def eq_ignore_ascii_case_def
        to_ascii_lowercase_def is_ascii_uppercase_def remote_ref_new_def)
  from type_projection_one_rail [OF m] have
    "m = SetIssueType (lit ''I_1'') (Some (lit ''IT_1'')) (Some (lit ''bug'')) True"
    by (auto simp: remote_node_id_def remote_ref_new_def split: option.splits)
  with m show ?thesis by simp
qed

lemma set_project_status_mutation_sound:
  "set_project_status_mutation p t = Some m \<Longrightarrow>
     \<exists>item fid opt. m = SetProjectStatus (p_id p) item fid opt \<and> t_project_item_id t = Some item \<and>
       status_field_id p = Some fid \<and> resolved_option_id_for (is_open (t_lifecycle t)) p = Some opt"
  by (auto simp: set_project_status_mutation_def board_option_for_lifecycle_def bind_eq_Some_conv)

text \<open>The plan of an edit: nothing for a purely local task; the content of the issue or of the
  draft first, addressed to the filing repository or the item, then at most one board mutation.
  An attached card is moved and never attached again, an unattached task is attached at most
  once, by its issue when it has one and as a draft only when it has none.\<close>

theorem plan_mutations_shape:
  assumes "is_mirror t"
  shows "\<exists>content board. plan_mutations t proj canonical changed = content @ board \<and>
    content = (case t_remote t of
        Some r \<Rightarrow> (case canonical of Some c \<Rightarrow>
            [UpdateRemote c (rr_remote_id r) (Some (t_title t)) (Some (t_body t)) None] | None \<Rightarrow> [])
      | None \<Rightarrow> (case t_project_item_id t of
            Some i \<Rightarrow> if changed then [UpdateDraftIssue i (Some (t_title t)) (Some (t_body t))] else []
          | None \<Rightarrow> [])) \<and>
    length board \<le> 1 \<and> (proj = None \<longrightarrow> board = []) \<and>
    (\<forall>m \<in> set board. \<forall>p. proj = Some p \<longrightarrow>
       (case m of
          SetProjectStatus pid item fid opt \<Rightarrow> pid = p_id p \<and> t_project_item_id t = Some item \<and>
            status_field_id p = Some fid \<and> resolved_option_id_for (is_open (t_lifecycle t)) p = Some opt
        | AddItem pid node \<Rightarrow> pid = p_id p \<and> t_project_item_id t = None \<and> remote_node_id t = Some node
        | CreateDraftIssue pid title body \<Rightarrow> pid = p_id p \<and> t_project_item_id t = None \<and>
            t_remote t = None \<and> title = t_title t \<and> body = t_body t
        | _ \<Rightarrow> False))"
proof (intro exI conjI)
  let ?board = "case proj of None \<Rightarrow> [] | Some p \<Rightarrow>
    (case t_project_item_id t of
       Some _ \<Rightarrow> (case set_project_status_mutation p t of Some m \<Rightarrow> [m] | None \<Rightarrow> [])
     | None \<Rightarrow> (case remote_node_id t of Some node \<Rightarrow> [AddItem (p_id p) node]
        | None \<Rightarrow> if t_remote t = None then [CreateDraftIssue (p_id p) (t_title t) (t_body t)] else []))"
  let ?content = "case t_remote t of
        Some r \<Rightarrow> (case canonical of Some c \<Rightarrow>
            [UpdateRemote c (rr_remote_id r) (Some (t_title t)) (Some (t_body t)) None] | None \<Rightarrow> [])
      | None \<Rightarrow> (case t_project_item_id t of
            Some i \<Rightarrow> if changed then [UpdateDraftIssue i (Some (t_title t)) (Some (t_body t))] else []
          | None \<Rightarrow> [])"
  show "plan_mutations t proj canonical changed = ?content @ ?board"
    using assms
    by (auto simp: plan_mutations_def is_issue_backed_def is_draft_backed_def split: option.splits)
  show "?content = ?content" ..
  show "length ?board \<le> 1" "proj = None \<longrightarrow> ?board = []" by (simp_all split: option.splits)
  show "\<forall>m \<in> set ?board. \<forall>p. proj = Some p \<longrightarrow>
       (case m of
          SetProjectStatus pid item fid opt \<Rightarrow> pid = p_id p \<and> t_project_item_id t = Some item \<and>
            status_field_id p = Some fid \<and> resolved_option_id_for (is_open (t_lifecycle t)) p = Some opt
        | AddItem pid node \<Rightarrow> pid = p_id p \<and> t_project_item_id t = None \<and> remote_node_id t = Some node
        | CreateDraftIssue pid title body \<Rightarrow> pid = p_id p \<and> t_project_item_id t = None \<and>
            t_remote t = None \<and> title = t_title t \<and> body = t_body t
        | _ \<Rightarrow> False)"
    by (cases "t_project_item_id t"; cases "remote_node_id t"; cases proj)
      (auto split: option.splits dest!: sym [THEN set_project_status_mutation_sound])
qed

theorem plan_mutations_shape_witness:
  "plan_mutations (sample_mirror\<lparr>t_project_item_id := Some (lit ''PVTI_1''), t_remote := None\<rparr>)
     None None True = [UpdateDraftIssue (lit ''PVTI_1'') (Some (lit ''a'')) (Some (lit ''b''))]"
proof -
  let ?t = "sample_mirror\<lparr>t_project_item_id := Some (lit ''PVTI_1''), t_remote := None\<rparr>"
  have m: "is_mirror ?t" "t_title ?t = lit ''a''" "t_body ?t = lit ''b''"
    by (simp_all add: is_mirror_def sample_simps)
  from plan_mutations_shape [OF m(1), of None None True] m(2,3) show ?thesis by auto
qed

end
