(* ===== verification/SyncMonad.thy ===== *)
theory SyncMonad
  imports StoreHistory Enqueue
begin

text \<open>
  The setting the sync services run in: a state-and-error monad over a world of the SQLite tables
  and the catalog.  An error keeps the effects made before it, since every repository call is its
  own committed transaction.  What is outside the repository is a parameter \<open>env\<close>: the clock,
  the UUID generator and parser, the iteration order of a hash map, and the answers of the remote
  providers; the \<open>k\<close>-th use of the environment
  reads it at \<open>k\<close>, so clocks, ids and answers are arbitrary.  \<open>wd_calls\<close> records the
  remote calls made, newest last, for the properties; no definition reads it.
\<close>

section \<open>The environment and the world\<close>

text \<open>The remaining transfer structs of \<open>ports/src/remote_task.rs\<close> and \<open>ports/src/project.rs\<close>; the map of
  single-select values is an association list.\<close>

record remote_task_create =
  rt_canonical_repo :: rstring
  rt_title :: rstring
  rt_body :: rstring
  rt_assignees :: "rstring list"
  rt_labels :: "rstring list"

record remote_child_issue =
  ch_canonical_repo :: rstring
  ch_snapshot :: remote_task_snapshot

record remote_project_item =
  pi_item_node_id :: rstring
  pi_issue_node_id :: "rstring option"
  pi_canonical_repo :: "rstring option"
  pi_number :: "nat option"
  pi_title :: rstring
  pi_body :: rstring
  pi_closed :: bool
  pi_status_option_id :: "rstring option"
  pi_single_select_options :: "(rstring \<times> rstring) list"
  pi_updated_at :: timestamp

record poll_page =
  pp_items :: "remote_project_item list"
  pp_truncated :: bool

datatype remote_call =
    CallUpdateRemote remote_task_update
  | CallAddItem rstring rstring
  | CallCreateDraft rstring rstring rstring
  | CallUpdateDraft rstring "rstring option" "rstring option"
  | CallConvertDraft rstring rstring
  | CallSelectOption rstring rstring rstring "rstring option"
  | CallSetIssueType rstring "rstring option"
  | CallRelation outbox_mutation
  | CallCreateRemote remote_task_create
  | CallListChanged rstring timestamp
  | CallFetchRemote rstring rstring
  | CallFetchComments rstring rstring
  | CallCreateComment rstring rstring rstring
  | CallFetchSubIssues rstring rstring
  | CallFetchBlockedBy rstring rstring
  | CallFetchParent rstring rstring
  | CallDiscoverMove rstring rstring
  | CallTransferIssue rstring rstring
  | CallPollItems rstring rstring rstring

record env =
  env_now :: "nat \<Rightarrow> timestamp"
  env_id :: "nat \<Rightarrow> uuid"
  env_from_std :: "nat \<Rightarrow> int option"
  env_parse_uuid :: "rstring \<Rightarrow> uuid option"
  env_draws :: "nat \<Rightarrow> nat \<Rightarrow> 128 word"
  env_map_order :: "nat \<Rightarrow> task_id list \<Rightarrow> task_id list"
  update_remote :: "nat \<Rightarrow> remote_task_update \<Rightarrow> remote_task_snapshot port_result"
  add_item :: "nat \<Rightarrow> rstring \<Rightarrow> rstring \<Rightarrow> rstring port_result"
  create_draft_issue :: "nat \<Rightarrow> rstring \<Rightarrow> rstring \<Rightarrow> rstring \<Rightarrow> rstring port_result"
  update_draft_issue :: "nat \<Rightarrow> rstring \<Rightarrow> rstring option \<Rightarrow> rstring option \<Rightarrow> unit port_result"
  convert_draft_to_issue :: "nat \<Rightarrow> rstring \<Rightarrow> rstring \<Rightarrow> (rstring \<times> nat) port_result"
  set_single_select_option ::
    "nat \<Rightarrow> rstring \<Rightarrow> rstring \<Rightarrow> rstring \<Rightarrow> rstring option \<Rightarrow> rstring option port_result"
  set_remote_issue_type :: "nat \<Rightarrow> rstring \<Rightarrow> rstring option \<Rightarrow> unit port_result"
  add_sub_issue :: "nat \<Rightarrow> rstring \<Rightarrow> rstring \<Rightarrow> rstring \<Rightarrow> rstring \<Rightarrow> unit port_result"
  remove_sub_issue :: "nat \<Rightarrow> rstring \<Rightarrow> rstring \<Rightarrow> rstring \<Rightarrow> rstring \<Rightarrow> unit port_result"
  add_blocked_by :: "nat \<Rightarrow> rstring \<Rightarrow> rstring \<Rightarrow> rstring \<Rightarrow> rstring \<Rightarrow> unit port_result"
  remove_blocked_by :: "nat \<Rightarrow> rstring \<Rightarrow> rstring \<Rightarrow> rstring \<Rightarrow> rstring \<Rightarrow> unit port_result"
  env_uuid_error :: "rstring \<Rightarrow> rstring"
  create_remote :: "nat \<Rightarrow> remote_task_create \<Rightarrow> remote_task_snapshot port_result"
  list_changed_since :: "nat \<Rightarrow> rstring \<Rightarrow> timestamp \<Rightarrow> remote_task_snapshot list port_result"
  fetch_remote :: "nat \<Rightarrow> rstring \<Rightarrow> rstring \<Rightarrow> remote_task_snapshot port_result"
  fetch_comments :: "nat \<Rightarrow> rstring \<Rightarrow> rstring \<Rightarrow> remote_comment list port_result"
  create_comment :: "nat \<Rightarrow> rstring \<Rightarrow> rstring \<Rightarrow> rstring \<Rightarrow> remote_comment port_result"
  fetch_sub_issues :: "nat \<Rightarrow> rstring \<Rightarrow> rstring \<Rightarrow> remote_child_issue list port_result"
  fetch_blocked_by :: "nat \<Rightarrow> rstring \<Rightarrow> rstring \<Rightarrow> remote_child_issue list port_result"
  fetch_parent :: "nat \<Rightarrow> rstring \<Rightarrow> rstring \<Rightarrow> remote_child_issue list port_result"
  discover_move_target :: "nat \<Rightarrow> rstring \<Rightarrow> rstring \<Rightarrow> (rstring \<times> rstring) option port_result"
  transfer_issue :: "nat \<Rightarrow> rstring \<Rightarrow> rstring \<Rightarrow> (rstring \<times> nat) port_result"
  poll_project_items :: "nat \<Rightarrow> rstring \<Rightarrow> rstring \<Rightarrow> rstring \<Rightarrow> poll_page port_result"

record world =
  wd_db :: db
  wd_cat :: catalog
  wd_tick :: nat
  wd_calls :: "remote_call list"

section \<open>The monad\<close>

type_synonym ('e, 'a) em = "world \<Rightarrow> ('e + 'a) \<times> world"
type_synonym 'a sm = "(sync_error, 'a) em"

definition ret :: "'a \<Rightarrow> ('e, 'a) em" where
  "ret x w = (Inr x, w)"

definition throw :: "'e \<Rightarrow> ('e, 'a) em" where
  "throw e w = (Inl e, w)"

definition bnd :: "('e, 'a) em \<Rightarrow> ('a \<Rightarrow> ('e, 'b) em) \<Rightarrow> ('e, 'b) em" where
  "bnd m f w = (case m w of (Inl e, w') \<Rightarrow> (Inl e, w') | (Inr x, w') \<Rightarrow> f x w')"

text \<open>\<open>catch\<close> gives the result to the caller as a value, as a \<open>match\<close> on a \<open>Result\<close> does.\<close>

definition catch :: "('e, 'a) em \<Rightarrow> ('e, 'e + 'a) em" where
  "catch m w = (case m w of (r, w') \<Rightarrow> (Inr r, w'))"

definition lift_port :: "'a port_result \<Rightarrow> 'a sm" where
  "lift_port r w = (case r of Inl e \<Rightarrow> (Inl (SePort e), w) | Inr x \<Rightarrow> (Inr x, w))"

definition lift_domain :: "'a dresult \<Rightarrow> 'a sm" where
  "lift_domain r w = (case r of Inl e \<Rightarrow> (Inl (SeDomain e), w) | Inr x \<Rightarrow> (Inr x, w))"

definition reads :: "(world \<Rightarrow> 'a) \<Rightarrow> ('e, 'a) em" where
  "reads f w = (Inr (f w), w)"

definition tick :: "('e, nat) em" where
  "tick w = (Inr (wd_tick w), w\<lparr>wd_tick := Suc (wd_tick w)\<rparr>)"

definition log_call :: "remote_call \<Rightarrow> ('e, unit) em" where
  "log_call c w = (Inr (), w\<lparr>wd_calls := wd_calls w @ [c]\<rparr>)"

definition modify_db :: "(db \<Rightarrow> db) \<Rightarrow> ('e, unit) em" where
  "modify_db f w = (Inr (), w\<lparr>wd_db := f (wd_db w)\<rparr>)"

definition timestamp_now :: "env \<Rightarrow> ('e, timestamp) em" where
  "timestamp_now env = bnd tick (\<lambda>k. ret (env_now env k))"

fun each :: "('a \<Rightarrow> ('e, unit) em) \<Rightarrow> 'a list \<Rightarrow> ('e, unit) em" where
  "each f [] = ret ()"
| "each f (x # xs) = bnd (f x) (\<lambda>_. each f xs)"

lemma bnd_ret [simp]: "bnd (ret x) f = f x" "bnd m ret = m"
  by (auto simp: bnd_def ret_def fun_eq_iff split: prod.splits sum.splits)

lemma bnd_throw [simp]: "bnd (throw e) f = throw e"
  by (simp add: bnd_def throw_def fun_eq_iff)

lemma bnd_assoc: "bnd (bnd m f) g = bnd m (\<lambda>x. bnd (f x) g)"
  by (auto simp: bnd_def fun_eq_iff split: prod.splits sum.splits)

text \<open>Inversion rules: how a run of a composed program splits.\<close>

lemma bnd_cases:
  assumes "bnd m f w = (r, w')"
  obtains (err) e where "m w = (Inl e, w')" "r = Inl e"
    | (ok) x v where "m w = (Inr x, v)" "f x v = (r, w')"
  using assms by (auto simp: bnd_def split: prod.splits sum.splits)

lemma bnd_Inr: "m w = (Inr x, v) \<Longrightarrow> bnd m f w = f x v"
  by (simp add: bnd_def)

lemma bnd_Inl: "m w = (Inl e, v) \<Longrightarrow> bnd m f w = (Inl e, v)"
  by (simp add: bnd_def)

lemma prim_simps [simp]:
  "ret x w = (Inr x, w)" "throw e w = (Inl e, w)" "reads f w = (Inr (f w), w)"
  "tick w = (Inr (wd_tick w), w\<lparr>wd_tick := Suc (wd_tick w)\<rparr>)"
  "log_call c w = (Inr (), w\<lparr>wd_calls := wd_calls w @ [c]\<rparr>)"
  "modify_db g w = (Inr (), w\<lparr>wd_db := g (wd_db w)\<rparr>)"
  "lift_port (Inl pe) w = (Inl (SePort pe), w)" "lift_port (Inr x) w = (Inr x, w)"
  "lift_domain (Inl de) w = (Inl (SeDomain de), w)" "lift_domain (Inr x) w = (Inr x, w)"
  by (simp_all add: ret_def throw_def reads_def tick_def log_call_def modify_db_def lift_port_def lift_domain_def)

section \<open>The ports\<close>

definition tasks_get :: "task_id \<Rightarrow> task sm" where
  "tasks_get i = bnd (reads (\<lambda>w. get_task i (wd_db w))) lift_port"

definition tasks_save :: "env \<Rightarrow> task \<Rightarrow> snapshot_source \<Rightarrow> unit sm" where
  "tasks_save env t src =
     bnd (timestamp_now env) (\<lambda>cap.
     bnd (reads (\<lambda>w. save_task cap t src (wd_db w))) (\<lambda>r.
     bnd (lift_port r) (\<lambda>d. modify_db (\<lambda>_. d))))"

definition workspaces_get :: "workspace_id \<Rightarrow> workspace sm" where
  "workspaces_get i = bnd (reads (\<lambda>w. get_workspace i (wd_cat w))) lift_port"

definition projects_get :: "project_id \<Rightarrow> project sm" where
  "projects_get i = bnd (reads (\<lambda>w. get_project i (wd_cat w))) lift_port"

definition bindings_get :: "repo_id \<Rightarrow> (repo_instance \<times> repo_origin) sm" where
  "bindings_get i = bnd (reads (\<lambda>w. get_binding i (wd_cat w))) lift_port"

definition bindings_get_origin :: "repo_origin_id \<Rightarrow> repo_origin sm" where
  "bindings_get_origin i = bnd (reads (\<lambda>w. get_origin i (wd_cat w))) lift_port"

text \<open>\<open>OutboxEntry::new\<close> followed by \<open>outbox.enqueue\<close>.\<close>

definition outbox_enqueue :: "env \<Rightarrow> task_id \<Rightarrow> outbox_mutation \<Rightarrow> unit sm" where
  "outbox_enqueue env i m =
     bnd tick (\<lambda>k.
       modify_db (\<lambda>d. d\<lparr>db_outbox :=
         enqueue_entry (outbox_entry_new (env_id env k) (env_now env k) i m) (db_outbox d)\<rparr>))"

fun collect :: "('a \<Rightarrow> ('e, 'b) em) \<Rightarrow> 'a list \<Rightarrow> ('e, 'b list) em" where
  "collect f [] = ret []"
| "collect f (x # xs) = bnd (f x) (\<lambda>y. bnd (collect f xs) (\<lambda>ys. ret (y # ys)))"

text \<open>A remote call: logged, answered by the environment.\<close>

definition remote :: "remote_call \<Rightarrow> (nat \<Rightarrow> 'a port_result) \<Rightarrow> 'a port_result sm" where
  "remote c answer = bnd tick (\<lambda>k. bnd (log_call c) (\<lambda>_. ret (answer k)))"

text \<open>A look-up whose \<open>NotFound\<close> is read as absence.\<close>

definition tolerant :: "'a sm \<Rightarrow> 'a option sm" where
  "tolerant m = bnd (catch m) (\<lambda>r. case r of
     Inr x \<Rightarrow> ret (Some x) | Inl (SePort (NotFound _)) \<Rightarrow> ret None | Inl e \<Rightarrow> throw e)"

section \<open>A sample environment\<close>

text \<open>A clock that stands still, numbered ids, and remotes that are unreachable.\<close>

definition idle_env :: env where
  "idle_env = \<lparr>env_now = \<lambda>_. 0, env_id = \<lambda>k. k + 100, env_from_std = \<lambda>d. Some (int d),
     env_parse_uuid = \<lambda>_. None, env_draws = \<lambda>_ _. 0, env_map_order = \<lambda>_ xs. xs,
     update_remote = \<lambda>_ _. Inl (Network []), add_item = \<lambda>_ _ _. Inl (Network []),
     create_draft_issue = \<lambda>_ _ _ _. Inl (Network []), update_draft_issue = \<lambda>_ _ _ _. Inl (Network []),
     convert_draft_to_issue = \<lambda>_ _ _. Inl (Network []),
     set_single_select_option = \<lambda>_ _ _ _ _. Inl (Network []),
     set_remote_issue_type = \<lambda>_ _ _. Inl (Network []), add_sub_issue = \<lambda>_ _ _ _ _. Inl (Network []),
     remove_sub_issue = \<lambda>_ _ _ _ _. Inl (Network []), add_blocked_by = \<lambda>_ _ _ _ _. Inl (Network []),
     remove_blocked_by = \<lambda>_ _ _ _ _. Inl (Network []), env_uuid_error = \<lambda>_. [],
     create_remote = \<lambda>_ _. Inl (Network []), list_changed_since = \<lambda>_ _ _. Inl (Network []),
     fetch_remote = \<lambda>_ _ _. Inl (Network []), fetch_comments = \<lambda>_ _ _. Inl (Network []),
     create_comment = \<lambda>_ _ _ _. Inl (Network []), fetch_sub_issues = \<lambda>_ _ _. Inl (Network []),
     fetch_blocked_by = \<lambda>_ _ _. Inl (Network []), fetch_parent = \<lambda>_ _ _. Inl (Network []),
     discover_move_target = \<lambda>_ _ _. Inl (Network []), transfer_issue = \<lambda>_ _ _. Inl (Network []),
     poll_project_items = \<lambda>_ _ _ _. Inl (Network [])\<rparr>"

end
