(* ===== verification/TaskQuery.thy ===== *)
theory TaskQuery
  imports Enqueue "HOL-Library.Option_ord"
begin

text \<open>
  \<open>TaskRepository::list\<close> (\<open>infra-sqlite/src/task_repo.rs\<close>): the filter and the sort keys of the
  port, the \<open>WHERE\<close> clause, the three \<open>ORDER BY\<close> clauses with their id tie-breaker, and the page
  taken by \<open>LIMIT\<close> and \<open>OFFSET\<close>.  Limits are \<open>usize\<close> bound \<open>as i64\<close>: a value with the sign bit
  set arrives negative, which SQLite reads as no limit and as no offset.
\<close>

section \<open>The enumerations as stored\<close>

text \<open>The serde forms of the enumerations, the text SQLite compares.\<close>

fun lifecycle_str :: "lifecycle \<Rightarrow> rstring" where
  "lifecycle_str Open = lit ''open''"
| "lifecycle_str Reopened = lit ''reopened''"
| "lifecycle_str Completed = lit ''completed''"
| "lifecycle_str NotPlanned = lit ''not_planned''"

fun sync_state_str :: "sync_state \<Rightarrow> rstring" where
  "sync_state_str LocalOnly = lit ''local_only''"
| "sync_state_str Staged = lit ''staged''"
| "sync_state_str Synced = lit ''synced''"
| "sync_state_str DirtyLocal = lit ''dirty_local''"
| "sync_state_str DirtyRemote = lit ''dirty_remote''"
| "sync_state_str Conflict = lit ''conflict''"

fun priority_str :: "priority \<Rightarrow> rstring" where
  "priority_str P0 = lit ''p0''"
| "priority_str P1 = lit ''p1''"
| "priority_str P2 = lit ''p2''"
| "priority_str P3 = lit ''p3''"

fun relation_kind_str :: "relation_kind \<Rightarrow> rstring" where
  "relation_kind_str BlockedBy = lit ''blocked_by''"
| "relation_kind_str Blocks = lit ''blocks''"
| "relation_kind_str Duplicates = lit ''duplicates''"
| "relation_kind_str ParentOf = lit ''parent_of''"
| "relation_kind_str ChildOf = lit ''child_of''"
| "relation_kind_str RelatedTo = lit ''related_to''"

section \<open>The filter\<close>

datatype task_sort_key =
  SkCreatedAt | SkUpdatedAt | SkPriority | SkTitle | SkLifecycle | SkSyncState | SkSyncedAt

datatype sort_direction = Asc | Desc

record task_sort =
  sort_by_key :: task_sort_key
  sort_dir :: sort_direction

record task_filter =
  tf_workspace_id :: "workspace_id option"
  tf_repo_id :: "repo_id option"
  tf_is_open :: "bool option"
  tf_sync_state :: "sync_state option"
  tf_synced_at_lt :: "timestamp option"
  tf_has_project_item_id :: bool
  tf_issue_type_pending :: bool
  tf_pollable_workspaces_only :: bool
  tf_limit :: "64 word option"
  tf_offset :: "64 word option"
  tf_priorities :: "priority list"
  tf_assignee :: "rstring option"
  tf_issue_type :: "rstring option"
  tf_created_after :: "timestamp option"
  tf_created_before :: "timestamp option"
  tf_updated_after :: "timestamp option"
  tf_updated_before :: "timestamp option"
  tf_sort :: "task_sort option"

definition default_filter :: task_filter where
  "default_filter = \<lparr>tf_workspace_id = None, tf_repo_id = None, tf_is_open = None,
     tf_sync_state = None, tf_synced_at_lt = None, tf_has_project_item_id = False,
     tf_issue_type_pending = False, tf_pollable_workspaces_only = False, tf_limit = None,
     tf_offset = None, tf_priorities = [], tf_assignee = None, tf_issue_type = None,
     tf_created_after = None, tf_created_before = None, tf_updated_after = None,
     tf_updated_before = None, tf_sort = None\<rparr>"

text \<open>An optional condition: absent, it holds.\<close>

definition if_given :: "'a option \<Rightarrow> ('a \<Rightarrow> bool) \<Rightarrow> bool" where
  "if_given x P \<longleftrightarrow> (case x of None \<Rightarrow> True | Some v \<Rightarrow> P v)"

definition pollable_workspace :: "workspace \<Rightarrow> bool" where
  "pollable_workspace w \<longleftrightarrow> w_status w = WActive \<and> w_project_id w \<noteq> None"

definition matches_filter :: "catalog \<Rightarrow> task_filter \<Rightarrow> task \<Rightarrow> bool" where
  "matches_filter c f r \<longleftrightarrow>
     (tf_pollable_workspaces_only f \<longrightarrow>
        list_ex (\<lambda>w. w_id w = t_workspace_id r \<and> pollable_workspace w) (cat_workspaces c)) \<and>
     if_given (tf_workspace_id f) (\<lambda>w. t_workspace_id r = w) \<and>
     if_given (tf_repo_id f) (\<lambda>i. t_repo_id r = Some i) \<and>
     if_given (tf_is_open f) (\<lambda>open.
       if open then lifecycle_str (t_lifecycle r) \<in> {lit ''open'', lit ''reopened''}
       else lifecycle_str (t_lifecycle r) \<in> {lit ''completed'', lit ''not_planned''}) \<and>
     if_given (tf_sync_state f) (\<lambda>s. sync_state_str (t_sync r) = sync_state_str s) \<and>
     (tf_has_project_item_id f \<longrightarrow> t_project_item_id r \<noteq> None) \<and>
     (tf_issue_type_pending f \<longrightarrow> t_issue_type_pending r) \<and>
     if_given (tf_synced_at_lt f) (\<lambda>ts. case t_synced_at r of None \<Rightarrow> True | Some s \<Rightarrow> s < ts) \<and>
     (tf_priorities f \<noteq> [] \<longrightarrow> priority_str (t_priority r) \<in> set (map priority_str (tf_priorities f))) \<and>
     if_given (tf_assignee f) (\<lambda>a. a \<in> set (t_assignees r)) \<and>
     if_given (tf_issue_type f) (\<lambda>it. issue_type_column (t_issue_type r) = Some it) \<and>
     if_given (tf_created_after f) (\<lambda>ts. ts \<le> t_created_at r) \<and>
     if_given (tf_created_before f) (\<lambda>ts. t_created_at r < ts) \<and>
     if_given (tf_updated_after f) (\<lambda>ts. ts \<le> t_updated_at r) \<and>
     if_given (tf_updated_before f) (\<lambda>ts. t_updated_at r < ts)"

section \<open>Order and page\<close>

text \<open>The cell of the sort column: a time (null first) or a text.\<close>

fun sort_column :: "task_sort_key \<Rightarrow> task \<Rightarrow> timestamp option \<times> rstring" where
  "sort_column SkCreatedAt r = (Some (t_created_at r), [])"
| "sort_column SkUpdatedAt r = (Some (t_updated_at r), [])"
| "sort_column SkPriority r = (None, priority_str (t_priority r))"
| "sort_column SkTitle r = (None, t_title r)"
| "sort_column SkLifecycle r = (None, lifecycle_str (t_lifecycle r))"
| "sort_column SkSyncState r = (None, sync_state_str (t_sync r))"
| "sort_column SkSyncedAt r = (t_synced_at r, [])"

text \<open>\<open>ORDER BY column, id ASC\<close>; descending only in the column.\<close>

fun order_by :: "task_sort_key \<Rightarrow> sort_direction \<Rightarrow> task list \<Rightarrow> task list" where
  "order_by k Asc rows = sort_key (sort_column k) (sort_key t_id rows)"
| "order_by k Desc rows = rev (sort_key (sort_column k) (rev (sort_key t_id rows)))"

definition order_rows :: "task_filter \<Rightarrow> task list \<Rightarrow> task list" where
  "order_rows f rows =
     (case tf_sort f of
        Some s \<Rightarrow> order_by (sort_by_key s) (sort_dir s) rows
      | None \<Rightarrow>
          if tf_synced_at_lt f \<noteq> None then order_by SkSyncedAt Asc rows
          else order_by SkCreatedAt Asc rows)"

definition limit_rows :: "64 word option \<Rightarrow> 'a list \<Rightarrow> 'a list" where
  "limit_rows l xs =
     (case l of None \<Rightarrow> xs | Some n \<Rightarrow> if sint n < 0 then xs else take (nat (sint n)) xs)"

definition offset_rows :: "64 word option \<Rightarrow> 'a list \<Rightarrow> 'a list" where
  "offset_rows l xs =
     (case l of None \<Rightarrow> xs | Some n \<Rightarrow> if sint n < 0 then xs else drop (nat (sint n)) xs)"

text \<open>The relations and the baseline of each row are loaded, its comments are not.\<close>

definition load_listed :: "db \<Rightarrow> task \<Rightarrow> task" where
  "load_listed d row = (row_to_task row)\<lparr>t_relations := load_relations d (t_id row),
     t_synced_baseline := load_latest_baseline d (t_id row)\<rparr>"

definition list_tasks :: "catalog \<Rightarrow> task_filter \<Rightarrow> db \<Rightarrow> task list" where
  "list_tasks c f d =
     map (load_listed d)
       (limit_rows (tf_limit f) (offset_rows (tf_offset f)
          (order_rows f (filter (matches_filter c f) (db_tasks d)))))"

section \<open>Properties\<close>

lemma load_listed_id [simp]: "t_id (load_listed d r) = t_id r"
  by (simp add: load_listed_def row_to_task_def)

lemma set_order_rows [simp]: "set (order_rows f rows) = set rows"
  by (cases "sort_dir (the (tf_sort f))") (auto simp: order_rows_def split: option.splits)

lemma mset_order_by [simp]: "mset (order_by k dir rows) = mset rows"
  by (cases dir) auto

lemma mset_order_rows [simp]: "mset (order_rows f rows) = mset rows"
  by (simp add: order_rows_def split: option.splits)

text \<open>A stable sort keeps the order it found among equal keys.\<close>

lemma sorted_wrt_sort_key_stable:
  assumes "sorted_wrt P xs"
  shows "sorted_wrt (\<lambda>x y. f x < f y \<or> f x = f y \<and> P x y) (sort_key f xs)"
proof -
  show ?thesis
    using assms
  proof (induction xs)
    case (Cons a xs)
    let ?R = "\<lambda>x y. f x < f y \<or> f x = f y \<and> P x y"
    have ins: "sorted_wrt ?R ys \<Longrightarrow> \<forall>y \<in> set ys. P a y \<Longrightarrow> sorted_wrt ?R (insort_key f a ys)" for ys
    proof (induction ys)
      case (Cons y ys)
      show ?case
      proof (cases "f a \<le> f y")
        case True
        have "?R a z" if "z \<in> set (y # ys)" for z
        proof -
          have "f y \<le> f z" using Cons.prems(1) that by auto
          with True that Cons.prems(2) show ?thesis by fastforce
        qed
        with True Cons.prems(1) show ?thesis by auto
      next
        case False
        with Cons show ?thesis by (auto simp: set_insort_key)
      qed
    qed simp
    from Cons have "sorted_wrt ?R (sort_key f xs)" "\<forall>y \<in> set (sort_key f xs). P a y" by auto
    then show ?case by (simp add: ins)
  qed simp
qed

lemma order_by_sorted:
  "sorted_wrt (\<lambda>x y. (case dir of Asc \<Rightarrow> sort_column k x < sort_column k y
                              | Desc \<Rightarrow> sort_column k y < sort_column k x) \<or>
     sort_column k x = sort_column k y \<and> t_id x \<le> t_id y) (order_by k dir rows)"
proof (cases dir)
  case Asc
  have "sorted_wrt (\<lambda>x y. t_id x \<le> t_id y) (sort_key t_id rows)"
    using sorted_sort_key [of t_id rows] by (simp add: sorted_map)
  from sorted_wrt_sort_key_stable [OF this, of "sort_column k"] Asc show ?thesis by simp
next
  case Desc
  have "sorted_wrt (\<lambda>x y. t_id y \<le> t_id x) (rev (sort_key t_id rows))"
    using sorted_sort_key [of t_id rows] by (simp add: sorted_map sorted_wrt_rev)
  from sorted_wrt_sort_key_stable [OF this, of "sort_column k"] Desc show ?thesis
    by (auto simp: sorted_wrt_rev elim!: sorted_wrt_mono_rel [rotated])
qed

lemma concat_pages: "concat (map (\<lambda>k. take n (drop (k * n) xs)) [0..<m]) = take (m * n) xs"
proof (induction m)
  case (Suc m)
  have "take (m * n) xs @ take n (drop (m * n) xs) = take (m * n + n) xs" by (simp add: take_add)
  with Suc show ?case by (simp add: add.commute)
qed simp

lemma sint_small: "unat (w :: 64 word) < 2 ^ 63 \<Longrightarrow> sint w = int (unat w)"
proof -
  assume "unat w < 2 ^ 63"
  then have "uint w < 2 ^ 63" by (simp add: nat_less_iff flip: nat_uint_eq)
  then have "signed_take_bit 63 (uint w) = uint w"
    by (intro signed_take_bit_int_eq_self) (auto intro: order_trans [OF _ uint_ge_0])
  then show ?thesis by (simp add: sint_uint)
qed

lemma sort_column_listed [simp]: "sort_column k (load_listed d r) = sort_column k r"
  by (cases k) (simp_all add: load_listed_def row_to_task_def)

lemma matches_filter_page [simp]:
  "matches_filter c (f\<lparr>tf_limit := l, tf_offset := off\<rparr>) = matches_filter c f"
  by (simp add: matches_filter_def fun_eq_iff)

lemma order_rows_page [simp]: "order_rows (f\<lparr>tf_limit := l, tf_offset := off\<rparr>) = order_rows f"
  by (rule ext) (cases "tf_synced_at_lt f"; simp add: order_rows_def)

lemma list_tasks_unlimited:
  assumes "tf_limit f = None" "tf_offset f = None"
  shows "list_tasks c f d = map (load_listed d) (order_rows f (filter (matches_filter c f) (db_tasks d)))"
  using assms by (simp add: list_tasks_def limit_rows_def offset_rows_def)

lemma list_tasks_page:
  assumes "tf_limit f = None" "tf_offset f = None" "unat n < 2 ^ 63" "unat off < 2 ^ 63"
  shows "list_tasks c (f\<lparr>tf_limit := Some n, tf_offset := Some off\<rparr>) d =
    take (unat n) (drop (unat off) (list_tasks c f d))"
  using assms
  by (simp add: list_tasks_unlimited) (simp add: list_tasks_def limit_rows_def offset_rows_def sint_small take_map drop_map)

text \<open>The order a listing has: the requested sort; without one the freshest synced last, tasks never
  synced first, for a stale scan, and by creation time for any other listing.\<close>

definition effective_sort :: "task_filter \<Rightarrow> task_sort" where
  "effective_sort f = (case tf_sort f of Some s \<Rightarrow> s
     | None \<Rightarrow> \<lparr>sort_by_key = if tf_synced_at_lt f \<noteq> None then SkSyncedAt else SkCreatedAt, sort_dir = Asc\<rparr>)"

lemma order_rows_effective: "order_rows f rows = order_by (sort_by_key (effective_sort f)) (sort_dir (effective_sort f)) rows"
  by (cases "tf_sort f"; cases "tf_synced_at_lt f"; simp add: order_rows_def effective_sort_def)

text \<open>C35 Paging a listing loses and repeats nothing: for every filter and sort, also none, successive pages
  of \<open>n\<close> rows concatenate to the whole listing, which holds each stored task that matches the filter
  exactly once, in the order of the requested sort or, without one, of the default (by creation, or by
  staleness for a stale scan), with ties broken by id.  The page size and the offsets are those SQLite
  reads as non-negative, and enough pages are asked for to hold the matches.\<close>

theorem list_pages_cover:
  assumes "tf_limit f = None" "tf_offset f = None" "unat (n :: 64 word) < 2 ^ 63" "m * unat n < 2 ^ 63"
    and "length (filter (matches_filter c f) (db_tasks d)) \<le> m * unat n"
  shows "concat (map (\<lambda>k. list_tasks c (f\<lparr>tf_limit := Some n,
             tf_offset := Some (word_of_nat (k * unat n))\<rparr>) d) [0..<m]) = list_tasks c f d \<and>
    mset (map t_id (list_tasks c f d)) = mset (map t_id (filter (matches_filter c f) (db_tasks d))) \<and>
    (let srt = effective_sort f in sorted_wrt (\<lambda>x y. (case sort_dir srt of
        Asc \<Rightarrow> sort_column (sort_by_key srt) x < sort_column (sort_by_key srt) y
      | Desc \<Rightarrow> sort_column (sort_by_key srt) y < sort_column (sort_by_key srt) x) \<or>
      sort_column (sort_by_key srt) x = sort_column (sort_by_key srt) y \<and> t_id x \<le> t_id y)
      (list_tasks c f d))"
  unfolding Let_def
proof (intro conjI)
  define srt where "srt = effective_sort f"
  let ?rows = "filter (matches_filter c f) (db_tasks d)"
  have page: "list_tasks c (f\<lparr>tf_limit := Some n, tf_offset := Some (word_of_nat (k * unat n))\<rparr>) d =
      take (unat n) (drop (k * unat n) (list_tasks c f d))" if "k < m" for k
  proof -
    have "k * unat n \<le> m * unat n" using that by simp
    with assms(4) have small: "k * unat n < 2 ^ 63" by linarith
    define off :: "64 word" where "off = word_of_nat (k * unat n)"
    have "unat off = k * unat n" unfolding off_def by (subst unat_of_nat) (use small in simp)
    with small list_tasks_page [OF assms(1-3), of off c d] show ?thesis unfolding off_def by metis
  qed
  have "concat (map (\<lambda>k. list_tasks c (f\<lparr>tf_limit := Some n,
             tf_offset := Some (word_of_nat (k * unat n))\<rparr>) d) [0..<m]) =
      concat (map (\<lambda>k. take (unat n) (drop (k * unat n) (list_tasks c f d))) [0..<m])"
    by (rule arg_cong [where f = concat], rule map_cong [OF refl], rule page, simp)
  also have "\<dots> = list_tasks c f d"
  proof -
    have "length (list_tasks c f d) = length ?rows"
      using assms(1,2) by (simp add: list_tasks_unlimited flip: size_mset)
    with assms(5) show ?thesis by (simp add: concat_pages)
  qed
  finally show "concat (map (\<lambda>k. list_tasks c (f\<lparr>tf_limit := Some n,
             tf_offset := Some (word_of_nat (k * unat n))\<rparr>) d) [0..<m]) = list_tasks c f d" .
  show "mset (map t_id (list_tasks c f d)) = mset (map t_id ?rows)"
    using assms(1,2) by (simp add: list_tasks_unlimited comp_def flip: image_mset.compositionality)
  have "sorted_wrt (\<lambda>x y. (case sort_dir srt of
        Asc \<Rightarrow> sort_column (sort_by_key srt) x < sort_column (sort_by_key srt) y
      | Desc \<Rightarrow> sort_column (sort_by_key srt) y < sort_column (sort_by_key srt) x) \<or>
      sort_column (sort_by_key srt) x = sort_column (sort_by_key srt) y \<and> t_id x \<le> t_id y)
      (list_tasks c f d)"
    using order_by_sorted [where dir = "sort_dir srt" and k = "sort_by_key srt" and rows = ?rows] assms(1,2)
    by (cases "sort_dir srt") (simp_all add: list_tasks_unlimited order_rows_effective srt_def [symmetric] sorted_wrt_map)
  then show "sorted_wrt (\<lambda>x y. (case sort_dir (effective_sort f) of
        Asc \<Rightarrow> sort_column (sort_by_key (effective_sort f)) x < sort_column (sort_by_key (effective_sort f)) y
      | Desc \<Rightarrow> sort_column (sort_by_key (effective_sort f)) y < sort_column (sort_by_key (effective_sort f)) x) \<or>
      sort_column (sort_by_key (effective_sort f)) x = sort_column (sort_by_key (effective_sort f)) y \<and> t_id x \<le> t_id y)
      (list_tasks c f d)" unfolding srt_def .
qed

theorem list_pages_cover_witness:
  "\<exists>d f. map t_id (list_tasks \<lparr>cat_workspaces = [], cat_projects = [], cat_issue_types = [],
       cat_instances = [], cat_origins = []\<rparr> (f\<lparr>tf_limit := Some 1, tf_offset := Some 0\<rparr>) d @
     list_tasks \<lparr>cat_workspaces = [], cat_projects = [], cat_issue_types = [],
       cat_instances = [], cat_origins = []\<rparr> (f\<lparr>tf_limit := Some 1, tf_offset := Some 1\<rparr>) d) = [2, 1]"
proof -
  let ?c = "\<lparr>cat_workspaces = [], cat_projects = [], cat_issue_types = [], cat_instances = [], cat_origins = []\<rparr>"
  let ?srt = "\<lparr>sort_by_key = SkPriority, sort_dir = Desc\<rparr>"
  let ?f = "default_filter\<lparr>tf_sort := Some ?srt\<rparr>"
  let ?a = "sample_mirror\<lparr>t_id := 1, t_priority := P0\<rparr>"
  let ?b = "sample_mirror\<lparr>t_id := 2, t_priority := P3\<rparr>"
  let ?d = "\<lparr>db_tasks = [?a, ?b], db_relations = [], db_snapshots = [], db_mappings = [],
    db_comments = [], db_outbox = []\<rparr>"
  have all: "filter (matches_filter ?c ?f) (db_tasks ?d) = [?a, ?b]"
    by (simp add: matches_filter_def default_filter_def if_given_def)
  have "concat (map (\<lambda>k. list_tasks ?c (?f\<lparr>tf_limit := Some 1,
      tf_offset := Some (word_of_nat (k * unat (1 :: 64 word)))\<rparr>) ?d) [0..<2]) = list_tasks ?c ?f ?d"
    using list_pages_cover [of ?f 1 2 ?c ?d] unfolding all by (simp add: default_filter_def)
  moreover have "map t_id (list_tasks ?c ?f ?d) = [2, 1]"
    using all by (simp add: list_tasks_unlimited default_filter_def order_rows_def lit_def)
  ultimately show ?thesis by (intro exI [of _ ?d] exI [of _ ?f]) (simp add: upt_conv_Cons)
qed

text \<open>The drainer's sweep is the listing with one condition.\<close>

lemma filter_swap: "filter P (filter Q xs) = filter Q (filter P xs)"
  by (induction xs) auto

lemma sort_key_lex: "sort_key f (sort_key g xs) = sort_key (\<lambda>x. (f x, g x)) xs"
proof (rule properties_for_sort_key [symmetric])
  show "mset (sort_key f (sort_key g xs)) = mset xs" by simp
  show "filter (\<lambda>x. (f k, g k) = (f x, g x)) (sort_key f (sort_key g xs)) =
      filter (\<lambda>x. (f k, g k) = (f x, g x)) xs" for k
  proof -
    have "filter (\<lambda>x. g x = g k) (filter (\<lambda>x. f x = f k) (sort_key f (sort_key g xs))) =
        filter (\<lambda>x. g x = g k) (filter (\<lambda>x. f x = f k) (sort_key g xs))" by (simp only: sort_key_stable)
    also have "\<dots> = filter (\<lambda>x. f x = f k) (filter (\<lambda>x. g x = g k) xs)"
      by (subst filter_swap) (simp only: sort_key_stable)
    finally have "filter (\<lambda>x. g x = g k) (filter (\<lambda>x. f x = f k) (sort_key f (sort_key g xs))) =
        filter (\<lambda>x. f x = f k) (filter (\<lambda>x. g x = g k) xs)" .
    then show ?thesis by (simp add: conj_commute eq_commute [of "f k"] eq_commute [of "g k"])
  qed
  have "sorted_wrt (\<lambda>x y. g x \<le> g y) (sort_key g xs)"
    using sorted_sort_key [of g xs] by (simp add: sorted_map)
  from sorted_wrt_sort_key_stable [OF this, of f]
  show "sorted (map (\<lambda>x. (f x, g x)) (sort_key f (sort_key g xs)))"
    by (auto simp: sorted_map elim!: sorted_wrt_mono_rel [rotated])
qed

lemma sort_key_order_cong:
  assumes "\<And>x y. f x \<le> f y \<longleftrightarrow> g x \<le> g y"
  shows "sort_key f xs = sort_key g xs"
proof -
  have "insort_key f x ys = insort_key g x ys" for x ys by (induction ys) (simp_all add: assms)
  then show ?thesis by (induction xs) simp_all
qed

lemma list_tasks_issue_type_pending:
  "list_tasks c (default_filter\<lparr>tf_issue_type_pending := True\<rparr>) d = list_issue_type_pending d"
proof -
  have "sort_key (\<lambda>r. (sort_column SkCreatedAt r, t_id r)) rows = sort_key (\<lambda>r. (t_created_at r, t_id r)) rows"
    for rows by (rule sort_key_order_cong) auto
  moreover have "matches_filter c (default_filter\<lparr>tf_issue_type_pending := True\<rparr>) = t_issue_type_pending"
    by (rule ext) (simp add: matches_filter_def default_filter_def if_given_def)
  moreover have "load_listed d = (\<lambda>row. (hydrate d row)\<lparr>t_comments := []\<rparr>)"
    by (rule ext) (simp add: load_listed_def hydrate_def row_to_task_def)
  ultimately show ?thesis
    by (simp add: list_tasks_def list_issue_type_pending_def default_filter_def limit_rows_def offset_rows_def
        order_rows_def sort_key_lex)
qed

text \<open>Filtering by lifecycle bit is the domain's \<open>is_open\<close>.\<close>

lemma matches_is_open:
  "matches_filter c (default_filter\<lparr>tf_is_open := Some b\<rparr>) r \<longleftrightarrow> is_open (t_lifecycle r) = b"
  by (cases "t_lifecycle r"; cases b) (simp_all add: matches_filter_def default_filter_def if_given_def lit_def)

end
