(* ===== verification/RelationGraph.thy ===== *)
theory RelationGraph
  imports TaskQuery StoreHistory
begin

text \<open>
  The relation graph of the stored tasks and the cycle guard of
  \<open>application-task/src/service.rs\<close>.  \<open>cycle_walk\<close> is the depth-first search of
  \<open>would_create_cycle\<close>: the head of the list is the top of the stack, the visited set is a list.
  \<open>relation_edges\<close> reads the relation table as a set of labelled edges, and \<open>graph_wf\<close> is the
  contract the relation commands keep: no self edge, both directions stored, and no cycle among
  the blocking and among the hierarchy edges.
\<close>

section \<open>The guard\<close>

fun cycle_axis ::
  "relation_kind \<Rightarrow> task_id \<Rightarrow> task_id \<Rightarrow> (relation_kind \<times> relation_kind \<times> task_id \<times> task_id) option" where
  "cycle_axis BlockedBy a b = Some (BlockedBy, Blocks, a, b)"
| "cycle_axis Blocks a b = Some (BlockedBy, Blocks, b, a)"
| "cycle_axis ChildOf a b = Some (ChildOf, ParentOf, a, b)"
| "cycle_axis ParentOf a b = Some (ChildOf, ParentOf, b, a)"
| "cycle_axis RelatedTo a b = None"
| "cycle_axis Duplicates a b = None"

text \<open>The entries pushed into the map \<open>up\<close>, in order; \<open>up[n]\<close> is what was pushed under \<open>n\<close>.\<close>

definition up_entries :: "relation_kind \<Rightarrow> relation_kind \<Rightarrow> task list \<Rightarrow> (task_id \<times> task_id) list" where
  "up_entries fwd bwd all =
     concat (map (\<lambda>t. concat (map (\<lambda>r.
       if rel_kind r = fwd then [(t_id t, rel_other r)]
       else if rel_kind r = bwd then [(rel_other r, t_id t)]
       else []) (t_relations t))) all)"

definition up_get :: "(task_id \<times> task_id) list \<Rightarrow> task_id \<Rightarrow> task_id list" where
  "up_get up n = map snd (filter (\<lambda>e. fst e = n) up)"

text \<open>The inner loop over the parents: \<open>None\<close> is the early return of \<open>true\<close>.\<close>

fun push_parents :: "task_id \<Rightarrow> task_id list \<Rightarrow> task_id list \<Rightarrow> task_id list option" where
  "push_parents x [] stack = Some stack"
| "push_parents x (p # ps) stack = (if p = x then None else push_parents x ps (p # stack))"

lemma push_parents_eq: "push_parents x ps stack = (if x \<in> set ps then None else Some (rev ps @ stack))"
  by (induction x ps stack rule: push_parents.induct) auto

function cycle_walk :: "(task_id \<times> task_id) list \<Rightarrow> task_id \<Rightarrow> task_id list \<Rightarrow> task_id list \<Rightarrow> bool" where
  "cycle_walk up x [] visited = False"
| "cycle_walk up x (n # stack) visited =
     (if n \<in> set visited then cycle_walk up x stack visited
      else case push_parents x (up_get up n) stack of
             None \<Rightarrow> True
           | Some stack' \<Rightarrow> cycle_walk up x stack' (n # visited))"
  by pat_completeness auto

text \<open>Each node with parents is expanded once; a node without parents only shrinks the stack.\<close>

termination cycle_walk
proof (relation "inv_image (less_than <*lex*> less_than)
    (\<lambda>(up, x, stack, visited). (card (fst ` set up - set visited), length stack))", goal_cases)
  case (3 up x n stack visited stack')
  let ?A = "fst ` set up - set visited" and ?B = "fst ` set up - set (n # visited)"
  have sub: "?B \<subseteq> ?A" by auto
  show ?case
  proof (cases "n \<in> fst ` set up")
    case True
    with 3 have "?B \<subset> ?A" by auto
    then show ?thesis by (simp add: psubset_card_mono)
  next
    case False
    then have "up_get up n = []" by (force simp: up_get_def filter_empty_conv)
    with 3 have "stack' = stack" by simp
    with card_mono [OF _ sub] show ?thesis by (auto simp: le_less)
  qed
qed auto

definition would_create_cycle ::
  "catalog \<Rightarrow> relation_kind \<Rightarrow> relation_kind \<Rightarrow> task_id \<Rightarrow> task_id \<Rightarrow> db \<Rightarrow> bool" where
  "would_create_cycle c fwd bwd x y d =
     cycle_walk (up_entries fwd bwd (list_tasks c default_filter d)) x [y] []"

section \<open>The walk decides reachability\<close>

lemma set_up_get [simp]: "set (up_get up n) = {p. (n, p) \<in> set up}"
  by (force simp: up_get_def)

text \<open>A path out of the visited nodes leaves them through the stack.\<close>

lemma escape_visited:
  assumes "(v, x) \<in> E\<^sup>+" "v \<in> V"
    and closed: "\<And>a p. a \<in> V \<Longrightarrow> (a, p) \<in> E \<Longrightarrow> p \<noteq> x \<and> p \<in> V \<union> S"
  shows "\<exists>s \<in> S - V. (s, x) \<in> E\<^sup>+"
  using assms(1,2)
proof (induction rule: converse_trancl_induct)
  case (base v)
  with closed show ?case by blast
next
  case (step v z)
  show ?case
  proof (cases "z \<in> V")
    case True
    with step show ?thesis by blast
  next
    case False
    with closed step have "z \<in> S - V" by blast
    with step.hyps(2) show ?thesis by blast
  qed
qed

lemma cycle_walk_iff:
  assumes "\<And>a p. a \<in> set visited \<Longrightarrow> (a, p) \<in> set up \<Longrightarrow> p \<noteq> x \<and> p \<in> set visited \<union> set stack"
  shows "cycle_walk up x stack visited \<longleftrightarrow> (\<exists>s \<in> set stack. (s, x) \<in> (set up)\<^sup>+)"
  using assms
proof (induction up x stack visited rule: cycle_walk.induct)
  case (2 up x n stack visited)
  consider (seen) "n \<in> set visited" | (hit) "n \<notin> set visited" "(n, x) \<in> set up"
    | (expand) "n \<notin> set visited" "(n, x) \<notin> set up" by blast
  then show ?case
  proof cases
    case seen
    have "\<exists>s \<in> set stack. (s, x) \<in> (set up)\<^sup>+" if "(n, x) \<in> (set up)\<^sup>+"
      using escape_visited [OF that seen, of "set (n # stack)"] "2.prems" seen by auto
    moreover have "cycle_walk up x stack visited \<longleftrightarrow> (\<exists>s \<in> set stack. (s, x) \<in> (set up)\<^sup>+)"
      using "2.IH"(1) [OF seen] "2.prems" seen by fastforce
    ultimately show ?thesis using seen by auto
  next
    case hit
    then show ?thesis by (auto simp: push_parents_eq)
  next
    case expand
    let ?st = "rev (up_get up n) @ stack"
    have IH: "cycle_walk up x ?st (n # visited) \<longleftrightarrow> (\<exists>s \<in> set ?st. (s, x) \<in> (set up)\<^sup>+)"
      using "2.IH"(2) [OF expand(1), of ?st] "2.prems" expand by (fastforce simp: push_parents_eq)
    have "(n, x) \<in> (set up)\<^sup>+ \<longleftrightarrow> (\<exists>s \<in> set (up_get up n). (s, x) \<in> (set up)\<^sup>+)"
      using expand(2) by (auto elim: converse_tranclE intro: trancl_into_trancl2)
    with IH expand show ?thesis by (auto simp: push_parents_eq)
  qed
qed simp

section \<open>The graph of the relation table\<close>

definition edge :: "task_id \<times> task_relation \<Rightarrow> task_id \<times> relation_kind \<times> task_id" where
  "edge x = (fst x, rel_kind (snd x), rel_other (snd x))"

definition relation_edges :: "db \<Rightarrow> (task_id \<times> relation_kind \<times> task_id) set" where
  "relation_edges d = edge ` set (db_relations d)"

lemma fst_edge [simp]: "fst (edge x) = fst x"
  by (simp add: edge_def)

lemma edge_eq_iff [simp]: "edge x = (i, k, j) \<longleftrightarrow> x = (i, \<lparr>rel_kind = k, rel_other = j\<rparr>)"
proof -
  have "\<exists>k' j'. snd x = \<lparr>rel_kind = k', rel_other = j'\<rparr>" by (metis task_relation.cases)
  then show ?thesis by (cases x) (auto simp: edge_def)
qed

lemma relation_edges_iff:
  "(a, k, b) \<in> relation_edges d \<longleftrightarrow> (a, \<lparr>rel_kind = k, rel_other = b\<rparr>) \<in> set (db_relations d)"
  unfolding relation_edges_def image_iff eq_commute [of "(a, k, b)"] edge_eq_iff by blast

definition upstream :: "relation_kind \<Rightarrow> (task_id \<times> relation_kind \<times> task_id) set \<Rightarrow> (task_id \<times> task_id) set" where
  "upstream k E = {(a, b). (a, k, b) \<in> E \<or> (b, inverse_kind k, a) \<in> E}"

definition reciprocal :: "(task_id \<times> relation_kind \<times> task_id) set \<Rightarrow> bool" where
  "reciprocal E \<longleftrightarrow> (\<forall>(a, k, b) \<in> E. a \<noteq> b \<and> (b, inverse_kind k, a) \<in> E)"

definition graph_wf :: "(task_id \<times> relation_kind \<times> task_id) set \<Rightarrow> bool" where
  "graph_wf E \<longleftrightarrow> reciprocal E \<and> acyclic (upstream BlockedBy E) \<and> acyclic (upstream ChildOf E)"

lemma upstream_mono: "E \<subseteq> F \<Longrightarrow> upstream k E \<subseteq> upstream k F"
  by (auto simp: upstream_def)

lemma graph_wf_subset: "graph_wf E \<Longrightarrow> F \<subseteq> E \<Longrightarrow> reciprocal F \<Longrightarrow> graph_wf F"
  by (metis acyclic_subset graph_wf_def upstream_mono)

definition edge_pair :: "task_id \<Rightarrow> relation_kind \<Rightarrow> task_id \<Rightarrow> (task_id \<times> relation_kind \<times> task_id) set" where
  "edge_pair a k b = {(a, k, b), (b, inverse_kind k, a)}"

lemma reciprocal_union: "reciprocal E \<Longrightarrow> a \<noteq> b \<Longrightarrow> reciprocal (E \<union> edge_pair a k b)"
  by (auto simp: reciprocal_def edge_pair_def)

lemma reciprocal_minus: "reciprocal E \<Longrightarrow> reciprocal (E - edge_pair a k b)"
  unfolding reciprocal_def edge_pair_def by (fastforce dest: arg_cong [of _ _ inverse_kind])

lemma reciprocal_isolate:
  "reciprocal E \<Longrightarrow> reciprocal {(x, k, y) \<in> E. x \<noteq> a \<and> y \<noteq> a}"
  unfolding reciprocal_def by fastforce

lemma upstream_union: "upstream j (E \<union> F) = upstream j E \<union> upstream j F"
  by (auto simp: upstream_def)

lemma upstream_edge_pair:
  "upstream j (edge_pair a k b) =
     (if k = j then {(a, b)} else {}) \<union> (if k = inverse_kind j then {(b, a)} else {})"
  by (auto simp: upstream_def edge_pair_def)

lemma graph_wf_add:
  assumes "graph_wf E" "a \<noteq> b"
    and guard: "\<And>f i x y. cycle_axis k a b = Some (f, i, x, y) \<Longrightarrow> (y, x) \<notin> (upstream f E)\<^sup>+"
  shows "graph_wf (E \<union> edge_pair a k b)"
proof -
  have ins: "acyclic (insert (x, y) (upstream f E))" if "cycle_axis k a b = Some (f, i, x, y)" for f i x y
  proof -
    have "x \<noteq> y" using that assms(2) by (cases k) auto
    moreover have "acyclic (upstream f E)" using assms(1) that by (cases k) (auto simp: graph_wf_def)
    ultimately show ?thesis using guard [OF that] by (auto simp: acyclic_insert rtrancl_eq_or_trancl)
  qed
  have "acyclic (upstream BlockedBy (E \<union> edge_pair a k b))" "acyclic (upstream ChildOf (E \<union> edge_pair a k b))"
    using assms(1) ins by (cases k; force simp: graph_wf_def upstream_union upstream_edge_pair)+
  with assms(1,2) show ?thesis by (simp add: graph_wf_def reciprocal_union)
qed

text \<open>The guard reads the whole table: every listed task, open or closed, in both directions.\<close>

lemma set_list_all: "load_listed d ` set (db_tasks d) = set (list_tasks c default_filter d)"
  by (simp add: list_tasks_def default_filter_def limit_rows_def offset_rows_def)
    (simp add: matches_filter_def if_given_def default_filter_def)

lemma set_load_relations: "set (load_relations d i) = {r. (i, r) \<in> set (db_relations d)}"
  by (force simp: load_relations_def)

lemma t_relations_listed [simp]: "t_relations (load_listed d r) = load_relations d (t_id r)"
  by (simp add: load_listed_def)

lemma relation_exists_iff:
  "(\<exists>r \<in> set rs. rel_kind r = k \<and> rel_other r = b) \<longleftrightarrow> \<lparr>rel_kind = k, rel_other = b\<rparr> \<in> set rs"
proof -
  have "rel_kind r = k \<and> rel_other r = b \<longleftrightarrow> r = \<lparr>rel_kind = k, rel_other = b\<rparr>" for r :: task_relation
    by (cases r) auto
  then show ?thesis by simp
qed

lemma set_up_entries:
  assumes "f \<noteq> bwd"
  shows "set (up_entries f bwd all) =
    {(a, b). \<exists>t \<in> set all. \<exists>r \<in> set (t_relations t).
       rel_kind r = f \<and> a = t_id t \<and> b = rel_other r \<or> rel_kind r = bwd \<and> a = rel_other r \<and> b = t_id t}"
  using assms by (auto simp: up_entries_def split: if_splits)

lemma up_entries_upstream:
  assumes "db_wf d" "f \<noteq> inverse_kind f"
  shows "set (up_entries f (inverse_kind f) (list_tasks c default_filter d)) = upstream f (relation_edges d)"
proof -
  have ids: "a \<in> t_id ` set (db_tasks d)" if "(a, k, b) \<in> relation_edges d" for a k b
  proof -
    have "a \<in> fst ` set (db_relations d)" using that by (force simp: relation_edges_iff)
    with assms(1) show ?thesis by (auto simp: db_wf_def db_refs_def)
  qed
  have member: "(\<exists>t \<in> set (list_tasks c default_filter d). \<exists>r \<in> set (t_relations t).
      rel_kind r = k \<and> a = t_id t \<and> b = rel_other r) \<longleftrightarrow> (a, k, b) \<in> relation_edges d" for a k b
  proof
    assume "(a, k, b) \<in> relation_edges d"
    with ids [OF this] obtain row where "row \<in> set (db_tasks d)" "t_id row = a"
      "(a, \<lparr>rel_kind = k, rel_other = b\<rparr>) \<in> set (db_relations d)" by (auto simp: relation_edges_iff)
    then show "\<exists>t \<in> set (list_tasks c default_filter d). \<exists>r \<in> set (t_relations t).
      rel_kind r = k \<and> a = t_id t \<and> b = rel_other r"
      unfolding set_list_all [symmetric]
      by (intro bexI [of _ "load_listed d row"] bexI [of _ "\<lparr>rel_kind = k, rel_other = b\<rparr>"])
        (simp_all add: set_load_relations)
  next
    assume "\<exists>t \<in> set (list_tasks c default_filter d). \<exists>r \<in> set (t_relations t).
      rel_kind r = k \<and> a = t_id t \<and> b = rel_other r"
    then obtain t r where "t \<in> load_listed d ` set (db_tasks d)" "r \<in> set (t_relations t)"
      "rel_kind r = k" "a = t_id t" "b = rel_other r" unfolding set_list_all [symmetric] by blast
    then have "\<exists>r \<in> set (load_relations d a). rel_kind r = k \<and> rel_other r = b" by auto
    then show "(a, k, b) \<in> relation_edges d"
      unfolding relation_exists_iff by (simp add: set_load_relations relation_edges_iff)
  qed
  show ?thesis
    unfolding set_up_entries [OF assms(2)] upstream_def member [symmetric] by blast
qed

lemma would_create_cycle_iff:
  assumes "db_wf d" "cycle_axis k a b = Some (f, i, x, y)"
  shows "would_create_cycle c f i x y d \<longleftrightarrow> (y, x) \<in> (upstream f (relation_edges d))\<^sup>+"
proof -
  have "i = inverse_kind f" "f \<noteq> inverse_kind f" using assms(2) by (cases k; auto)+
  then show ?thesis
    using cycle_walk_iff [of "[]" "up_entries f i (list_tasks c default_filter d)" x "[y]"]
      up_entries_upstream [OF assms(1), of f c] by (simp add: would_create_cycle_def del: cycle_walk.simps)
qed

text \<open>C14 The cycle guard is exact: on a store whose relation graph is in order it refuses a new
  edge precisely when storing that edge with its reciprocal would put a cycle among the blocking
  or hierarchy edges, whichever way round the edge is stated; the walk always ends.\<close>

theorem cycle_guard_exact:
  assumes "db_wf d" "graph_wf (relation_edges d)" "a \<noteq> b" "cycle_axis k a b = Some (f, i, x, y)"
  shows "would_create_cycle c f i x y d \<longleftrightarrow> \<not> graph_wf (relation_edges d \<union> edge_pair a k b)"
proof -
  let ?E = "relation_edges d"
  have "\<not> graph_wf (?E \<union> edge_pair a k b)" if "(y, x) \<in> (upstream f ?E)\<^sup>+"
  proof -
    let ?U = "upstream f (?E \<union> edge_pair a k b)"
    have "(y, x) \<in> ?U\<^sup>+" using that by (rule trancl_mono) (auto intro!: upstream_mono)
    moreover have "(x, y) \<in> ?U" using assms(4) by (cases k) (auto simp: upstream_def edge_pair_def)
    ultimately have "\<not> acyclic ?U" unfolding acyclic_def by (meson trancl_into_trancl)
    moreover have "f \<in> {BlockedBy, ChildOf}" using assms(4) by (cases k) auto
    ultimately show ?thesis by (auto simp: graph_wf_def)
  qed
  moreover have "graph_wf (?E \<union> edge_pair a k b)" if "(y, x) \<notin> (upstream f ?E)\<^sup>+"
    by (rule graph_wf_add [OF assms(2,3)]) (use that assms(4) in auto)
  ultimately show ?thesis using would_create_cycle_iff [OF assms(1,4)] by blast
qed

text \<open>A store of two tasks, the first blocked by the second.\<close>

definition pair_db :: db where
  "pair_db = \<lparr>db_tasks = [sample_mirror\<lparr>t_id := 1, t_hash := lit ''abc''\<rparr>, sample_mirror\<lparr>t_id := 2, t_hash := lit ''bcd''\<rparr>],
     db_relations = [(1, \<lparr>rel_kind = BlockedBy, rel_other = 2\<rparr>), (2, \<lparr>rel_kind = Blocks, rel_other = 1\<rparr>)],
     db_snapshots = [], db_mappings = [], db_comments = [], db_outbox = []\<rparr>"

lemma pair_db_wf: "db_wf pair_db"
  by (auto simp: db_wf_def pair_db_def hashes_unique_def mappings_unique_def db_refs_def dense_versions_def
      versions_of_def lit_def)

lemma pair_db_graph: "relation_edges pair_db = edge_pair 1 BlockedBy 2" "graph_wf (relation_edges pair_db)"
proof -
  show e: "relation_edges pair_db = edge_pair 1 BlockedBy 2"
    by (auto simp: relation_edges_def pair_db_def edge_def edge_pair_def)
  have "graph_wf {}" by (simp add: graph_wf_def reciprocal_def upstream_def acyclic_def)
  then have "graph_wf ({} \<union> edge_pair 1 BlockedBy 2)" by (rule graph_wf_add) (auto simp: upstream_def)
  with e show "graph_wf (relation_edges pair_db)" by simp
qed

theorem cycle_guard_exact_witness:
  "would_create_cycle \<lparr>cat_workspaces = [], cat_projects = [], cat_issue_types = [], cat_instances = [],
       cat_origins = []\<rparr> BlockedBy Blocks 2 1 pair_db \<and>
   \<not> graph_wf (relation_edges pair_db \<union> edge_pair 2 BlockedBy 1)"
proof -
  have "(1, 2) \<in> upstream BlockedBy (relation_edges pair_db)"
    unfolding pair_db_graph(1) by (simp add: upstream_def edge_pair_def)
  then have "(1, 2) \<in> (upstream BlockedBy (relation_edges pair_db))\<^sup>+" by (rule r_into_trancl)
  with would_create_cycle_iff [OF pair_db_wf, of BlockedBy 2 1 BlockedBy Blocks 2 1]
    cycle_guard_exact [OF pair_db_wf pair_db_graph(2), of 2 1 BlockedBy BlockedBy Blocks 2 1]
  show ?thesis by simp
qed

section \<open>Writing relations\<close>

definition task_edges :: "task \<Rightarrow> (task_id \<times> relation_kind \<times> task_id) set" where
  "task_edges t = edge ` Pair (t_id t) ` set (t_relations t)"

definition edges_of :: "task_id \<Rightarrow> (task_id \<times> relation_kind \<times> task_id) set \<Rightarrow> (task_id \<times> relation_kind \<times> task_id) set" where
  "edges_of i E = {e \<in> E. fst e = i}"

lemma task_edges_loaded:
  assumes "t_relations t = load_relations d (t_id t)"
  shows "task_edges t = edges_of (t_id t) (relation_edges d)"
proof -
  have "Pair (t_id t) ` set (t_relations t) = {x \<in> set (db_relations d). fst x = t_id t}"
    by (force simp: assms set_load_relations)
  then show ?thesis by (auto simp: task_edges_def edges_of_def relation_edges_def)
qed

lemma task_edges_iff:
  "(a, k, b) \<in> task_edges t \<longleftrightarrow> a = t_id t \<and> \<lparr>rel_kind = k, rel_other = b\<rparr> \<in> set (t_relations t)"
  unfolding task_edges_def image_iff eq_commute [of "(a, k, b)"] edge_eq_iff by auto

lemma task_edges_add: "task_edges (add_relation now k b t) = insert (t_id t, k, b) (task_edges t)"
  by (auto simp: task_edges_iff add_relation_def has_relation_def touch_def list_ex_iff relation_exists_iff)

lemma task_edges_remove: "task_edges (snd (remove_relation now k b t)) = task_edges t - {(t_id t, k, b)}"
  by (auto simp: task_edges_iff remove_relation_def touch_def Let_def)

lemma task_edges_clear: "task_edges (snd (clear_relations now t)) = {}"
  by (simp add: task_edges_def clear_relations_def touch_def)

lemma relation_edges_write:
  assumes "write_task_in_tx cap t src d = Inr d'"
  shows "relation_edges d' = (relation_edges d - edges_of (t_id t) (relation_edges d)) \<union> task_edges t"
proof -
  have "db_relations d' = filter (\<lambda>x. fst x \<noteq> t_id t) (db_relations d) @ map (Pair (t_id t)) (t_relations t)"
    using assms by (auto elim!: write_task_cases)
  then have rels: "set (db_relations d') = {x \<in> set (db_relations d). fst x \<noteq> t_id t} \<union>
      Pair (t_id t) ` set (t_relations t)" by simp
  show ?thesis
    unfolding relation_edges_def rels image_Un task_edges_def edges_of_def
    by (rule arg_cong2 [where f = "(\<union>)"]) auto
qed

lemma relation_edges_insert_entries [simp]: "relation_edges (insert_entries es d) = relation_edges d"
  by (simp add: relation_edges_def insert_entries_def)

text \<open>Writing a loaded task back keeps the graph.\<close>

lemma relation_edges_write_same:
  assumes "write_task_in_tx cap t src d = Inr d'" "task_edges t = edges_of (t_id t) (relation_edges d)"
  shows "relation_edges d' = relation_edges d"
  using relation_edges_write [OF assms(1)] assms(2) by (auto simp: edges_of_def)

end
