(* ===== verification/TaskHash.thy ===== *)
theory TaskHash
  imports Prelude "HOL-Library.Sublist"
begin

unbundle bit_operations_syntax

text \<open>
  \<open>domain-task/src/hash.rs\<close>: the friendly task id.  The minter reads fresh UUIDs bit by bit
  through a 64-bit accumulator; the \<open>uuid\<close> crate's generator is the parameter \<open>draw\<close>, the
  128-bit value of each successive draw.  The reference is the plain base32 reading of the
  concatenated bits.
\<close>

section \<open>The code\<close>

definition MIN_HASH_LEN :: nat where "MIN_HASH_LEN = 3"

definition MAX_HASH_LEN :: nat where "MAX_HASH_LEN = 16"

definition is_valid_hash :: "rstring \<Rightarrow> bool" where
  "is_valid_hash s \<longleftrightarrow>
     MIN_HASH_LEN \<le> length s \<and> length s \<le> MAX_HASH_LEN \<and>
     list_all (\<lambda>c. (97 \<le> c \<and> c \<le> 122) \<or> (50 \<le> c \<and> c \<le> 55)) s"

definition ALPHABET :: rstring where
  "ALPHABET = lit ''abcdefghijklmnopqrstuvwxyz234567''"

text \<open>\<open>Uuid::as_bytes\<close>: sixteen bytes, most significant first.\<close>

definition as_bytes :: "128 word \<Rightarrow> 8 word list" where
  "as_bytes u = map (\<lambda>i. ucast (drop_bit (8 * i) u)) (rev [0..<16])"

text \<open>The inner \<open>while\<close>.\<close>

fun emit_chars :: "nat \<Rightarrow> 64 word \<Rightarrow> nat \<Rightarrow> rstring \<Rightarrow> nat \<times> rstring" where
  "emit_chars len acc bits out =
     (if 5 \<le> bits \<and> length out < len
      then emit_chars len acc (bits - 5)
        (out @ [ALPHABET ! unat (drop_bit (bits - 5) acc AND 31)])
      else (bits, out))"

declare emit_chars.simps [simp del]

text \<open>The \<open>for\<close> over the bytes of one UUID, with its \<open>break\<close>.\<close>

fun feed_bytes ::
  "nat \<Rightarrow> 8 word list \<Rightarrow> 64 word \<Rightarrow> nat \<Rightarrow> rstring \<Rightarrow> 64 word \<times> nat \<times> rstring" where
  "feed_bytes len [] acc bits out = (acc, bits, out)"
| "feed_bytes len (b # bs) acc bits out =
     (let acc' = push_bit 8 acc OR ucast b;
          (bits', out') = emit_chars len acc' (bits + 8) out
      in if len \<le> length out' then (acc', bits', out')
         else feed_bytes len bs acc' bits' out')"

lemma emit_chars_step:
  "5 \<le> bits \<Longrightarrow> length out < len \<Longrightarrow> emit_chars len acc bits out =
     emit_chars len acc (bits - 5) (out @ [ALPHABET ! unat (drop_bit (bits - 5) acc AND 31)])"
  by (subst emit_chars.simps) simp

lemma emit_chars_stop:
  "\<not> (5 \<le> bits \<and> length out < len) \<Longrightarrow> emit_chars len acc bits out = (bits, out)"
  by (subst emit_chars.simps) auto

lemma emit_chars_grows: "length out \<le> length (snd (emit_chars len acc bits out))"
proof (induction len acc bits out rule: emit_chars.induct)
  case (1 len acc bits out)
  show ?case
  proof (cases "5 \<le> bits \<and> length out < len")
    case True
    with "1.IH" [OF True] show ?thesis by (simp add: emit_chars_step)
  qed (simp add: emit_chars_stop)
qed

lemma emit_chars_progress:
  assumes "5 \<le> bits" "length out < len"
  shows "length out < length (snd (emit_chars len acc bits out))"
  unfolding emit_chars_step [OF assms]
  using emit_chars_grows [of "out @ [ALPHABET ! unat (drop_bit (bits - 5) acc AND 31)]"]
  by (metis Suc_le_lessD length_append_singleton)

lemma feed_bytes_grows: "length out \<le> length (snd (snd (feed_bytes len bs acc bits out)))"
proof (induction bs arbitrary: acc bits out)
  case (Cons b bs)
  let ?e = "emit_chars len (push_bit 8 acc OR ucast b) (bits + 8) out"
  have "length out \<le> length (snd ?e)" by (rule emit_chars_grows)
  with Cons [of "snd ?e"] show ?case
    by (auto simp: Let_def split: prod.splits) (metis order_trans snd_conv)
qed simp

lemma feed_bytes_progress:
  assumes "bs \<noteq> []" "length out < len"
  shows "length out < length (snd (snd (feed_bytes len bs acc bits out)))"
proof -
  obtain b bs' where bs: "bs = b # bs'" using assms(1) by (cases bs) auto
  let ?e = "emit_chars len (push_bit 8 acc OR ucast b) (bits + 8) out"
  have "length out < length (snd ?e)" using assms(2) by (intro emit_chars_progress) auto
  then show ?thesis
    using feed_bytes_grows [of "snd ?e" len bs' "push_bit 8 acc OR ucast b" "fst ?e"]
    by (auto simp: bs Let_def split: prod.splits)
qed

lemma as_bytes_not_Nil [simp]: "as_bytes u \<noteq> []"
  by (simp add: as_bytes_def)

lemma feed_bytes_decr:
  assumes "length out < len" "(acc', bits', out') = feed_bytes len (as_bytes u) acc bits out"
  shows "len - length out' < len - length out"
  using feed_bytes_progress [OF as_bytes_not_Nil assms(1), of u acc bits] assms
  by (metis diff_less_mono2 snd_conv)

text \<open>The outer \<open>while\<close>: each round draws one UUID and emits at least one character.\<close>

function draw_loop ::
  "(nat \<Rightarrow> 128 word) \<Rightarrow> nat \<Rightarrow> nat \<Rightarrow> 64 word \<Rightarrow> nat \<Rightarrow> rstring \<Rightarrow> rstring" where
  "draw_loop draw k len acc bits out =
     (if length out < len then
        (case feed_bytes len (as_bytes (draw k)) acc bits out of
           (acc', bits', out') \<Rightarrow> draw_loop draw (Suc k) len acc' bits' out')
      else out)"
  by auto
termination
  by (relation "measure (\<lambda>(draw, k, len, acc, bits, out). len - length out)")
    (auto simp del: feed_bytes.simps split: prod.splits intro: feed_bytes_decr [OF _ sym])

declare draw_loop.simps [simp del]

definition random_lowercase_base32 :: "(nat \<Rightarrow> 128 word) \<Rightarrow> nat \<Rightarrow> rstring" where
  "random_lowercase_base32 draw len = draw_loop draw 0 len 0 0 []"

section \<open>The reference reading of the bits\<close>

fun groups5 :: "bool list \<Rightarrow> nat list" where
  "groups5 (a # b # c # d # e # rest) = horner_sum of_bool 2 [e, d, c, b, a] # groups5 rest"
| "groups5 _ = []"

definition byte_bits :: "8 word \<Rightarrow> bool list" where
  "byte_bits b = map (bit b) (rev [0..<8])"

definition uuid_bits :: "128 word \<Rightarrow> bool list" where
  "uuid_bits u = concat (map byte_bits (as_bytes u))"

definition bits5 :: "nat \<Rightarrow> bool list" where
  "bits5 i = map (bit i) (rev [0..<5])"

text \<open>The bits the accumulator still owes.\<close>

definition owed :: "64 word \<Rightarrow> nat \<Rightarrow> bool list" where
  "owed acc n = map (bit acc) (rev [0..<n])"

lemma groups5_bits5:
  assumes "i < 32"
  shows "groups5 (bits5 i @ rest) = i # groups5 rest"
proof -
  have "horner_sum of_bool 2 (map (bit i) [0..<5]) = take_bit 5 i"
    by (rule horner_sum_bit_eq_take_bit)
  also have "take_bit 5 i = i" using assms by (simp add: take_bit_eq_mod)
  finally show ?thesis
    by (simp add: bits5_def numeral_eq_Suc)
qed

lemma owed_push: "n + 8 \<le> 64 \<Longrightarrow> owed (push_bit 8 acc OR ucast b) (n + 8) = owed acc n @ byte_bits b"
proof (rule nth_equalityI)
  assume n: "n + 8 \<le> 64"
  show "length (owed (push_bit 8 acc OR ucast b) (n + 8)) = length (owed acc n @ byte_bits b)"
    by (simp add: owed_def byte_bits_def)
  fix i assume "i < length (owed (push_bit 8 acc OR ucast b) (n + 8))"
  then have i: "i < n + 8" by (simp add: owed_def)
  then show "owed (push_bit 8 acc OR ucast b) (n + 8) ! i = (owed acc n @ byte_bits b) ! i"
    using n by (auto simp: owed_def byte_bits_def rev_nth nth_append bit_simps dest: bit_imp_le_length)
qed

lemma owed_take5:
  assumes "5 \<le> n"
  shows "owed acc n = bits5 (unat (drop_bit (n - 5) acc AND 31)) @ owed acc (n - 5)"
proof (rule nth_equalityI)
  show "length (owed acc n) = length (bits5 (unat (drop_bit (n - 5) acc AND 31)) @ owed acc (n - 5))"
    using assms by (simp add: owed_def bits5_def)
  have m: "(31 :: 64 word) = mask 5" by (simp add: mask_eq_exp_minus_1)
  fix i assume "i < length (owed acc n)"
  then have i: "i < n" by (simp add: owed_def)
  then show "owed acc n ! i = (bits5 (unat (drop_bit (n - 5) acc AND 31)) @ owed acc (n - 5)) ! i"
    using assms unfolding m
    by (auto simp: owed_def bits5_def rev_nth nth_append bit_simps)
qed

lemma idx_lt_32: "unat (w AND 31 :: 64 word) < 32"
proof -
  have "w AND 31 = take_bit 5 w" by (simp add: mask_eq_exp_minus_1 take_bit_eq_mask)
  then have "unat (w AND 31) = take_bit 5 (unat w)" by (simp only: unsigned_take_bit_eq)
  also have "\<dots> < 32" by (simp add: take_bit_eq_mod)
  finally show ?thesis .
qed

lemma alphabet_chars:
  "i < 32 \<Longrightarrow> (97 \<le> ALPHABET ! i \<and> ALPHABET ! i \<le> 122) \<or> (50 \<le> ALPHABET ! i \<and> ALPHABET ! i \<le> 55)"
proof -
  assume i: "i < 32"
  have "list_all (\<lambda>c. (97 \<le> c \<and> c \<le> 122) \<or> (50 \<le> c \<and> c \<le> 55)) ALPHABET"
    by (simp add: ALPHABET_def)
  moreover have "ALPHABET ! i \<in> set ALPHABET" using i by (intro nth_mem) (simp add: ALPHABET_def)
  ultimately show ?thesis by (simp add: list_all_iff)
qed

text \<open>
  The state of the loops after the bits \<open>S\<close> were read: the emitted characters encode a prefix
  of \<open>S\<close> in groups of five and the accumulator owes the rest.
\<close>

definition encodes :: "nat list \<Rightarrow> bool list \<Rightarrow> 64 word \<Rightarrow> nat \<Rightarrow> rstring \<Rightarrow> bool" where
  "encodes idxs S acc bits out \<longleftrightarrow>
     out = map (\<lambda>i. ALPHABET ! i) idxs \<and> (\<forall>i \<in> set idxs. i < 32) \<and>
     concat (map bits5 idxs) @ owed acc bits = S"

lemma emit_chars_encodes:
  assumes "encodes idxs S acc bits out"
  shows "\<exists>idxs'. encodes idxs' S acc (fst (emit_chars len acc bits out)) (snd (emit_chars len acc bits out)) \<and>
    (length (snd (emit_chars len acc bits out)) < len \<longrightarrow> fst (emit_chars len acc bits out) < 5) \<and>
    fst (emit_chars len acc bits out) \<le> bits \<and>
    (length out \<le> len \<longrightarrow> length (snd (emit_chars len acc bits out)) \<le> len)"
  using assms
proof (induction len acc bits out arbitrary: idxs rule: emit_chars.induct)
  case (1 len acc bits out)
  show ?case
  proof (cases "5 \<le> bits \<and> length out < len")
    case True
    let ?i = "unat (drop_bit (bits - 5) acc AND 31)"
    have "encodes (idxs @ [?i]) S acc (bits - 5) (out @ [ALPHABET ! ?i])"
      using "1.prems" True owed_take5 [of bits acc] idx_lt_32 by (auto simp: encodes_def)
    from "1.IH" [OF True this] show ?thesis
      using True by (auto simp: emit_chars_step)
  next
    case False
    then show ?thesis using "1.prems" by (auto simp: emit_chars_stop intro!: exI [of _ idxs])
  qed
qed

lemma feed_bytes_encodes:
  assumes "encodes idxs S acc bits out" "bits < 5" "length out < len"
    "feed_bytes len bs acc bits out = (acc', bits', out')"
  shows "\<exists>idxs' used. encodes idxs' (S @ concat (map byte_bits used)) acc' bits' out' \<and>
    prefix used bs \<and> (length out' < len \<longrightarrow> bits' < 5 \<and> used = bs) \<and> length out' \<le> len"
  using assms
proof (induction bs arbitrary: idxs S acc bits out)
  case Nil
  then show ?case by (auto intro!: exI [of _ idxs])
next
  case (Cons b bs)
  let ?acc = "push_bit 8 acc OR ucast b"
  obtain bits1 out1 where e: "emit_chars len ?acc (bits + 8) out = (bits1, out1)" by fastforce
  have "encodes idxs (S @ byte_bits b) ?acc (bits + 8) out"
    using Cons.prems(1,2) owed_push [of bits acc b] by (auto simp: encodes_def)
  from emit_chars_encodes [OF this, of len] obtain idxs1 where
    enc: "encodes idxs1 (S @ byte_bits b) ?acc bits1 out1"
    and small: "length out1 < len \<longrightarrow> bits1 < 5" and le: "length out1 \<le> len"
    using e Cons.prems(3) by auto
  show ?case
  proof (cases "len \<le> length out1")
    case True
    with Cons.prems(4) e have "acc' = ?acc" "bits' = bits1" "out' = out1" by simp_all
    with True enc le show ?thesis by (intro exI [of _ idxs1] exI [of _ "[b]"]) auto
  next
    case False
    with Cons.prems(4) e have "feed_bytes len bs ?acc bits1 out1 = (acc', bits', out')" by simp
    from Cons.IH [OF enc _ _ this] small False obtain idxs' used where
      "encodes idxs' ((S @ byte_bits b) @ concat (map byte_bits used)) acc' bits' out'"
      "prefix used bs" "length out' < len \<longrightarrow> bits' < 5 \<and> used = bs" "length out' \<le> len"
      by auto
    then show ?thesis by (intro exI [of _ idxs'] exI [of _ "b # used"]) auto
  qed
qed

definition bit_stream :: "(nat \<Rightarrow> 128 word) \<Rightarrow> nat \<Rightarrow> bool list" where
  "bit_stream draw k = concat (map (\<lambda>i. uuid_bits (draw i)) [0..<k])"

lemma bit_stream_Suc: "bit_stream draw (Suc k) = bit_stream draw k @ uuid_bits (draw k)"
  by (simp add: bit_stream_def)

lemma length_uuid_bits [simp]: "length (uuid_bits u) = 128"
  by (simp add: uuid_bits_def byte_bits_def as_bytes_def length_concat o_def sum_list_triv)

lemma length_bit_stream [simp]: "length (bit_stream draw k) = 128 * k"
  by (induction k) (auto simp: bit_stream_Suc, simp add: bit_stream_def)

lemma bit_stream_mono: "k \<le> m \<Longrightarrow> prefix (bit_stream draw k) (bit_stream draw m)"
  by (induction m rule: dec_induct) (auto simp: bit_stream_Suc intro: prefix_order.trans)

lemma bit_stream_prefix_of_length:
  assumes "prefix xs (bit_stream draw k)" "length xs \<le> 128 * m"
  shows "prefix xs (bit_stream draw m)"
proof (cases "k \<le> m")
  case True
  with assms(1) show ?thesis by (meson bit_stream_mono prefix_order.trans)
next
  case False
  then have "prefix (bit_stream draw m) (bit_stream draw k)" by (intro bit_stream_mono) simp
  with assms show ?thesis by (metis length_bit_stream prefix_length_prefix)
qed

lemma draw_loop_encodes:
  assumes "encodes idxs S acc bits out" "prefix S (bit_stream draw k)" "length out \<le> len"
    "length out < len \<longrightarrow> bits < 5 \<and> S = bit_stream draw k"
  shows "\<exists>idxs' m. draw_loop draw k len acc bits out = map (\<lambda>i. ALPHABET ! i) idxs' \<and>
    length idxs' = len \<and> (\<forall>i \<in> set idxs'. i < 32) \<and>
    prefix (concat (map bits5 idxs')) (bit_stream draw m)"
  using assms
proof (induction draw k len acc bits out arbitrary: idxs S rule: draw_loop.induct)
  case (1 draw k len acc bits out)
  show ?case
  proof (cases "length out < len")
    case False
    with "1.prems" show ?thesis
      by (subst draw_loop.simps)
        (auto simp: encodes_def prefix_def intro!: exI [of _ idxs] exI [of _ k])
  next
    case True
    obtain acc' bits' out' where f: "feed_bytes len (as_bytes (draw k)) acc bits out = (acc', bits', out')"
      by (metis prod_cases3)
    from feed_bytes_encodes [OF "1.prems"(1) _ True f] True "1.prems"(4) obtain idxs' used where
      enc: "encodes idxs' (bit_stream draw k @ concat (map byte_bits used)) acc' bits' out'"
      and used: "prefix used (as_bytes (draw k))"
      and more: "length out' < len \<longrightarrow> bits' < 5 \<and> used = as_bytes (draw k)"
      and le: "length out' \<le> len"
      by auto
    have "prefix (bit_stream draw k @ concat (map byte_bits used)) (bit_stream draw (Suc k))"
      using used by (auto simp: bit_stream_Suc uuid_bits_def prefix_def)
    moreover have "length out' < len \<longrightarrow> bits' < 5 \<and>
      bit_stream draw k @ concat (map byte_bits used) = bit_stream draw (Suc k)"
      using more by (auto simp: bit_stream_Suc uuid_bits_def)
    ultimately show ?thesis
      using "1.IH" [OF True f [symmetric] refl enc _ le] True f
      by (subst draw_loop.simps) simp
  qed
qed

lemma groups5_concat_bits5:
  "\<forall>i \<in> set idxs. i < 32 \<Longrightarrow> groups5 (concat (map bits5 idxs) @ rest) = idxs @ groups5 rest"
  by (induction idxs) (auto simp: groups5_bits5)

text \<open>C36 The minter computes the base32 reading of its randomness: for every sequence of UUID
  draws and every requested length, the result has exactly that length and is the 5-bit groups
  of the concatenated UUID bits in order, whatever the 64-bit accumulator has shifted out
  meanwhile.  In particular every length between the two bounds gives a hash the validator
  accepts.\<close>

theorem random_base32_reference:
  assumes "5 * len \<le> 128 * m"
  shows "random_lowercase_base32 draw len =
      map (\<lambda>i. ALPHABET ! i) (take len (groups5 (bit_stream draw m))) \<and>
    length (random_lowercase_base32 draw len) = len \<and>
    (MIN_HASH_LEN \<le> len \<and> len \<le> MAX_HASH_LEN \<longrightarrow>
      is_valid_hash (random_lowercase_base32 draw len))"
proof -
  have "encodes [] [] 0 0 []" by (simp add: encodes_def owed_def)
  from draw_loop_encodes [OF this, of draw 0 len] obtain idxs k where
    r: "random_lowercase_base32 draw len = map (\<lambda>i. ALPHABET ! i) idxs" and l: "length idxs = len"
    and lt: "\<forall>i \<in> set idxs. i < 32" and pre: "prefix (concat (map bits5 idxs)) (bit_stream draw k)"
    by (auto simp: random_lowercase_base32_def bit_stream_def)
  have "length (concat (map bits5 idxs)) = 5 * len"
    using l by (simp add: length_concat o_def bits5_def sum_list_triv)
  with assms have "length (concat (map bits5 idxs)) \<le> 128 * m" by simp
  from bit_stream_prefix_of_length [OF pre this]
  have "prefix (concat (map bits5 idxs)) (bit_stream draw m)" .
  then obtain rest where "bit_stream draw m = concat (map bits5 idxs) @ rest" by (auto simp: prefix_def)
  then have "take len (groups5 (bit_stream draw m)) = idxs"
    using groups5_concat_bits5 [OF lt] l by simp
  moreover have "list_all (\<lambda>c. (97 \<le> c \<and> c \<le> 122) \<or> (50 \<le> c \<and> c \<le> 55)) (map (\<lambda>i. ALPHABET ! i) idxs)"
    using lt alphabet_chars by (auto simp: list_all_iff)
  ultimately show ?thesis unfolding r using l by (simp add: is_valid_hash_def)
qed

theorem random_base32_reference_witness:
  "is_valid_hash (random_lowercase_base32 (\<lambda>_. 0x123456789abcdef) 3)"
proof -
  have "5 * 3 \<le> 128 * (1 :: nat)" "MIN_HASH_LEN \<le> 3 \<and> 3 \<le> MAX_HASH_LEN"
    by (simp_all add: MIN_HASH_LEN_def MAX_HASH_LEN_def)
  with random_base32_reference [of 3 1 "\<lambda>_. 0x123456789abcdef"] show ?thesis by blast
qed

end
