(* ===== verification/TaskDto.thy ===== *)
theory TaskDto
  imports RelationGraph TaskHash
begin

text \<open>
  The boundary of \<open>application-task\<close>: its error type (\<open>error.rs\<close>), the command and query records
  of \<open>dto-shared/src/task.rs\<close>, the rendering of a task (\<open>dto.rs\<close>), and the parsing of the string
  forms of a query.  The text of a \<open>BadId\<close> error is represented by its format arguments.
\<close>

section \<open>Errors\<close>

datatype bad_id =
    IdParse rstring rstring
  | NotATaskRef rstring
  | MalformedPrefix rstring rstring
  | UnknownWorkspace rstring

datatype service_error =
    SvPort port_error
  | SvDomain domain_error
  | SvBadId bad_id
  | SvBadEnum rstring rstring
  | SelfRelation
  | RelationCycle rstring rstring rstring
  | PrefixMismatch rstring rstring rstring

section \<open>Commands and queries\<close>

record create_task_cmd =
  cc_workspace_id :: rstring
  cc_repo_id :: "rstring option"
  cc_title :: rstring
  cc_body :: "rstring option"
  cc_priority :: "rstring option"
  cc_filing_repo_override :: "rstring option"

record update_task_cmd =
  uc_task_id :: rstring
  uc_title :: "rstring option"
  uc_body :: "rstring option"
  uc_priority :: "rstring option"
  uc_assignees :: "rstring list option"
  uc_repo_id :: "rstring option"
  uc_filing_repo_override :: "rstring option"
  uc_issue_type :: "rstring option option"

record import_mirror_cmd =
  ic_workspace_id :: rstring
  ic_repo_id :: "rstring option"
  ic_provider :: rstring
  ic_remote_id :: rstring
  ic_title :: rstring
  ic_body :: rstring
  ic_assignees :: "rstring list"
  ic_closed :: bool

record relation_cmd =
  rc_task_id :: rstring
  rc_kind :: rstring
  rc_other :: rstring

record list_tasks_query =
  lq_workspace_id :: "rstring option"
  lq_repo_id :: "rstring option"
  lq_status :: "rstring option"
  lq_sync_state :: "rstring option"
  lq_priorities :: "rstring list"
  lq_assignee :: "rstring option"
  lq_issue_type :: "rstring option"
  lq_created_after :: "timestamp option"
  lq_created_before :: "timestamp option"
  lq_updated_after :: "timestamp option"
  lq_updated_before :: "timestamp option"
  lq_sort :: "rstring option"
  lq_order :: "rstring option"
  lq_limit :: "64 word option"
  lq_offset :: "64 word option"

section \<open>Rendering\<close>

record task_dto =
  dto_id :: rstring
  dto_workspace_id :: rstring
  dto_repo_id :: "rstring option"
  dto_title :: rstring
  dto_body :: rstring
  dto_is_open :: bool
  dto_state_reason :: "rstring option"
  dto_sync_state :: rstring
  dto_priority :: rstring
  dto_issue_type :: "rstring option"
  dto_assignees :: "rstring list"
  dto_remote :: "(rstring \<times> rstring) option"
  dto_relations :: "(rstring \<times> rstring) list"
  dto_comments :: "(rstring option \<times> rstring \<times> rstring \<times> timestamp) list"
  dto_project_status :: "rstring option"
  dto_priority_from_board :: bool
  dto_blocked_by :: "rstring list"
  dto_last_refreshed_at :: "timestamp option"
  dto_created_at :: timestamp
  dto_updated_at :: timestamp

definition assemble_task_display_id :: "task \<Rightarrow> rstring option \<Rightarrow> rstring" where
  "assemble_task_display_id t pre =
     (if t_hash t \<noteq> [] then
        (case pre of
           Some p \<Rightarrow> if p \<noteq> [] then p @ lit ''-'' @ t_hash t else t_hash t
         | None \<Rightarrow> t_hash t)
      else show_uuid (t_id t))"

definition task_to_dto :: "task \<Rightarrow> rstring option \<Rightarrow> task_dto" where
  "task_to_dto t pre =
     \<lparr>dto_id = assemble_task_display_id t pre,
      dto_workspace_id = show_uuid (t_workspace_id t),
      dto_repo_id = map_option show_uuid (t_repo_id t),
      dto_title = t_title t, dto_body = t_body t, dto_is_open = is_open (t_lifecycle t),
      dto_state_reason = state_reason (t_lifecycle t),
      dto_sync_state = sync_state_str (t_sync t), dto_priority = priority_str (t_priority t),
      dto_issue_type = map_option issue_type_display (t_issue_type t),
      dto_assignees = t_assignees t,
      dto_remote = map_option (\<lambda>r. (rr_provider r, rr_remote_id r)) (t_remote t),
      dto_relations = map (\<lambda>r. (relation_kind_str (rel_kind r), show_uuid (rel_other r))) (t_relations t),
      dto_comments = map (\<lambda>c. (c_remote_id c, c_author c, c_body c, c_created_at c)) (t_comments t),
      dto_project_status = None, dto_priority_from_board = False,
      dto_blocked_by = map show_uuid (blocked_by t),
      dto_last_refreshed_at = (if is_mirror t then t_synced_at t else None),
      dto_created_at = t_created_at t, dto_updated_at = t_updated_at t\<rparr>"

section \<open>Parsing\<close>

text \<open>\<open>parse_enum\<close>: serde accepts exactly the stored form of a variant.\<close>

definition parse_enum :: "'a list \<Rightarrow> ('a \<Rightarrow> rstring) \<Rightarrow> string \<Rightarrow> rstring \<Rightarrow> service_error + 'a" where
  "parse_enum variants str field value =
     (case List.find (\<lambda>v. str v = value) variants of
        Some v \<Rightarrow> Inr v | None \<Rightarrow> Inl (SvBadEnum (lit field) value))"

definition parse_priority :: "rstring \<Rightarrow> service_error + priority" where
  "parse_priority = parse_enum [P0, P1, P2, P3] priority_str ''priority''"

definition parse_sync_state :: "rstring \<Rightarrow> service_error + sync_state" where
  "parse_sync_state =
     parse_enum [LocalOnly, Staged, Synced, DirtyLocal, DirtyRemote, Conflict] sync_state_str ''sync_state''"

definition parse_relation_kind :: "rstring \<Rightarrow> service_error + relation_kind" where
  "parse_relation_kind =
     parse_enum [BlockedBy, Blocks, Duplicates, ParentOf, ChildOf, RelatedTo] relation_kind_str ''kind''"

definition parse_sort_key :: "rstring \<Rightarrow> task_sort_key option" where
  "parse_sort_key s =
     (let v = map to_ascii_lowercase (trim s)
      in if v \<in> {lit ''created'', lit ''created_at''} then Some SkCreatedAt
         else if v \<in> {lit ''updated'', lit ''updated_at''} then Some SkUpdatedAt
         else if v = lit ''priority'' then Some SkPriority
         else if v = lit ''title'' then Some SkTitle
         else if v \<in> {lit ''status'', lit ''lifecycle''} then Some SkLifecycle
         else if v \<in> {lit ''sync_state'', lit ''sync''} then Some SkSyncState
         else if v \<in> {lit ''synced_at'', lit ''refreshed'', lit ''last_refreshed_at''} then Some SkSyncedAt
         else None)"

definition parse_sort_direction :: "rstring \<Rightarrow> sort_direction option" where
  "parse_sort_direction s =
     (let v = map to_ascii_lowercase (trim s)
      in if v \<in> {lit ''asc'', lit ''ascending''} then Some Asc
         else if v \<in> {lit ''desc'', lit ''descending''} then Some Desc
         else None)"

definition parse_sort :: "rstring option \<Rightarrow> rstring option \<Rightarrow> service_error + task_sort option" where
  "parse_sort srt ord =
     (case srt of
        None \<Rightarrow> Inr None
      | Some s \<Rightarrow>
          (case parse_sort_key s of
             None \<Rightarrow> Inl (SvBadEnum (lit ''sort'') s)
           | Some key \<Rightarrow>
               (case ord of
                  None \<Rightarrow> Inr (Some \<lparr>sort_by_key = key, sort_dir = Asc\<rparr>)
                | Some o' \<Rightarrow>
                    (case parse_sort_direction o' of
                       None \<Rightarrow> Inl (SvBadEnum (lit ''order'') o')
                     | Some dir \<Rightarrow> Inr (Some \<lparr>sort_by_key = key, sort_dir = dir\<rparr>)))))"

definition parse_status :: "rstring option \<Rightarrow> service_error + bool option" where
  "parse_status status =
     (case status of
        None \<Rightarrow> Inr (Some True)
      | Some s \<Rightarrow>
          if s = lit ''open'' then Inr (Some True)
          else if s = lit ''closed'' then Inr (Some False)
          else if s = lit ''all'' then Inr None
          else Inl (SvBadEnum (lit ''status'') s))"

fun parse_all :: "('a \<Rightarrow> 'e + 'b) \<Rightarrow> 'a list \<Rightarrow> 'e + 'b list" where
  "parse_all f [] = Inr []"
| "parse_all f (x # xs) =
     (case f x of Inl e \<Rightarrow> Inl e
      | Inr y \<Rightarrow> (case parse_all f xs of Inl e \<Rightarrow> Inl e | Inr ys \<Rightarrow> Inr (y # ys)))"

definition parse_opt :: "('a \<Rightarrow> service_error + 'b) \<Rightarrow> 'a option \<Rightarrow> service_error + 'b option" where
  "parse_opt f x =
     (case x of None \<Rightarrow> Inr None
      | Some v \<Rightarrow> (case f v of Inl e \<Rightarrow> Inl e | Inr y \<Rightarrow> Inr (Some y)))"

text \<open>\<open>str::parse\<close> of an id; \<open>p\<close> is \<open>Uuid::parse_str\<close>.\<close>

definition parse_id :: "(rstring \<Rightarrow> uuid option) \<Rightarrow> string \<Rightarrow> rstring \<Rightarrow> service_error + uuid" where
  "parse_id p what s =
     (case p s of Some u \<Rightarrow> Inr u | None \<Rightarrow> Inl (SvBadId (IdParse (lit what) s)))"

definition task_filter_from_query ::
  "(rstring \<Rightarrow> uuid option) \<Rightarrow> list_tasks_query \<Rightarrow> service_error + task_filter" where
  "task_filter_from_query p q =
     (case parse_opt (parse_id p ''repo'') (lq_repo_id q) of
        Inl e \<Rightarrow> Inl e
      | Inr repo \<Rightarrow>
     (case parse_status (lq_status q) of
        Inl e \<Rightarrow> Inl e
      | Inr open \<Rightarrow>
     (case parse_opt parse_sync_state (lq_sync_state q) of
        Inl e \<Rightarrow> Inl e
      | Inr sync \<Rightarrow>
     (case parse_all parse_priority (lq_priorities q) of
        Inl e \<Rightarrow> Inl e
      | Inr prios \<Rightarrow>
     (case parse_sort (lq_sort q) (lq_order q) of
        Inl e \<Rightarrow> Inl e
      | Inr srt \<Rightarrow>
          Inr (default_filter\<lparr>tf_repo_id := repo, tf_is_open := open, tf_sync_state := sync,
            tf_priorities := prios, tf_assignee := lq_assignee q, tf_issue_type := lq_issue_type q,
            tf_created_after := lq_created_after q, tf_created_before := lq_created_before q,
            tf_updated_after := lq_updated_after q, tf_updated_before := lq_updated_before q,
            tf_sort := srt, tf_limit := lq_limit q, tf_offset := lq_offset q\<rparr>))))))"

section \<open>Round trips\<close>

lemma find_inj: "inj_on f (set xs) \<Longrightarrow> x \<in> set xs \<Longrightarrow> List.find (\<lambda>y. f y = f x) xs = Some x"
  by (induction xs) (auto simp: inj_on_def)

lemma parse_enum_ok:
  assumes "inj_on str (set variants)" "v \<in> set variants"
  shows "parse_enum variants str field s = Inr v \<longleftrightarrow> s = str v"
proof
  assume "s = str v"
  with find_inj [OF assms] show "parse_enum variants str field s = Inr v" by (simp add: parse_enum_def)
qed (auto simp: parse_enum_def split: option.splits dest!: find_Some_set)

lemma enum_str_inj: "inj priority_str" "inj sync_state_str" "inj relation_kind_str"
proof -
  show "inj priority_str"
    by (rule injI, rename_tac x y, case_tac x; case_tac y) (simp_all add: lit_def)
  show "inj sync_state_str"
    by (rule injI, rename_tac x y, case_tac x; case_tac y) (simp_all add: lit_def)
  show "inj relation_kind_str"
    by (rule injI, rename_tac x y, case_tac x; case_tac y) (simp_all add: lit_def)
qed

lemma parse_enum_str:
  "parse_priority s = Inr p \<longleftrightarrow> s = priority_str p"
  "parse_sync_state s = Inr st \<longleftrightarrow> s = sync_state_str st"
  "parse_relation_kind s = Inr k \<longleftrightarrow> s = relation_kind_str k"
  unfolding parse_priority_def parse_sync_state_def parse_relation_kind_def
  by ((rule parse_enum_ok, rule inj_on_subset [OF enum_str_inj(1) subset_UNIV], cases p; simp),
      (rule parse_enum_ok, rule inj_on_subset [OF enum_str_inj(2) subset_UNIV], cases st; simp),
      (rule parse_enum_ok, rule inj_on_subset [OF enum_str_inj(3) subset_UNIV], cases k; simp))

end
