(* ===== verification/TaskService.thy ===== *)
theory TaskService
  imports SyncMonad TaskDto
begin

text \<open>
  \<open>TaskService\<close> (\<open>application-task/src/service.rs\<close>): friendly-id resolution, creation with a minted
  hash, edits, relations, lifecycle verbs, rollback and listing.  The reads of a command are
  functions of the catalog and the tables; a command runs in the state-and-error monad, and each
  of its writes is one committed transaction.  The log lines are not modelled.
\<close>

section \<open>Results\<close>

type_synonym 'a svc = "(service_error, 'a) em"

definition and_then :: "'e + 'a \<Rightarrow> ('a \<Rightarrow> 'e + 'b) \<Rightarrow> 'e + 'b" where
  "and_then r f = (case r of Inl e \<Rightarrow> Inl e | Inr x \<Rightarrow> f x)"

definition from_port :: "'a port_result \<Rightarrow> service_error + 'a" where
  "from_port r = (case r of Inl e \<Rightarrow> Inl (SvPort e) | Inr x \<Rightarrow> Inr x)"

definition from_domain :: "'a dresult \<Rightarrow> service_error + 'a" where
  "from_domain r = (case r of Inl e \<Rightarrow> Inl (SvDomain e) | Inr x \<Rightarrow> Inr x)"

text \<open>A \<open>NotFound\<close> read as absence; other errors are kept.\<close>

definition found :: "'a port_result \<Rightarrow> 'a option port_result" where
  "found r = (case r of Inr x \<Rightarrow> Inr (Some x) | Inl (NotFound _) \<Rightarrow> Inr None | Inl e \<Rightarrow> Inl e)"

section \<open>Rendering\<close>

definition prefix_for :: "catalog \<Rightarrow> task \<Rightarrow> rstring option port_result" where
  "prefix_for c t =
     (case t_repo_id t of
        None \<Rightarrow> Inr None
      | Some r \<Rightarrow> and_then (get_binding r c) (\<lambda>b. Inr (Some (ro_prefix (snd b)))))"

definition compose_id_for :: "catalog \<Rightarrow> db \<Rightarrow> task_id \<Rightarrow> rstring port_result" where
  "compose_id_for c d i =
     and_then (get_task i d) (\<lambda>related.
     and_then (prefix_for c related) (\<lambda>pre. Inr (assemble_task_display_id related pre)))"

definition resolve_cached_project_status :: "catalog \<Rightarrow> task \<Rightarrow> rstring option port_result" where
  "resolve_cached_project_status c t =
     (case t_project_status_option_id t of
        None \<Rightarrow> Inr None
      | Some option_id \<Rightarrow>
          and_then (resolve_project c t) (\<lambda>p.
            Inr (Option.bind p (option_name_for option_id))))"

definition priority_is_board_owned :: "catalog \<Rightarrow> task \<Rightarrow> bool port_result" where
  "priority_is_board_owned c t =
     (if t_project_item_id t = None then Inr False
      else and_then (resolve_project c t) (\<lambda>p.
        Inr (case p of None \<Rightarrow> False | Some p \<Rightarrow> priority_field p \<noteq> None)))"

definition render_task :: "catalog \<Rightarrow> db \<Rightarrow> task \<Rightarrow> task_dto port_result" where
  "render_task c d t =
     and_then (prefix_for c t) (\<lambda>pre.
     and_then (parse_all (compose_id_for c d) (map rel_other (t_relations t))) (\<lambda>others.
     and_then (parse_all (compose_id_for c d) (blocked_by t)) (\<lambda>blockers.
     and_then (resolve_cached_project_status c t) (\<lambda>status.
     and_then (priority_is_board_owned c t) (\<lambda>owned.
       Inr ((task_to_dto t pre)\<lparr>
         dto_relations := zip (map (\<lambda>r. relation_kind_str (rel_kind r)) (t_relations t)) others,
         dto_blocked_by := blockers, dto_project_status := status,
         dto_priority_from_board := owned\<rparr>))))))"

section \<open>Resolution\<close>

definition check_prefix :: "catalog \<Rightarrow> rstring \<Rightarrow> rstring \<Rightarrow> task \<Rightarrow> service_error + task" where
  "check_prefix c input_prefix hash t =
     and_then (case t_repo_id t of
         Some r \<Rightarrow> from_port (and_then (get_binding r c) (\<lambda>b. Inr (ro_prefix (snd b))))
       | None \<Rightarrow> Inr []) (\<lambda>actual.
       if actual \<noteq> input_prefix \<and> \<not> is_superseded_prefix input_prefix actual
       then Inl (PrefixMismatch input_prefix actual hash)
       else Inr t)"

definition resolve_task ::
  "(rstring \<Rightarrow> uuid option) \<Rightarrow> catalog \<Rightarrow> db \<Rightarrow> rstring \<Rightarrow> service_error + task" where
  "resolve_task p c d query =
     (case p query of
        Some i \<Rightarrow> from_port (get_task i d)
      | None \<Rightarrow>
          (let (input_prefix, hash) =
             (case rsplit_once 45 query of Some (a, h) \<Rightarrow> (Some a, h) | None \<Rightarrow> (None, query))
           in if \<not> is_valid_hash hash then Inl (SvBadId (NotATaskRef query))
              else if input_prefix \<noteq> None \<and> \<not> is_valid_prefix (the input_prefix)
              then Inl (SvBadId (MalformedPrefix query (the input_prefix)))
              else
                (case find_by_hash hash d of
                   None \<Rightarrow> Inl (SvPort (NotFound (lit ''task hash \"'' @ hash @ lit ''\"'')))
                 | Some t \<Rightarrow>
                     (case input_prefix of
                        None \<Rightarrow> Inr t | Some a \<Rightarrow> check_prefix c a hash t))))"

definition find_workspace_by_name :: "rstring \<Rightarrow> catalog \<Rightarrow> workspace option" where
  "find_workspace_by_name name c = List.find (\<lambda>w. w_name w = name) (cat_workspaces c)"

definition resolve_workspace_id ::
  "(rstring \<Rightarrow> uuid option) \<Rightarrow> catalog \<Rightarrow> rstring \<Rightarrow> service_error + workspace_id" where
  "resolve_workspace_id p c handle =
     (let by_name =
        (case find_workspace_by_name handle c of
           Some w \<Rightarrow> Inr (w_id w) | None \<Rightarrow> Inl (SvBadId (UnknownWorkspace handle)))
      in case p handle of
           None \<Rightarrow> by_name
         | Some i \<Rightarrow>
             and_then (from_port (found (get_workspace i c))) (\<lambda>w.
               case w of Some _ \<Rightarrow> Inr i | None \<Rightarrow> by_name))"

section \<open>The filing chain and the plans\<close>

definition instance_origin :: "catalog \<Rightarrow> repo_id option \<Rightarrow> repo_origin_id option port_result" where
  "instance_origin c r =
     (case r of
        None \<Rightarrow> Inr None
      | Some i \<Rightarrow> and_then (get_binding i c) (\<lambda>b. Inr (Some (ri_origin_id (fst b)))))"

definition instance_origin_tolerant :: "catalog \<Rightarrow> repo_id option \<Rightarrow> repo_origin_id option port_result" where
  "instance_origin_tolerant c r =
     (case r of
        None \<Rightarrow> Inr None
      | Some i \<Rightarrow> and_then (found (get_binding i c)) (\<lambda>b. Inr (map_option (\<lambda>x. ri_origin_id (fst x)) b)))"

definition origin_canonical :: "catalog \<Rightarrow> repo_origin_id option \<Rightarrow> rstring option port_result" where
  "origin_canonical c i =
     (case i of
        None \<Rightarrow> Inr None
      | Some origin \<Rightarrow> and_then (get_origin origin c) (\<lambda>x. Inr (Some (ro_canonical_url x))))"

definition filing_canonical_for :: "catalog \<Rightarrow> task \<Rightarrow> rstring option port_result" where
  "filing_canonical_for c t =
     and_then (found (get_workspace (t_workspace_id t) c)) (\<lambda>ws.
     and_then (instance_origin_tolerant c (t_repo_id t)) (\<lambda>step3.
       origin_canonical c
         (resolve_filing_repo (t_filing_repo_id t) (Option.bind ws w_filing_repo_id) step3)))"

definition relation_remote_coords :: "catalog \<Rightarrow> task \<Rightarrow> (rstring \<times> rstring) option port_result" where
  "relation_remote_coords c t =
     (case t_remote t of
        None \<Rightarrow> Inr None
      | Some rr \<Rightarrow>
          and_then (filing_canonical_for c t) (\<lambda>canonical.
            Inr (map_option (\<lambda>x. (x, rr_remote_id rr)) canonical)))"

type_synonym workspace_cache = "(workspace_id \<times> workspace) list"

definition relation_remote_coords_cached ::
  "catalog \<Rightarrow> task \<Rightarrow> workspace_cache \<Rightarrow> ((rstring \<times> rstring) option \<times> workspace_cache) port_result" where
  "relation_remote_coords_cached c t cache =
     and_then (case map_of cache (t_workspace_id t) of
         Some w \<Rightarrow> Inr (Some (w, cache))
       | None \<Rightarrow>
           and_then (found (get_workspace (t_workspace_id t) c)) (\<lambda>ws.
             Inr (map_option (\<lambda>w. (w, (t_workspace_id t, w) # cache)) ws))) (\<lambda>hit.
     case hit of
       None \<Rightarrow> Inr (None, cache)
     | Some (w, cache') \<Rightarrow>
         (case t_remote t of
            None \<Rightarrow> Inr (None, cache')
          | Some rr \<Rightarrow>
              and_then (instance_origin_tolerant c (t_repo_id t)) (\<lambda>step3.
              and_then (origin_canonical c
                  (resolve_filing_repo (t_filing_repo_id t) (w_filing_repo_id w) step3)) (\<lambda>canonical.
                Inr (map_option (\<lambda>x. (x, rr_remote_id rr)) canonical, cache')))))"

definition plan_relation_mutations ::
  "catalog \<Rightarrow> relation_kind \<Rightarrow> bool \<Rightarrow> task \<Rightarrow> task \<Rightarrow> outbox_mutation list port_result" where
  "plan_relation_mutations c k add t other =
     and_then (relation_remote_coords c t) (\<lambda>this.
     and_then (relation_remote_coords c other) (\<lambda>that.
       Inr (case (this, that) of
              (Some a, Some b) \<Rightarrow>
                (case relation_mutation k add a b of Some m \<Rightarrow> [m] | None \<Rightarrow> [])
            | _ \<Rightarrow> [])))"

definition plan_priority_mutation :: "catalog \<Rightarrow> task \<Rightarrow> outbox_mutation option port_result" where
  "plan_priority_mutation c t =
     and_then (resolve_project c t) (\<lambda>p.
       Inr (case p of
              None \<Rightarrow> None
            | Some p \<Rightarrow>
                if priority_field_id p = None then None else set_project_priority_mutation p t))"

definition filing_repo_owner_login :: "catalog \<Rightarrow> task \<Rightarrow> rstring option port_result" where
  "filing_repo_owner_login c t =
     and_then (filing_canonical_for c t) (\<lambda>x. Inr (Option.bind x parse_github_owner))"

definition plan_issue_type_mutation :: "catalog \<Rightarrow> task \<Rightarrow> outbox_mutation option port_result" where
  "plan_issue_type_mutation c t =
     and_then (resolve_project c t) (\<lambda>p.
     and_then (filing_repo_owner_login c t) (\<lambda>owner.
       Inr (resolve_type_projection p c owner t)))"

section \<open>Effects\<close>

text \<open>A read of the world, and one transaction over the tables.\<close>

definition query :: "(world \<Rightarrow> 'e + 'a) \<Rightarrow> ('e, 'a) em" where
  "query f w = (f w, w)"

definition transact :: "env \<Rightarrow> (timestamp \<Rightarrow> db \<Rightarrow> db port_result) \<Rightarrow> unit svc" where
  "transact env f =
     bnd (timestamp_now env) (\<lambda>cap.
     bnd (query (\<lambda>w. from_port (f cap (wd_db w)))) (\<lambda>d. modify_db (\<lambda>_. d)))"

definition ts_task :: "env \<Rightarrow> rstring \<Rightarrow> task svc" where
  "ts_task env q = query (\<lambda>w. resolve_task (env_parse_uuid env) (wd_cat w) (wd_db w) q)"

definition task_dto :: "task \<Rightarrow> task_dto svc" where
  "task_dto t = query (\<lambda>w. from_port (render_task (wd_cat w) (wd_db w) t))"

definition id_arg :: "env \<Rightarrow> string \<Rightarrow> rstring \<Rightarrow> uuid svc" where
  "id_arg env what s = query (\<lambda>_. parse_id (env_parse_uuid env) what s)"

definition into_entries :: "env \<Rightarrow> task_id \<Rightarrow> outbox_mutation list \<Rightarrow> ('e, outbox_entry list) em" where
  "into_entries env i =
     collect (\<lambda>m. bnd tick (\<lambda>k. ret (outbox_entry_new (env_id env k) (env_now env k) i m)))"

text \<open>An edit given only when its argument is.\<close>

definition given :: "'a option \<Rightarrow> ('a \<Rightarrow> 'b \<Rightarrow> 'b svc) \<Rightarrow> 'b \<Rightarrow> 'b svc" where
  "given x f y = (case x of None \<Rightarrow> ret y | Some v \<Rightarrow> f v y)"

definition edit :: "env \<Rightarrow> (timestamp \<Rightarrow> task \<Rightarrow> task dresult) \<Rightarrow> task \<Rightarrow> task svc" where
  "edit env f t = bnd (timestamp_now env) (\<lambda>now. query (\<lambda>_. from_domain (f now t)))"

definition origin_of_binding :: "env \<Rightarrow> rstring \<Rightarrow> repo_origin_id svc" where
  "origin_of_binding env s =
     bnd (id_arg env ''repo'' s) (\<lambda>i.
     bnd (query (\<lambda>w. from_port (get_binding i (wd_cat w)))) (\<lambda>b. ret (ri_origin_id (fst b))))"

section \<open>Creation\<close>

definition K_RETRIES_AT_LENGTH :: nat where "K_RETRIES_AT_LENGTH = 8"

text \<open>The loop of \<open>save_with_minted_hash\<close>; it returns the task under the hash it was saved with.\<close>

function mint_loop :: "env \<Rightarrow> task \<Rightarrow> snapshot_source \<Rightarrow> nat \<Rightarrow> nat \<Rightarrow> task svc" where
  "mint_loop env t src len attempts w =
     (let t' = t\<lparr>t_hash := random_lowercase_base32 (env_draws env (wd_tick w)) len\<rparr>;
          w1 = w\<lparr>wd_tick := Suc (wd_tick w)\<rparr>
      in case save_task (env_now env (wd_tick w)) t' src (wd_db w) of
           Inr d \<Rightarrow> (Inr t', w1\<lparr>wd_db := d\<rparr>)
         | Inl e \<Rightarrow>
             if conflict_target e = Some (lit ''tasks.hash'') then
               if K_RETRIES_AT_LENGTH \<le> Suc attempts then
                 if MAX_HASH_LEN < Suc len then
                   (Inl (SvPort (Backend (lit ''could not mint unique task hash at any length up to '' @
                      show_nat MAX_HASH_LEN))), w1)
                 else mint_loop env t src (Suc len) 0 w1
               else mint_loop env t src len (Suc attempts) w1
             else (Inl (SvPort e), w1))"
  by auto
termination mint_loop
  by (relation "measures [\<lambda>(env, t, src, len, attempts, w). Suc MAX_HASH_LEN - len,
      \<lambda>(env, t, src, len, attempts, w). K_RETRIES_AT_LENGTH - attempts]") auto

declare mint_loop.simps [simp del]

definition save_with_minted_hash :: "env \<Rightarrow> task \<Rightarrow> snapshot_source \<Rightarrow> task svc" where
  "save_with_minted_hash env t src = mint_loop env t src MIN_HASH_LEN 0"

definition ts_create :: "env \<Rightarrow> create_task_cmd \<Rightarrow> task_dto svc" where
  "ts_create env cmd =
     bnd (id_arg env ''workspace'' (cc_workspace_id cmd)) (\<lambda>ws.
     bnd (given (cc_repo_id cmd) (\<lambda>s _. bnd (id_arg env ''repo'' s) (\<lambda>i. ret (Some i))) None) (\<lambda>repo.
     bnd tick (\<lambda>k.
     bnd (query (\<lambda>_. from_domain (new_draft (env_id env k) (env_now env k) ws repo (cc_title cmd)))) (\<lambda>t.
     bnd (given (cc_body cmd) (\<lambda>b. edit env (\<lambda>now t. Inr (set_body now b t))) t) (\<lambda>t.
     bnd (given (cc_priority cmd) (\<lambda>s t. bnd (query (\<lambda>_. parse_priority s)) (\<lambda>p.
            edit env (\<lambda>now t. Inr (set_priority now p t)) t)) t) (\<lambda>t.
     bnd (given (cc_filing_repo_override cmd) (\<lambda>s t. bnd (origin_of_binding env s) (\<lambda>origin.
            edit env (\<lambda>now. set_filing_repo_id now (Some origin)) t)) t) (\<lambda>t.
     bnd (save_with_minted_hash env t SrcCreated) task_dto)))))))"

definition ts_import_mirror :: "env \<Rightarrow> import_mirror_cmd \<Rightarrow> task_dto svc" where
  "ts_import_mirror env cmd =
     bnd (id_arg env ''workspace'' (ic_workspace_id cmd)) (\<lambda>ws.
     bnd (given (ic_repo_id cmd) (\<lambda>s _. bnd (id_arg env ''repo'' s) (\<lambda>i. ret (Some i))) None) (\<lambda>repo.
     bnd tick (\<lambda>k.
     bnd (query (\<lambda>_. from_domain (import_mirror (env_id env k) (env_now env k) (env_now env k) ws repo
            (remote_ref_new (ic_provider cmd) (ic_remote_id cmd)) (ic_title cmd) (ic_body cmd)
            (ic_assignees cmd) (ic_closed cmd)))) (\<lambda>t.
     bnd (given repo (\<lambda>r t. bnd (query (\<lambda>w. from_port (get_binding r (wd_cat w)))) (\<lambda>b.
            edit env (\<lambda>now t. Inr (force_set_filing_repo_id now (Some (ri_origin_id (fst b))) t)) t)) t) (\<lambda>t.
     bnd (save_with_minted_hash env t SrcPull) task_dto)))))"

section \<open>Comments, listing and history\<close>

definition ts_show :: "env \<Rightarrow> rstring \<Rightarrow> task_dto svc" where
  "ts_show env q = bnd (ts_task env q) task_dto"

definition ts_add_comment :: "env \<Rightarrow> rstring \<Rightarrow> rstring \<Rightarrow> rstring \<Rightarrow> task_dto svc" where
  "ts_add_comment env task_ref body author =
     (if trim body = [] then throw (SvDomain (Validation (lit ''comment body must not be empty'')))
      else
        bnd (ts_task env task_ref) (\<lambda>t.
        bnd tick (\<lambda>k.
        bnd (modify_db (add_pending_comment (show_uuid (env_id env k)) (t_id t) author body (env_now env k))) (\<lambda>_.
        bnd (query (\<lambda>w. from_port (get_task (t_id t) (wd_db w)))) task_dto))))"

definition ts_list :: "env \<Rightarrow> list_tasks_query \<Rightarrow> task_dto list svc" where
  "ts_list env q =
     bnd (query (\<lambda>w. parse_opt (resolve_workspace_id (env_parse_uuid env) (wd_cat w)) (lq_workspace_id q))) (\<lambda>ws.
     bnd (query (\<lambda>_. task_filter_from_query (env_parse_uuid env) q)) (\<lambda>f.
     bnd (reads (\<lambda>w. list_tasks (wd_cat w) (f\<lparr>tf_workspace_id := ws\<rparr>) (wd_db w))) (collect task_dto)))"

definition ts_list_snapshots :: "env \<Rightarrow> rstring \<Rightarrow> task_snapshot list svc" where
  "ts_list_snapshots env q =
     bnd (ts_task env q) (\<lambda>t. reads (\<lambda>w. list_snapshots (t_id t) (wd_db w)))"

section \<open>Plans that record the filing repository\<close>

definition plan_mirror_mutations ::
  "env \<Rightarrow> bool \<Rightarrow> task \<Rightarrow> (outbox_mutation list \<times> task) svc" where
  "plan_mirror_mutations env content_changed t =
     (if \<not> is_mirror t then ret ([], t)
      else
        bnd (query (\<lambda>w. from_port (get_workspace (t_workspace_id t) (wd_cat w)))) (\<lambda>ws.
        bnd (query (\<lambda>w. from_port (project_for_workspace (wd_cat w) ws))) (\<lambda>proj.
        bnd (if proj \<noteq> None \<and> t_project_item_id t = None \<and> t_filing_repo_id t = None
             then bnd (query (\<lambda>w. from_port (instance_origin (wd_cat w) (t_repo_id t)))) (\<lambda>logical.
                    edit env (\<lambda>now. set_filing_repo_id now
                      (resolve_filing_repo None (w_filing_repo_id ws) logical)) t)
             else ret t) (\<lambda>t.
        bnd (query (\<lambda>w. from_port (filing_canonical_for (wd_cat w) t))) (\<lambda>canonical.
          ret (plan_mutations t proj canonical content_changed, t))))))"

definition plan_update_mutations ::
  "env \<Rightarrow> sync_state \<Rightarrow> bool \<Rightarrow> task \<Rightarrow> (outbox_mutation list \<times> task) svc" where
  "plan_update_mutations env sync_before converted t =
     (if \<not> is_mirror t then ret ([], t)
      else if converted then
        bnd (query (\<lambda>w. from_port (filing_canonical_for (wd_cat w) t))) (\<lambda>canonical.
          let item = (case t_project_item_id t of Some i \<Rightarrow> i | None \<Rightarrow> [])
          in ret ((if t_sync t \<noteq> sync_before
                   then [UpdateDraftIssue item (Some (t_title t)) (Some (t_body t))] else []) @
                  [ConvertDraftToIssue item (case canonical of Some c \<Rightarrow> c | None \<Rightarrow> [])], t))
      else if t_sync t = sync_before then ret ([], t)
      else plan_mirror_mutations env True t)"

text \<open>The two off-axis projections an edit or a rollback owes.\<close>

definition plan_off_axis :: "priority \<Rightarrow> issue_type option \<Rightarrow> task \<Rightarrow> outbox_mutation list svc" where
  "plan_off_axis priority_before type_before t =
     bnd (if t_priority t \<noteq> priority_before \<and> is_mirror t
          then query (\<lambda>w. from_port (plan_priority_mutation (wd_cat w) t)) else ret None) (\<lambda>m1.
     bnd (if t_issue_type t \<noteq> type_before \<and> is_mirror t
          then query (\<lambda>w. from_port (plan_issue_type_mutation (wd_cat w) t)) else ret None) (\<lambda>m2.
       ret ((case m1 of None \<Rightarrow> [] | Some m \<Rightarrow> [m]) @ (case m2 of None \<Rightarrow> [] | Some m \<Rightarrow> [m]))))"

section \<open>Edits\<close>

text \<open>The filing repository of an orphan draft, resolved at its first filing only.\<close>

definition first_filing :: "bool \<Rightarrow> repo_id option \<Rightarrow> task \<Rightarrow> repo_origin_id option svc" where
  "first_filing was_orphan_draft filing_before t =
     (if was_orphan_draft \<and> filing_before = None then
        bnd (query (\<lambda>w. from_port (get_workspace (t_workspace_id t) (wd_cat w)))) (\<lambda>ws.
        bnd (query (\<lambda>w. from_port (instance_origin (wd_cat w) (t_repo_id t)))) (\<lambda>logical.
          ret (resolve_filing_repo (t_filing_repo_id t) (w_filing_repo_id ws) logical)))
      else ret None)"

definition apply_update_cmd :: "env \<Rightarrow> update_task_cmd \<Rightarrow> task \<Rightarrow> task svc" where
  "apply_update_cmd env cmd t =
     bnd (given (uc_title cmd) (\<lambda>x. edit env (\<lambda>now. set_title now x)) t) (\<lambda>t.
     bnd (given (uc_body cmd) (\<lambda>x. edit env (\<lambda>now t. Inr (set_body now x t))) t) (\<lambda>t.
     bnd (given (uc_priority cmd) (\<lambda>s t. bnd (query (\<lambda>_. parse_priority s)) (\<lambda>p.
            edit env (\<lambda>now t. Inr (set_priority now p t)) t)) t) (\<lambda>t.
     bnd (given (uc_assignees cmd) (\<lambda>x. edit env (\<lambda>now t. Inr (set_assignees now x t))) t) (\<lambda>t.
     bnd (given (uc_repo_id cmd) (\<lambda>s t. bnd (id_arg env ''repo'' s) (\<lambda>r.
            edit env (\<lambda>now. set_repo_id now (Some r)) t)) t) (\<lambda>t.
     bnd (given (uc_filing_repo_override cmd) (\<lambda>s t. bnd (origin_of_binding env s) (\<lambda>origin.
            edit env (\<lambda>now. set_filing_repo_id now (Some origin)) t)) t) (\<lambda>t.
       given (uc_issue_type cmd) (\<lambda>x. edit env (\<lambda>now t.
         Inr (set_issue_type now (map_option issue_type_from x) t))) t))))))"

definition ts_update :: "env \<Rightarrow> update_task_cmd \<Rightarrow> task_dto svc" where
  "ts_update env cmd =
     bnd (ts_task env (uc_task_id cmd)) (\<lambda>t0.
     bnd (apply_update_cmd env cmd t0) (\<lambda>t.
     bnd (first_filing (is_draft_backed t0 \<and> t_repo_id t0 = None) (t_filing_repo_id t0) t) (\<lambda>filing.
     bnd (if filing \<noteq> None then edit env (\<lambda>now. set_filing_repo_id now filing) t else ret t) (\<lambda>t.
     bnd (plan_update_mutations env (t_sync t0) (filing \<noteq> None) t) (\<lambda>(ms, t).
     bnd (plan_off_axis (t_priority t0) (t_issue_type t0) t) (\<lambda>off_axis.
     bnd (into_entries env (t_id t) (ms @ off_axis)) (\<lambda>entries.
     bnd (transact env (\<lambda>cap. save_with_outbox cap t SrcLocalEdit entries)) (\<lambda>_.
       task_dto t))))))))"

definition ts_repoint_filing_repo :: "env \<Rightarrow> rstring \<Rightarrow> repo_id option \<Rightarrow> task_dto svc" where
  "ts_repoint_filing_repo env q target =
     bnd (query (\<lambda>w. from_port (instance_origin (wd_cat w) target))) (\<lambda>origin.
     bnd (ts_task env q) (\<lambda>t.
     bnd (id_arg env ''task'' (show_uuid (t_id t))) (\<lambda>i.
     bnd (query (\<lambda>w. from_port (get_task i (wd_db w)))) (\<lambda>t.
     bnd (edit env (\<lambda>now t. Inr (force_set_filing_repo_id now origin t)) t) (\<lambda>t.
     bnd (transact env (\<lambda>cap. save_with_outbox cap t SrcFilingRepoRepair [])) (\<lambda>_.
       task_dto t))))))"

section \<open>Transitions\<close>

definition transition :: "env \<Rightarrow> rstring \<Rightarrow> (timestamp \<Rightarrow> task \<Rightarrow> task dresult) \<Rightarrow> task_dto svc" where
  "transition env q op =
     bnd (ts_task env q) (\<lambda>t.
     bnd (edit env op t) (\<lambda>t.
     bnd (transact env (\<lambda>cap. save_task cap t SrcLocalEdit)) (\<lambda>_. task_dto t)))"

definition transition_mirror :: "env \<Rightarrow> rstring \<Rightarrow> (timestamp \<Rightarrow> task \<Rightarrow> task dresult) \<Rightarrow> task_dto svc" where
  "transition_mirror env q op =
     bnd (ts_task env q) (\<lambda>t0.
     bnd (edit env op t0) (\<lambda>t.
       if t_updated_at t = t_updated_at t0 then task_dto t
       else
         bnd (plan_mirror_mutations env False t) (\<lambda>(ms, t).
         bnd (into_entries env (t_id t) ms) (\<lambda>entries.
         bnd (transact env (\<lambda>cap. save_with_outbox cap t SrcLocalEdit entries)) (\<lambda>_. task_dto t)))))"

definition ts_stage_for_sync :: "env \<Rightarrow> rstring \<Rightarrow> task_dto svc" where
  "ts_stage_for_sync env q = transition env q stage_for_sync"

definition ts_start :: "env \<Rightarrow> rstring \<Rightarrow> task_dto svc" where
  "ts_start env q = transition_mirror env q (\<lambda>_. start)"

definition ts_complete :: "env \<Rightarrow> rstring \<Rightarrow> task_dto svc" where
  "ts_complete env q = transition_mirror env q complete"

definition ts_reopen :: "env \<Rightarrow> rstring \<Rightarrow> task_dto svc" where
  "ts_reopen env q = transition_mirror env q reopen"

definition ts_archive :: "env \<Rightarrow> rstring \<Rightarrow> task_dto svc" where
  "ts_archive env q = transition_mirror env q archive"

definition restore_snapshot :: "timestamp \<Rightarrow> task_snapshot \<Rightarrow> task \<Rightarrow> task" where
  "restore_snapshot now s t =
     (let t1 = t\<lparr>t_title := s_title s, t_body := s_body s, t_lifecycle := s_lifecycle s,
                 t_sync := s_sync_state s, t_priority := s_priority s\<rparr>;
          t2 = (if s_issue_type_recorded s then set_issue_type now (s_issue_type s) t1 else t1);
          t3 = t2\<lparr>t_assignees := s_assignees s, t_remote := s_remote s\<rparr>;
          t4 = (if s_repo_id_recorded s then t3\<lparr>t_repo_id := s_repo_id s\<rparr> else t3)
      in reconcile_dirty_against_baseline t4)"

definition ts_rollback :: "env \<Rightarrow> rstring \<Rightarrow> nat \<Rightarrow> task_dto svc" where
  "ts_rollback env q to_version =
     bnd (ts_task env q) (\<lambda>t0.
     bnd (query (\<lambda>w. from_port (get_snapshot (t_id t0) to_version (wd_db w)))) (\<lambda>s.
     bnd (edit env (\<lambda>now t. Inr (restore_snapshot now s t)) t0) (\<lambda>t.
     bnd (plan_off_axis (t_priority t0) (t_issue_type t0) t) (\<lambda>ms.
     bnd (into_entries env (t_id t) ms) (\<lambda>entries.
     bnd (transact env (\<lambda>cap. save_with_outbox cap t SrcRollback entries)) (\<lambda>_. task_dto t))))))"

section \<open>Relations\<close>

definition cycle_guard :: "relation_kind \<Rightarrow> task \<Rightarrow> task \<Rightarrow> bool svc" where
  "cycle_guard k t other =
     reads (\<lambda>w. case cycle_axis k (t_id t) (t_id other) of
       None \<Rightarrow> False
     | Some (fwd, bwd, x, y) \<Rightarrow> would_create_cycle (wd_cat w) fwd bwd x y (wd_db w))"

definition ts_add_relation :: "env \<Rightarrow> relation_cmd \<Rightarrow> task_dto svc" where
  "ts_add_relation env cmd =
     bnd (query (\<lambda>_. parse_relation_kind (rc_kind cmd))) (\<lambda>k.
     bnd (ts_task env (rc_task_id cmd)) (\<lambda>t0.
     bnd (ts_task env (rc_other cmd)) (\<lambda>o0.
       if t_id o0 = t_id t0 then throw SelfRelation
       else
         bnd (cycle_guard k t0 o0) (\<lambda>cyclic.
           if cyclic then throw (RelationCycle (rc_kind cmd) (rc_task_id cmd) (rc_other cmd))
           else
             bnd (timestamp_now env) (\<lambda>now.
             let t = add_relation now k (t_id o0) t0; other = add_relation now (inverse_kind k) (t_id t0) o0 in
             bnd (if has_relation k (t_id o0) t0 then ret []
                  else query (\<lambda>w. from_port (plan_relation_mutations (wd_cat w) k True t other))) (\<lambda>ms.
             bnd (into_entries env (t_id t) ms) (\<lambda>entries.
             bnd (transact env (\<lambda>cap. save_many_with_outbox cap
                    [(t, SrcLocalEdit), (other, SrcLocalEdit)] entries)) (\<lambda>_. task_dto t))))))))"

definition ts_remove_relation :: "env \<Rightarrow> relation_cmd \<Rightarrow> task_dto svc" where
  "ts_remove_relation env cmd =
     bnd (query (\<lambda>_. parse_relation_kind (rc_kind cmd))) (\<lambda>k.
     bnd (ts_task env (rc_task_id cmd)) (\<lambda>t0.
     bnd (ts_task env (rc_other cmd)) (\<lambda>o0.
       if t_id o0 = t_id t0 then throw SelfRelation
       else
         bnd (timestamp_now env) (\<lambda>now.
         case (remove_relation now k (t_id o0) t0, remove_relation now (inverse_kind k) (t_id t0) o0) of
           ((t_changed, t), (other_changed, other)) \<Rightarrow>
             bnd (if t_changed
                  then query (\<lambda>w. from_port (plan_relation_mutations (wd_cat w) k False t other))
                  else ret []) (\<lambda>ms.
             bnd (into_entries env (t_id t) ms) (\<lambda>entries.
             bnd (let batch = (if t_changed then [(t, SrcLocalEdit)] else []) @
                              (if other_changed then [(other, SrcLocalEdit)] else [])
                  in if batch = [] then ret ()
                     else transact env (\<lambda>cap. save_many_with_outbox cap batch entries)) (\<lambda>_.
               task_dto t)))))))"

text \<open>The reciprocal kinds to strip from one neighbour; the last removal stamps the time.\<close>

fun remove_kinds :: "timestamp \<Rightarrow> relation_kind list \<Rightarrow> task_id \<Rightarrow> task \<Rightarrow> bool \<times> task" where
  "remove_kinds now [] i t = (False, t)"
| "remove_kinds now (k # ks) i t =
     (case remove_relation now k i t of (c1, t1) \<Rightarrow>
        (case remove_kinds now ks i t1 of (c2, t2) \<Rightarrow> (c1 \<or> c2, t2)))"

text \<open>The loop over the distinct neighbours, with the coordinates of each and the cache.\<close>

fun strip_neighbours ::
  "env \<Rightarrow> task_relation list \<Rightarrow> task_id \<Rightarrow> task_id list \<Rightarrow> workspace_cache \<Rightarrow>
   (task list \<times> (task_id \<times> (rstring \<times> rstring) option) list \<times> workspace_cache) svc" where
  "strip_neighbours env removed i [] cache = ret ([], [], cache)"
| "strip_neighbours env removed i (j # js) cache =
     bnd (query (\<lambda>w. from_port (get_task j (wd_db w)))) (\<lambda>o0.
     bnd (timestamp_now env) (\<lambda>now.
     case remove_kinds now (map (\<lambda>r. inverse_kind (rel_kind r)) (filter (\<lambda>r. rel_other r = j) removed)) i o0 of
       (changed, other) \<Rightarrow>
         bnd (query (\<lambda>w. from_port (relation_remote_coords_cached (wd_cat w) other cache))) (\<lambda>(coords, cache).
         bnd (strip_neighbours env removed i js cache) (\<lambda>(others, cs, cache).
           ret ((if changed then [other] else []) @ others, (t_id other, coords) # cs, cache)))))"

definition unlink_mutations ::
  "task_relation list \<Rightarrow> task_id \<Rightarrow> (rstring \<times> rstring) option \<Rightarrow>
   (task_id \<times> (rstring \<times> rstring) option) list \<Rightarrow> outbox_mutation list" where
  "unlink_mutations removed i this coords =
     (case this of
        None \<Rightarrow> []
      | Some a \<Rightarrow>
          List.map_filter (\<lambda>r.
            if rel_other r = i then None
            else (case map_of coords (rel_other r) of
                    Some (Some b) \<Rightarrow> relation_mutation (rel_kind r) False a b
                  | _ \<Rightarrow> None)) removed)"

definition ts_clear_relations :: "env \<Rightarrow> rstring \<Rightarrow> task_dto svc" where
  "ts_clear_relations env q =
     bnd (ts_task env q) (\<lambda>t0.
     bnd (timestamp_now env) (\<lambda>now.
     case clear_relations now t0 of (removed, t) \<Rightarrow>
       if removed = [] then task_dto t
       else
         bnd tick (\<lambda>k.
         bnd (strip_neighbours env removed (t_id t)
                (env_map_order env k (remdups (filter (\<lambda>j. j \<noteq> t_id t) (map rel_other removed)))) [])
           (\<lambda>(others, coords, cache).
         bnd (query (\<lambda>w. from_port (relation_remote_coords_cached (wd_cat w) t cache))) (\<lambda>(this, cache).
         bnd (into_entries env (t_id t) (unlink_mutations removed (t_id t) this coords)) (\<lambda>entries.
         bnd (transact env (\<lambda>cap. save_many_with_outbox cap
                ((t, SrcLocalEdit) # map (\<lambda>x. (x, SrcLocalEdit)) others) entries)) (\<lambda>_. task_dto t)))))))"

end
