(* ===== verification/RelationCommands.thy ===== *)
theory RelationCommands
  imports TaskService
begin

text \<open>
  A weakest-precondition calculus for the service commands and its first use: the commands that
  change relations keep the relation graph in order.
\<close>

section \<open>Weakest preconditions\<close>

definition wp :: "('e, 'a) em \<Rightarrow> ('e + 'a \<Rightarrow> world \<Rightarrow> bool) \<Rightarrow> world \<Rightarrow> bool" where
  "wp m Q w \<longleftrightarrow> (case m w of (r, w') \<Rightarrow> Q r w')"

named_theorems wp_simps

lemma wp_bnd [wp_simps]:
  "wp (bnd m f) Q w \<longleftrightarrow> wp m (\<lambda>r w'. case r of Inl e \<Rightarrow> Q (Inl e) w' | Inr x \<Rightarrow> wp (f x) Q w') w"
  by (simp add: wp_def bnd_def split: prod.splits sum.splits)

lemma wp_prims [wp_simps]:
  "wp (ret x) Q w \<longleftrightarrow> Q (Inr x) w"
  "wp (throw e) Q w \<longleftrightarrow> Q (Inl e) w"
  "wp (reads f) Q3 w \<longleftrightarrow> Q3 (Inr (f w)) w"
  "wp (query g) Q4 w \<longleftrightarrow> Q4 (g w) w"
  "wp tick Q1 w \<longleftrightarrow> Q1 (Inr (wd_tick w)) (w\<lparr>wd_tick := Suc (wd_tick w)\<rparr>)"
  "wp (modify_db h) Q2 w \<longleftrightarrow> Q2 (Inr ()) (w\<lparr>wd_db := h (wd_db w)\<rparr>)"
  by (simp_all add: wp_def query_def)

lemma wp_timestamp_now [wp_simps]:
  "wp (timestamp_now env) Q w \<longleftrightarrow> Q (Inr (env_now env (wd_tick w))) (w\<lparr>wd_tick := Suc (wd_tick w)\<rparr>)"
  by (simp add: timestamp_now_def wp_simps)

lemma wp_transact [wp_simps]:
  "wp (transact env f) Q w \<longleftrightarrow>
     (case f (env_now env (wd_tick w)) (wd_db w) of
        Inl e \<Rightarrow> Q (Inl (SvPort e)) (w\<lparr>wd_tick := Suc (wd_tick w)\<rparr>)
      | Inr d \<Rightarrow> Q (Inr ()) (w\<lparr>wd_tick := Suc (wd_tick w), wd_db := d\<rparr>))"
  by (simp add: transact_def wp_simps from_port_def split: sum.splits)

lemma wp_service [wp_simps]:
  "wp (ts_task env q) Q w \<longleftrightarrow> Q (resolve_task (env_parse_uuid env) (wd_cat w) (wd_db w) q) w"
  "wp (task_dto t) Q1 w \<longleftrightarrow> Q1 (from_port (render_task (wd_cat w) (wd_db w) t)) w"
  "wp (id_arg env what s) Q2 w \<longleftrightarrow> Q2 (parse_id (env_parse_uuid env) what s) w"
  "wp (edit env g t) Q w \<longleftrightarrow>
     Q (from_domain (g (env_now env (wd_tick w)) t)) (w\<lparr>wd_tick := Suc (wd_tick w)\<rparr>)"
  by (simp_all add: ts_task_def task_dto_def id_arg_def edit_def wp_simps)

lemma wp_if [wp_simps]: "wp (if b then m else n) Q w \<longleftrightarrow> (if b then wp m Q w else wp n Q w)"
  by simp

lemma wp_conseq: "wp m P w \<Longrightarrow> (\<And>r w'. P r w' \<Longrightarrow> Q r w') \<Longrightarrow> wp m Q w"
  by (auto simp: wp_def)

text \<open>Planned entries: one per mutation, in order, for the task.\<close>

definition planned_entries :: "env \<Rightarrow> task_id \<Rightarrow> nat \<Rightarrow> outbox_mutation list \<Rightarrow> outbox_entry list" where
  "planned_entries env i k ms =
     map (\<lambda>(j, m). outbox_entry_new (env_id env j) (env_now env j) i m) (enumerate k ms)"

lemma planned_entries_facts:
  "map e_mutation (planned_entries env i k ms) = ms"
  "e \<in> set (planned_entries env i k ms) \<Longrightarrow> e_task_id e = i \<and> e_status e = Pending"
  by (auto simp: planned_entries_def outbox_entry_new_def comp_def case_prod_beta)

lemma into_entries_run:
  "into_entries env i ms w = (Inr (planned_entries env i (wd_tick w) ms), w\<lparr>wd_tick := wd_tick w + length ms\<rparr>)"
  by (induction ms arbitrary: w) (simp_all add: into_entries_def planned_entries_def bnd_def)

lemma wp_into_entries [wp_simps]:
  "wp (into_entries env i ms) Q w \<longleftrightarrow>
     Q (Inr (planned_entries env i (wd_tick w) ms)) (w\<lparr>wd_tick := wd_tick w + length ms\<rparr>)"
  by (simp add: wp_def into_entries_run)

section \<open>Loaded tasks\<close>

text \<open>A resolved task is a stored one, loaded with its relations.\<close>

abbreviation task_ids :: "db \<Rightarrow> task_id set" where
  "task_ids d \<equiv> t_id ` set (db_tasks d)"

definition loaded :: "db \<Rightarrow> task \<Rightarrow> bool" where
  "loaded d t \<longleftrightarrow> t_id t \<in> task_ids d \<and> task_edges t = edges_of (t_id t) (relation_edges d)"

lemma hydrate_loaded: "row \<in> set (db_tasks d) \<Longrightarrow> loaded d (hydrate d row)"
proof -
  assume row: "row \<in> set (db_tasks d)"
  have "t_id (hydrate d row) = t_id row" "t_relations (hydrate d row) = load_relations d (t_id row)"
    by (simp_all add: hydrate_def row_to_task_def)
  with row task_edges_loaded [of "hydrate d row" d] show ?thesis by (simp add: loaded_def)
qed

lemma get_task_loaded: "get_task i d = Inr t \<Longrightarrow> loaded d t"
  by (auto simp: get_task_def find_row_def split: option.splits dest!: find_Some_set intro: hydrate_loaded)

lemma find_by_hash_loaded: "find_by_hash h d = Some t \<Longrightarrow> loaded d t"
  by (auto simp: find_by_hash_def split: if_splits dest!: find_Some_set intro: hydrate_loaded)

lemma from_port_Inr [simp]: "from_port r = Inr x \<longleftrightarrow> r = Inr x"
  by (simp add: from_port_def split: sum.splits)

lemma from_domain_Inr [simp]: "from_domain r = Inr x \<longleftrightarrow> r = Inr x"
  by (simp add: from_domain_def split: sum.splits)

lemma and_then_Inr: "and_then r f = Inr y \<longleftrightarrow> (\<exists>x. r = Inr x \<and> f x = Inr y)"
  by (auto simp: and_then_def split: sum.splits)

lemma check_prefix_same: "check_prefix c a h t = Inr t' \<Longrightarrow> t' = t"
  by (auto simp: check_prefix_def and_then_Inr split: if_splits)

lemma resolve_task_loaded: "resolve_task p c d q = Inr t \<Longrightarrow> loaded d t"
  by (auto simp: resolve_task_def Let_def split: option.splits prod.splits if_splits
      dest: get_task_loaded find_by_hash_loaded check_prefix_same)

section \<open>A batch of relation writes\<close>

lemma save_many_edge:
  assumes "save_many cap ts d = Inr d'" "\<And>x src. (x, src) \<in> set ts \<Longrightarrow> task_edges x = edges_of (t_id x) F"
  shows "e \<in> relation_edges d' \<longleftrightarrow>
    (if fst e \<in> t_id ` fst ` set ts then e \<in> F else e \<in> relation_edges d)"
  using assms
proof (induction ts arbitrary: d)
  case (Cons ts0 ts)
  obtain t src where ts0: "ts0 = (t, src)" by force
  with Cons.prems(1) obtain d1 where d1: "write_task_in_tx cap t src d = Inr d1" "save_many cap ts d1 = Inr d'"
    by (auto split: sum.splits)
  have "e \<in> relation_edges d1 \<longleftrightarrow> (if fst e = t_id t then e \<in> F else e \<in> relation_edges d)"
    using relation_edges_write [OF d1(1)] Cons.prems(2) [of t src] ts0 by (auto simp: edges_of_def)
  moreover have "e \<in> relation_edges d' \<longleftrightarrow> (if fst e \<in> t_id ` fst ` set ts then e \<in> F else e \<in> relation_edges d1)"
    using Cons.IH [OF d1(2)] Cons.prems(2) by (metis list.set_intros(2))
  ultimately show ?case using ts0 by auto
qed simp

lemma save_many_edges:
  assumes "save_many_with_outbox cap ts es d = Inr d'"
    "\<And>x src. (x, src) \<in> set ts \<Longrightarrow> task_edges x = edges_of (t_id x) F"
    "\<And>i. i \<notin> t_id ` fst ` set ts \<Longrightarrow> edges_of i F = edges_of i (relation_edges d)"
  shows "relation_edges d' = F"
proof -
  obtain d1 where d1: "save_many cap ts d = Inr d1" "d' = insert_entries es d1"
    using assms(1) by (auto simp: save_many_with_outbox_def split: sum.splits)
  have "e \<in> relation_edges d1 \<longleftrightarrow> e \<in> F" for e
    using save_many_edge [OF d1(1) assms(2), where e = e] assms(3) [of "fst e"]
    by (auto simp: edges_of_def)
  with d1(2) show ?thesis by auto
qed

lemma write_task_ids: "write_task_in_tx cap t src d = Inr d' \<Longrightarrow> task_ids d' = insert (t_id t) (task_ids d)"
  by (elim write_task_cases) (simp add: ids_upsert_tasks)

lemma save_many_ids: "save_many cap ts d = Inr d' \<Longrightarrow> task_ids d' = t_id ` fst ` set ts \<union> task_ids d"
proof (induction ts arbitrary: d)
  case (Cons x ts)
  obtain t src where x: "x = (t, src)" by force
  with Cons.prems obtain d1 where "write_task_in_tx cap t src d = Inr d1" "save_many cap ts d1 = Inr d'"
    by (auto split: sum.splits)
  with Cons.IH [OF this(2)] write_task_ids [OF this(1)] x show ?case by simp
qed simp

lemma save_many_same_ids:
  assumes "save_many_with_outbox cap ts es d = Inr d'" "t_id ` fst ` set ts \<subseteq> task_ids d"
  shows "task_ids d' = task_ids d"
proof -
  obtain d1 where "save_many cap ts d = Inr d1" "d' = insert_entries es d1"
    using assms(1) by (auto simp: save_many_with_outbox_def split: sum.splits)
  with save_many_ids [OF this(1)] assms(2) show ?thesis by (simp add: insert_entries_def sup.absorb2)
qed

lemma save_many_with_outbox_wf:
  "db_wf d \<Longrightarrow> save_many_with_outbox cap ts es d = Inr d' \<Longrightarrow> db_wf d'"
  by (auto simp: save_many_with_outbox_def insert_entries_def db_wf_other_tables split: sum.splits dest: save_many_wf)

lemma edges_of_simps [simp]:
  "edges_of i (E \<union> F) = edges_of i E \<union> edges_of i F"
  "edges_of i (E - F) = edges_of i E - edges_of i F"
  by (auto simp: edges_of_def)

lemma edges_of_pair:
  "a \<noteq> b \<Longrightarrow> edges_of i (edge_pair a k b) =
     (if i = a then {(a, k, b)} else if i = b then {(b, inverse_kind k, a)} else {})"
  by (auto simp: edges_of_def edge_pair_def)

lemma relation_op_ids [simp]:
  "t_id (add_relation now k b t) = t_id t"
  "t_id (snd (remove_relation now k b t)) = t_id t"
  "t_id (snd (clear_relations now t)) = t_id t"
  by (simp_all add: add_relation_def remove_relation_def clear_relations_def touch_def Let_def)

lemma remove_relation_unchanged:
  "\<not> fst (remove_relation now k b t) \<Longrightarrow> (t_id t, k, b) \<notin> task_edges t"
proof -
  assume "\<not> fst (remove_relation now k b t)"
  then have "length (filter (\<lambda>r. \<not> (rel_kind r = k \<and> rel_other r = b)) (t_relations t)) = length (t_relations t)"
    by (simp add: remove_relation_def Let_def)
  then have "\<forall>r \<in> set (t_relations t). \<not> (rel_kind r = k \<and> rel_other r = b)"
    using length_filter_less [of _ "t_relations t" "\<lambda>r. \<not> (rel_kind r = k \<and> rel_other r = b)"] by fastforce
  then show ?thesis by (auto simp: task_edges_iff)
qed

section \<open>Adding and removing an edge\<close>

text \<open>What a command may leave: the tables as they were, or a wanted change of them.\<close>

definition outcome :: "world \<Rightarrow> (db \<Rightarrow> bool) \<Rightarrow> 'e + 'a \<Rightarrow> world \<Rightarrow> bool" where
  "outcome w P r w' \<longleftrightarrow> wd_db w' = wd_db w \<or> P (wd_db w')"

lemma outcome_same: "wd_db w' = wd_db w \<Longrightarrow> outcome w P r w'"
  by (simp add: outcome_def)

lemma outcome_changed: "P (wd_db w') \<Longrightarrow> outcome w P r w'"
  by (simp add: outcome_def)

text \<open>A command that takes effect exactly when it does not fail before its transaction.\<close>

definition exact :: "world \<Rightarrow> (db \<Rightarrow> bool) \<Rightarrow> 'e + 'a \<Rightarrow> world \<Rightarrow> bool" where
  "exact w P r w' \<longleftrightarrow> P (wd_db w') \<or> (\<exists>e. r = Inl e) \<and> wd_db w' = wd_db w"

lemma exact_failed: "wd_db w' = wd_db w \<Longrightarrow> exact w P (Inl e) w'"
  by (simp add: exact_def)

lemma exact_changed: "P (wd_db w') \<Longrightarrow> exact w P r w'"
  by (simp add: exact_def)

lemma exact_outcome: "wp m (exact w P) v \<Longrightarrow> wp m (outcome w P) v"
  by (erule wp_conseq) (auto simp: exact_def outcome_def)

lemma add_relation_saved:
  assumes "db_wf d" "graph_wf (relation_edges d)" "loaded d t" "loaded d other" "t_id other \<noteq> t_id t"
    and guard: "\<And>f i x y. cycle_axis k (t_id t) (t_id other) = Some (f, i, x, y) \<Longrightarrow> \<not> would_create_cycle c f i x y d"
    and save: "save_many_with_outbox cap [(add_relation now k (t_id other) t, SrcLocalEdit),
        (add_relation now (inverse_kind k) (t_id t) other, SrcLocalEdit)] es d = Inr d'"
  shows "db_wf d' \<and> graph_wf (relation_edges d') \<and> task_ids d' = task_ids d \<and>
    relation_edges d' = relation_edges d \<union> edge_pair (t_id t) k (t_id other)"
proof -
  let ?F = "relation_edges d \<union> edge_pair (t_id t) k (t_id other)"
  have F: "relation_edges d' = ?F"
    by (rule save_many_edges [OF save])
      (use assms(3-5) in \<open>auto simp: loaded_def task_edges_add edges_of_pair\<close>)
  have "graph_wf ?F"
    by (rule graph_wf_add [OF assms(2)])
      (use assms(5) guard would_create_cycle_iff [OF assms(1)] in auto)
  moreover have "task_ids d' = task_ids d"
    by (rule save_many_same_ids [OF save]) (use assms(3,4) in \<open>simp add: loaded_def\<close>)
  ultimately show ?thesis using F save_many_with_outbox_wf [OF assms(1) save] by simp
qed

lemma save_nothing: "save_many_with_outbox cap ((if False then x else []) @ (if False then y else [])) [] d = Inr d'  \<longleftrightarrow> d' = d"
  by (auto simp: save_many_with_outbox_def insert_entries_def)

lemma add_relation_effect:
  assumes "db_wf (wd_db w)" "graph_wf (relation_edges (wd_db w))"
  shows "wp (ts_add_relation env cmd) (exact w (\<lambda>d'.
    \<exists>k t other. parse_relation_kind (rc_kind cmd) = Inr k \<and>
       resolve_task (env_parse_uuid env) (wd_cat w) (wd_db w) (rc_task_id cmd) = Inr t \<and>
       resolve_task (env_parse_uuid env) (wd_cat w) (wd_db w) (rc_other cmd) = Inr other \<and>
       db_wf d' \<and> graph_wf (relation_edges d') \<and> task_ids d' = task_ids (wd_db w) \<and>
       relation_edges d' = relation_edges (wd_db w) \<union> edge_pair (t_id t) k (t_id other))) w"
  (is "wp _ (exact w ?P) w")
proof -
  define P where "P = ?P"
  have ok: "P d'"
    if "parse_relation_kind (rc_kind cmd) = Inr k"
      and t: "resolve_task (env_parse_uuid env) (wd_cat w) (wd_db w) (rc_task_id cmd) = Inr t"
      and other: "resolve_task (env_parse_uuid env) (wd_cat w) (wd_db w) (rc_other cmd) = Inr other"
      and "t_id other \<noteq> t_id t"
      and "\<not> (case cycle_axis k (t_id t) (t_id other) of None \<Rightarrow> False
        | Some (f, i, x, y) \<Rightarrow> would_create_cycle (wd_cat w) f i x y (wd_db w))"
      and "save_many_with_outbox cap [(add_relation now k (t_id other) t, SrcLocalEdit),
        (add_relation now (inverse_kind k) (t_id t) other, SrcLocalEdit)] es (wd_db w) = Inr d'"
    for k t other cap now es d'
  proof -
    have "\<not> would_create_cycle (wd_cat w) f i x y (wd_db w)"
      if "cycle_axis k (t_id t) (t_id other) = Some (f, i, x, y)" for f i x y
      using \<open>\<not> (case cycle_axis k (t_id t) (t_id other) of None \<Rightarrow> False | Some (f, i, x, y) \<Rightarrow> _ f i x y)\<close> that by simp
    from add_relation_saved [OF assms resolve_task_loaded [OF t] resolve_task_loaded [OF other] that(4) this that(6)]
    show ?thesis unfolding P_def using that(1-3) by blast
  qed
  show ?thesis
    unfolding ts_add_relation_def cycle_guard_def Let_def P_def [symmetric]
    by (simp add: wp_simps exact_failed split: sum.split)
      (intro allI impI conjI; rule exact_changed; simp; rule ok; assumption?)
qed

lemma remove_relation_saved:
  assumes "db_wf d" "graph_wf (relation_edges d)" "loaded d t" "loaded d other" "t_id other \<noteq> t_id t"
    and t': "remove_relation now k (t_id other) t = (t_changed, t')"
    and other': "remove_relation now (inverse_kind k) (t_id t) other = (other_changed, other')"
    and save: "save_many_with_outbox cap ((if t_changed then [(t', SrcLocalEdit)] else []) @
        (if other_changed then [(other', SrcLocalEdit)] else [])) es d = Inr d'"
  shows "db_wf d' \<and> graph_wf (relation_edges d') \<and> task_ids d' = task_ids d \<and>
    relation_edges d' = relation_edges d - edge_pair (t_id t) k (t_id other)"
proof -
  let ?E = "relation_edges d" let ?F = "?E - edge_pair (t_id t) k (t_id other)"
  have ids: "t_id t' = t_id t" "t_id other' = t_id other"
    using relation_op_ids(2) [of now k "t_id other" t] relation_op_ids(2) [of now "inverse_kind k" "t_id t" other] t' other'
    by auto
  have t_edges: "task_edges t' = edges_of (t_id t) ?F"
    using task_edges_remove [of now k "t_id other" t] t' assms(3,5) by (auto simp: loaded_def edges_of_pair)
  have o_edges: "task_edges other' = edges_of (t_id other) ?F"
    using task_edges_remove [of now "inverse_kind k" "t_id t" other] other' assms(4,5)
    by (auto simp: loaded_def edges_of_pair)
  have absent: "\<not> t_changed \<Longrightarrow> edges_of (t_id t) ?F = edges_of (t_id t) ?E"
    "\<not> other_changed \<Longrightarrow> edges_of (t_id other) ?F = edges_of (t_id other) ?E"
    using remove_relation_unchanged [of now k "t_id other" t]
      remove_relation_unchanged [of now "inverse_kind k" "t_id t" other] t' other' assms(3-5)
    by (auto simp: loaded_def edges_of_pair)
  have F: "relation_edges d' = ?F"
  proof (rule save_many_edges [OF save])
    fix i
    assume "i \<notin> t_id ` fst ` set ((if t_changed then [(t', SrcLocalEdit)] else []) @
        (if other_changed then [(other', SrcLocalEdit)] else []))"
    then have "(i = t_id t \<longrightarrow> \<not> t_changed) \<and> (i = t_id other \<longrightarrow> \<not> other_changed)"
      using ids by (auto split: if_splits)
    with absent assms(5) show "edges_of i ?F = edges_of i ?E" by (cases "i \<in> {t_id t, t_id other}") (auto simp: edges_of_pair)
  qed (use ids t_edges o_edges in \<open>auto split: if_splits\<close>)
  have "graph_wf ?F"
    using graph_wf_subset [OF assms(2)] assms(2) reciprocal_minus by (simp add: graph_wf_def [of ?E])
  moreover have "task_ids d' = task_ids d"
    by (rule save_many_same_ids [OF save]) (use assms(3,4) ids in \<open>auto simp: loaded_def split: if_splits\<close>)
  ultimately show ?thesis using F save_many_with_outbox_wf [OF assms(1) save] by simp
qed

lemma remove_relation_effect:
  assumes "db_wf (wd_db w)" "graph_wf (relation_edges (wd_db w))"
  shows "wp (ts_remove_relation env cmd) (exact w (\<lambda>d'.
    \<exists>k t other. parse_relation_kind (rc_kind cmd) = Inr k \<and>
       resolve_task (env_parse_uuid env) (wd_cat w) (wd_db w) (rc_task_id cmd) = Inr t \<and>
       resolve_task (env_parse_uuid env) (wd_cat w) (wd_db w) (rc_other cmd) = Inr other \<and>
       db_wf d' \<and> graph_wf (relation_edges d') \<and> task_ids d' = task_ids (wd_db w) \<and>
       relation_edges d' = relation_edges (wd_db w) - edge_pair (t_id t) k (t_id other))) w"
  (is "wp _ (exact w ?P) w")
proof -
  define P where "P = ?P"
  have ok: "P d'"
    if "parse_relation_kind (rc_kind cmd) = Inr k"
      and t: "resolve_task (env_parse_uuid env) (wd_cat w) (wd_db w) (rc_task_id cmd) = Inr t"
      and other: "resolve_task (env_parse_uuid env) (wd_cat w) (wd_db w) (rc_other cmd) = Inr other"
      and "t_id other \<noteq> t_id t"
      and "remove_relation now k (t_id other) t = (t_changed, t')"
      and "remove_relation now (inverse_kind k) (t_id t) other = (other_changed, other')"
      and "save_many_with_outbox cap ((if t_changed then [(t', SrcLocalEdit)] else []) @
        (if other_changed then [(other', SrcLocalEdit)] else [])) es (wd_db w) = Inr d'"
    for k t other t' other' t_changed other_changed cap now es d'
    using remove_relation_saved [OF assms resolve_task_loaded [OF t] resolve_task_loaded [OF other] that(4-7)] that(1-3)
    unfolding P_def by blast
  note both = ok [where t_changed = True and other_changed = True, simplified]
    and left = ok [where t_changed = True and other_changed = False, simplified]
    and right = ok [where t_changed = False and other_changed = True, simplified]
    and neither = ok [where t_changed = False and other_changed = False and es = "[]", simplified save_nothing]
  show ?thesis
    unfolding ts_remove_relation_def Let_def P_def [symmetric]
    by (simp add: wp_simps exact_failed split: sum.split prod.split)
      (intro allI impI conjI; rule exact_changed; simp;
        ((rule both; assumption) | (rule left; assumption) | (rule right; assumption) | (rule neither; (assumption | simp))))
qed

section \<open>Clearing a task's relations\<close>

lemma remove_kinds_edges:
  "t_id (snd (remove_kinds now ks i t)) = t_id t \<and>
   task_edges (snd (remove_kinds now ks i t)) = task_edges t - {e. \<exists>k \<in> set ks. e = (t_id t, k, i)} \<and>
   (\<not> fst (remove_kinds now ks i t) \<longrightarrow> task_edges (snd (remove_kinds now ks i t)) = task_edges t)"
proof (induction ks arbitrary: t)
  case (Cons k ks)
  obtain c1 t1 where t1: "remove_relation now k i t = (c1, t1)" by force
  obtain c2 t2 where t2: "remove_kinds now ks i t1 = (c2, t2)" by force
  have "t_id t1 = t_id t" "task_edges t1 = task_edges t - {(t_id t, k, i)}"
    "\<not> c1 \<Longrightarrow> (t_id t, k, i) \<notin> task_edges t"
    using relation_op_ids(2) [of now k i t] task_edges_remove [of now k i t]
      remove_relation_unchanged [of now k i t] t1 by auto
  moreover have "remove_kinds now (k # ks) i t = (c1 \<or> c2, t2)" by (simp add: t1 t2)
  ultimately show ?case using Cons.IH [of t1] t2 by auto
qed auto

lemma strip_neighbours_effect:
  assumes F: "\<And>j. j \<noteq> i \<Longrightarrow> edges_of j F = edges_of j (relation_edges (wd_db w)) -
      {e. \<exists>r \<in> set removed. rel_other r = j \<and> e = (j, inverse_kind (rel_kind r), i)}"
    and "i \<notin> set js"
  shows "wp (strip_neighbours env removed i js cache) (\<lambda>r w'. wd_db w' = wd_db w \<and> wd_cat w' = wd_cat w \<and>
    (\<forall>others cs c. r = Inr (others, cs, c) \<longrightarrow>
       (\<forall>x \<in> set others. t_id x \<in> set js \<and> task_edges x = edges_of (t_id x) F) \<and>
       (\<forall>j \<in> set js - t_id ` set others. edges_of j F = edges_of j (relation_edges (wd_db w))))) w"
  using assms
proof (induction js arbitrary: cache w)
  case (Cons j js)
  let ?ks = "map (\<lambda>r. inverse_kind (rel_kind r)) (filter (\<lambda>r. rel_other r = j) removed)"
  have other: "t_id x = j \<and> task_edges x = edges_of j F \<and>
      (\<not> ch \<longrightarrow> edges_of j F = edges_of j (relation_edges (wd_db w)))"
    if get: "get_task j (wd_db w) = Inr o0" and x: "remove_kinds now ?ks i o0 = (ch, x)" for o0 now ch x
  proof -
    have o0: "t_id o0 = j" "task_edges o0 = edges_of j (relation_edges (wd_db w))"
      using get_task_id [OF get] get_task_loaded [OF get] by (auto simp: loaded_def)
    have "j \<noteq> i" using Cons.prems(2) by auto
    have "{e. \<exists>k \<in> set ?ks. e = (j, k, i)} =
        {e. \<exists>r \<in> set removed. rel_other r = j \<and> e = (j, inverse_kind (rel_kind r), i)}" by auto
    with o0 remove_kinds_edges [of now ?ks i o0] x Cons.prems(1) [OF \<open>j \<noteq> i\<close>] show ?thesis by auto
  qed
  have IH: "wp (strip_neighbours env removed i js cache') (\<lambda>r w'. wd_db w' = wd_db w \<and> wd_cat w' = wd_cat w \<and>
    (\<forall>others cs c. r = Inr (others, cs, c) \<longrightarrow>
       (\<forall>x \<in> set others. t_id x \<in> set js \<and> task_edges x = edges_of (t_id x) F) \<and>
       (\<forall>j \<in> set js - t_id ` set others. edges_of j F = edges_of j (relation_edges (wd_db w)))))
     (w\<lparr>wd_tick := k\<rparr>)" for cache' k
    using Cons.IH [of "w\<lparr>wd_tick := k\<rparr>" cache'] Cons.prems by simp
  show ?case
    by (simp add: wp_simps split: sum.split prod.split)
      (intro allI impI conjI; frule (1) other; rule wp_conseq [OF IH]; auto)
qed (simp add: wp_simps)

definition isolate :: "task_id \<Rightarrow> (task_id \<times> relation_kind \<times> task_id) set \<Rightarrow> (task_id \<times> relation_kind \<times> task_id) set" where
  "isolate a E = {(x, k, y) \<in> E. x \<noteq> a \<and> y \<noteq> a}"

lemma edges_of_isolate:
  assumes "reciprocal (relation_edges d)" "loaded d t" "j \<noteq> t_id t"
  shows "edges_of j (isolate (t_id t) (relation_edges d)) = edges_of j (relation_edges d) -
    {e. \<exists>r \<in> set (t_relations t). rel_other r = j \<and> e = (j, inverse_kind (rel_kind r), t_id t)}"
proof -
  have "(j, k, t_id t) \<in> relation_edges d \<longleftrightarrow>
      (\<exists>r \<in> set (t_relations t). rel_kind r = inverse_kind k \<and> rel_other r = j)" for k
  proof -
    have "(j, k, t_id t) \<in> relation_edges d \<longleftrightarrow> (t_id t, inverse_kind k, j) \<in> relation_edges d"
      using assms(1) unfolding reciprocal_def by fastforce
    also have "\<dots> \<longleftrightarrow> (t_id t, inverse_kind k, j) \<in> task_edges t"
      using assms(2) by (simp add: loaded_def edges_of_def)
    finally show ?thesis by (simp add: task_edges_iff relation_exists_iff)
  qed
  moreover have "(\<exists>r \<in> set (t_relations t). rel_other r = j \<and> k = inverse_kind (rel_kind r)) \<longleftrightarrow>
      (\<exists>r \<in> set (t_relations t). rel_kind r = inverse_kind k \<and> rel_other r = j)" for k
    by (metis inverse_kind_involutive)
  ultimately show ?thesis using assms(3) by (auto simp: isolate_def edges_of_def)
qed

lemma loaded_relation_ids: "db_wf d \<Longrightarrow> loaded d t \<Longrightarrow> rel_other ` set (t_relations t) \<subseteq> task_ids d"
proof -
  assume wf: "db_wf d" and t: "loaded d t"
  have "rel_other r \<in> task_ids d" if "r \<in> set (t_relations t)" for r
  proof -
    have "(t_id t, rel_kind r, rel_other r) \<in> task_edges t"
      using that by (simp add: task_edges_iff flip: relation_exists_iff) blast
    then have "(t_id t, rel_kind r, rel_other r) \<in> relation_edges d"
      using t by (auto simp: loaded_def edges_of_def)
    then show ?thesis using wf by (auto simp: relation_edges_def edge_def db_wf_def db_refs_def image_subset_iff)
  qed
  then show ?thesis by blast
qed

lemma clear_relations_saved:
  assumes "db_wf d" "graph_wf (relation_edges d)" "loaded d t"
    and others: "\<forall>x \<in> set others. t_id x \<in> set js \<and> task_edges x = edges_of (t_id x) (isolate (t_id t) (relation_edges d))"
    and rest: "\<forall>j \<in> set js - t_id ` set others.
      edges_of j (isolate (t_id t) (relation_edges d)) = edges_of j (relation_edges d)"
    and js: "set js = rel_other ` set (t_relations t) - {t_id t}"
    and save: "save_many_with_outbox cap ((snd (clear_relations now t), SrcLocalEdit) #
      map (\<lambda>x. (x, SrcLocalEdit)) others) es d = Inr d'"
  shows "db_wf d' \<and> graph_wf (relation_edges d') \<and> task_ids d' = task_ids d \<and>
    relation_edges d' = isolate (t_id t) (relation_edges d)"
proof -
  let ?F = "isolate (t_id t) (relation_edges d)"
  have rec: "reciprocal (relation_edges d)" using assms(2) by (simp add: graph_wf_def)
  have F: "relation_edges d' = ?F"
  proof (rule save_many_edges [OF save])
    show "task_edges x = edges_of (t_id x) ?F"
      if "(x, src) \<in> set ((snd (clear_relations now t), SrcLocalEdit) # map (\<lambda>x. (x, SrcLocalEdit)) others)" for x src
      using that others by (auto simp: task_edges_clear) (auto simp: isolate_def edges_of_def)
    fix i
    assume i: "i \<notin> t_id ` fst ` set ((snd (clear_relations now t), SrcLocalEdit) # map (\<lambda>x. (x, SrcLocalEdit)) others)"
    then have "i \<noteq> t_id t" "i \<notin> t_id ` set others" by (auto simp: image_image)
    with rest js edges_of_isolate [OF rec assms(3), of i] show "edges_of i ?F = edges_of i (relation_edges d)"
      by (cases "i \<in> set js") auto
  qed
  have "graph_wf ?F"
    unfolding isolate_def by (rule graph_wf_subset [OF assms(2) _ reciprocal_isolate [OF rec]]) auto
  moreover have "task_ids d' = task_ids d"
    by (rule save_many_same_ids [OF save])
      (use loaded_relation_ids [OF assms(1,3)] assms(3) others js in \<open>auto simp: loaded_def\<close>)
  ultimately show ?thesis using F save_many_with_outbox_wf [OF assms(1) save] by simp
qed

lemma clear_relations_effect:
  assumes "db_wf (wd_db w)" "graph_wf (relation_edges (wd_db w))"
    and order: "\<And>k xs. set (env_map_order env k xs) = set xs"
  shows "wp (ts_clear_relations env q) (exact w (\<lambda>d'.
    \<exists>t. resolve_task (env_parse_uuid env) (wd_cat w) (wd_db w) q = Inr t \<and>
       db_wf d' \<and> graph_wf (relation_edges d') \<and> task_ids d' = task_ids (wd_db w) \<and>
       relation_edges d' = isolate (t_id t) (relation_edges (wd_db w)))) w"
  (is "wp _ (exact w ?P) w")
proof -
  define P where "P = ?P"
  let ?d = "wd_db w"
  have main: "wp (strip_neighbours env removed (t_id t) (env_map_order env k
        (remdups (filter (\<lambda>j. j \<noteq> t_id t) (map rel_other removed)))) []) (\<lambda>r w'. case r of
          Inl e \<Rightarrow> wd_db w' = ?d
        | Inr (others, coords, cache) \<Rightarrow> wd_db w' = ?d \<and>
            (\<forall>cap es d'. save_many_with_outbox cap ((t, SrcLocalEdit) # map (\<lambda>x. (x, SrcLocalEdit)) others) es ?d = Inr d' \<longrightarrow> P d'))
      (w\<lparr>wd_tick := m\<rparr>)"
    if t0: "resolve_task (env_parse_uuid env) (wd_cat w) ?d q = Inr t0"
      and t: "clear_relations now t0 = (removed, t)" and ne: "removed \<noteq> []" for t0 now removed t k m
  proof -
    let ?js = "env_map_order env k (remdups (filter (\<lambda>j. j \<noteq> t_id t) (map rel_other removed)))"
    have ld: "loaded ?d t0" using resolve_task_loaded [OF t0] .
    have t': "t = snd (clear_relations now t0)" "removed = t_relations t0" "t_id t = t_id t0"
      using t relation_op_ids(3) [of now t0] ne by (auto simp: clear_relations_def split: if_splits)
    have js: "set ?js = rel_other ` set (t_relations t0) - {t_id t0}" using order t' by auto
    have "t_id t \<notin> set ?js" using js t'(3) by simp
    from strip_neighbours_effect [OF _ this, of "isolate (t_id t0) (relation_edges ?d)" "w\<lparr>wd_tick := m\<rparr>" removed env "[]"]
    have strip: "wp (strip_neighbours env removed (t_id t) ?js []) (\<lambda>r w'. wd_db w' = ?d \<and> wd_cat w' = wd_cat w \<and>
      (\<forall>others cs c. r = Inr (others, cs, c) \<longrightarrow>
       (\<forall>x \<in> set others. t_id x \<in> set ?js \<and> task_edges x = edges_of (t_id x) (isolate (t_id t0) (relation_edges ?d))) \<and>
       (\<forall>j \<in> set ?js - t_id ` set others. edges_of j (isolate (t_id t0) (relation_edges ?d)) = edges_of j (relation_edges ?d))))
      (w\<lparr>wd_tick := m\<rparr>)"
      using edges_of_isolate [OF _ ld] assms(2) t' by (simp add: graph_wf_def)
    show ?thesis
    proof (rule wp_conseq [OF strip], goal_cases)
      case (1 r w')
      have "P d'" if r: "r = Inr (others, cs, c)"
        and "save_many_with_outbox cap ((t, SrcLocalEdit) # map (\<lambda>x. (x, SrcLocalEdit)) others) es ?d = Inr d'"
        for others cs c cap es d'
      proof -
        from 1 r have
          "\<forall>x \<in> set others. t_id x \<in> set ?js \<and> task_edges x = edges_of (t_id x) (isolate (t_id t0) (relation_edges ?d))"
          "\<forall>j \<in> set ?js - t_id ` set others. edges_of j (isolate (t_id t0) (relation_edges ?d)) = edges_of j (relation_edges ?d)"
          by simp_all
        from clear_relations_saved [OF assms(1,2) ld this js that(2) [unfolded t'(1)]] t0
        show ?thesis unfolding P_def by (intro exI [of _ t0] conjI; blast)
      qed
      moreover have "wd_db w' = ?d" using 1 by simp
      ultimately show ?case by (simp split: sum.split prod.split) blast
    qed
  qed
  have unrelated: "P (wd_db w)"
    if t0: "resolve_task (env_parse_uuid env) (wd_cat w) ?d q = Inr t0"
      and t: "clear_relations now t0 = ([], t)" for t0 now t
  proof -
    have "t_relations t0 = []" using t by (auto simp: clear_relations_def split: if_splits)
    with edges_of_isolate [of ?d t0] resolve_task_loaded [OF t0] assms(2)
    have "edges_of j (isolate (t_id t0) (relation_edges ?d)) = edges_of j (relation_edges ?d)" for j
      by (cases "j = t_id t0") (auto simp: graph_wf_def loaded_def task_edges_def, auto simp: isolate_def edges_of_def)
    then have "isolate (t_id t0) (relation_edges ?d) = relation_edges ?d" unfolding edges_of_def by blast
    with t0 assms(1,2) show ?thesis unfolding P_def by (intro exI [of _ t0]) simp
  qed
  show ?thesis
    unfolding ts_clear_relations_def P_def [symmetric]
    by (simp add: wp_simps exact_failed split: sum.split prod.split)
      (intro allI impI conjI; ((rule exact_changed, simp, rule unrelated; assumption) |
        (rule wp_conseq [OF main], assumption+, auto simp: exact_def split: sum.splits)))
qed

end
