(* ===== verification/ServiceStore.thy ===== *)
theory ServiceStore
  imports RelationCommands
begin

text \<open>
  Every command of \<open>TaskService\<close> keeps the store: the integrity constraints, the snapshot
  numbering and the relation graph; and it stores no task but those it found, except that a create
  and an import add one, under an id drawn during the command.  A command is a quiet prefix, which
  reads and plans, and at most one transaction; \<open>quiet\<close> carries what is known of the planned value.
\<close>

section \<open>Quiet programs\<close>

definition quiet :: "('e, 'a) em \<Rightarrow> ('a \<Rightarrow> bool) \<Rightarrow> bool" where
  "quiet m V \<longleftrightarrow> (\<forall>w. wp m (\<lambda>r w'. wd_db w' = wd_db w \<and> wd_cat w' = wd_cat w \<and>
     wd_tick w \<le> wd_tick w' \<and> (\<forall>x. r = Inr x \<longrightarrow> V x)) w)"

named_theorems quiet_intros

lemma quiet_bnd:
  assumes "quiet m V" "\<And>x. V x \<Longrightarrow> quiet (f x) U"
  shows "quiet (bnd m f) U"
  unfolding quiet_def
proof
  fix w
  show "wp (bnd m f) (\<lambda>r w'. wd_db w' = wd_db w \<and> wd_cat w' = wd_cat w \<and> wd_tick w \<le> wd_tick w' \<and>
    (\<forall>x. r = Inr x \<longrightarrow> U x)) w"
    unfolding wp_bnd
  proof (rule wp_conseq, rule spec [OF assms(1) [unfolded quiet_def]], goal_cases)
    case (1 r w')
    show ?case
    proof (cases r)
      case (Inr x)
      with 1 assms(2) [unfolded quiet_def] have
        "wp (f x) (\<lambda>r w''. wd_db w'' = wd_db w' \<and> wd_cat w'' = wd_cat w' \<and> wd_tick w' \<le> wd_tick w'' \<and>
          (\<forall>x. r = Inr x \<longrightarrow> U x)) w'" by blast
      with 1 Inr show ?thesis by (auto elim!: wp_conseq)
    qed (use 1 in simp)
  qed
qed

lemma quiet_prims [quiet_intros]:
  "V x \<Longrightarrow> quiet (ret x) V"
  "quiet (throw e) V"
  by (simp_all add: quiet_def wp_simps)

lemma quiet_reads:
  "quiet (query f) (\<lambda>_. True)" "quiet (reads g) (\<lambda>_. True)" "quiet tick (\<lambda>_. True)"
  "quiet (timestamp_now env) (\<lambda>_. True)" "quiet (id_arg env what s) (\<lambda>_. True)"
  "quiet (into_entries env i ms) (\<lambda>_. True)" "quiet (task_dto t) (\<lambda>_. True)"
  by (simp_all add: quiet_def wp_simps)

lemmas quiet_bnd_reads = quiet_reads [THEN quiet_bnd]

lemma quiet_given [quiet_intros]:
  "V t \<Longrightarrow> (\<And>v. quiet (f v t) V) \<Longrightarrow> quiet (given x f t) V"
  by (cases x) (simp_all add: given_def quiet_intros)

lemma quiet_edit [quiet_intros]:
  "(\<And>now t'. g now t = Inr t' \<Longrightarrow> V t') \<Longrightarrow> quiet (edit env g t) V"
  by (simp add: quiet_def wp_simps)

lemma quiet_if [quiet_intros]: "(b \<Longrightarrow> quiet m V) \<Longrightarrow> (\<not> b \<Longrightarrow> quiet n V) \<Longrightarrow> quiet (if b then m else n) V"
  by simp

lemma quiet_origin_of_binding: "quiet (origin_of_binding env s) (\<lambda>_. True)"
  unfolding origin_of_binding_def by (intro quiet_bnd_reads quiet_intros) simp

section \<open>Edits keep the relations\<close>

definition same_relations :: "task \<Rightarrow> task \<Rightarrow> bool" where
  "same_relations t t' \<longleftrightarrow> t_id t' = t_id t \<and> t_relations t' = t_relations t"

lemma same_relations_refl [simp]: "same_relations t t"
  by (simp add: same_relations_def)

lemma same_relations_trans: "same_relations t u \<Longrightarrow> same_relations u v \<Longrightarrow> same_relations t v"
  by (simp add: same_relations_def)

lemma same_relations_edits:
  "set_title now x t = Inr t' \<Longrightarrow> same_relations t t'"
  "same_relations t (set_body now b t)"
  "same_relations t (set_priority now p t)"
  "same_relations t (set_assignees now as t)"
  "set_repo_id now r t = Inr t' \<Longrightarrow> same_relations t t'"
  "set_filing_repo_id now f t = Inr t' \<Longrightarrow> same_relations t t'"
  "same_relations t (force_set_filing_repo_id now f t)"
  "same_relations t (set_issue_type now it t)"
  "stage_for_sync now t = Inr t' \<Longrightarrow> same_relations t t'"
  "start t = Inr t' \<Longrightarrow> same_relations t t'"
  "complete now t = Inr t' \<Longrightarrow> same_relations t t'"
  "reopen now t = Inr t' \<Longrightarrow> same_relations t t'"
  "archive now t = Inr t' \<Longrightarrow> same_relations t t'"
  by (auto simp: same_relations_def task_sync_defs task_edit_defs touch_def complete_def reopen_def archive_def Let_def
      split: if_splits)

lemma same_relations_loaded: "loaded d t \<Longrightarrow> same_relations t t' \<Longrightarrow> loaded d t'"
  by (simp add: loaded_def same_relations_def task_edges_def)

lemma same_relations_reconcile [simp]: "same_relations t (reconcile_dirty_against_baseline u) = same_relations t u"
  by (simp add: same_relations_def task_sync_defs split: option.split)

lemma same_relations_restore: "same_relations t (restore_snapshot now s t)"
  by (simp add: restore_snapshot_def Let_def) (simp add: same_relations_def set_issue_type_def touch_def)

lemma quiet_keep:
  "(\<And>t' now. g now t = Inr t' \<Longrightarrow> same_relations t t') \<Longrightarrow> same_relations t0 t \<Longrightarrow> quiet (edit env g t) (same_relations t0)"
  by (rule quiet_edit) (blast intro: same_relations_trans)

lemma apply_update_cmd_quiet: "quiet (apply_update_cmd env cmd t) (same_relations t)"
  unfolding apply_update_cmd_def
  by (intro quiet_bnd [where V = "same_relations t"] quiet_given quiet_bnd_reads
      quiet_origin_of_binding [THEN quiet_bnd] quiet_keep same_relations_refl)
    (auto intro: same_relations_edits)

lemma plan_mirror_mutations_quiet:
  "quiet (plan_mirror_mutations env content_changed t) (\<lambda>(ms, t'). same_relations t t')"
  unfolding plan_mirror_mutations_def
  by (intro quiet_if quiet_prims quiet_bnd_reads quiet_bnd [where V = "same_relations t"] quiet_keep)
    (auto intro: same_relations_edits quiet_prims)

lemma plan_update_mutations_quiet:
  "quiet (plan_update_mutations env sync_before converted t) (\<lambda>(ms, t'). same_relations t t')"
  unfolding plan_update_mutations_def Let_def
  by (intro quiet_if quiet_prims quiet_bnd_reads plan_mirror_mutations_quiet) auto

lemma plan_off_axis_quiet: "quiet (plan_off_axis p it t) (\<lambda>_. True)"
  unfolding plan_off_axis_def
  by (intro quiet_bnd [where V = "\<lambda>_. True"] quiet_if quiet_prims quiet_reads) auto

lemma first_filing_quiet: "quiet (first_filing b f t) (\<lambda>_. True)"
  unfolding first_filing_def by (intro quiet_if quiet_prims quiet_bnd_reads) auto

section \<open>One transaction\<close>

text \<open>Integrity and edges are kept, and the only new tasks are those of the ids \<open>I\<close>.\<close>

definition keeps_store :: "task_id set \<Rightarrow> db \<Rightarrow> db \<Rightarrow> bool" where
  "keeps_store I d d' \<longleftrightarrow> db_wf d' \<and> relation_edges d' = relation_edges d \<and> task_ids d' \<subseteq> task_ids d \<union> I"

lemma save_task_keeps:
  assumes "db_wf d" "loaded d t" "write_task_in_tx cap t src d = Inr d'"
  shows "keeps_store I d d'"
  using write_task_wf [OF assms(1,3)] relation_edges_write_same [OF assms(3)] write_task_ids [OF assms(3)] assms(2)
  by (auto simp: keeps_store_def loaded_def)

lemma keeps_store_other_tables [simp]:
  "keeps_store I d (insert_entries es d') = keeps_store I d d'"
  "keeps_store I d (d'\<lparr>db_comments := c\<rparr>) = keeps_store I d d'"
  by (simp_all add: keeps_store_def insert_entries_def db_wf_other_tables relation_edges_def)

text \<open>A command that from the tables of \<open>w\<close> leaves them alone or keeps the store.\<close>

definition keeps :: "task_id set \<Rightarrow> world \<Rightarrow> ('e, 'a) em \<Rightarrow> bool" where
  "keeps I w m \<longleftrightarrow> (\<forall>v. wd_db v = wd_db w \<longrightarrow> wd_cat v = wd_cat w \<longrightarrow>
     wp m (\<lambda>r w'. outcome w (keeps_store I (wd_db w)) r w' \<and> wd_tick v \<le> wd_tick w') v)"

lemma keeps_bnd:
  assumes "quiet m V" "\<And>x. V x \<Longrightarrow> keeps I w (f x)"
  shows "keeps I w (bnd m f)"
  unfolding keeps_def
proof (intro allI impI)
  fix v :: world
  assume v: "wd_db v = wd_db w" "wd_cat v = wd_cat w"
  show "wp (bnd m f) (\<lambda>r w'. outcome w (keeps_store I (wd_db w)) r w' \<and> wd_tick v \<le> wd_tick w') v"
    unfolding wp_bnd
  proof (rule wp_conseq, rule spec [OF assms(1) [unfolded quiet_def]], goal_cases)
    case (1 r u)
    show ?case
    proof (cases r)
      case (Inr x)
      with 1 v assms(2) [of x, unfolded keeps_def, rule_format, of u] show ?thesis by (auto elim!: wp_conseq)
    qed (use 1 v in \<open>simp add: outcome_same\<close>)
  qed
qed

lemmas keeps_bnd_reads = quiet_reads [THEN keeps_bnd]

lemma keeps_quiet: "quiet m V \<Longrightarrow> keeps I w m"
  using keeps_bnd [of m V I w ret] by (simp add: keeps_def wp_simps outcome_same)

lemma keeps_if: "(b \<Longrightarrow> keeps I w m) \<Longrightarrow> (\<not> b \<Longrightarrow> keeps I w n) \<Longrightarrow> keeps I w (if b then m else n)"
  by simp

lemma keeps_ts_task:
  assumes "\<And>t. loaded (wd_db w) t \<Longrightarrow> keeps I w (f t)"
  shows "keeps I w (bnd (ts_task env q) f)"
  unfolding keeps_def
proof (intro allI impI)
  fix v :: world
  assume v: "wd_db v = wd_db w" "wd_cat v = wd_cat w"
  show "wp (bnd (ts_task env q) f) (\<lambda>r w'. outcome w (keeps_store I (wd_db w)) r w' \<and> wd_tick v \<le> wd_tick w') v"
  proof (cases "resolve_task (env_parse_uuid env) (wd_cat v) (wd_db v) q")
    case (Inr t)
    with assms [OF resolve_task_loaded] v show ?thesis by (simp add: wp_simps keeps_def)
  qed (use v in \<open>simp add: wp_simps outcome_same\<close>)
qed

lemma keeps_get_task:
  assumes "\<And>t. loaded (wd_db w) t \<Longrightarrow> keeps I w (f t)"
  shows "keeps I w (bnd (query (\<lambda>w. from_port (get_task i (wd_db w)))) f)"
  unfolding keeps_def
proof (intro allI impI)
  fix v :: world
  assume v: "wd_db v = wd_db w" "wd_cat v = wd_cat w"
  show "wp (bnd (query (\<lambda>w. from_port (get_task i (wd_db w)))) f) (\<lambda>r w'. outcome w (keeps_store I (wd_db w)) r w' \<and> wd_tick v \<le> wd_tick w') v"
  proof (cases "get_task i (wd_db v)")
    case (Inr t)
    with assms [OF get_task_loaded] v show ?thesis by (simp add: wp_simps keeps_def from_port_def)
  qed (use v in \<open>simp add: wp_simps outcome_same from_port_def\<close>)
qed

lemma keeps_commit:
  assumes "db_wf (wd_db w)" "loaded (wd_db w) t"
  shows "keeps I w (bnd (transact env (\<lambda>cap. save_with_outbox cap t src es)) (\<lambda>_. task_dto t))"
    "keeps I w (bnd (transact env (\<lambda>cap. save_task cap t src)) (\<lambda>_. task_dto t))"
  using save_task_keeps [OF assms]
  by (auto simp: keeps_def wp_simps save_with_outbox_def save_task_def split: sum.split
      intro: outcome_same outcome_changed)

section \<open>The commands\<close>

lemma quiet_record_filing:
  "same_relations t0 t \<Longrightarrow>
   quiet (if filing \<noteq> None then edit env (\<lambda>now. set_filing_repo_id now filing) t else ret t) (same_relations t0)"
  by (intro quiet_if quiet_prims quiet_keep) (auto intro: same_relations_edits)

lemma quiet_planned:
  assumes "\<And>t. quiet (m t) (\<lambda>(ms, t'). same_relations t t')" "same_relations t0 t"
  shows "quiet (m t) (\<lambda>(ms, t'). same_relations t0 t')"
proof -
  have "quiet (bnd (m t) ret) (\<lambda>(ms, t'). same_relations t0 t')"
    by (rule quiet_bnd [OF assms(1)]) (use assms(2) in \<open>auto intro!: quiet_prims dest: same_relations_trans\<close>)
  then show ?thesis by simp
qed

lemma ts_update_keeps: "db_wf (wd_db w) \<Longrightarrow> keeps I w (ts_update env cmd)"
  unfolding ts_update_def
  by (intro keeps_ts_task keeps_bnd [OF apply_update_cmd_quiet] keeps_bnd [OF first_filing_quiet]
      keeps_bnd [OF quiet_record_filing] keeps_bnd [OF quiet_planned [OF plan_update_mutations_quiet]])
    (auto intro!: keeps_bnd [OF plan_off_axis_quiet] keeps_bnd_reads keeps_commit dest: same_relations_loaded)

lemma ts_repoint_filing_repo_keeps: "db_wf (wd_db w) \<Longrightarrow> keeps I w (ts_repoint_filing_repo env q target)"
  unfolding ts_repoint_filing_repo_def
  by (rule keeps_bnd_reads, rule keeps_ts_task, rule keeps_bnd_reads, rule keeps_get_task,
      rule keeps_bnd [OF quiet_keep [OF _ same_relations_refl]])
    (auto intro!: keeps_commit same_relations_edits same_relations_refl dest: same_relations_loaded)

lemma transition_keeps:
  assumes "db_wf (wd_db w)" "\<And>now t t'. op now t = Inr t' \<Longrightarrow> same_relations t t'"
  shows "keeps I w (transition env q op)"
  unfolding transition_def
  by (intro keeps_ts_task keeps_bnd [OF quiet_keep [OF assms(2)]])
    (auto intro!: keeps_commit assms(1) same_relations_refl dest: same_relations_loaded)

lemma transition_mirror_keeps:
  assumes "db_wf (wd_db w)" "\<And>now t t'. op now t = Inr t' \<Longrightarrow> same_relations t t'"
  shows "keeps I w (transition_mirror env q op)"
  unfolding transition_mirror_def
  by (intro keeps_ts_task keeps_bnd [OF quiet_keep [OF assms(2)]] keeps_if keeps_quiet [OF quiet_reads(7)]
       keeps_bnd [OF quiet_planned [OF plan_mirror_mutations_quiet]])
    (auto intro!: keeps_bnd_reads keeps_commit assms(1) same_relations_refl dest: same_relations_loaded)

lemma ts_rollback_keeps: "db_wf (wd_db w) \<Longrightarrow> keeps I w (ts_rollback env q v)"
  unfolding ts_rollback_def
  by (intro keeps_ts_task keeps_bnd_reads keeps_bnd [OF quiet_keep] keeps_bnd [OF plan_off_axis_quiet])
    (auto intro!: keeps_commit same_relations_restore dest: same_relations_loaded)

lemma ts_add_comment_keeps: "db_wf (wd_db w) \<Longrightarrow> keeps I w (ts_add_comment env q body author)"
  unfolding ts_add_comment_def
proof (intro keeps_if keeps_quiet [OF quiet_prims(2)] keeps_ts_task keeps_bnd_reads)
  fix t k
  assume "db_wf (wd_db w)"
  then show "keeps I w (bnd (modify_db (add_pending_comment (show_uuid (env_id env k)) (t_id t) author body (env_now env k))) (\<lambda>_.
      bnd (query (\<lambda>w. from_port (get_task (t_id t) (wd_db w)))) task_dto))"
    by (auto simp: keeps_def wp_simps add_pending_comment_def split: sum.split intro!: outcome_changed)
      (auto simp: keeps_store_def)
qed

lemma ts_reads_keep: "keeps I w (ts_show env q)" "keeps I w (ts_list_snapshots env q)" "keeps I w (ts_list env lq)"
proof -
  have "quiet (collect task_dto ts) (\<lambda>_. True)" for ts
  proof (induction ts)
    case (Cons t ts)
    then show ?case unfolding collect.simps by (intro quiet_bnd_reads) (rule quiet_bnd, assumption, simp add: quiet_prims(1))
  qed (simp only: collect.simps quiet_prims)
  then show "keeps I w (ts_list env lq)"
    unfolding ts_list_def by (intro keeps_bnd_reads) (rule keeps_quiet)
  show "keeps I w (ts_show env q)" unfolding ts_show_def by (intro keeps_ts_task keeps_quiet [OF quiet_reads(7)])
  show "keeps I w (ts_list_snapshots env q)"
    unfolding ts_list_snapshots_def by (intro keeps_ts_task keeps_quiet [OF quiet_reads(2)])
qed

text \<open>A created task has a fresh id and no relation, so every attempt to store it is harmless.\<close>

lemma loaded_fresh:
  assumes "db_wf d" "t_id t \<notin> t_id ` set (db_tasks d)" "t_relations t = []" "write_task_in_tx cap t src d = Inr d'"
  shows "keeps_store {t_id t} d d'"
proof -
  have "t_id t \<notin> fst ` set (db_relations d)" using assms(1,2) by (auto simp: db_wf_def db_refs_def)
  then have "task_edges t = edges_of (t_id t) (relation_edges d)"
    using assms(3) by (auto simp: task_edges_def edges_of_def relation_edges_def edge_def) (metis fst_conv image_eqI)
  with write_task_wf [OF assms(1,4)] relation_edges_write_same [OF assms(4)] write_task_ids [OF assms(4)] show ?thesis
    by (simp add: keeps_store_def)
qed

lemma save_hash_conflict:
  assumes "save_task cap t src d = Inl e" "conflict_target e = Some (lit ''tasks.hash'')"
  shows "\<exists>r \<in> set (db_tasks d). t_id r \<noteq> t_id t \<and> t_hash r = t_hash t"
proof -
  have rel: "insert_relations rows i rs acc = Inl e' \<Longrightarrow> conflict_target e' \<noteq> Some (lit ''tasks.hash'')" for rows i rs acc e'
    by (induction rows i rs acc rule: insert_relations.induct)
      (auto simp: unique_violation_def lit_def split: if_splits)
  have maps: "upsert_mapping t ms = Inl e' \<Longrightarrow> conflict_target e' \<noteq> Some (lit ''tasks.hash'')" for ms e'
    by (auto simp: upsert_mapping_def unique_violation_def Let_def lit_def split: option.splits if_splits)
  show ?thesis
    using assms rel maps
    by (auto simp: save_task_def write_task_in_tx_def Let_def list_ex_iff split: if_splits sum.splits)
qed

text \<open>What the minting loop may do from length \<open>len\<close> after \<open>attempts\<close> collisions there.\<close>

definition mint_result :: "env \<Rightarrow> task \<Rightarrow> snapshot_source \<Rightarrow> nat \<Rightarrow> nat \<Rightarrow> world \<Rightarrow> service_error + task \<Rightarrow> world \<Rightarrow> bool" where
  "mint_result env t src len budget w r w' \<longleftrightarrow>
     wd_cat w' = wd_cat w \<and> wd_tick w < wd_tick w' \<and> wd_tick w' \<le> wd_tick w + budget \<and>
     (case r of
        Inr t' \<Rightarrow> t' = t\<lparr>t_hash := t_hash t'\<rparr> \<and>
          (\<exists>n \<in> {len..MAX_HASH_LEN}. \<exists>k. t_hash t' = random_lowercase_base32 (env_draws env k) n) \<and>
          (\<exists>cap. save_task cap t' src (wd_db w) = Inr (wd_db w'))
      | Inl e \<Rightarrow> wd_db w' = wd_db w \<and>
          ((\<exists>cap h pe. save_task cap (t\<lparr>t_hash := h\<rparr>) src (wd_db w) = Inl pe \<and> e = SvPort pe \<and>
              conflict_target pe \<noteq> Some (lit ''tasks.hash'')) \<or>
           wd_tick w' = wd_tick w + budget \<and>
           (\<forall>k \<in> {wd_tick w..<wd_tick w'}. \<exists>n \<in> {len..MAX_HASH_LEN}. \<exists>row \<in> set (db_tasks (wd_db w)).
              t_hash row = random_lowercase_base32 (env_draws env k) n)))"

lemma mint_result_retry:
  assumes "mint_result env t src len' budget (w\<lparr>wd_tick := Suc (wd_tick w)\<rparr>) r w'" "len \<le> len'"
    "row \<in> set (db_tasks (wd_db w))" "len \<le> MAX_HASH_LEN"
    "t_hash row = random_lowercase_base32 (env_draws env (wd_tick w)) len"
  shows "mint_result env t src len (Suc budget) w r w'"
proof -
  have sub: "{len'..MAX_HASH_LEN} \<subseteq> {len..MAX_HASH_LEN}" using assms(2) by auto
  show ?thesis
  proof (cases r)
    case (Inl e)
    have "\<exists>n \<in> {len..MAX_HASH_LEN}. \<exists>row \<in> set (db_tasks (wd_db w)). t_hash row = random_lowercase_base32 (env_draws env k) n"
      if "wd_tick w \<le> k" "\<forall>k \<in> {Suc (wd_tick w)..<wd_tick w'}. \<exists>n \<in> {len'..MAX_HASH_LEN}. \<exists>row \<in> set (db_tasks (wd_db w)).
        t_hash row = random_lowercase_base32 (env_draws env k) n" "k < wd_tick w'" for k
    proof (cases "k = wd_tick w")
      case True
      with assms(3-5) show ?thesis by (intro bexI [of _ len] bexI [of _ row]) auto
    next
      case False
      with that have "k \<in> {Suc (wd_tick w)..<wd_tick w'}" by auto
      with that(2) sub show ?thesis by blast
    qed
    with assms(1) Inl show ?thesis by (auto simp: mint_result_def)
  next
    case (Inr t')
    with assms(1) sub show ?thesis by (auto simp: mint_result_def)
  qed
qed

lemma mint_loop_result:
  assumes "len \<le> MAX_HASH_LEN" "attempts < K_RETRIES_AT_LENGTH" "mint_loop env t src len attempts w = (r, w')"
  shows "mint_result env t src len (K_RETRIES_AT_LENGTH * (MAX_HASH_LEN - len) + (K_RETRIES_AT_LENGTH - attempts)) w r w'"
  using assms
proof (induction env t src len attempts w rule: mint_loop.induct)
  case (1 env t src len attempts w)
  let ?h = "random_lowercase_base32 (env_draws env (wd_tick w)) len"
  let ?save = "save_task (env_now env (wd_tick w)) (t\<lparr>t_hash := ?h\<rparr>) src (wd_db w)"
  let ?w1 = "w\<lparr>wd_tick := Suc (wd_tick w)\<rparr>"
  note unf = "1.prems"(3) [unfolded mint_loop.simps [of env t src len attempts w] Let_def]
  show ?case
  proof (cases ?save)
    case (Inr d)
    with unf have "r = Inr (t\<lparr>t_hash := ?h\<rparr>)" "w' = ?w1\<lparr>wd_db := d\<rparr>" by auto
    with Inr "1.prems"(1,2) show ?thesis
      by (auto simp: mint_result_def intro!: bexI [of _ len])
  next
    case (Inl e)
    show ?thesis
    proof (cases "conflict_target e = Some (lit ''tasks.hash'')")
      case False
      with Inl unf have "r = Inl (SvPort e)" "w' = ?w1" by auto
      with Inl False "1.prems"(1,2) show ?thesis by (auto simp: mint_result_def)
    next
      case True
      from save_hash_conflict [OF Inl True] obtain row where row: "row \<in> set (db_tasks (wd_db w))" "t_hash row = ?h"
        by auto
      note retry = mint_result_retry [OF _ _ row(1) "1.prems"(1) row(2)]
      consider (next_len) "K_RETRIES_AT_LENGTH \<le> Suc attempts" "Suc len \<le> MAX_HASH_LEN"
        | (give_up) "K_RETRIES_AT_LENGTH \<le> Suc attempts" "MAX_HASH_LEN < Suc len"
        | (again) "Suc attempts < K_RETRIES_AT_LENGTH" by linarith
      then show ?thesis
      proof cases
        case next_len
        with unf Inl True have run: "mint_loop env t src (Suc len) 0 ?w1 = (r, w')" by simp
        have "K_RETRIES_AT_LENGTH * (MAX_HASH_LEN - len) + (K_RETRIES_AT_LENGTH - attempts) =
            Suc (K_RETRIES_AT_LENGTH * (MAX_HASH_LEN - Suc len) + (K_RETRIES_AT_LENGTH - 0))"
          using next_len "1.prems"(2) by (simp add: Suc_diff_Suc [symmetric] less_eq_Suc_le algebra_simps)
        with retry [OF "1.IH"(1) [OF refl refl Inl True next_len(1) _ next_len(2) _ run]] next_len show ?thesis
          by (simp add: K_RETRIES_AT_LENGTH_def)
      next
        case give_up
        with unf Inl True have "w' = ?w1" "\<exists>m. r = Inl (SvPort (Backend m))" by auto
        moreover have "K_RETRIES_AT_LENGTH - attempts = 1" "MAX_HASH_LEN = len" using give_up "1.prems"(1,2) by auto
        ultimately show ?thesis using row by (auto simp: mint_result_def)
      next
        case again
        with unf Inl True have run: "mint_loop env t src len (Suc attempts) ?w1 = (r, w')" by simp
        with retry [OF "1.IH"(2) [OF refl refl Inl True]] again "1.prems"(1) show ?thesis
          by (simp add: Suc_diff_Suc)
      qed
    qed
  qed
qed

lemma keeps_minted:
  assumes "db_wf (wd_db w)" "t_id t \<notin> t_id ` set (db_tasks (wd_db w))" "t_relations t = []"
  shows "keeps {t_id t} w (bnd (save_with_minted_hash env t src) task_dto)"
  unfolding keeps_def
proof (intro allI impI)
  fix v :: world
  assume v: "wd_db v = wd_db w" "wd_cat v = wd_cat w"
  obtain r v' where run: "save_with_minted_hash env t src v = (r, v')" by force
  then have res: "mint_result env t src MIN_HASH_LEN (8 * 14) v r v'"
    using mint_loop_result [of MIN_HASH_LEN 0 env t src v r v']
    by (simp add: save_with_minted_hash_def K_RETRIES_AT_LENGTH_def MIN_HASH_LEN_def MAX_HASH_LEN_def)
  have tick: "wd_tick v \<le> wd_tick v'" using res by (simp add: mint_result_def)
  show "wp (bnd (save_with_minted_hash env t src) task_dto)
    (\<lambda>r w'. outcome w (keeps_store {t_id t} (wd_db w)) r w' \<and> wd_tick v \<le> wd_tick w') v"
  proof (cases r)
    case (Inl e)
    with res v have "wd_db v' = wd_db w" by (auto simp: mint_result_def)
    with run Inl tick show ?thesis by (simp add: wp_def bnd_def outcome_same)
  next
    case (Inr t')
    with res v obtain cap where "save_task cap t' src (wd_db w) = Inr (wd_db v')" and t': "t' = t\<lparr>t_hash := t_hash t'\<rparr>"
      by (auto simp: mint_result_def)
    moreover have "t_id t' = t_id t" "t_relations t' = []" by (subst t', simp add: assms(3))+
    ultimately have "keeps_store {t_id t} (wd_db w) (wd_db v')"
      using loaded_fresh [of "wd_db w" t' cap src "wd_db v'"] assms by (simp add: save_task_def)
    with run Inr tick show ?thesis by (simp add: wp_def bnd_def task_dto_def query_def outcome_changed)
  qed
qed

definition new_task :: "task_id \<Rightarrow> task \<Rightarrow> bool" where
  "new_task i t \<longleftrightarrow> t_relations t = [] \<and> t_id t = i"

lemma new_task_edit: "new_task i t \<Longrightarrow> same_relations t t' \<Longrightarrow> new_task i t'"
  by (simp add: new_task_def same_relations_def)

lemma quiet_new_edit:
  "(\<And>t' now. g now t = Inr t' \<Longrightarrow> same_relations t t') \<Longrightarrow> new_task i t \<Longrightarrow> quiet (edit env g t) (new_task i)"
  by (rule quiet_edit) (blast intro: new_task_edit)

lemma quiet_new_draft:
  "quiet (query (\<lambda>_. from_domain (new_draft i now ws repo title))) (new_task i)"
  "quiet (query (\<lambda>_. from_domain (import_mirror i now cap ws repo rr title body as closed))) (new_task i)"
  by (auto simp: quiet_def wp_simps new_draft_def import_mirror_def new_task_def Let_def split: if_splits)

lemma keeps_new:
  assumes "db_wf (wd_db w)" "i \<notin> task_ids (wd_db w)" "new_task i t"
  shows "keeps {i} w (bnd (save_with_minted_hash env t src) task_dto)"
  using keeps_minted [OF assms(1), of t] assms(2,3) by (simp add: new_task_def)

text \<open>A create or import stores at most one new task, under the id it drew first.\<close>

definition adds_one :: "env \<Rightarrow> world \<Rightarrow> ('e, 'a) em \<Rightarrow> bool" where
  "adds_one env w m \<longleftrightarrow> wp m (\<lambda>r w'. wd_db w' = wd_db w \<or>
     keeps_store {env_id env (wd_tick w)} (wd_db w) (wd_db w') \<and> wd_tick w < wd_tick w') w"

lemma adds_one_tick:
  assumes "keeps {env_id env (wd_tick w)} w (f (wd_tick w))"
  shows "adds_one env w (bnd tick f)"
proof -
  from assms [unfolded keeps_def, rule_format, of "w\<lparr>wd_tick := Suc (wd_tick w)\<rparr>"]
  show ?thesis by (auto simp: adds_one_def wp_simps outcome_def elim!: wp_conseq)
qed

lemma adds_one_read: "(\<And>x. adds_one env w (f x)) \<Longrightarrow> adds_one env w (bnd (id_arg env' what s) f)"
  by (simp add: adds_one_def wp_simps split: sum.split)

lemma adds_one_given:
  "(\<And>x. adds_one env w (f x)) \<Longrightarrow>
     adds_one env w (bnd (given a (\<lambda>s _. bnd (id_arg env' what s) (\<lambda>i. ret (Some i))) None) f)"
  by (cases a) (simp_all add: given_def adds_one_def wp_simps split: sum.split)

lemma ts_create_adds:
  assumes "db_wf (wd_db w)" "env_id env (wd_tick w) \<notin> task_ids (wd_db w)"
  shows "adds_one env w (ts_create env cmd)"
proof -
  note mint = keeps_new [OF assms]
  show ?thesis
    unfolding ts_create_def
    by (intro adds_one_read adds_one_given adds_one_tick)
      (intro keeps_bnd [OF quiet_new_draft(1)] keeps_bnd [where V = "\<lambda>_. True"] mint
        keeps_bnd [where V = "new_task (env_id env (wd_tick w))"] quiet_given quiet_bnd_reads
        quiet_origin_of_binding [THEN quiet_bnd] quiet_new_edit quiet_prims;
       auto intro: same_relations_edits)
qed

lemma ts_import_mirror_adds:
  assumes "db_wf (wd_db w)" "env_id env (wd_tick w) \<notin> task_ids (wd_db w)"
  shows "adds_one env w (ts_import_mirror env cmd)"
proof -
  note mint = keeps_new [OF assms]
  show ?thesis
    unfolding ts_import_mirror_def
    by (intro adds_one_read adds_one_given adds_one_tick)
      (intro keeps_bnd [OF quiet_new_draft(2)] keeps_bnd [where V = "\<lambda>_. True"] mint
        keeps_bnd [where V = "new_task (env_id env (wd_tick w))"] quiet_given quiet_bnd_reads quiet_new_edit quiet_prims;
       auto intro: same_relations_edits)
qed

section \<open>The service as one interface\<close>

datatype service_request =
    RqCreate create_task_cmd
  | RqImport import_mirror_cmd
  | RqShow rstring
  | RqList list_tasks_query
  | RqSnapshots rstring
  | RqComment rstring rstring rstring
  | RqUpdate update_task_cmd
  | RqRepoint rstring "repo_id option"
  | RqStage rstring
  | RqStart rstring
  | RqComplete rstring
  | RqReopen rstring
  | RqArchive rstring
  | RqRollback rstring nat
  | RqAddRelation relation_cmd
  | RqRemoveRelation relation_cmd
  | RqClearRelations rstring

definition after :: "('e, 'a) em \<Rightarrow> world \<Rightarrow> world" where
  "after m w = snd (m w)"

fun run_request :: "env \<Rightarrow> service_request \<Rightarrow> world \<Rightarrow> world" where
  "run_request env (RqCreate cmd) w = after (ts_create env cmd) w"
| "run_request env (RqImport cmd) w = after (ts_import_mirror env cmd) w"
| "run_request env (RqShow q) w = after (ts_show env q) w"
| "run_request env (RqList q) w = after (ts_list env q) w"
| "run_request env (RqSnapshots q) w = after (ts_list_snapshots env q) w"
| "run_request env (RqComment q body author) w = after (ts_add_comment env q body author) w"
| "run_request env (RqUpdate cmd) w = after (ts_update env cmd) w"
| "run_request env (RqRepoint q target) w = after (ts_repoint_filing_repo env q target) w"
| "run_request env (RqStage q) w = after (ts_stage_for_sync env q) w"
| "run_request env (RqStart q) w = after (ts_start env q) w"
| "run_request env (RqComplete q) w = after (ts_complete env q) w"
| "run_request env (RqReopen q) w = after (ts_reopen env q) w"
| "run_request env (RqArchive q) w = after (ts_archive env q) w"
| "run_request env (RqRollback q v) w = after (ts_rollback env q v) w"
| "run_request env (RqAddRelation cmd) w = after (ts_add_relation env cmd) w"
| "run_request env (RqRemoveRelation cmd) w = after (ts_remove_relation env cmd) w"
| "run_request env (RqClearRelations q) w = after (ts_clear_relations env q) w"

text \<open>What one request leaves: an intact store with an intact relation graph, and of new tasks at most
  one, under the id its environment drew at the tick the request began.\<close>

definition request_result :: "env \<Rightarrow> world \<Rightarrow> world \<Rightarrow> bool" where
  "request_result env w w' \<longleftrightarrow> db_wf (wd_db w') \<and> graph_wf (relation_edges (wd_db w')) \<and>
     (task_ids (wd_db w') \<subseteq> task_ids (wd_db w) \<or>
      wd_tick w < wd_tick w' \<and> task_ids (wd_db w') \<subseteq> insert (env_id env (wd_tick w)) (task_ids (wd_db w)))"

lemma outcome_after:
  assumes "wp m (outcome w P) w" "\<And>d'. P d' \<Longrightarrow> db_wf d' \<and> graph_wf (relation_edges d') \<and> task_ids d' \<subseteq> task_ids (wd_db w)"
    "db_wf (wd_db w)" "graph_wf (relation_edges (wd_db w))"
  shows "request_result env w (after m w)"
  using assms by (fastforce simp: wp_def outcome_def after_def request_result_def split: prod.splits)

lemma keeps_after:
  assumes "db_wf (wd_db w)" "graph_wf (relation_edges (wd_db w))" "keeps {} w m"
  shows "request_result env w (after m w)"
proof (rule outcome_after)
  show "wp m (outcome w (keeps_store {} (wd_db w))) w"
    by (rule wp_conseq [OF assms(3) [unfolded keeps_def, rule_format, OF refl refl]]) simp
qed (use assms in \<open>auto simp: keeps_store_def\<close>)

lemma adds_one_after:
  assumes "db_wf (wd_db w)" "graph_wf (relation_edges (wd_db w))" "adds_one env w m"
  shows "request_result env w (after m w)"
  using assms by (auto simp: adds_one_def wp_def after_def request_result_def keeps_store_def split: prod.splits)

lemma verbs_keep:
  assumes "db_wf (wd_db w)"
  shows "keeps I w (ts_stage_for_sync env q)" "keeps I w (ts_start env q)" "keeps I w (ts_complete env q)"
    "keeps I w (ts_reopen env q)" "keeps I w (ts_archive env q)"
  unfolding ts_stage_for_sync_def ts_start_def ts_complete_def ts_reopen_def ts_archive_def
  by (rule transition_keeps transition_mirror_keeps, rule assms, erule same_relations_edits)+

lemma run_request_result:
  assumes "db_wf (wd_db w)" "graph_wf (relation_edges (wd_db w))"
    and fresh: "env_id env (wd_tick w) \<notin> task_ids (wd_db w)"
    and order: "\<And>k xs. set (env_map_order env k xs) = set xs"
  shows "request_result env w (run_request env rq w)"
proof (cases rq)
  case (RqAddRelation cmd)
  show ?thesis unfolding RqAddRelation run_request.simps
    by (rule outcome_after [OF exact_outcome [OF add_relation_effect [OF assms(1,2)]] _ assms(1,2)]) blast
next
  case (RqRemoveRelation cmd)
  show ?thesis unfolding RqRemoveRelation run_request.simps
    by (rule outcome_after [OF exact_outcome [OF remove_relation_effect [OF assms(1,2)]] _ assms(1,2)]) blast
next
  case (RqClearRelations q)
  show ?thesis unfolding RqClearRelations run_request.simps
    by (rule outcome_after [OF exact_outcome [OF clear_relations_effect [OF assms(1,2) order]] _ assms(1,2)]) blast
qed (simp_all only: run_request.simps,
    (rule adds_one_after [OF assms(1,2)], rule ts_create_adds [OF assms(1) fresh] ts_import_mirror_adds [OF assms(1) fresh])+,
    (rule keeps_after [OF assms(1,2)],
      rule ts_reads_keep ts_add_comment_keeps [OF assms(1)] ts_update_keeps [OF assms(1)] ts_repoint_filing_repo_keeps [OF assms(1)]
        verbs_keep [OF assms(1)] ts_rollback_keeps [OF assms(1)])+)

definition pair_world :: world where
  "pair_world = \<lparr>wd_db = pair_db,
     wd_cat = \<lparr>cat_workspaces = [], cat_projects = [], cat_issue_types = [], cat_instances = [], cat_origins = []\<rparr>,
     wd_tick = 0, wd_calls = []\<rparr>"

lemma pair_world_ok:
  "db_wf (wd_db pair_world)" "graph_wf (relation_edges (wd_db pair_world))"
  "env_id idle_env k \<notin> t_id ` set (db_tasks (wd_db pair_world))"
  "set (env_map_order idle_env k xs) = set xs"
  using pair_db_wf pair_db_graph(2) by (simp_all add: pair_world_def) (simp_all add: pair_db_def idle_env_def)

end
