(* ===== verification/ServiceProps.thy ===== *)
theory ServiceProps
  imports ServiceStore
begin

text \<open>
  What the commands of the task service do: relation edits take effect exactly, a minted hash is
  valid and unique or every draw was taken, the displayed id of a task resolves to it, lifecycle
  verbs commit the task with the mutations it owes, and a rollback restores the chosen version.
\<close>

section \<open>Relation commands\<close>

text \<open>C16 The relation commands are exact and all-or-nothing: one that does not fail before its
  transaction has added, or removed, precisely the requested edge with its reciprocal, or has
  removed every edge of the task in both directions; one that fails has changed nothing.\<close>

theorem relation_commands_exact:
  assumes "db_wf (wd_db w)" "graph_wf (relation_edges (wd_db w))"
    and "\<And>k xs. set (env_map_order env k xs) = set xs"
  shows "exact w (\<lambda>d'. \<exists>k t other. parse_relation_kind (rc_kind cmd) = Inr k \<and>
       resolve_task (env_parse_uuid env) (wd_cat w) (wd_db w) (rc_task_id cmd) = Inr t \<and>
       resolve_task (env_parse_uuid env) (wd_cat w) (wd_db w) (rc_other cmd) = Inr other \<and>
       relation_edges d' = relation_edges (wd_db w) \<union> edge_pair (t_id t) k (t_id other))
      (fst (ts_add_relation env cmd w)) (snd (ts_add_relation env cmd w)) \<and>
    exact w (\<lambda>d'. \<exists>k t other. parse_relation_kind (rc_kind cmd) = Inr k \<and>
       resolve_task (env_parse_uuid env) (wd_cat w) (wd_db w) (rc_task_id cmd) = Inr t \<and>
       resolve_task (env_parse_uuid env) (wd_cat w) (wd_db w) (rc_other cmd) = Inr other \<and>
       relation_edges d' = relation_edges (wd_db w) - edge_pair (t_id t) k (t_id other))
      (fst (ts_remove_relation env cmd w)) (snd (ts_remove_relation env cmd w)) \<and>
    exact w (\<lambda>d'. \<exists>t. resolve_task (env_parse_uuid env) (wd_cat w) (wd_db w) q = Inr t \<and>
       relation_edges d' = isolate (t_id t) (relation_edges (wd_db w)))
      (fst (ts_clear_relations env q w)) (snd (ts_clear_relations env q w))"
proof -
  have run: "exact w P' (fst (m w)) (snd (m w))" if "wp m (exact w P) w" "\<And>d'. P d' \<Longrightarrow> P' d'"
    for m :: "('e, 'a) em" and P P'
    using that by (auto simp: wp_def exact_def split: prod.splits)
  show ?thesis
    by (intro conjI; (rule run [OF add_relation_effect [OF assms(1,2)]] run [OF remove_relation_effect [OF assms(1,2)]]
        run [OF clear_relations_effect [OF assms]]); blast)
qed

lemma pair_world_abc:
  "resolve_task (env_parse_uuid idle_env) (wd_cat pair_world) pair_db (lit ''abc'') = Inr t \<Longrightarrow> t_id t = 1"
  by (auto simp: resolve_task_def idle_env_def find_by_hash_def pair_db_def lit_def hydrate_def row_to_task_def
      is_valid_hash_def MIN_HASH_LEN_def MAX_HASH_LEN_def)

theorem relation_commands_exact_witness:
  "(\<exists>e. fst (ts_clear_relations idle_env (lit ''abc'') pair_world) = Inl e) \<or>
   relation_edges (wd_db (snd (ts_clear_relations idle_env (lit ''abc'') pair_world))) = {}"
proof -
  have "isolate 1 (relation_edges pair_db) = {}"
    unfolding pair_db_graph(1) by (auto simp: isolate_def edge_pair_def)
  with relation_commands_exact [OF pair_world_ok(1,2,4), of _ "lit ''abc''"] pair_world_abc show ?thesis
    by (fastforce simp: exact_def pair_world_def)
qed

section \<open>Minting\<close>

lemma random_base32_valid:
  assumes "MIN_HASH_LEN \<le> len" "len \<le> MAX_HASH_LEN"
  shows "is_valid_hash (random_lowercase_base32 draw len)"
proof -
  have "encodes [] [] 0 0 []" by (simp add: encodes_def owed_def)
  from draw_loop_encodes [OF this, of draw 0 len] obtain idxs where
    "random_lowercase_base32 draw len = map (\<lambda>i. ALPHABET ! i) idxs" "length idxs = len" "\<forall>i \<in> set idxs. i < 32"
    by (auto simp: random_lowercase_base32_def bit_stream_def)
  with assms alphabet_chars show ?thesis by (auto simp: is_valid_hash_def list_all_iff)
qed

text \<open>C31 Minting ends after at most 112 draws (eight at each length from 3 to 16).  It returns the
  task under a valid hash that no other stored task has, with the task stored; or it fails with
  the store unchanged, and then either storing failed for another reason, or each of the 112
  draws hit a hash already in the store.\<close>

theorem minted_hash_unique:
  assumes "save_with_minted_hash env t src w = (r, w')"
  shows "wd_tick w' \<le> wd_tick w + 112 \<and>
    (case r of
       Inr t' \<Rightarrow> is_valid_hash (t_hash t') \<and> t' = t\<lparr>t_hash := t_hash t'\<rparr> \<and>
         (\<forall>row \<in> set (db_tasks (wd_db w)). t_id row \<noteq> t_id t \<longrightarrow> t_hash row \<noteq> t_hash t') \<and>
         (\<exists>x. get_task (t_id t) (wd_db w') = Inr x \<and> same_record t' x)
     | Inl e \<Rightarrow> wd_db w' = wd_db w \<and>
         ((\<exists>cap h pe. save_task cap (t\<lparr>t_hash := h\<rparr>) src (wd_db w) = Inl pe \<and> e = SvPort pe \<and>
             conflict_target pe \<noteq> Some (lit ''tasks.hash'')) \<or>
          wd_tick w' = wd_tick w + 112 \<and>
          (\<forall>k \<in> {wd_tick w..<wd_tick w + 112}. \<exists>n \<in> {3..16}. \<exists>row \<in> set (db_tasks (wd_db w)).
             t_hash row = random_lowercase_base32 (env_draws env k) n)))"
proof -
  have res: "mint_result env t src 3 112 w r w'"
    using mint_loop_result [of MIN_HASH_LEN 0 env t src w r w'] assms
    by (simp add: save_with_minted_hash_def K_RETRIES_AT_LENGTH_def MIN_HASH_LEN_def MAX_HASH_LEN_def)
  show ?thesis
  proof (cases r)
    case (Inl e)
    with res show ?thesis by (auto simp: mint_result_def MAX_HASH_LEN_def)
  next
    case (Inr t')
    from res have tick: "wd_tick w' \<le> wd_tick w + 112" unfolding mint_result_def by blast
    from res [unfolded mint_result_def Inr sum.case] obtain n k cap where
      t': "t' = t\<lparr>t_hash := t_hash t'\<rparr>" "n \<in> {3..MAX_HASH_LEN}"
        "t_hash t' = random_lowercase_base32 (env_draws env k) n"
      and save: "save_task cap t' src (wd_db w) = Inr (wd_db w')" by blast
    have valid: "is_valid_hash (t_hash t')"
      unfolding t'(3) by (rule random_base32_valid) (use t'(2) in \<open>auto simp: MIN_HASH_LEN_def\<close>)
    then have "t_hash t' \<noteq> []" by (auto simp: is_valid_hash_def MIN_HASH_LEN_def)
    with save have "\<not> list_ex (\<lambda>r. t_id r \<noteq> t_id t' \<and> t_hash r = t_hash t') (db_tasks (wd_db w))"
      by (auto simp: save_task_def write_task_in_tx_def split: if_splits)
    moreover have id: "t_id t' = t_id t" by (subst t'(1)) simp
    ultimately have other: "\<forall>row \<in> set (db_tasks (wd_db w)). t_id row \<noteq> t_id t \<longrightarrow> t_hash row \<noteq> t_hash t'"
      by (auto simp: list_ex_iff)
    from get_save_task [OF save] id have "\<exists>x. get_task (t_id t) (wd_db w') = Inr x \<and> same_record t' x" by metis
    with tick valid t'(1) other show ?thesis unfolding Inr sum.case by (intro conjI)
  qed
qed

theorem minted_hash_unique_witness:
  "\<exists>t' w'. save_with_minted_hash idle_env sample_mirror SrcCreated (pair_world\<lparr>wd_db := empty_db\<rparr>) = (Inr t', w') \<and>
     is_valid_hash (t_hash t')"
proof -
  let ?w = "pair_world\<lparr>wd_db := empty_db\<rparr>"
  let ?t = "sample_mirror\<lparr>t_hash := random_lowercase_base32 (env_draws idle_env (wd_tick ?w)) MIN_HASH_LEN\<rparr>"
  have rel: "t_relations sample_mirror = []"
    by (simp add: sample_simps is_whitespace_def)
  obtain d' where "save_task (env_now idle_env (wd_tick ?w)) ?t SrcCreated (wd_db ?w) = Inr d'"
    using save_solo [of ?t empty_db "env_now idle_env (wd_tick ?w)" SrcCreated]
    by (auto simp: solo_empty_db rel)
  then obtain t' w' where "save_with_minted_hash idle_env sample_mirror SrcCreated ?w = (Inr t', w')"
    unfolding save_with_minted_hash_def mint_loop.simps [of _ _ _ _ _ ?w] Let_def by simp
  with minted_hash_unique [OF this] show ?thesis by auto
qed

section \<open>Friendly ids\<close>

text \<open>The documented forms of \<open>Uuid::parse_str\<close>: at least 32 characters, with no hyphen (simple,
  braced or URN without groups) or the four hyphens of the grouped form.\<close>

definition uuid_syntax :: "(rstring \<Rightarrow> uuid option) \<Rightarrow> bool" where
  "uuid_syntax p \<longleftrightarrow> (\<forall>s u. p s = Some u \<longrightarrow> 32 \<le> length s \<and> length (filter (\<lambda>c. c = 45) s) \<in> {0, 4})"

lemma rsplit_once_none: "c \<notin> set s \<Longrightarrow> rsplit_once c s = None"
  by (induction s) auto

lemma rsplit_once_last: "c \<notin> set h \<Longrightarrow> rsplit_once c (a @ c # h) = Some (a, h)"
  by (induction a) (auto simp: rsplit_once_none)

lemma valid_hash_no_hyphen: "is_valid_hash h \<Longrightarrow> 45 \<notin> set h"
  by (auto simp: is_valid_hash_def list_all_iff)

lemma valid_prefix_no_hyphen: "is_valid_prefix p \<Longrightarrow> 45 \<notin> set p"
  by (cases p) (auto simp: is_valid_prefix_def list_all_iff is_ascii_lowercase_def is_ascii_digit_def split: if_splits)

lemma find_by_hash_of_task:
  assumes "db_wf d" "get_task i d = Inr t" "t_hash t \<noteq> []"
  shows "find_by_hash (t_hash t) d = Some t"
proof -
  obtain row where row: "row \<in> set (db_tasks d)" "t_id row = i" "t = hydrate d row"
    using assms(2) by (auto simp: get_task_def find_row_def split: option.splits dest!: find_Some_set)
  then have h: "t_hash t = t_hash row" by (simp add: hydrate_def row_to_task_def)
  with row(1) obtain row' where row': "List.find (\<lambda>r. t_hash r = t_hash t) (db_tasks d) = Some row'"
    by (cases "List.find (\<lambda>r. t_hash r = t_hash t) (db_tasks d)") (auto simp: find_None_iff)
  then have "row' \<in> set (db_tasks d)" "t_hash row' = t_hash row" using h by (auto dest: find_Some_set)
  moreover have "hashes_unique (db_tasks d)" "inj_on t_id (set (db_tasks d))"
    using assms(1) by (simp_all add: db_wf_def distinct_map)
  moreover have "t_hash row \<noteq> []" using assms(3) h by simp
  ultimately have "row' = row" using row(1) unfolding hashes_unique_def by (metis inj_onD)
  with row' row(3) assms(3) show ?thesis by (simp add: find_by_hash_def)
qed

text \<open>C34 What is displayed can be typed back: the composite id of a stored task, its bare hash, and
  its UUID all resolve to that task, and the composite also under a superseded prefix, one that
  extends the origin's prefix by digits.\<close>

theorem display_id_resolves:
  assumes "db_wf d" "get_task i d = Inr t" "is_valid_hash (t_hash t)" "uuid_syntax p"
    and "prefix_for c t = Inr pre" "\<And>x. pre = Some x \<Longrightarrow> is_valid_prefix x"
  shows "resolve_task p c d (assemble_task_display_id t pre) = Inr t \<and>
    resolve_task p c d (t_hash t) = Inr t \<and>
    (p (show_uuid i) = Some i \<longrightarrow> resolve_task p c d (show_uuid i) = Inr t) \<and>
    (\<forall>x old. pre = Some x \<longrightarrow> is_valid_prefix old \<longrightarrow> is_superseded_prefix old x \<longrightarrow>
       resolve_task p c d (old @ lit ''-'' @ t_hash t) = Inr t)"
proof -
  have ne: "t_hash t \<noteq> []" using assms(3) by (auto simp: is_valid_hash_def MIN_HASH_LEN_def)
  note found = find_by_hash_of_task [OF assms(1,2) ne]
  have hash: "45 \<notin> set (t_hash t)" "length (t_hash t) \<le> 16"
    using valid_hash_no_hyphen [OF assms(3)] assms(3) by (auto simp: is_valid_hash_def MAX_HASH_LEN_def)
  have bare: "p (t_hash t) = None" using assms(4) hash by (fastforce simp: uuid_syntax_def)
  have composite: "p (x @ lit ''-'' @ t_hash t) = None" if "is_valid_prefix x" for x
  proof -
    have "length (filter (\<lambda>c. c = 45) (x @ lit ''-'' @ t_hash t)) = 1"
      using hash(1) valid_prefix_no_hyphen [OF that] by (auto simp: lit_def filter_empty_conv)
    with assms(4) show ?thesis unfolding uuid_syntax_def by (metis not_None_eq insert_iff empty_iff zero_neq_one one_eq_numeral_iff semiring_norm(83))
  qed
  have "resolve_task p c d (t_hash t) = Inr t"
    using bare found assms(3) hash by (simp add: resolve_task_def rsplit_once_none)
  moreover have "resolve_task p c d (old @ lit ''-'' @ t_hash t) = Inr t"
    if "pre = Some x" "is_valid_prefix old" "old = x \<or> is_superseded_prefix old x" for x old
    using composite [OF that(2)] found assms(3,5) that hash(1)
    by (auto simp: resolve_task_def lit_def rsplit_once_last check_prefix_def prefix_for_def and_then_def from_port_def
        split: option.splits sum.splits)
  moreover have "p (show_uuid i) = Some i \<longrightarrow> resolve_task p c d (show_uuid i) = Inr t"
    using assms(2) by (simp add: resolve_task_def)
  ultimately show ?thesis
    using assms(6) ne by (auto simp: assemble_task_display_id_def split: option.splits)
qed

definition bound_catalog :: catalog where
  "bound_catalog = \<lparr>cat_workspaces = [], cat_projects = [], cat_issue_types = [],
     cat_instances = [\<lparr>ri_id = 4, ri_workspace_id = 1, ri_origin_id = 9, ri_tracked_branch = None,
       ri_canonical_url = lit ''github.com/o/r'', ri_worktrees = [], ri_created_at = 0, ri_updated_at = 0\<rparr>],
     cat_origins = [\<lparr>ro_id = 9, ro_canonical_url = lit ''github.com/o/r'', ro_remote_url = [], ro_name = lit ''r'',
       ro_aliases = [], ro_prefix = lit ''rl'', ro_created_at = 0, ro_updated_at = 0\<rparr>]\<rparr>"

theorem display_id_resolves_witness:
  "\<exists>t. resolve_task (\<lambda>_. None) bound_catalog pair_db (lit ''rl-abc'') = Inr t \<and> t_id t = 1 \<and>
     resolve_task (\<lambda>_. None) bound_catalog pair_db (lit ''rl1-abc'') = Inr t"
proof -
  let ?t = "hydrate pair_db (sample_mirror\<lparr>t_id := 1, t_hash := lit ''abc''\<rparr>)"
  have pre: "prefix_for bound_catalog (hydrate pair_db (sample_mirror\<lparr>t_id := 1, t_hash := lit ''abc''\<rparr>)) = Inr (Some (lit ''rl''))"
    by (simp add: prefix_for_def bound_catalog_def get_binding_def and_then_def hydrate_def row_to_task_def sample_simps)
  have get: "get_task 1 pair_db = Inr (hydrate pair_db (sample_mirror\<lparr>t_id := 1, t_hash := lit ''abc''\<rparr>))"
    by (simp add: get_task_def find_row_def) (simp add: pair_db_def)
  have "t_hash (hydrate pair_db (sample_mirror\<lparr>t_id := 1, t_hash := lit ''abc''\<rparr>)) = lit ''abc''"
    by (simp add: hydrate_def row_to_task_def)
  with display_id_resolves [OF pair_db_wf get _ _ pre, of "\<lambda>_. None"] get_task_id [OF get]
  have all: "resolve_task (\<lambda>_. None) bound_catalog pair_db (lit ''rl-abc'') = Inr ?t \<and> t_id ?t = 1 \<and>
    (\<forall>old. is_valid_prefix old \<longrightarrow> is_superseded_prefix old (lit ''rl'') \<longrightarrow>
      resolve_task (\<lambda>_. None) bound_catalog pair_db (old @ lit ''-'' @ lit ''abc'') = Inr ?t)"
    by (simp add: is_valid_hash_def MIN_HASH_LEN_def MAX_HASH_LEN_def uuid_syntax_def is_valid_prefix_def
        is_ascii_lowercase_def is_ascii_digit_def assemble_task_display_id_def lit_def)
  moreover have "is_valid_prefix (lit ''rl1'')" "is_superseded_prefix (lit ''rl1'') (lit ''rl'')"
    by (simp_all add: is_valid_prefix_def is_ascii_lowercase_def is_ascii_digit_def is_superseded_prefix_def str_len_def
        len_utf8_char_def starts_with_def lit_def)
  moreover have "lit ''rl1-abc'' = lit ''rl1'' @ lit ''-'' @ lit ''abc''" by (simp add: lit_def)
  ultimately show ?thesis by metis
qed

section \<open>Lifecycle verbs\<close>

text \<open>The first board filing records the filing repository on the task; nothing else is changed.\<close>

definition filing_recorded :: "task \<Rightarrow> task \<Rightarrow> bool" where
  "filing_recorded t t' \<longleftrightarrow> t' = t \<or>
     t_filing_repo_id t = None \<and> (\<exists>now f. set_filing_repo_id now f t = Inr t')"

definition owed_entries :: "catalog \<Rightarrow> task \<Rightarrow> task \<Rightarrow> outbox_entry list \<Rightarrow> bool" where
  "owed_entries c t t' es \<longleftrightarrow>
     (\<forall>e \<in> set es. e_task_id e = t_id t' \<and> e_status e = Pending) \<and>
     (if is_mirror t then
        \<exists>ws proj canonical. get_workspace (t_workspace_id t) c = Inr ws \<and>
          project_for_workspace c ws = Inr proj \<and> filing_canonical_for c t' = Inr canonical \<and>
          map e_mutation es = plan_mutations t' proj canonical False
      else es = [])"

lemma plan_mirror_mutations_wp:
  assumes "\<And>e v. wd_db v = wd_db w \<Longrightarrow> Q (Inl e) v"
    and "\<And>ms t' v. filing_recorded t t' \<Longrightarrow> (\<And>k. owed_entries (wd_cat w) t t' (planned_entries env (t_id t') k ms)) \<Longrightarrow>
      wd_db v = wd_db w \<Longrightarrow> wd_cat v = wd_cat w \<Longrightarrow> Q (Inr (ms, t')) v"
    "wd_cat v0 = wd_cat w" "wd_db v0 = wd_db w"
  shows "wp (plan_mirror_mutations env False t) Q v0"
proof (cases "is_mirror t")
  case True
  have ok: "Q (Inr (plan_mutations t' proj canonical False, t')) v"
    if "get_workspace (t_workspace_id t) (wd_cat w) = Inr ws" "project_for_workspace (wd_cat w) ws = Inr proj"
      "filing_recorded t t'" "filing_canonical_for (wd_cat w) t' = Inr canonical"
      "wd_db v = wd_db w" "wd_cat v = wd_cat w" for ws proj t' canonical v
    using that True by (intro assms(2)) (auto simp: owed_entries_def planned_entries_facts(1) dest: planned_entries_facts(2))
  show ?thesis
    unfolding plan_mirror_mutations_def using True
    by (simp add: wp_simps assms(1,3,4) split: sum.split)
      (auto simp: filing_recorded_def assms(3,4) intro!: ok)
next
  case False
  then show ?thesis
    by (simp add: plan_mirror_mutations_def wp_simps)
      (auto simp: filing_recorded_def owed_entries_def planned_entries_def assms(3,4) intro!: assms(2))
qed

text \<open>C17 A lifecycle verb is all-or-nothing with respect to the outbox: whatever happens, either the
  tables are unchanged, or the new state of the task (with the filing repository recorded if this
  is its first board filing) was stored together with exactly the pending entries it owes, in
  plan order; a task that is not mirrored owes none.\<close>

theorem lifecycle_verb_atomic:
  assumes "transition_mirror env q op w = (r, w')"
    and "resolve_task (env_parse_uuid env) (wd_cat w) (wd_db w) q = Inr t0"
  shows "wd_db w' = wd_db w \<or>
    (\<exists>now cap t t' es. op now t0 = Inr t \<and> t_updated_at t \<noteq> t_updated_at t0 \<and> filing_recorded t t' \<and>
       owed_entries (wd_cat w) t t' es \<and> save_with_outbox cap t' SrcLocalEdit es (wd_db w) = Inr (wd_db w'))"
proof -
  define P where "P = (\<lambda>d'. \<exists>now cap t t' es. op now t0 = Inr t \<and> t_updated_at t \<noteq> t_updated_at t0 \<and>
    filing_recorded t t' \<and> owed_entries (wd_cat w) t t' es \<and>
    save_with_outbox cap t' SrcLocalEdit es (wd_db w) = Inr d')"
  define rest where "rest t = bnd (plan_mirror_mutations env False t) (\<lambda>(ms, t).
    bnd (into_entries env (t_id t) ms) (\<lambda>entries.
    bnd (transact env (\<lambda>cap. save_with_outbox cap t SrcLocalEdit entries)) (\<lambda>_. task_dto t)))" for t
  have rest: "wp (rest t) (outcome w P) (w\<lparr>wd_tick := k\<rparr>)"
    if t: "op now t0 = Inr t" "t_updated_at t \<noteq> t_updated_at t0" for now t k
    unfolding rest_def wp_bnd [of "plan_mirror_mutations env False t"]
  proof (rule plan_mirror_mutations_wp [where w = w])
    fix ms t' and v :: world
    assume rec: "filing_recorded t t'" and owed: "\<And>k. owed_entries (wd_cat w) t t' (planned_entries env (t_id t') k ms)"
      and v: "wd_db v = wd_db w" "wd_cat v = wd_cat w"
    from t rec owed [of "wd_tick v"] have "P d'" if "save_with_outbox cap t' SrcLocalEdit (planned_entries env (t_id t') (wd_tick v) ms) (wd_db w) = Inr d'"
      for cap d' using that unfolding P_def by blast
    with v show "case Inr (ms, t') of Inl e \<Rightarrow> outcome w P (Inl e) v
      | Inr x \<Rightarrow> wp ((\<lambda>(ms, t). bnd (into_entries env (t_id t) ms) (\<lambda>entries.
         bnd (transact env (\<lambda>cap. save_with_outbox cap t SrcLocalEdit entries)) (\<lambda>_. task_dto t))) x) (outcome w P) v"
      by (simp add: wp_simps split: sum.split) (auto intro: outcome_same outcome_changed)
  qed (auto intro: outcome_same)
  have "wp (transition_mirror env q op) (outcome w P) w"
    unfolding transition_mirror_def rest_def [symmetric]
    by (simp add: wp_simps assms(2) outcome_same split: sum.split) (auto intro: outcome_same rest)
  with assms(1) show ?thesis by (simp add: wp_def outcome_def P_def)
qed

theorem lifecycle_verb_atomic_witness:
  "\<exists>t0 r w'. resolve_task (env_parse_uuid idle_env) (wd_cat pair_world) (wd_db pair_world) (lit ''abc'') = Inr t0 \<and>
     transition_mirror idle_env (lit ''abc'') complete pair_world = (r, w') \<and>
     (wd_db w' = wd_db pair_world \<or> (\<exists>cap t' es. save_with_outbox cap t' SrcLocalEdit es (wd_db pair_world) = Inr (wd_db w')))"
proof -
  obtain t0 where t0: "resolve_task (env_parse_uuid idle_env) (wd_cat pair_world) (wd_db pair_world) (lit ''abc'') = Inr t0"
    by (auto simp: resolve_task_def idle_env_def find_by_hash_def pair_db_def pair_world_def lit_def is_valid_hash_def MIN_HASH_LEN_def MAX_HASH_LEN_def)
  obtain r w' where "transition_mirror idle_env (lit ''abc'') complete pair_world = (r, w')" by force
  with t0 lifecycle_verb_atomic [OF this t0] show ?thesis by blast
qed

section \<open>Rollback\<close>

text \<open>A stored snapshot keeps provider and number of the remote issue, but not its node id.\<close>

lemma write_task_node_ids:
  assumes "write_task_in_tx cap t src d = Inr d'" "\<forall>s \<in> set (db_snapshots d). \<forall>rr. s_remote s = Some rr \<longrightarrow> rr_node_id rr = None"
  shows "\<forall>s \<in> set (db_snapshots d'). \<forall>rr. s_remote s = Some rr \<longrightarrow> rr_node_id rr = None"
  using assms by (elim write_task_cases) (auto simp: snapshot_row_def remote_ref_new_def)

lemma save_many_node_ids:
  "save_many cap ts d = Inr d' \<Longrightarrow> \<forall>s \<in> set (db_snapshots d). \<forall>rr. s_remote s = Some rr \<longrightarrow> rr_node_id rr = None \<Longrightarrow>
   \<forall>s \<in> set (db_snapshots d'). \<forall>rr. s_remote s = Some rr \<longrightarrow> rr_node_id rr = None"
  by (induction cap ts d rule: save_many.induct) (simp_all split: sum.splits, metis write_task_node_ids)

lemma apply_db_op_node_ids:
  assumes "apply_db_op op d = Inr d'" "\<forall>s \<in> set (db_snapshots d). \<forall>rr. s_remote s = Some rr \<longrightarrow> rr_node_id rr = None"
  shows "\<forall>s \<in> set (db_snapshots d'). \<forall>rr. s_remote s = Some rr \<longrightarrow> rr_node_id rr = None"
  using assms
proof (cases op)
  case (DbSave cap t src)
  with assms write_task_node_ids show ?thesis by (simp add: save_task_def)
next
  case (DbSaveMany cap ts es)
  with assms(1) obtain d1 where "save_many cap ts d = Inr d1" "d' = insert_entries es d1"
    by (auto simp: save_many_with_outbox_def split: sum.splits)
  with assms(2) save_many_node_ids show ?thesis by (simp add: insert_entries_def)
qed (auto simp: replace_comments_def add_pending_comment_def mark_comments_pushed_def delete_task_def cache_project_status_def
      apply_polled_priority_def mark_remote_dirty_def cache_remote_node_id_def update_row_def
      clear_issue_type_pending_def cache_synced_at_def Let_def)

lemma run_db_node_ids:
  "\<forall>s \<in> set (db_snapshots d). \<forall>rr. s_remote s = Some rr \<longrightarrow> rr_node_id rr = None \<Longrightarrow>
   \<forall>s \<in> set (db_snapshots (run_db ops d)). \<forall>rr. s_remote s = Some rr \<longrightarrow> rr_node_id rr = None"
proof (induction ops arbitrary: d)
  case (Cons op ops)
  then show ?case using apply_db_op_node_ids [of op d] by (cases "apply_db_op op d") simp_all
qed simp

lemma get_snapshot_node_id:
  "get_snapshot i v (run_db ops empty_db) = Inr s \<Longrightarrow> s_remote s = Some rr \<Longrightarrow> rr_node_id rr = None"
  using run_db_node_ids [of empty_db ops]
  by (auto simp: get_snapshot_def decode_snapshot_def empty_db_def split: option.splits dest!: find_Some_set)

lemma restore_snapshot_fields:
  shows "t_id (restore_snapshot now s t) = t_id t" "t_workspace_id (restore_snapshot now s t) = t_workspace_id t" "t_hash (restore_snapshot now s t) = t_hash t"
    "t_filing_repo_id (restore_snapshot now s t) = t_filing_repo_id t" "t_relations (restore_snapshot now s t) = t_relations t"
    "t_title (restore_snapshot now s t) = s_title s" "t_body (restore_snapshot now s t) = s_body s" "t_lifecycle (restore_snapshot now s t) = s_lifecycle s" "t_priority (restore_snapshot now s t) = s_priority s"
    "t_assignees (restore_snapshot now s t) = s_assignees s" "t_remote (restore_snapshot now s t) = s_remote s"
    "t_repo_id (restore_snapshot now s t) = (if s_repo_id_recorded s then s_repo_id s else t_repo_id t)"
  by (simp_all add: restore_snapshot_def reconcile_dirty_against_baseline_def set_issue_type_def touch_def Let_def
      split: option.split)

lemma save_with_outbox_log:
  assumes "save_with_outbox cap t src es d = Inr d'"
  shows "task_log (t_id t) d' = task_log (t_id t) d @ [snapshot_row cap (next_version d (t_id t)) t src] \<and>
    (\<exists>x. get_task (t_id t) d' = Inr x \<and> same_record t x)"
proof -
  obtain d1 where d1: "save_task cap t src d = Inr d1" "d' = insert_entries es d1"
    using assms by (auto simp: save_with_outbox_def save_task_def split: sum.splits)
  then have "get_task (t_id t) d' = get_task (t_id t) d1" "task_log (t_id t) d' = task_log (t_id t) d1"
    by (simp_all add: insert_entries_def get_task_def find_row_def hydrate_def load_relations_def load_latest_baseline_def
        baseline_rows_def load_comments_def task_log_def cong: option.case_cong)
  with get_save_task [OF d1(1)] d1(1) show ?thesis
    by (auto simp: save_task_def task_log_def snapshot_row_def elim!: write_task_cases)
qed

lemma no_native_without_node:
  assumes "remote_node_id t = None"
  shows "plan_issue_type_mutation c t \<noteq> Inr (Some (SetIssueType node opt name p))"
proof
  assume "plan_issue_type_mutation c t = Inr (Some (SetIssueType node opt name p))"
  then obtain proj owner where "resolve_type_projection proj c owner t = Some (SetIssueType node opt name p)"
    by (auto simp: plan_issue_type_mutation_def and_then_Inr)
  then have "resolve_issue_type_projection c owner t = ItpMutation (SetIssueType node opt name p)"
    by (auto simp: resolve_type_projection_def Let_def set_project_type_mutation_def bind_eq_Some_conv
        split: option.splits if_splits issue_type_projection.splits)
  with resolve_issue_type_projection_sound assms show False by fastforce
qed

text \<open>C33 A rollback restores the chosen version, or fails with the tables unchanged.  The stored task
  then has the title, body, lifecycle, priority, assignees, remote reference and (where recorded)
  binding of that version; its filing repository, workspace, hash and relations are those it had;
  the history has grown by one entry, and none is lost.  As snapshots do not record the node id of
  the remote issue, the restored task has none, and no native
  issue-type mutation can be planned for it.\<close>

theorem rollback_restores_version:
  assumes "ts_rollback env q v w = (r, w')" "wd_db w = run_db ops empty_db"
    and "resolve_task (env_parse_uuid env) (wd_cat w) (wd_db w) q = Inr t0"
    and "get_snapshot (t_id t0) v (wd_db w) = Inr s"
  shows "wd_db w' = wd_db w \<and> (\<exists>e. r = Inl e) \<or>
    (\<exists>x entry. get_task (t_id t0) (wd_db w') = Inr x \<and>
       t_title x = s_title s \<and> t_body x = s_body s \<and> t_lifecycle x = s_lifecycle s \<and>
       t_priority x = s_priority s \<and> t_assignees x = s_assignees s \<and> t_remote x = s_remote s \<and>
       t_repo_id x = (if s_repo_id_recorded s then s_repo_id s else t_repo_id t0) \<and>
       t_filing_repo_id x = t_filing_repo_id t0 \<and> t_workspace_id x = t_workspace_id t0 \<and>
       t_hash x = t_hash t0 \<and> set (t_relations x) = set (t_relations t0) \<and>
       task_log (t_id t0) (wd_db w') = task_log (t_id t0) (wd_db w) @ [entry] \<and>
       s_source entry = SrcRollback \<and> remote_node_id x = None \<and>
       (\<forall>c node opt name p. plan_issue_type_mutation c x \<noteq> Inr (Some (SetIssueType node opt name p))))"
proof -
  define P where "P = (\<lambda>d'. \<exists>now cap es. save_with_outbox cap (restore_snapshot now s t0) SrcRollback es (wd_db w) = Inr d')"
  have ok: "exact w P r (v\<lparr>wd_db := d'\<rparr>)"
    if "save_with_outbox cap (restore_snapshot now s t0) SrcRollback es (wd_db w) = Inr d'" for r :: "service_error + task_dto"
      and v :: world and now cap es d'
    using that by (auto simp: exact_def P_def)
  have plan: "wp (bnd (plan_off_axis p it t) (\<lambda>ms. bnd (into_entries env (t_id t) ms) (\<lambda>entries.
     bnd (transact env (\<lambda>cap. save_with_outbox cap t SrcRollback entries)) (\<lambda>_. task_dto t)))) (exact w P) (w\<lparr>wd_tick := k\<rparr>)"
    if "t = restore_snapshot now s t0" for t p it now k
    unfolding wp_bnd [of "plan_off_axis p it t"]
    by (rule wp_conseq [OF plan_off_axis_quiet [unfolded quiet_def, rule_format]])
      (use that in \<open>auto simp: wp_simps exact_failed split: sum.split intro: ok\<close>)
  have "wp (ts_rollback env q v) (exact w P) w"
    unfolding ts_rollback_def by (simp add: wp_bnd [of "ts_task _ _"] wp_bnd [of "query _"] wp_bnd [of "edit _ _ _"]
        wp_service wp_prims assms(3,4) from_port_def from_domain_def plan)
  with assms(1) have "P (wd_db w') \<or> wd_db w' = wd_db w \<and> (\<exists>e. r = Inl e)" by (auto simp: wp_def exact_def)
  then show ?thesis
  proof (elim disjE)
    assume "P (wd_db w')"
    then obtain now cap es where save: "save_with_outbox cap (restore_snapshot now s t0) SrcRollback es (wd_db w) = Inr (wd_db w')"
      unfolding P_def by blast
    from get_snapshot_node_id assms(2,4) have node: "remote_node_id x = None" if "t_remote x = s_remote s" for x
      using that by (cases "s_remote s") (auto simp: remote_node_id_def)
    with no_native_without_node have "\<forall>c node opt name p. plan_issue_type_mutation c x \<noteq> Inr (Some (SetIssueType node opt name p))"
      if "t_remote x = s_remote s" for x using that by blast
    with node save_with_outbox_log [OF save] show ?thesis
      by (auto simp: restore_snapshot_fields same_record_def snapshot_row_def)
  qed simp
qed

definition saved_world :: world where
  "saved_world = pair_world\<lparr>wd_db := run_db [DbSave 5 sample_mirror SrcPull] empty_db\<rparr>"

theorem rollback_restores_version_witness:
  "\<exists>t0 s r w'. resolve_task (\<lambda>_. Some (t_id sample_mirror)) (wd_cat saved_world) (wd_db saved_world) [] = Inr t0 \<and>
     get_snapshot (t_id t0) 1 (wd_db saved_world) = Inr s \<and>
     ts_rollback (idle_env\<lparr>env_parse_uuid := \<lambda>_. Some (t_id sample_mirror)\<rparr>) [] 1 saved_world = (r, w') \<and>
     ((\<exists>e. r = Inl e) \<or> (\<exists>x. get_task (t_id t0) (wd_db w') = Inr x \<and> t_title x = s_title s))"
proof -
  let ?env = "idle_env\<lparr>env_parse_uuid := \<lambda>_. Some (t_id sample_mirror)\<rparr>"
  obtain d where d: "save_task 5 sample_mirror SrcPull empty_db = Inr d"
    using save_solo [OF solo_empty_db, of sample_mirror 5 SrcPull] by (auto simp: sample_simps)
  then have w: "wd_db saved_world = d" by (simp add: saved_world_def)
  obtain t0 where t0: "get_task (t_id sample_mirror) d = Inr t0" "same_record sample_mirror t0" using get_save_task [OF d] by blast
  have res: "resolve_task (env_parse_uuid ?env) (wd_cat saved_world) (wd_db saved_world) [] = Inr t0"
    using t0 w by (simp add: resolve_task_def)
  have "db_snapshots d = [snapshot_row 5 1 sample_mirror SrcPull]"
    using d by (auto simp: save_task_def empty_db_def next_version_def elim!: write_task_cases)
  then obtain s where s: "get_snapshot (t_id t0) 1 (wd_db saved_world) = Inr s"
    using t0(2) by (simp add: get_snapshot_def w same_record_def snapshot_row_def)
  obtain r w' where run: "ts_rollback ?env [] 1 saved_world = (r, w')" by force
  have "wd_db saved_world = run_db [DbSave 5 sample_mirror SrcPull] empty_db" by (simp add: saved_world_def)
  from rollback_restores_version [OF run this res s] res s run show ?thesis by auto
qed

end
