(* ===== verification/SyncService.thy ===== *)
theory SyncService
  imports TaskService
begin

text \<open>
  \<open>SyncService\<close> (\<open>application-sync/src/service.rs\<close>): promote, push, pull, refresh, link, transfer and
  the listing of untracked remote issues, with the inbound reconciliation of relations.  The
  filing chain and the cached coordinates of a relation end are the same functions in both
  service crates, so those of \<open>TaskService\<close> are used.
\<close>

section \<open>Results\<close>

datatype relation_change = EdgeAdded | EdgeRemoved

datatype sync_notice =
    RelationReconciled rstring rstring relation_change rstring
  | RelationTargetUntracked rstring rstring rstring rstring

record sync_summary =
  ss_task_id :: rstring
  ss_previous_state :: rstring
  ss_new_state :: rstring
  ss_decision :: rstring
  ss_remote :: "(rstring \<times> rstring) option"
  ss_note :: "rstring option"
  ss_messages :: "sync_notice list"

datatype refresh_outcome = NotIssueBacked | RefreshStamped

fun decision_str :: "sync_decision \<Rightarrow> rstring" where
  "decision_str Noop = lit ''noop''"
| "decision_str PushLocal = lit ''push_local''"
| "decision_str PullRemote = lit ''pull_remote''"

definition summary_of :: "task \<Rightarrow> sync_state \<Rightarrow> rstring \<Rightarrow> rstring option \<Rightarrow> sync_notice list \<Rightarrow> sync_summary" where
  "summary_of t prev decision note messages =
     \<lparr>ss_task_id = show_uuid (t_id t), ss_previous_state = sync_state_str prev,
      ss_new_state = sync_state_str (t_sync t), ss_decision = decision,
      ss_remote = map_option (\<lambda>r. (rr_provider r, rr_remote_id r)) (t_remote t),
      ss_note = note, ss_messages = messages\<rparr>"

definition summary_with_messages :: "task \<Rightarrow> sync_state \<Rightarrow> sync_decision \<Rightarrow> sync_notice list \<Rightarrow> sync_summary" where
  "summary_with_messages t prev decision messages = summary_of t prev (decision_str decision) None messages"

definition summary_with_note :: "task \<Rightarrow> sync_state \<Rightarrow> sync_decision \<Rightarrow> rstring option \<Rightarrow> sync_summary" where
  "summary_with_note t prev decision note = (summary_with_messages t prev decision [])\<lparr>ss_note := note\<rparr>"

definition summary_with_note_and_messages ::
  "task \<Rightarrow> sync_state \<Rightarrow> sync_decision \<Rightarrow> rstring option \<Rightarrow> sync_notice list \<Rightarrow> sync_summary" where
  "summary_with_note_and_messages t prev decision note messages =
     (summary_with_messages t prev decision messages)\<lparr>ss_note := note\<rparr>"

definition link_summary :: "task \<Rightarrow> sync_state \<Rightarrow> rstring \<Rightarrow> rstring option \<Rightarrow> sync_summary" where
  "link_summary t prev decision note = summary_of t prev decision note []"

section \<open>Effects\<close>

definition sync_port :: "'a port_result \<Rightarrow> sync_error + 'a" where
  "sync_port r = (case r of Inl e \<Rightarrow> Inl (SePort e) | Inr x \<Rightarrow> Inr x)"

definition sync_domain :: "'a dresult \<Rightarrow> sync_error + 'a" where
  "sync_domain r = (case r of Inl e \<Rightarrow> Inl (SeDomain e) | Inr x \<Rightarrow> Inr x)"

definition sync_id :: "env \<Rightarrow> rstring \<Rightarrow> task_id sm" where
  "sync_id env s = query (\<lambda>_. case env_parse_uuid env s of
     Some u \<Rightarrow> Inr u | None \<Rightarrow> Inl (SeBadId (lit ''invalid task id: '' @ env_uuid_error env s)))"

definition sync_edit :: "env \<Rightarrow> (timestamp \<Rightarrow> task \<Rightarrow> task dresult) \<Rightarrow> task \<Rightarrow> task sm" where
  "sync_edit env f t = bnd (timestamp_now env) (\<lambda>now. query (\<lambda>_. sync_domain (f now t)))"

text \<open>One repository transaction; a remote call whose error is returned.\<close>

definition commit :: "env \<Rightarrow> (timestamp \<Rightarrow> db \<Rightarrow> db port_result) \<Rightarrow> unit sm" where
  "commit env f =
     bnd (timestamp_now env) (\<lambda>cap.
     bnd (query (\<lambda>w. sync_port (f cap (wd_db w)))) (\<lambda>d. modify_db (\<lambda>_. d)))"

definition call :: "remote_call \<Rightarrow> (nat \<Rightarrow> 'a port_result) \<Rightarrow> 'a sm" where
  "call c answer = bnd (remote c answer) (\<lambda>r. query (\<lambda>_. sync_port r))"

text \<open>\<open>n\<close> fresh surrogate row ids.\<close>

definition fresh_rows :: "env \<Rightarrow> nat \<Rightarrow> ('e, nat \<Rightarrow> rstring) em" where
  "fresh_rows env n w = (Inr (\<lambda>j. show_uuid (env_id env (wd_tick w + j))), w\<lparr>wd_tick := wd_tick w + n\<rparr>)"

definition validation :: "rstring \<Rightarrow> sync_error" where
  "validation m = SeDomain (Validation m)"

section \<open>Look-ups\<close>

definition find_by_canonical_url :: "workspace_id \<Rightarrow> rstring \<Rightarrow> catalog \<Rightarrow> (repo_instance \<times> repo_origin) option" where
  "find_by_canonical_url ws url c =
     first_opt (List.map_filter (\<lambda>r.
       if ri_workspace_id r = ws \<and> ri_canonical_url r = url
       then map_option (Pair r) (List.find (\<lambda>x. ro_id x = ri_origin_id r) (cat_origins c))
       else None) (cat_instances c))"

definition tracked_remote_ids :: "repo_origin_id \<Rightarrow> rstring \<Rightarrow> rstring list \<Rightarrow> db \<Rightarrow> rstring list" where
  "tracked_remote_ids filing provider ids d =
     List.map_filter (\<lambda>r. case t_remote r of
         None \<Rightarrow> None
       | Some rr \<Rightarrow> if t_filing_repo_id r = Some filing \<and> rr_provider rr = provider \<and> rr_remote_id rr \<in> set ids
                    then Some (rr_remote_id rr) else None) (db_tasks d)"

definition logical_canonical_for :: "catalog \<Rightarrow> task \<Rightarrow> sync_error + rstring" where
  "logical_canonical_for c t =
     (case t_repo_id t of
        None \<Rightarrow> Inl SeNoRepo
      | Some i \<Rightarrow> and_then (sync_port (get_binding i c)) (\<lambda>b. Inr (ri_canonical_url (fst b))))"

definition logical_origin_for :: "catalog \<Rightarrow> task \<Rightarrow> sync_error + repo_origin_id option" where
  "logical_origin_for c t = sync_port (instance_origin_tolerant c (t_repo_id t))"

definition sync_filing_canonical :: "catalog \<Rightarrow> task \<Rightarrow> sync_error + rstring" where
  "sync_filing_canonical c t =
     and_then (sync_port (filing_canonical_for c t)) (\<lambda>url. case url of None \<Rightarrow> Inl SeNoRepo | Some u \<Rightarrow> Inr u)"

definition sync_relation_coords ::
  "catalog \<Rightarrow> task \<Rightarrow> workspace_cache \<Rightarrow> sync_error + ((rstring \<times> rstring) option \<times> workspace_cache)" where
  "sync_relation_coords c t cache = sync_port (relation_remote_coords_cached c t cache)"

definition remote_of :: "task \<Rightarrow> sync_error + remote_ref" where
  "remote_of t = (case t_remote t of None \<Rightarrow> Inl SeNoRemote | Some r \<Rightarrow> Inr r)"

section \<open>Promote\<close>

definition PROMOTE_ORPHAN_WINDOW :: int where
  "PROMOTE_ORPHAN_WINDOW = 24 * 60 * 60 * 10 ^ 9"

definition find_promoted_orphan ::
  "env \<Rightarrow> task \<Rightarrow> rstring \<Rightarrow> repo_origin_id option \<Rightarrow> remote_task_snapshot option sm" where
  "find_promoted_orphan env t canonical origin =
     (case origin of
        None \<Rightarrow> ret None
      | Some filing \<Rightarrow>
          bnd (timestamp_now env) (\<lambda>now.
          let since = now - PROMOTE_ORPHAN_WINDOW in
          bnd (call (CallListChanged canonical since) (\<lambda>k. list_changed_since env k canonical since)) (\<lambda>snaps.
          let matching = filter (\<lambda>s. rs_title s = t_title t \<and> rs_body s = t_body t) snaps in
          if matching = [] then ret None
          else
            bnd (reads (\<lambda>w. tracked_remote_ids filing (provider_label canonical) (map rs_remote_id matching) (wd_db w)))
              (\<lambda>tracked.
            let untracked = filter (\<lambda>s. rs_remote_id s \<notin> set tracked) matching in
            case untracked of
              [] \<Rightarrow> ret None
            | [s] \<Rightarrow> ret (Some s)
            | _ \<Rightarrow> throw (SeAmbiguousPromoteTarget canonical (length untracked)
                     (join (lit '', '') (map (\<lambda>s. lit ''#'' @ rs_remote_id s) untracked)))))))"

fun relation_backfill ::
  "task_relation list \<Rightarrow> rstring \<times> rstring \<Rightarrow> workspace_cache \<Rightarrow> outbox_mutation list sm" where
  "relation_backfill [] this_coords cache = ret []"
| "relation_backfill (r # rs) this_coords cache =
     bnd (tasks_get (rel_other r)) (\<lambda>neighbor.
     bnd (query (\<lambda>w. sync_relation_coords (wd_cat w) neighbor cache)) (\<lambda>(coords, cache).
     bnd (relation_backfill rs this_coords cache) (\<lambda>ms.
       ret ((case coords of
               None \<Rightarrow> []
             | Some b \<Rightarrow> (case relation_mutation (rel_kind r) True this_coords b of None \<Rightarrow> [] | Some m \<Rightarrow> [m])) @ ms))))"

text \<open>The default issue type of a first filing: stamped, and taken back when no rail can carry it.\<close>

definition first_filing_type ::
  "env \<Rightarrow> workspace \<Rightarrow> rstring \<Rightarrow> task \<Rightarrow> (task \<times> outbox_mutation list) sm" where
  "first_filing_type env ws canonical t =
     bnd (timestamp_now env) (\<lambda>now.
     let derived = (if t_issue_type t = None
           then derive_default_issue_type t (w_default_issue_type ws) (w_default_sub_issue_type ws) else None);
         t1 = (case derived of None \<Rightarrow> t | Some d \<Rightarrow> set_issue_type_default now d t)
     in
     bnd (query (\<lambda>w. sync_port (project_for_workspace (wd_cat w) ws))) (\<lambda>proj.
     bnd (reads (\<lambda>w. if t_issue_type t1 = None then None
           else resolve_type_projection proj (wd_cat w) (parse_github_owner canonical) t1)) (\<lambda>projection.
       ret (if derived \<noteq> None \<and> projection = None \<and> (case proj of None \<Rightarrow> True | Some p \<Rightarrow> type_field p = None)
            then t1\<lparr>t_issue_type := None\<rparr> else t1,
            case projection of None \<Rightarrow> [] | Some m \<Rightarrow> [m]))))"

definition adopted_note :: "rstring \<Rightarrow> remote_task_snapshot \<Rightarrow> rstring" where
  "adopted_note canonical s =
     lit ''adopted the existing untracked issue #'' @ rs_remote_id s @ lit '' in '' @ canonical @
     lit '' instead of creating a new one (a previous promote reached GitHub but did not persist)''"

definition promote_file ::
  "env \<Rightarrow> sync_state \<Rightarrow> workspace \<Rightarrow> repo_origin_id option \<Rightarrow> rstring \<Rightarrow> task \<Rightarrow> sync_summary sm" where
  "promote_file env prev ws filing canonical t =
     bnd (if prev = Staged then find_promoted_orphan env t canonical filing else ret None) (\<lambda>adopted.
     bnd (case adopted of
            Some s \<Rightarrow> ret s
          | None \<Rightarrow>
              let cmd = \<lparr>rt_canonical_repo = canonical, rt_title = t_title t, rt_body = t_body t,
                         rt_assignees = t_assignees t, rt_labels = []\<rparr>
              in call (CallCreateRemote cmd) (\<lambda>k. create_remote env k cmd)) (\<lambda>snap.
     bnd (timestamp_now env) (\<lambda>cap.
     bnd (sync_edit env (\<lambda>now. promote_to_remote now cap
            ((remote_ref_new (provider_label canonical) (rs_remote_id snap))\<lparr>rr_node_id := rs_node_id snap\<rparr>)) t) (\<lambda>t.
     bnd (relation_backfill (t_relations t) (canonical, rs_remote_id snap) []) (\<lambda>ms.
     bnd (first_filing_type env ws canonical t) (\<lambda>(t, type_ms).
     bnd (into_entries env (t_id t) (ms @ type_ms)) (\<lambda>entries.
     bnd (commit env (\<lambda>cap. save_with_outbox cap t SrcPromote entries)) (\<lambda>_.
       ret (summary_with_note t prev PushLocal (map_option (adopted_note canonical) adopted))))))))))"

definition sy_promote :: "env \<Rightarrow> rstring \<Rightarrow> sync_summary sm" where
  "sy_promote env task_id =
     bnd (sync_id env task_id) (\<lambda>i.
     bnd (tasks_get i) (\<lambda>t0.
     bnd (query (\<lambda>_. ensure_not_archived t0)) (\<lambda>_.
     bnd (if t_sync t0 = LocalOnly then sync_edit env stage_for_sync t0 else ret t0) (\<lambda>t1.
       if t_sync t1 \<noteq> Staged
       then throw (SeDomain (InvalidTransition (lit ''cannot promote from sync='' @ debug_sync_state (t_sync t1))))
       else
         bnd (workspaces_get (t_workspace_id t1)) (\<lambda>ws.
         bnd (query (\<lambda>w. logical_origin_for (wd_cat w) t1)) (\<lambda>logical.
         let filing = resolve_filing_repo (t_filing_repo_id t1) (w_filing_repo_id ws) logical in
         bnd (sync_edit env (\<lambda>now. set_filing_repo_id now filing) t1) (\<lambda>t2.
         bnd (query (\<lambda>w. sync_filing_canonical (wd_cat w) t2)) (\<lambda>canonical.
         bnd (if t_sync t0 \<noteq> Staged \<or> filing \<noteq> t_filing_repo_id t1
              then commit env (\<lambda>cap. save_task cap t2 SrcLocalEdit) else ret ()) (\<lambda>_.
           promote_file env (t_sync t0) ws filing canonical t2)))))))))"

section \<open>Push\<close>

fun push_comments :: "env \<Rightarrow> task_id \<Rightarrow> rstring \<Rightarrow> rstring \<Rightarrow> task_comment list \<Rightarrow> unit sm" where
  "push_comments env i canonical remote_id [] = ret ()"
| "push_comments env i canonical remote_id (c # cs) =
     bnd (case c_local_id c of
            None \<Rightarrow> ret ()
          | Some local_id \<Rightarrow>
              bnd (call (CallCreateComment canonical remote_id (c_body c))
                     (\<lambda>k. create_comment env k canonical remote_id (c_body c))) (\<lambda>pushed.
              bnd (fresh_rows env 1) (\<lambda>fresh.
                modify_db (mark_comments_pushed fresh i [local_id] [pushed])))) (\<lambda>_.
       push_comments env i canonical remote_id cs)"

definition push_snapshot :: "env \<Rightarrow> bool \<Rightarrow> rstring \<Rightarrow> rstring \<Rightarrow> task \<Rightarrow> task sm" where
  "push_snapshot env force canonical remote_id t =
     (let patch = (if force \<and> t_sync t = Conflict then full_mirror_patch t else diff_against_baseline t) in
      bnd (case build_update_from_patch patch canonical remote_id of
             None \<Rightarrow> ret ()
           | Some update \<Rightarrow>
               bnd (call (CallUpdateRemote update) (\<lambda>k. update_remote env k update)) (\<lambda>_. ret ())) (\<lambda>_.
      bnd (sync_edit env (\<lambda>now. confirm_synced_fields now SrcPush patch) t) (\<lambda>t'.
      bnd (commit env (\<lambda>cap. save_task cap t' SrcPush)) (\<lambda>_. ret t'))))"

definition push_inner :: "env \<Rightarrow> rstring \<Rightarrow> bool \<Rightarrow> sync_summary sm" where
  "push_inner env task_id force =
     bnd (sync_id env task_id) (\<lambda>i.
     bnd (tasks_get i) (\<lambda>t0.
     bnd (query (\<lambda>w. sync_filing_canonical (wd_cat w) t0)) (\<lambda>canonical.
     bnd (query (\<lambda>_. remote_of t0)) (\<lambda>rr.
     let dirty = (t_sync t0 \<in> {DirtyLocal, Staged} \<or> force \<and> t_sync t0 = Conflict);
         pending = filter (\<lambda>c. c_remote_id c = None) (t_comments t0)
     in if \<not> dirty \<and> pending = []
        then throw (SeDomain (InvalidTransition (lit ''cannot push from sync='' @ debug_sync_state (t_sync t0) @
               lit '' with no pending comments'')))
        else
          bnd (if dirty then push_snapshot env force canonical (rr_remote_id rr) t0 else ret t0) (\<lambda>t.
          bnd (push_comments env i canonical (rr_remote_id rr) pending) (\<lambda>_.
            ret (summary_with_note t (t_sync t0) (if dirty then PushLocal else Noop)
              (if force \<and> t_sync t0 = Conflict
               then Some (lit ''forced accept-local: local content is the resolution, conflict cleared (local-wins)'')
               else None))))))))"

definition sy_push :: "env \<Rightarrow> rstring \<Rightarrow> sync_summary sm" where
  "sy_push env task_id = push_inner env task_id False"

definition sy_push_accept_local :: "env \<Rightarrow> rstring \<Rightarrow> sync_summary sm" where
  "sy_push_accept_local env task_id = push_inner env task_id True"

section \<open>Inbound relations\<close>

text \<open>The neighbour cache is an association list; \<open>HashMap::values\<close> runs in an arbitrary order.\<close>

type_synonym neighbors = "(task_id \<times> task) list"

definition put_neighbor :: "task \<Rightarrow> neighbors \<Rightarrow> neighbors" where
  "put_neighbor x nbs = (t_id x, x) # filter (\<lambda>p. fst p \<noteq> t_id x) nbs"

definition load_neighbor :: "neighbors \<Rightarrow> task_id \<Rightarrow> task sm" where
  "load_neighbor nbs j = (case map_of nbs j of Some x \<Rightarrow> ret x | None \<Rightarrow> tasks_get j)"

definition reconciled_notice :: "task_id \<Rightarrow> relation_kind \<Rightarrow> relation_change \<Rightarrow> task_id \<Rightarrow> sync_notice" where
  "reconciled_notice i k change other = RelationReconciled (show_uuid i) (relation_kind_str k) change (show_uuid other)"

definition untracked_notices :: "task_id \<Rightarrow> relation_kind \<Rightarrow> remote_child_issue list \<Rightarrow> sync_notice list" where
  "untracked_notices i k = map (\<lambda>item. RelationTargetUntracked (show_uuid i) (relation_kind_str k)
     (ch_canonical_repo item) (rs_remote_id (ch_snapshot item)))"

definition map_remote_to_local ::
  "catalog \<Rightarrow> db \<Rightarrow> workspace_id \<Rightarrow> remote_child_issue list \<Rightarrow> task_id list \<times> remote_child_issue list" where
  "map_remote_to_local c d ws related =
     (let local = (\<lambda>item. Option.bind (find_by_canonical_url ws (ch_canonical_repo item) c) (\<lambda>b.
            map_option t_id (find_by_remote (ri_origin_id (fst b)) (lit ''github'') (rs_remote_id (ch_snapshot item)) d)))
      in (List.map_filter local related, filter (\<lambda>item. local item = None) related))"

type_synonym reconcile_state = "task \<times> neighbors \<times> sync_notice list \<times> bool"

fun add_edges :: "env \<Rightarrow> relation_kind \<Rightarrow> relation_kind \<Rightarrow> task_id set \<Rightarrow> task_id list \<Rightarrow> reconcile_state \<Rightarrow> reconcile_state sm" where
  "add_edges env k inv_k current [] st = ret st"
| "add_edges env k inv_k current (other # rest) (t, nbs, notices, changed) =
     (if other = t_id t \<or> other \<in> current then add_edges env k inv_k current rest (t, nbs, notices, changed)
      else
        bnd (load_neighbor nbs other) (\<lambda>neighbor.
        bnd (timestamp_now env) (\<lambda>now.
          add_edges env k inv_k current rest
            (add_relation now k other t, put_neighbor (add_relation now inv_k (t_id t) neighbor) nbs,
             notices @ [reconciled_notice (t_id t) k EdgeAdded other], True))))"

fun drop_edges :: "env \<Rightarrow> relation_kind \<Rightarrow> relation_kind \<Rightarrow> task_id set \<Rightarrow> task_id list \<Rightarrow> reconcile_state \<Rightarrow> reconcile_state sm" where
  "drop_edges env k inv_k desired [] st = ret st"
| "drop_edges env k inv_k desired (other # rest) (t, nbs, notices, changed) =
     (if other = t_id t \<or> other \<in> desired then drop_edges env k inv_k desired rest (t, nbs, notices, changed)
      else
        bnd (load_neighbor nbs other) (\<lambda>neighbor.
          if t_remote neighbor = None
          then drop_edges env k inv_k desired rest (t, filter (\<lambda>p. fst p \<noteq> other) nbs, notices, changed)
          else
            bnd (timestamp_now env) (\<lambda>now.
              drop_edges env k inv_k desired rest
                (snd (remove_relation now k other t),
                 put_neighbor (snd (remove_relation now inv_k (t_id t) neighbor)) nbs,
                 notices @ [reconciled_notice (t_id t) k EdgeRemoved other], True))))"

definition reconcile_family ::
  "env \<Rightarrow> relation_kind \<Rightarrow> relation_kind \<Rightarrow> task_id list \<Rightarrow> reconcile_state \<Rightarrow> reconcile_state sm" where
  "reconcile_family env k inv_k desired st =
     (let current = map rel_other (filter (\<lambda>r. rel_kind r = k) (t_relations (fst st)))
      in bnd (add_edges env k inv_k (set current) desired st) (drop_edges env k inv_k (set desired) current))"

definition reconcile_parent :: "env \<Rightarrow> remote_child_issue list \<Rightarrow> reconcile_state \<Rightarrow> reconcile_state sm" where
  "reconcile_parent env parents st =
     (if parents = [] then ret st
      else
        bnd (reads (\<lambda>w. map_remote_to_local (wd_cat w) (wd_db w) (t_workspace_id (fst st)) parents)) (\<lambda>(ids, untracked).
        let desired = filter (\<lambda>j. j \<noteq> t_id (fst st)) ids in
        case st of (t, nbs, notices, changed) \<Rightarrow>
          let st = (t, nbs, notices @ untracked_notices (t_id t) ChildOf untracked, changed) in
          if desired = [] then ret st else reconcile_family env ChildOf ParentOf desired st))"

definition neighbor_values :: "env \<Rightarrow> nat \<Rightarrow> neighbors \<Rightarrow> task list" where
  "neighbor_values env k nbs = List.map_filter (map_of nbs) (env_map_order env k (map fst nbs))"

definition reconcile_relations_inbound :: "env \<Rightarrow> task \<Rightarrow> rstring \<Rightarrow> rstring \<Rightarrow> (task \<times> sync_notice list) sm" where
  "reconcile_relations_inbound env t canonical remote_id =
     bnd (call (CallFetchSubIssues canonical remote_id) (\<lambda>k. fetch_sub_issues env k canonical remote_id)) (\<lambda>subs.
     bnd (call (CallFetchBlockedBy canonical remote_id) (\<lambda>k. fetch_blocked_by env k canonical remote_id)) (\<lambda>blockers.
     bnd (call (CallFetchParent canonical remote_id) (\<lambda>k. fetch_parent env k canonical remote_id)) (\<lambda>parents.
     bnd (reads (\<lambda>w. map_remote_to_local (wd_cat w) (wd_db w) (t_workspace_id t) subs)) (\<lambda>(children, _).
     bnd (reads (\<lambda>w. map_remote_to_local (wd_cat w) (wd_db w) (t_workspace_id t) blockers)) (\<lambda>(blocking, _).
     bnd (reconcile_family env ParentOf ChildOf children (t, [], [], False)) (\<lambda>st.
     bnd (reconcile_family env BlockedBy Blocks blocking st) (\<lambda>st.
     bnd (reconcile_parent env parents st) (\<lambda>(t, nbs, notices, changed).
     bnd (if changed
          then bnd tick (\<lambda>k. commit env (\<lambda>cap. save_many cap
                 ((t, SrcPull) # map (\<lambda>x. (x, SrcPull)) (neighbor_values env k nbs))))
          else ret ()) (\<lambda>_. ret (t, notices))))))))))"

section \<open>Pull and refresh\<close>

definition adopt_remote :: "env \<Rightarrow> remote_task_snapshot \<Rightarrow> task \<Rightarrow> task sm" where
  "adopt_remote env snap t =
     bnd (commit env (\<lambda>cap. save_task cap t SrcPrePull)) (\<lambda>_.
     bnd (timestamp_now env) (\<lambda>cap.
     bnd (sync_edit env (\<lambda>now. adopt_aligned_state now cap SrcPull)
            (copy_inbound_mirror_from_snap t (rs_title snap) (rs_body snap) (rs_assignees snap) (rs_closed snap))) (\<lambda>t'.
     bnd (commit env (\<lambda>cap. save_task cap t' SrcPull)) (\<lambda>_. ret t'))))"

definition superseded_note :: "sync_state \<Rightarrow> rstring list \<Rightarrow> rstring option" where
  "superseded_note prev superseded =
     (if prev \<in> {DirtyLocal, Conflict} \<and> superseded \<noteq> []
      then Some (lit ''github superseded local changes to '' @ join (lit '', '') superseded @
             lit ''; recover them with `rl task rollback`'')
      else None)"

definition pull_decision :: "bool \<Rightarrow> remote_task_snapshot \<Rightarrow> task \<Rightarrow> sync_decision" where
  "pull_decision force snap t =
     (let remote_changed = (case t_synced_baseline t of None \<Rightarrow> True | Some b \<Rightarrow> \<not> remote_mirrors_baseline snap b);
          decision = decide (t_sync t) remote_changed
      in if decision = PushLocal \<and> force \<and> t_sync t = DirtyLocal then PullRemote else decision)"

text \<open>The axes that are mirrored on every decision: comments, the node id, relations.\<close>

definition mirror_inbound ::
  "env \<Rightarrow> task_id \<Rightarrow> rstring \<Rightarrow> rstring \<Rightarrow> rstring option \<Rightarrow> task \<Rightarrow> (task \<times> sync_notice list) sm" where
  "mirror_inbound env i canonical remote_id node_id_backfill t =
     bnd (call (CallFetchComments canonical remote_id) (\<lambda>k. fetch_comments env k canonical remote_id)) (\<lambda>comments.
     bnd (fresh_rows env (length comments)) (\<lambda>fresh.
     bnd (modify_db (replace_comments fresh i comments)) (\<lambda>_.
     bnd (case node_id_backfill of None \<Rightarrow> ret () | Some nid \<Rightarrow> modify_db (cache_remote_node_id i nid)) (\<lambda>_.
       reconcile_relations_inbound env t canonical remote_id))))"

definition pull_inner :: "env \<Rightarrow> rstring \<Rightarrow> bool \<Rightarrow> sync_summary sm" where
  "pull_inner env task_id force =
     bnd (sync_id env task_id) (\<lambda>i.
     bnd (tasks_get i) (\<lambda>t0.
     bnd (query (\<lambda>_. ensure_not_archived t0)) (\<lambda>_.
     bnd (query (\<lambda>w. sync_filing_canonical (wd_cat w) t0)) (\<lambda>canonical.
     bnd (query (\<lambda>_. remote_of t0)) (\<lambda>rr.
     bnd (call (CallFetchRemote canonical (rr_remote_id rr)) (\<lambda>k. fetch_remote env k canonical (rr_remote_id rr))) (\<lambda>snap.
     bnd (timestamp_now env) (\<lambda>seen.
     bnd (modify_db (cache_synced_at i seen)) (\<lambda>_.
     let node_id_backfill = (if rr_node_id rr = None then rs_node_id snap else None);
         t1 = (case node_id_backfill of
                 None \<Rightarrow> t0
               | Some nid \<Rightarrow> t0\<lparr>t_remote := map_option (\<lambda>r. r\<lparr>rr_node_id := Some nid\<rparr>) (t_remote t0)\<rparr>);
         decision = pull_decision force snap t1
     in
     bnd (if decision = PullRemote then adopt_remote env snap t1 else ret t1) (\<lambda>t2.
     bnd (mirror_inbound env i canonical (rr_remote_id rr) node_id_backfill t2) (\<lambda>(t3, messages).
       ret (summary_with_note_and_messages t3 (t_sync t0) decision
         (if decision = PullRemote
          then superseded_note (t_sync t0)
                 (superseded_inbound_fields t1 (rs_title snap) (rs_body snap) (rs_assignees snap) (rs_closed snap))
          else None) messages)))))))))))"

definition sy_pull :: "env \<Rightarrow> rstring \<Rightarrow> sync_summary sm" where
  "sy_pull env task_id = pull_inner env task_id False"

definition sy_pull_accept_remote :: "env \<Rightarrow> rstring \<Rightarrow> sync_summary sm" where
  "sy_pull_accept_remote env task_id = pull_inner env task_id True"

definition sy_refresh :: "env \<Rightarrow> rstring \<Rightarrow> refresh_outcome sm" where
  "sy_refresh env task_id =
     bnd (sync_id env task_id) (\<lambda>i.
     bnd (tasks_get i) (\<lambda>t.
       case t_remote t of
         None \<Rightarrow> ret NotIssueBacked
       | Some rr \<Rightarrow>
           bnd (query (\<lambda>w. sync_filing_canonical (wd_cat w) t)) (\<lambda>canonical.
           bnd (call (CallFetchRemote canonical (rr_remote_id rr)) (\<lambda>k. fetch_remote env k canonical (rr_remote_id rr))) (\<lambda>_.
           bnd (timestamp_now env) (\<lambda>seen.
           bnd (modify_db (cache_synced_at i seen)) (\<lambda>_. ret RefreshStamped))))))"

section \<open>Link and transfer\<close>

text \<open>\<open>str::trim_start_matches\<close>: the prefix is removed as often as it occurs.\<close>

function trim_start_matches :: "rstring \<Rightarrow> rstring \<Rightarrow> rstring" where
  "trim_start_matches p s =
     (if p \<noteq> [] \<and> starts_with s p then trim_start_matches p (drop (length p) s) else s)"
  by auto
termination trim_start_matches
  by (relation "measure (\<lambda>(p, s). length s)") (auto simp: starts_with_def take_eq_Nil neq_Nil_conv dest: arg_cong [where f = length])

declare trim_start_matches.simps [simp del]

definition not_attached :: "rstring \<Rightarrow> sync_error" where
  "not_attached url = validation (lit ''repo '' @ url @
     lit '' is not attached to this workspace; run `rl repo attach <url>` first'')"

definition verify_redirect :: "env \<Rightarrow> rstring \<Rightarrow> rstring \<Rightarrow> task \<Rightarrow> unit sm" where
  "verify_redirect env new_canonical new_remote_id t =
     (if t_sync t \<noteq> Synced
      then throw (validation (lit ''--relink is only safe for synced tasks (current: '' @ debug_sync_state (t_sync t) @
             lit ''); finish syncing first or use bare `task link`''))
      else
        bnd (query (\<lambda>_. remote_of t)) (\<lambda>cur.
        bnd (query (\<lambda>w. logical_canonical_for (wd_cat w) t)) (\<lambda>canonical.
        bnd (call (CallDiscoverMove canonical (rr_remote_id cur))
               (\<lambda>k. discover_move_target env k canonical (rr_remote_id cur))) (\<lambda>target.
          case target of
            None \<Rightarrow> throw (validation (lit ''--relink requires the current remote '' @ canonical @ lit ''#'' @
              rr_remote_id cur @ lit '' to redirect; it does not''))
          | Some (c, r) \<Rightarrow>
              if c \<noteq> new_canonical \<or> r \<noteq> new_remote_id
              then throw (validation (lit ''--relink target '' @ new_canonical @ lit ''#'' @ new_remote_id @
                lit '' does not match GitHub's redirect target '' @ c @ lit ''#'' @ r))
              else ret ()))))"

definition redirect_note :: "rstring \<Rightarrow> rstring \<Rightarrow> rstring \<Rightarrow> rstring \<Rightarrow> rstring" where
  "redirect_note new_canonical new_remote_id to_canonical to_remote_id =
     lit ''github.com/'' @ trim_start_matches (lit ''github.com/'') new_canonical @ lit ''#'' @ new_remote_id @
     lit '' 301-redirects to '' @ to_canonical @ lit ''#'' @ to_remote_id @ lit ''; linked source URL as requested''"

definition relink_task :: "env \<Rightarrow> rstring \<Rightarrow> rstring \<Rightarrow> repo_id \<Rightarrow> task \<Rightarrow> task sm" where
  "relink_task env new_canonical new_remote_id instance_id t =
     bnd (verify_redirect env new_canonical new_remote_id t) (\<lambda>_.
     bnd (call (CallFetchRemote new_canonical new_remote_id) (\<lambda>k. fetch_remote env k new_canonical new_remote_id)) (\<lambda>snap.
     let t1 = copy_inbound_mirror_from_snap t (rs_title snap) (rs_body snap) (rs_assignees snap) (rs_closed snap);
         new_remote = (remote_ref_new (lit ''github'') new_remote_id)\<lparr>rr_node_id := rs_node_id snap\<rparr>
     in
     bnd (sync_edit env (\<lambda>now. link_to_remote now instance_id new_remote False) t1) (\<lambda>t2.
     bnd (call (CallFetchComments new_canonical new_remote_id) (\<lambda>k. fetch_comments env k new_canonical new_remote_id)) (\<lambda>comments.
     bnd (commit env (\<lambda>cap. save_task cap t2 SrcLink)) (\<lambda>_.
     bnd (fresh_rows env (length comments)) (\<lambda>fresh.
     bnd (modify_db (replace_comments fresh (t_id t2) comments)) (\<lambda>_. ret t2)))))))"

definition bare_link_task :: "env \<Rightarrow> rstring \<Rightarrow> rstring \<Rightarrow> repo_id \<Rightarrow> task \<Rightarrow> (task \<times> rstring option) sm" where
  "bare_link_task env new_canonical new_remote_id instance_id t =
     bnd (remote (CallFetchRemote new_canonical new_remote_id) (\<lambda>k. fetch_remote env k new_canonical new_remote_id)) (\<lambda>r.
     bnd (case r of
            Inr _ \<Rightarrow> ret None
          | Inl (IssueMoved _ _ to_canonical to_remote_id) \<Rightarrow>
              ret (Some (redirect_note new_canonical new_remote_id to_canonical to_remote_id))
          | Inl e \<Rightarrow> throw (SePort e)) (\<lambda>note.
     bnd (sync_edit env (\<lambda>now. link_to_remote now instance_id (remote_ref_new (lit ''github'') new_remote_id) True) t) (\<lambda>t2.
     bnd (commit env (\<lambda>cap. save_task cap t2 SrcLink)) (\<lambda>_.
     bnd (modify_db (replace_comments (\<lambda>_. []) (t_id t2) [])) (\<lambda>_. ret (t2, note))))))"

definition sy_link :: "env \<Rightarrow> rstring \<Rightarrow> rstring \<Rightarrow> rstring \<Rightarrow> bool \<Rightarrow> sync_summary sm" where
  "sy_link env task_id new_canonical new_remote_id relink =
     bnd (sync_id env task_id) (\<lambda>i.
     bnd (tasks_get i) (\<lambda>t.
     bnd (reads (\<lambda>w. (case t_remote t of None \<Rightarrow> False
            | Some r \<Rightarrow> rr_provider r = lit ''github'' \<and> rr_remote_id r = new_remote_id) \<and>
            logical_canonical_for (wd_cat w) t = Inr new_canonical)) (\<lambda>already.
       if already then ret (link_summary t (t_sync t) (lit ''noop'') None)
       else
         bnd (reads (\<lambda>w. find_by_canonical_url (t_workspace_id t) new_canonical (wd_cat w))) (\<lambda>binding.
           case binding of
             None \<Rightarrow> throw (not_attached new_canonical)
           | Some (instance, origin) \<Rightarrow>
               if relink then
                 bnd (relink_task env new_canonical new_remote_id (ri_id instance) t) (\<lambda>t'.
                   ret (link_summary t' (t_sync t) (lit ''relinked'') None))
               else
                 bnd (bare_link_task env new_canonical new_remote_id (ri_id instance) t) (\<lambda>(t', note).
                   ret (link_summary t' (t_sync t) (lit ''linked'') note))))))"

definition transfer_guard :: "env \<Rightarrow> task_id \<Rightarrow> rstring \<Rightarrow> rstring \<Rightarrow> unit sm" where
  "transfer_guard env i current remote_id =
     bnd (reads (\<lambda>w. list_pending i (db_outbox (wd_db w)))) (\<lambda>pending.
       if pending \<noteq> []
       then throw (validation (lit ''task still owes '' @ show_nat (length pending) @
              lit '' outbox mutation(s) addressed to its current issue ('' @
              join (lit '', '') (map (\<lambda>e. kind (e_mutation e)) pending) @
              lit ''); let the daemon drain them before transferring''))
       else
         bnd (call (CallDiscoverMove current remote_id) (\<lambda>k. discover_move_target env k current remote_id)) (\<lambda>target.
           case target of
             None \<Rightarrow> ret ()
           | Some (c, r) \<Rightarrow> throw (validation (lit ''issue '' @ current @ lit ''#'' @ remote_id @
               lit '' has already moved to '' @ c @ lit ''#'' @ r @
               lit ''; reconcile with `rl task link --relink` before transferring again''))))"

definition transfer_node_id :: "env \<Rightarrow> rstring \<Rightarrow> remote_ref \<Rightarrow> rstring sm" where
  "transfer_node_id env current rr =
     (case rr_node_id rr of
        Some node \<Rightarrow> ret node
      | None \<Rightarrow>
          bnd (call (CallFetchRemote current (rr_remote_id rr)) (\<lambda>k. fetch_remote env k current (rr_remote_id rr))) (\<lambda>snap.
            case rs_node_id snap of
              Some node \<Rightarrow> ret node
            | None \<Rightarrow> throw (SePort (Backend (lit ''issue '' @ current @ lit ''#'' @ rr_remote_id rr @
                lit '' has no GraphQL node id, so it cannot be transferred'')))))"

definition move_issue :: "env \<Rightarrow> rstring \<Rightarrow> rstring \<Rightarrow> repo_origin_id \<Rightarrow> remote_ref \<Rightarrow> task \<Rightarrow> sync_summary sm" where
  "move_issue env current dst origin rr t =
     bnd (transfer_node_id env current rr) (\<lambda>node.
     bnd (call (CallTransferIssue node dst) (\<lambda>k. transfer_issue env k node dst)) (\<lambda>(new_node, new_number).
     bnd (timestamp_now env) (\<lambda>now.
     let t1 = t\<lparr>t_remote := Some ((remote_ref_new (rr_provider rr) (show_nat new_number))\<lparr>rr_node_id := Some new_node\<rparr>)\<rparr>;
         t2 = (force_set_filing_repo_id now (Some origin) t1)\<lparr>t_project_item_id := None\<rparr>
     in
     bnd (workspaces_get (t_workspace_id t2)) (\<lambda>ws.
     bnd (query (\<lambda>w. sync_port (project_for_workspace (wd_cat w) ws))) (\<lambda>proj.
     bnd (into_entries env (t_id t2) (case proj of None \<Rightarrow> [] | Some p \<Rightarrow> [AddItem (p_id p) new_node])) (\<lambda>entries.
     bnd (commit env (\<lambda>cap. save_with_outbox cap t2 SrcLink entries)) (\<lambda>_.
       ret (link_summary t2 (t_sync t) (lit ''transferred'')
         (Some (lit ''issue moved from '' @ current @ lit ''#'' @ rr_remote_id rr @ lit '' to '' @ dst @ lit ''#'' @
            show_nat new_number))))))))))"

definition sy_transfer :: "env \<Rightarrow> rstring \<Rightarrow> rstring \<Rightarrow> sync_summary sm" where
  "sy_transfer env task_id dst =
     bnd (sync_id env task_id) (\<lambda>i.
     bnd (tasks_get i) (\<lambda>t.
     bnd (query (\<lambda>_. ensure_not_archived t)) (\<lambda>_.
     bnd (query (\<lambda>_. remote_of t)) (\<lambda>rr.
       if t_sync t \<noteq> Synced
       then throw (validation (lit ''transfer needs a synced task (current: '' @ debug_sync_state (t_sync t) @
              lit ''); push or reconcile it first''))
       else
         bnd (reads (\<lambda>w. find_by_canonical_url (t_workspace_id t) dst (wd_cat w))) (\<lambda>binding.
           case binding of
             None \<Rightarrow> throw (not_attached dst)
           | Some (instance, origin) \<Rightarrow>
               bnd (query (\<lambda>w. sync_filing_canonical (wd_cat w) t)) (\<lambda>current.
                 if current = dst then ret (link_summary t (t_sync t) (lit ''noop'') None)
                 else
                   bnd (transfer_guard env i current (rr_remote_id rr)) (\<lambda>_.
                     move_issue env current dst (ro_id origin) rr t)))))))"

section \<open>Listing remote issues\<close>

datatype list_remote_role = RoleRepo | RoleFiling | RoleCanonical

record remote_issue_row =
  ir_remote_id :: rstring
  ir_title :: rstring
  ir_closed :: bool
  ir_updated_at :: timestamp
  ir_tracked :: bool

record list_remote_group =
  lg_repo :: rstring
  lg_canonical_url :: rstring
  lg_role :: list_remote_role
  lg_issues :: "remote_issue_row list"

definition list_remote_group_of ::
  "env \<Rightarrow> timestamp \<Rightarrow> repo_origin_id \<times> rstring \<times> rstring \<times> list_remote_role \<Rightarrow> list_remote_group sm" where
  "list_remote_group_of env since = (\<lambda>(origin, name, url, role).
     bnd (call (CallListChanged url since) (\<lambda>k. list_changed_since env k url since)) (\<lambda>snaps.
     bnd (reads (\<lambda>w. tracked_remote_ids origin (provider_label url) (map rs_remote_id snaps) (wd_db w))) (\<lambda>tracked.
       ret \<lparr>lg_repo = name, lg_canonical_url = url, lg_role = role,
            lg_issues = map (\<lambda>s. \<lparr>ir_remote_id = rs_remote_id s, ir_title = rs_title s, ir_closed = rs_closed s,
              ir_updated_at = rs_updated_at s, ir_tracked = (rs_remote_id s \<in> set tracked)\<rparr>) snaps\<rparr>)))"

definition list_by_workspace :: "workspace_id \<Rightarrow> catalog \<Rightarrow> (repo_instance \<times> repo_origin) list" where
  "list_by_workspace ws c =
     List.map_filter (\<lambda>r. map_option (Pair r) (List.find (\<lambda>x. ro_id x = ri_origin_id r) (cat_origins c)))
       (sort_key ri_created_at (filter (\<lambda>r. ri_workspace_id r = ws) (cat_instances c)))"

fun unseen_bindings ::
  "repo_origin_id set \<Rightarrow> (repo_instance \<times> repo_origin) list \<Rightarrow> (repo_origin_id \<times> rstring \<times> rstring \<times> list_remote_role) list" where
  "unseen_bindings seen [] = []"
| "unseen_bindings seen ((r, x) # bs) =
     (if ri_origin_id r \<in> seen then unseen_bindings seen bs
      else (ri_origin_id r, ro_name x, ri_canonical_url r, RoleCanonical) #
             unseen_bindings (insert (ri_origin_id r) seen) bs)"

definition sy_list_remote :: "env \<Rightarrow> workspace_id \<Rightarrow> repo_id option \<Rightarrow> timestamp \<Rightarrow> list_remote_group list sm" where
  "sy_list_remote env ws repo_override since =
     (case repo_override of
        Some repo \<Rightarrow>
          bnd (bindings_get repo) (\<lambda>(r, x).
          bnd (list_remote_group_of env since (ri_origin_id r, ro_name x, ri_canonical_url r, RoleRepo)) (\<lambda>g. ret [g]))
      | None \<Rightarrow>
          bnd (workspaces_get ws) (\<lambda>space.
          bnd (reads (\<lambda>w. list_by_workspace ws (wd_cat w))) (\<lambda>bindings.
          bnd (case w_filing_repo_id space of
                 None \<Rightarrow> ret []
               | Some fo \<Rightarrow>
                   (case List.find (\<lambda>b. ri_origin_id (fst b) = fo) bindings of
                      Some (r, x) \<Rightarrow> ret [(fo, ro_name x, ri_canonical_url r, RoleFiling)]
                    | None \<Rightarrow> bnd (bindings_get_origin fo) (\<lambda>x.
                        ret [(fo, ro_name x, ro_canonical_url x, RoleFiling)]))) (\<lambda>filing.
          bnd (collect (list_remote_group_of env since)
                 (filing @ unseen_bindings (set_option (w_filing_repo_id space)) bindings)) (\<lambda>groups.
            ret (filter (\<lambda>g. lg_issues g \<noteq> []) groups))))))"

end
