(* ===== verification/Poller.thy ===== *)
theory Poller
  imports SyncService
begin

text \<open>
  The inbound board poll (\<open>application-sync/src/poller.rs\<close>): one pass over the known boards, which
  caches the board status, applies board priorities and marks tasks whose remote content changed,
  and the watermark that lets the next pass skip what it has seen.
\<close>

section \<open>The pass\<close>

definition POLL_QUERY :: rstring where "POLL_QUERY = []"

definition POLL_LIMIT :: "64 word" where "POLL_LIMIT = 200"

record poll_report =
  po_projects_polled :: nat
  po_items_seen :: nat
  po_items_matched :: nat
  po_items_unmatched :: nat
  po_partial_projects :: nat
  po_tasks_refreshed :: nat
  po_content_drift_marked :: nat

definition empty_report :: poll_report where
  "empty_report = \<lparr>po_projects_polled = 0, po_items_seen = 0, po_items_matched = 0, po_items_unmatched = 0,
     po_partial_projects = 0, po_tasks_refreshed = 0, po_content_drift_marked = 0\<rparr>"

text \<open>\<open>by_item_id\<close>: the working set of the pass, by project item; the watermarks live in the process.\<close>

type_synonym item_index = "(rstring \<times> task) list"
type_synonym watermarks = "(project_id \<times> timestamp) list"

definition put_key :: "'k \<Rightarrow> 'v \<Rightarrow> ('k \<times> 'v) list \<Rightarrow> ('k \<times> 'v) list" where
  "put_key k v m = (k, v) # filter (\<lambda>p. fst p \<noteq> k) m"

definition watermark :: "watermarks \<Rightarrow> project_id \<Rightarrow> timestamp" where
  "watermark wm p = (case map_of wm p of Some ts \<Rightarrow> ts | None \<Rightarrow> epoch)"

definition list_all_projects :: "catalog \<Rightarrow> project list" where
  "list_all_projects c = sort_key p_owner_login (sort_key p_number (cat_projects c))"

fun index_tasks :: "task list \<Rightarrow> item_index \<Rightarrow> item_index" where
  "index_tasks [] m = m"
| "index_tasks (t # ts) m =
     index_tasks ts (case t_project_item_id t of None \<Rightarrow> m | Some item \<Rightarrow> put_key item t m)"

definition index_stale_candidates :: "timestamp \<Rightarrow> catalog \<Rightarrow> db \<Rightarrow> item_index" where
  "index_stale_candidates now c d =
     index_tasks (list_tasks c (default_filter\<lparr>tf_has_project_item_id := True,
       tf_pollable_workspaces_only := True, tf_synced_at_lt := Some now, tf_limit := Some POLL_LIMIT\<rparr>) d) []"

definition has_pending_priority_push :: "task_id \<Rightarrow> db \<Rightarrow> bool" where
  "has_pending_priority_push i d \<longleftrightarrow>
     list_ex (\<lambda>e. case e_mutation e of SetProjectPriority _ _ _ _ \<Rightarrow> True | _ \<Rightarrow> False) (list_pending i (db_outbox d))"

definition reconcile_priority :: "project \<Rightarrow> remote_project_item \<Rightarrow> task \<Rightarrow> task sm" where
  "reconcile_priority p item t =
     (case Option.bind (priority_field_id p) (map_of (pi_single_select_options item)) of
        None \<Rightarrow> ret t
      | Some opt \<Rightarrow>
          if resolved_priority_option_id_for (t_priority t) p = Some opt then ret t
          else
            (case priority_for_option_id opt p of
               None \<Rightarrow> ret t
             | Some prio \<Rightarrow>
                 bnd (reads (\<lambda>w. has_pending_priority_push (t_id t) (wd_db w))) (\<lambda>pending.
                   if pending then ret t
                   else bnd (modify_db (apply_polled_priority (t_id t) prio)) (\<lambda>_. ret (t\<lparr>t_priority := prio\<rparr>)))))"

text \<open>The content check: a clean task whose polled title, body or open bit left the baseline.\<close>

definition content_drifted :: "remote_project_item \<Rightarrow> task \<Rightarrow> bool" where
  "content_drifted item full \<longleftrightarrow> t_sync full = Synced \<and>
     (case t_synced_baseline full of
        None \<Rightarrow> False
      | Some b \<Rightarrow> \<not> inbound_mirrors_baseline (pi_title item) (pi_body item) (s_assignees b) (pi_closed item) b)"

definition check_content :: "remote_project_item \<Rightarrow> task \<Rightarrow> (task \<times> nat) sm" where
  "check_content item t =
     bnd (reads (\<lambda>w. get_task (t_id t) (wd_db w))) (\<lambda>r.
       case r of
         Inl _ \<Rightarrow> ret (t, 0)
       | Inr full \<Rightarrow>
           if content_drifted item full
           then bnd (modify_db (mark_remote_dirty (t_id t))) (\<lambda>_. ret (t\<lparr>t_sync := DirtyRemote\<rparr>, 1))
           else ret (t, 0))"

definition reconcile_item ::
  "project \<Rightarrow> remote_project_item \<Rightarrow> item_index \<times> poll_report \<Rightarrow> (item_index \<times> poll_report) sm" where
  "reconcile_item p item = (\<lambda>(index, rep).
     case map_of index (pi_item_node_id item) of
       None \<Rightarrow> ret (index, rep\<lparr>po_items_unmatched := po_items_unmatched rep + 1\<rparr>)
     | Some t \<Rightarrow>
         bnd (check_content item t) (\<lambda>(t, drift).
         bnd (reconcile_priority p item t) (\<lambda>t.
         bnd (if t_project_status_option_id t = pi_status_option_id item then ret t
              else bnd (modify_db (cache_project_status (t_id t) (pi_status_option_id item))) (\<lambda>_.
                     ret (t\<lparr>t_project_status_option_id := pi_status_option_id item\<rparr>))) (\<lambda>t.
           ret (put_key (pi_item_node_id item) t index,
                rep\<lparr>po_items_matched := po_items_matched rep + 1,
                    po_content_drift_marked := po_content_drift_marked rep + drift\<rparr>)))))"

text \<open>The items of one page newer than the watermark, in order.\<close>

fun reconcile_items ::
  "project \<Rightarrow> timestamp \<Rightarrow> remote_project_item list \<Rightarrow> item_index \<times> poll_report \<Rightarrow> (item_index \<times> poll_report) sm" where
  "reconcile_items p since [] st = ret st"
| "reconcile_items p since (item # items) st =
     bnd (if pi_updated_at item \<le> since then ret st else reconcile_item p item st) (reconcile_items p since items)"

definition max_seen :: "timestamp \<Rightarrow> remote_project_item list \<Rightarrow> timestamp" where
  "max_seen since items = fold (\<lambda>item m. if pi_updated_at item > m then pi_updated_at item else m) items since"

definition advance :: "project_id \<Rightarrow> timestamp \<Rightarrow> poll_page \<Rightarrow> watermarks \<Rightarrow> watermarks" where
  "advance p since page wm =
     (let newest = max_seen since (pp_items page)
      in if \<not> pp_truncated page \<and> newest > since then put_key p (max since (minus_one_second newest)) wm else wm)"

record poll_state =
  ps_index :: item_index
  ps_report :: poll_report
  ps_completed :: "project_id set"
  ps_watermarks :: watermarks

definition poll_project :: "env \<Rightarrow> project \<Rightarrow> poll_state \<Rightarrow> poll_state sm" where
  "poll_project env p st =
     (case status_field_id p of
        None \<Rightarrow> ret st
      | Some field \<Rightarrow>
          let since = watermark (ps_watermarks st) (p_id p);
              rep = (ps_report st)\<lparr>po_projects_polled := po_projects_polled (ps_report st) + 1\<rparr>
          in
          bnd (remote (CallPollItems (p_id p) field POLL_QUERY)
                 (\<lambda>k. poll_project_items env k (p_id p) field POLL_QUERY)) (\<lambda>r.
            case r of
              Inl _ \<Rightarrow> ret (st\<lparr>ps_report := rep\<rparr>)
            | Inr page \<Rightarrow>
                bnd (reconcile_items p since (pp_items page)
                       (ps_index st, rep\<lparr>po_items_seen := po_items_seen rep + length (pp_items page)\<rparr>)) (\<lambda>(index, rep).
                  ret (st\<lparr>ps_index := index,
                    ps_report := (if pp_truncated page
                      then rep\<lparr>po_partial_projects := po_partial_projects rep + 1\<rparr> else rep),
                    ps_completed := (if pp_truncated page then ps_completed st
                      else insert (p_id p) (ps_completed st)),
                    ps_watermarks := advance (p_id p) since page (ps_watermarks st)\<rparr>))))"

fun poll_projects :: "env \<Rightarrow> project list \<Rightarrow> poll_state \<Rightarrow> poll_state sm" where
  "poll_projects env [] st = ret st"
| "poll_projects env (p # ps) st = bnd (poll_project env p st) (poll_projects env ps)"

text \<open>The board of a workspace; the cache of the source only avoids repeated reads.\<close>

definition workspace_project :: "catalog \<Rightarrow> workspace_id \<Rightarrow> project_id option" where
  "workspace_project c ws =
     Option.bind (List.find (\<lambda>w. w_id w = ws) (cat_workspaces c)) (\<lambda>w.
     Option.bind (w_project_id w) (\<lambda>i. map_option p_id (List.find (\<lambda>p. p_id p = i) (cat_projects c))))"

fun stamp_candidates :: "env \<Rightarrow> project_id set \<Rightarrow> task list \<Rightarrow> nat \<Rightarrow> nat sm" where
  "stamp_candidates env completed [] n = ret n"
| "stamp_candidates env completed (t # ts) n =
     bnd (reads (\<lambda>w. workspace_project (wd_cat w) (t_workspace_id t))) (\<lambda>p.
       if p \<in> Some ` completed
       then bnd (timestamp_now env) (\<lambda>now.
              bnd (modify_db (cache_synced_at (t_id t) now)) (\<lambda>_. stamp_candidates env completed ts (n + 1)))
       else stamp_candidates env completed ts n)"

text \<open>\<open>HashMap::values\<close> of the working set, in an arbitrary order; a task sits under its own item only.\<close>

definition index_values :: "env \<Rightarrow> nat \<Rightarrow> item_index \<Rightarrow> task list" where
  "index_values env k index =
     List.map_filter (map_of (map (\<lambda>p. (t_id (snd p), snd p)) index)) (env_map_order env k (map (\<lambda>p. t_id (snd p)) index))"

definition poll_once :: "env \<Rightarrow> watermarks \<Rightarrow> (poll_report \<times> watermarks) sm" where
  "poll_once env wm =
     bnd (reads (\<lambda>w. list_all_projects (wd_cat w))) (\<lambda>projects.
       if projects = [] then ret (empty_report, wm)
       else
         bnd (timestamp_now env) (\<lambda>now.
         bnd (reads (\<lambda>w. index_stale_candidates now (wd_cat w) (wd_db w))) (\<lambda>index.
         bnd (poll_projects env projects
                \<lparr>ps_index = index, ps_report = empty_report, ps_completed = {}, ps_watermarks = wm\<rparr>) (\<lambda>st.
         bnd tick (\<lambda>k.
         bnd (stamp_candidates env (ps_completed st) (index_values env k (ps_index st)) 0) (\<lambda>n.
           ret ((ps_report st)\<lparr>po_tasks_refreshed := n\<rparr>, ps_watermarks st)))))))"

end
