(* ===== verification/Drainer.thy ===== *)
theory Drainer
  imports SyncMonad
begin

text \<open>
  The outbox drainer (\<open>application-sync/src/drainer.rs\<close>): the back-off schedule, the arm of
  \<open>apply\<close> for every mutation with its write-backs and follow-ups, one turn of the drain loop, the
  loop itself and the sweep that re-plans pending issue types.  Log lines are not modelled.
\<close>

section \<open>Dispositions and back-off\<close>

datatype apply_disposition =
    Stamped
  | Retry sync_error
  | DispConflict conflict_kind

definition stamped_or_retry :: "unit port_result \<Rightarrow> apply_disposition sm" where
  "stamped_or_retry r = (case r of Inr _ \<Rightarrow> ret Stamped | Inl e \<Rightarrow> ret (Retry (SePort e)))"

text \<open>Durations are nanoseconds.\<close>

record backoff_schedule =
  bo_delays :: "nat list"
  bo_max_attempts :: nat

definition backoff_standard :: backoff_schedule where
  "backoff_standard = \<lparr>bo_delays = [5 * 10^9, 30 * 10^9, 2 * 60 * 10^9, 10 * 60 * 10^9],
     bo_max_attempts = 5\<rparr>"

definition backoff_new :: "nat list \<Rightarrow> nat \<Rightarrow> backoff_schedule" where
  "backoff_new delays m = \<lparr>bo_delays = delays, bo_max_attempts = max m 1\<rparr>"

definition delay_for :: "backoff_schedule \<Rightarrow> nat \<Rightarrow> nat" where
  "delay_for b attempts_made =
     (if bo_delays b = [] then 0
      else bo_delays b ! min (attempts_made - 1) (length (bo_delays b) - 1))"

section \<open>Look-ups\<close>

definition filing_owner_login :: "task \<Rightarrow> rstring option sm" where
  "filing_owner_login t =
     bnd (tolerant (workspaces_get (t_workspace_id t))) (\<lambda>ws.
     bnd (case t_repo_id t of
            Some r \<Rightarrow> bnd (tolerant (bindings_get r)) (\<lambda>b. ret (map_option (ri_origin_id \<circ> fst) b))
          | None \<Rightarrow> ret None) (\<lambda>logical.
       case resolve_filing_repo (t_filing_repo_id t) (Option.bind ws w_filing_repo_id) logical of
         None \<Rightarrow> ret None
       | Some origin \<Rightarrow>
           bnd (tolerant (bindings_get_origin origin)) (\<lambda>x.
             ret (Option.bind x (\<lambda>y. parse_github_owner (ro_canonical_url y))))))"

definition resolve_project_tolerant :: "task \<Rightarrow> project option sm" where
  "resolve_project_tolerant t =
     bnd (tolerant (workspaces_get (t_workspace_id t))) (\<lambda>ws.
       case Option.bind ws w_project_id of
         None \<Rightarrow> ret None
       | Some pid \<Rightarrow> tolerant (projects_get pid))"

definition workspace_still_targets_project :: "task_id \<Rightarrow> rstring \<Rightarrow> bool sm" where
  "workspace_still_targets_project i project_node_id =
     bnd (tasks_get i) (\<lambda>t.
     bnd (workspaces_get (t_workspace_id t)) (\<lambda>ws.
       case w_project_id ws of
         None \<Rightarrow> ret False
       | Some pid \<Rightarrow> bnd (projects_get pid) (\<lambda>p. ret (p_id p = project_node_id))))"

section \<open>Write-backs and follow-ups\<close>

definition write_back_project_item :: "env \<Rightarrow> task_id \<Rightarrow> rstring \<Rightarrow> unit sm" where
  "write_back_project_item env i item_id =
     bnd (tasks_get i) (\<lambda>t.
       if t_project_item_id t \<noteq> Some item_id
       then tasks_save env (t\<lparr>t_project_item_id := Some item_id\<rparr>) SrcLocalEdit
       else ret ())"

definition write_back_converted_issue :: "env \<Rightarrow> task_id \<Rightarrow> rstring \<Rightarrow> nat \<Rightarrow> unit sm" where
  "write_back_converted_issue env i issue_node_id issue_number =
     bnd (tasks_get i) (\<lambda>t.
       let provider = (case t_remote t of Some r \<Rightarrow> rr_provider r | None \<Rightarrow> lit ''github'')
       in tasks_save env (t\<lparr>t_remote := Some ((remote_ref_new provider (show_nat issue_number))
            \<lparr>rr_node_id := Some issue_node_id\<rparr>)\<rparr>) SrcLocalEdit)"

definition enqueue_opt :: "env \<Rightarrow> task_id \<Rightarrow> outbox_mutation option \<Rightarrow> unit sm" where
  "enqueue_opt env i m = (case m of Some x \<Rightarrow> outbox_enqueue env i x | None \<Rightarrow> ret ())"

definition status_follow_up :: "project \<Rightarrow> task \<Rightarrow> rstring \<Rightarrow> rstring \<Rightarrow> outbox_mutation option" where
  "status_follow_up p t project_node_id item_id =
     Option.bind (status_field_id p) (\<lambda>fid.
     Option.bind (board_option_for_lifecycle p (is_open (t_lifecycle t))) (\<lambda>opt.
       Some (SetProjectStatus project_node_id item_id fid opt)))"

definition enqueue_status_follow_up :: "env \<Rightarrow> task_id \<Rightarrow> rstring \<Rightarrow> rstring \<Rightarrow> unit sm" where
  "enqueue_status_follow_up env i project_node_id item_id =
     bnd (tasks_get i) (\<lambda>t.
     bnd (workspaces_get (t_workspace_id t)) (\<lambda>ws.
       case w_project_id ws of
         None \<Rightarrow> ret ()
       | Some pid \<Rightarrow>
           bnd (projects_get pid) (\<lambda>p.
             if p_id p \<noteq> project_node_id then ret ()
             else
               bnd (enqueue_opt env i (status_follow_up p t project_node_id item_id)) (\<lambda>_.
               bnd (enqueue_opt env i (set_project_priority_mutation p t)) (\<lambda>_.
               enqueue_opt env i (set_project_type_mutation p t))))))"

definition enqueue_issue_type_follow_up :: "env \<Rightarrow> task_id \<Rightarrow> rstring \<Rightarrow> unit sm" where
  "enqueue_issue_type_follow_up env i filing_canonical =
     bnd (tasks_get i) (\<lambda>t.
       if t_issue_type t = None then ret ()
       else
         bnd (resolve_project_tolerant t) (\<lambda>proj.
         bnd (reads wd_cat) (\<lambda>c.
         enqueue_opt env i
           (resolve_type_projection proj c (parse_github_owner filing_canonical) t))))"

section \<open>Applying one entry\<close>

definition apply_update_remote :: "env \<Rightarrow> task_id \<Rightarrow> rstring \<Rightarrow> rstring \<Rightarrow> apply_disposition sm" where
  "apply_update_remote env i canonical_repo remote_id =
     bnd (tasks_get i) (\<lambda>t.
       if t_sync t \<in> {Staged, DirtyLocal, DirtyRemote} then
         let patch = diff_against_baseline t;
             confirm =
               bnd (timestamp_now env) (\<lambda>now.
               bnd (lift_domain (confirm_synced_fields now SrcPush patch t)) (\<lambda>t'.
               bnd (tasks_save env t' SrcPush) (\<lambda>_. ret Stamped)))
         in (case build_update_from_patch patch canonical_repo remote_id of
               None \<Rightarrow> confirm
             | Some update \<Rightarrow>
                 bnd (remote (CallUpdateRemote update) (\<lambda>k. update_remote env k update)) (\<lambda>r.
                   case r of
                     Inl e \<Rightarrow> ret (Retry (SePort e))
                   | Inr snap \<Rightarrow>
                       (case u_assignees update of
                          None \<Rightarrow> confirm
                        | Some sent \<Rightarrow>
                            if rs_assignees snap = sent \<or> sent = [] \<and> rs_assignees snap = []
                            then confirm
                            else ret (DispConflict AssigneeMismatch))))
       else ret Stamped)"

definition apply_add_item :: "env \<Rightarrow> task_id \<Rightarrow> rstring \<Rightarrow> rstring \<Rightarrow> apply_disposition sm" where
  "apply_add_item env i project_node_id issue_node_id =
     bnd (remote (CallAddItem project_node_id issue_node_id)
            (\<lambda>k. add_item env k project_node_id issue_node_id)) (\<lambda>r.
       case r of
         Inl e \<Rightarrow> ret (Retry (SePort e))
       | Inr item_id \<Rightarrow>
           if item_id = [] then ret (DispConflict TargetRemapped)
           else
             bnd (workspace_still_targets_project i project_node_id) (\<lambda>still.
             bnd (if still then
                    bnd (write_back_project_item env i item_id) (\<lambda>_.
                      enqueue_status_follow_up env i project_node_id item_id)
                  else ret ()) (\<lambda>_.
               ret Stamped)))"

definition apply_create_draft ::
  "env \<Rightarrow> task_id \<Rightarrow> rstring \<Rightarrow> rstring \<Rightarrow> rstring \<Rightarrow> apply_disposition sm" where
  "apply_create_draft env i project_node_id title body =
     bnd (tasks_get i) (\<lambda>t.
       let follow = (\<lambda>item_id.
             bnd (enqueue_status_follow_up env i project_node_id item_id) (\<lambda>_. ret Stamped))
       in (case t_project_item_id t of
             Some existing \<Rightarrow> follow existing
           | None \<Rightarrow>
               bnd (remote (CallCreateDraft project_node_id title body)
                      (\<lambda>k. create_draft_issue env k project_node_id title body)) (\<lambda>r.
                 case r of
                   Inl e \<Rightarrow> ret (Retry (SePort e))
                 | Inr minted \<Rightarrow>
                     if minted = [] then ret (DispConflict TargetRemapped)
                     else bnd (write_back_project_item env i minted) (\<lambda>_. follow minted))))"

definition apply_update_draft :: "env \<Rightarrow> task_id \<Rightarrow> rstring \<Rightarrow> apply_disposition sm" where
  "apply_update_draft env i item_node_id =
     bnd (tasks_get i) (\<lambda>t.
     bnd (remote (CallUpdateDraft item_node_id (Some (t_title t)) (Some (t_body t)))
            (\<lambda>k. update_draft_issue env k item_node_id (Some (t_title t)) (Some (t_body t))))
       stamped_or_retry)"

definition apply_convert_draft :: "env \<Rightarrow> task_id \<Rightarrow> rstring \<Rightarrow> rstring \<Rightarrow> apply_disposition sm" where
  "apply_convert_draft env i item_node_id repo_node_id =
     bnd (tasks_get i) (\<lambda>t.
       let follow = bnd (enqueue_issue_type_follow_up env i repo_node_id) (\<lambda>_. ret Stamped)
       in if remote_node_id t \<noteq> None then follow
          else
            bnd (remote (CallConvertDraft item_node_id repo_node_id)
                   (\<lambda>k. convert_draft_to_issue env k item_node_id repo_node_id)) (\<lambda>r.
              case r of
                Inl e \<Rightarrow> ret (Retry (SePort e))
              | Inr (issue_node_id, issue_number) \<Rightarrow>
                  if \<not> starts_with issue_node_id (lit ''I_'') \<or> issue_number = 0
                  then ret (DispConflict TargetRemapped)
                  else bnd (write_back_converted_issue env i issue_node_id issue_number) (\<lambda>_. follow)))"

definition apply_set_status ::
  "env \<Rightarrow> rstring \<Rightarrow> rstring \<Rightarrow> rstring \<Rightarrow> rstring \<Rightarrow> apply_disposition sm" where
  "apply_set_status env project item fid opt =
     bnd (remote (CallSelectOption project item fid (Some opt))
            (\<lambda>k. set_single_select_option env k project item fid (Some opt))) (\<lambda>r.
       case r of
         Inl e \<Rightarrow> ret (Retry (SePort e))
       | Inr None \<Rightarrow> ret (Retry (SePort (Backend (lit ''set_project_status read back no applied option''))))
       | Inr (Some applied) \<Rightarrow>
           ret (if applied = opt then Stamped else DispConflict ProjectStatusMismatch))"

text \<open>The tail of the two issue-type arms: success compare-and-clears the pending flag.\<close>

definition clear_pending_if_recorded :: "task_id \<Rightarrow> rstring option \<Rightarrow> bool \<Rightarrow> apply_disposition sm" where
  "clear_pending_if_recorded i local_type recorded =
     bnd (if recorded then
            modify_db (\<lambda>d. snd (clear_issue_type_pending i (map_option issue_type_from local_type) d))
          else ret ()) (\<lambda>_. ret Stamped)"

fun apply_mutation :: "env \<Rightarrow> task_id \<Rightarrow> outbox_mutation \<Rightarrow> apply_disposition sm" where
  "apply_mutation env i (UpdateRemote canonical rid _ _ _) = apply_update_remote env i canonical rid"
| "apply_mutation env i (AddItem project issue) = apply_add_item env i project issue"
| "apply_mutation env i (CreateDraftIssue project title body) =
     apply_create_draft env i project title body"
| "apply_mutation env i (UpdateDraftIssue item _ _) = apply_update_draft env i item"
| "apply_mutation env i (ConvertDraftToIssue item repo) = apply_convert_draft env i item repo"
| "apply_mutation env i (SetProjectStatus project item fid opt) =
     apply_set_status env project item fid opt"
| "apply_mutation env i (SetProjectPriority project item fid opt) =
     bnd (remote (CallSelectOption project item fid (Some opt))
            (\<lambda>k. set_single_select_option env k project item fid (Some opt))) (\<lambda>r.
       case r of Inr _ \<Rightarrow> ret Stamped | Inl e \<Rightarrow> ret (Retry (SePort e)))"
| "apply_mutation env i (SetProjectType project item fid opt local_type recorded) =
     bnd (remote (CallSelectOption project item fid opt)
            (\<lambda>k. set_single_select_option env k project item fid opt)) (\<lambda>r.
       case r of
         Inr _ \<Rightarrow> clear_pending_if_recorded i local_type recorded
       | Inl e \<Rightarrow> ret (Retry (SePort e)))"
| "apply_mutation env i (SetIssueType node tid local_type recorded) =
     bnd (remote (CallSetIssueType node tid) (\<lambda>k. set_remote_issue_type env k node tid)) (\<lambda>r.
       case r of
         Inr _ \<Rightarrow> clear_pending_if_recorded i local_type recorded
       | Inl e \<Rightarrow> ret (Retry (SePort e)))"
| "apply_mutation env i (AddSubIssue pc pr cc cr) =
     bnd (remote (CallRelation (AddSubIssue pc pr cc cr)) (\<lambda>k. add_sub_issue env k pc pr cc cr))
       stamped_or_retry"
| "apply_mutation env i (RemoveSubIssue pc pr cc cr) =
     bnd (remote (CallRelation (RemoveSubIssue pc pr cc cr)) (\<lambda>k. remove_sub_issue env k pc pr cc cr))
       stamped_or_retry"
| "apply_mutation env i (AddBlockedBy pc pr cc cr) =
     bnd (remote (CallRelation (AddBlockedBy pc pr cc cr)) (\<lambda>k. add_blocked_by env k pc pr cc cr))
       stamped_or_retry"
| "apply_mutation env i (RemoveBlockedBy pc pr cc cr) =
     bnd (remote (CallRelation (RemoveBlockedBy pc pr cc cr)) (\<lambda>k. remove_blocked_by env k pc pr cc cr))
       stamped_or_retry"

definition apply_entry :: "env \<Rightarrow> outbox_entry \<Rightarrow> apply_disposition sm" where
  "apply_entry env e = apply_mutation env (e_task_id e) (e_mutation e)"

section \<open>The drain loop\<close>

definition modify_outbox :: "(outbox_entry list \<Rightarrow> outbox_entry list) \<Rightarrow> unit sm" where
  "modify_outbox f = modify_db (\<lambda>d. d\<lparr>db_outbox := f (db_outbox d)\<rparr>)"

definition outbox_claim :: "env \<Rightarrow> timestamp \<Rightarrow> outbox_entry option sm" where
  "outbox_claim env now =
     bnd (timestamp_now env) (\<lambda>flip_at.
     bnd (reads (\<lambda>w. claim_next_eligible now flip_at (db_outbox (wd_db w)))) (\<lambda>(e, tbl).
     bnd (modify_outbox (\<lambda>_. tbl)) (\<lambda>_. ret e)))"

definition settle_stamped :: "env \<Rightarrow> outbox_entry \<Rightarrow> unit sm" where
  "settle_stamped env e =
     bnd (timestamp_now env) (\<lambda>ts.
     bnd (modify_db (cache_synced_at (e_task_id e) ts)) (\<lambda>_.
     bnd (timestamp_now env) (\<lambda>clk. modify_outbox (mark_succeeded clk (e_id e)))))"

definition settle_conflict :: "env \<Rightarrow> outbox_entry \<Rightarrow> conflict_kind \<Rightarrow> unit sm" where
  "settle_conflict env e k =
     bnd (catch (tasks_get (e_task_id e))) (\<lambda>r.
     bnd (case r of
            Inr t \<Rightarrow>
              bnd (timestamp_now env) (\<lambda>now.
                case mark_conflicted now t of
                  Inr t' \<Rightarrow> tasks_save env t' SrcLocalEdit
                | Inl _ \<Rightarrow> ret ())
          | Inl _ \<Rightarrow> ret ()) (\<lambda>_.
     bnd (timestamp_now env) (\<lambda>clk.
       modify_outbox (mark_failed clk (e_id e) (lit ''conflict: '' @ debug_conflict_kind k)))))"

definition settle_failure :: "env \<Rightarrow> backoff_schedule \<Rightarrow> outbox_entry \<Rightarrow> sync_error \<Rightarrow> unit sm" where
  "settle_failure env b e err =
     (let msg = sync_error_msg err;
          attempts_after = e_attempts e + 1
      in if attempts_after < bo_max_attempts b then
           bnd (timestamp_now env) (\<lambda>failed_at.
           bnd (timestamp_now env) (\<lambda>clk.
             modify_outbox (record_retry clk (e_id e) msg
               (failed_at + (case env_from_std env (delay_for b attempts_after) of
                               Some d \<Rightarrow> d | None \<Rightarrow> 0)))))
         else
           bnd (timestamp_now env) (\<lambda>clk. modify_outbox (mark_failed clk (e_id e) msg)))"

text \<open>One turn: \<open>None\<close> when nothing is eligible, otherwise whether the entry succeeded.\<close>

definition drain_turn :: "env \<Rightarrow> backoff_schedule \<Rightarrow> bool option sm" where
  "drain_turn env b =
     bnd (timestamp_now env) (\<lambda>now.
     bnd (outbox_claim env now) (\<lambda>claimed.
       case claimed of
         None \<Rightarrow> ret None
       | Some e \<Rightarrow>
           bnd (catch (apply_entry env e)) (\<lambda>r.
             case r of
               Inr Stamped \<Rightarrow> bnd (settle_stamped env e) (\<lambda>_. ret (Some True))
             | Inr (DispConflict k) \<Rightarrow> bnd (settle_conflict env e k) (\<lambda>_. ret (Some False))
             | Inr (Retry err) \<Rightarrow> bnd (settle_failure env b e err) (\<lambda>_. ret (Some False))
             | Inl err \<Rightarrow> bnd (settle_failure env b e err) (\<lambda>_. ret (Some False)))))"

partial_function (option) drain_loop ::
  "env \<Rightarrow> backoff_schedule \<Rightarrow> nat \<Rightarrow> world \<Rightarrow> (nat sync_result \<times> world) option" where
  "drain_loop env b n w =
     (case drain_turn env b w of
        (Inl e, w') \<Rightarrow> Some (Inl e, w')
      | (Inr None, w') \<Rightarrow> Some (Inr n, w')
      | (Inr (Some ok), w') \<Rightarrow> drain_loop env b (if ok then n + 1 else n) w')"

definition plan_pending_type :: "task \<Rightarrow> outbox_mutation option sm" where
  "plan_pending_type t =
     bnd (resolve_project_tolerant t) (\<lambda>proj.
     bnd (if t_issue_type t \<noteq> None then filing_owner_login t else ret None) (\<lambda>owner.
     bnd (reads wd_cat) (\<lambda>c. ret (resolve_type_projection proj c owner t))))"

definition enqueue_pending_issue_types :: "env \<Rightarrow> unit sm" where
  "enqueue_pending_issue_types env =
     bnd (reads (\<lambda>w. list_issue_type_pending (wd_db w))) (\<lambda>pending.
       each (\<lambda>t.
         if \<not> is_mirror t then ret ()
         else
           bnd (catch (plan_pending_type t)) (\<lambda>planned.
             case planned of
               Inr (Some m) \<Rightarrow> outbox_enqueue env (t_id t) m
             | Inr None \<Rightarrow> ret ()
             | Inl _ \<Rightarrow> ret ())) pending)"

definition drain_once ::
  "env \<Rightarrow> backoff_schedule \<Rightarrow> world \<Rightarrow> (nat sync_result \<times> world) option" where
  "drain_once env b w =
     (case enqueue_pending_issue_types env w of
        (Inl e, w') \<Rightarrow> Some (Inl e, w')
      | (Inr _, w') \<Rightarrow> drain_loop env b 0 w')"

end
