(* ===== verification/DrainLoop.thy ===== *)
theory DrainLoop
  imports Drainer
begin

text \<open>
  The drain pass as a loop: every entry it touches is resolved or moved closer to its attempt cap,
  follow-ups are bounded, so the pass ends; what it leaves in the queue; the count it returns.
\<close>

section \<open>What a program adds to the queue\<close>

definition spawner :: "outbox_mutation \<Rightarrow> bool" where
  "spawner m \<longleftrightarrow> (case m of AddItem _ _ \<Rightarrow> True | CreateDraftIssue _ _ _ \<Rightarrow> True
     | ConvertDraftToIssue _ _ \<Rightarrow> True | _ \<Rightarrow> False)"

definition fresh_entry :: "outbox_entry \<Rightarrow> bool" where
  "fresh_entry e \<longleftrightarrow> e_status e = Pending \<and> e_attempts e = 0 \<and> \<not> spawner (e_mutation e)"

definition outbox_grows :: "env \<Rightarrow> world \<Rightarrow> world \<Rightarrow> outbox_entry list \<Rightarrow> bool" where
  "outbox_grows env w w' es \<longleftrightarrow> wd_tick w \<le> wd_tick w' \<and> wd_cat w' = wd_cat w \<and>
     db_outbox (wd_db w') = db_outbox (wd_db w) @ es \<and> (\<forall>e \<in> set es. fresh_entry e) \<and>
     (\<exists>ks. map e_id es = map (env_id env) ks \<and> sorted_wrt (<) ks \<and> set ks \<subseteq> {wd_tick w..<wd_tick w'})"

definition spawns :: "env \<Rightarrow> nat \<Rightarrow> 'a sm \<Rightarrow> bool" where
  "spawns env n m \<longleftrightarrow> (\<forall>w r w'. m w = (r, w') \<longrightarrow> (\<exists>es. outbox_grows env w w' es \<and> length es \<le> n))"

lemma outbox_grows_Nil:
  "outbox_grows env w w' [] \<longleftrightarrow> wd_tick w \<le> wd_tick w' \<and> wd_cat w' = wd_cat w \<and>
     db_outbox (wd_db w') = db_outbox (wd_db w)"
  by (auto simp: outbox_grows_def intro: exI [of _ "[]"])

lemma outbox_grows_trans:
  assumes "outbox_grows env u v es" "outbox_grows env v w fs"
  shows "outbox_grows env u w (es @ fs)"
proof -
  obtain ks where ks: "map e_id es = map (env_id env) ks" "sorted_wrt (<) ks" "set ks \<subseteq> {wd_tick u..<wd_tick v}"
    using assms(1) by (auto simp: outbox_grows_def)
  obtain ls where ls: "map e_id fs = map (env_id env) ls" "sorted_wrt (<) ls" "set ls \<subseteq> {wd_tick v..<wd_tick w}"
    using assms(2) by (auto simp: outbox_grows_def)
  have le: "wd_tick u \<le> wd_tick v" "wd_tick v \<le> wd_tick w" using assms by (auto simp: outbox_grows_def)
  have "sorted_wrt (<) (ks @ ls)" using ks(2,3) ls(2,3) by (fastforce simp: sorted_wrt_append)
  moreover have "set (ks @ ls) \<subseteq> {wd_tick u..<wd_tick w}" using ks(3) ls(3) le by fastforce
  ultimately have "\<exists>js. map e_id (es @ fs) = map (env_id env) js \<and> sorted_wrt (<) js \<and>
    set js \<subseteq> {wd_tick u..<wd_tick w}"
    using ks(1) ls(1) by (intro exI [of _ "ks @ ls"]) simp
  with assms le show ?thesis by (auto simp: outbox_grows_def)
qed

lemma spawnsI: "(\<And>w r w'. m w = (r, w') \<Longrightarrow> \<exists>es. outbox_grows env w w' es \<and> length es \<le> n) \<Longrightarrow> spawns env n m"
  by (auto simp: spawns_def)

lemma spawnsD: "spawns env n m \<Longrightarrow> m w = (r, w') \<Longrightarrow> \<exists>es. outbox_grows env w w' es \<and> length es \<le> n"
  by (auto simp: spawns_def)

lemma spawns_mono: "spawns env n m \<Longrightarrow> n \<le> k \<Longrightarrow> spawns env k m"
  unfolding spawns_def by (meson le_trans)

lemma spawns_bnd:
  assumes "spawns env a m" "\<And>x. spawns env b (f x)"
  shows "spawns env (a + b) (bnd m f)"
proof (rule spawnsI)
  fix w r w' assume "bnd m f w = (r, w')"
  then show "\<exists>es. outbox_grows env w w' es \<and> length es \<le> a + b"
  proof (cases rule: bnd_cases)
    case (err e)
    then show ?thesis using spawnsD [OF assms(1)] by (meson le_add1 le_trans)
  next
    case (ok x v)
    obtain es where "outbox_grows env w v es" "length es \<le> a" using spawnsD [OF assms(1) ok(1)] by blast
    moreover obtain fs where "outbox_grows env v w' fs" "length fs \<le> b" using spawnsD [OF assms(2) ok(2)] by blast
    ultimately show ?thesis by (intro exI [of _ "es @ fs"]) (simp add: outbox_grows_trans)
  qed
qed

lemma spawns_bnd0: "spawns env 0 m \<Longrightarrow> (\<And>x. spawns env b (f x)) \<Longrightarrow> spawns env b (bnd m f)"
  using spawns_bnd [of env 0 m b f] by simp

lemma spawns_catch: "spawns env n m \<Longrightarrow> spawns env n (catch m)"
  by (auto simp: spawns_def catch_def split: prod.splits)

lemma spawns_prims [simp]:
  "spawns env n (ret x)" "spawns env n (throw e)" "spawns env n (reads f)" "spawns env n tick"
  "spawns env n (log_call c)" "spawns env n (lift_port p)" "spawns env n (lift_domain d)"
  by (rule spawnsI, rule exI [of _ "[]"],
      auto simp: outbox_grows_Nil lift_port_def lift_domain_def split: sum.splits)+

lemma spawns_modify_db: "(\<And>d. db_outbox (g d) = db_outbox d) \<Longrightarrow> spawns env n (modify_db g)"
  by (rule spawnsI, rule exI [of _ "[]"]) (auto simp: outbox_grows_Nil)

lemma spawns_timestamp_now [simp]: "spawns env n (timestamp_now env)"
  unfolding timestamp_now_def by (rule spawns_mono [of _ 0], intro spawns_bnd0) simp_all

lemma spawns_tolerant: "spawns env 0 m \<Longrightarrow> spawns env 0 (tolerant m)"
  unfolding tolerant_def
  by (intro spawns_bnd0 spawns_catch) (auto split: sum.splits sync_error.splits port_error.splits)

lemma spawns_lookups [simp]:
  "spawns env 0 (tasks_get i)" "spawns env 0 (workspaces_get i)" "spawns env 0 (projects_get p)"
  "spawns env 0 (bindings_get i)" "spawns env 0 (bindings_get_origin i)" "spawns env 0 (remote c a)"
  unfolding tasks_get_def workspaces_get_def projects_get_def bindings_get_def bindings_get_origin_def remote_def
  by (intro spawns_bnd0; simp)+

lemma save_task_outbox: "save_task cap t src d = Inr d' \<Longrightarrow> db_outbox d' = db_outbox d"
  by (auto simp: save_task_def elim!: write_task_cases)

lemma spawns_tasks_save [simp]: "spawns env 0 (tasks_save env t src)"
proof (rule spawnsI, rule exI [of _ "[]"])
  fix w r w' assume "tasks_save env t src w = (r, w')"
  then show "outbox_grows env w w' [] \<and> length [] \<le> 0"
    by (auto simp: tasks_save_def timestamp_now_def outbox_grows_Nil bnd_def lift_port_def
        split: sum.splits dest: save_task_outbox)
qed

lemma spawns_outbox_enqueue:
  assumes "\<not> spawner m"
  shows "spawns env 1 (outbox_enqueue env i m)"
proof (rule spawnsI)
  fix w r w' assume "outbox_enqueue env i m w = (r, w')"
  then have w': "w' = w\<lparr>wd_tick := Suc (wd_tick w), wd_db := (wd_db w)\<lparr>db_outbox :=
    enqueue_entry (outbox_entry_new (env_id env (wd_tick w)) (env_now env (wd_tick w)) i m)
      (db_outbox (wd_db w))\<rparr>\<rparr>"
    by (simp add: outbox_enqueue_def bnd_def)
  let ?e = "outbox_entry_new (env_id env (wd_tick w)) (env_now env (wd_tick w)) i m"
  have "enqueue_entry ?e (db_outbox (wd_db w)) \<in> {db_outbox (wd_db w), db_outbox (wd_db w) @ [?e]}"
    by (simp add: enqueue_entry_def insert_outbox_in_tx_def)
  then have "outbox_grows env w w' [] \<or> outbox_grows env w w' [?e]"
  proof (elim insertE emptyE)
    assume "enqueue_entry ?e (db_outbox (wd_db w)) = db_outbox (wd_db w)"
    then show ?thesis by (simp add: w' outbox_grows_Nil)
  next
    assume "enqueue_entry ?e (db_outbox (wd_db w)) = db_outbox (wd_db w) @ [?e]"
    moreover have "fresh_entry ?e" "map e_id [?e] = map (env_id env) [wd_tick w]"
      using assms by (simp_all add: fresh_entry_def outbox_entry_new_def)
    ultimately show ?thesis
      unfolding outbox_grows_def by (intro disjI2 conjI exI [of _ "[wd_tick w]"]) (simp_all add: w')
  qed
  then show "\<exists>es. outbox_grows env w w' es \<and> length es \<le> 1"
    by (metis One_nat_def bot_nat_0.extremum le_refl length_Cons list.size(3))
qed

section \<open>Bounds on the follow-ups\<close>

lemma planned_not_spawner:
  "status_follow_up p t n item = Some m \<Longrightarrow> \<not> spawner m"
  "set_project_priority_mutation p t = Some m \<Longrightarrow> \<not> spawner m"
  "set_project_type_mutation p t = Some m \<Longrightarrow> \<not> spawner m"
  "resolve_type_projection proj c owner t = Some m \<Longrightarrow> \<not> spawner m"
proof -
  show type: "set_project_type_mutation p t = Some m \<Longrightarrow> \<not> spawner m" for p t
    by (auto simp: set_project_type_mutation_def spawner_def bind_eq_Some_conv)
  have native: "resolve_issue_type_projection c owner t = ItpMutation m \<Longrightarrow> \<not> spawner m"
    by (auto dest!: resolve_issue_type_projection_sound simp: spawner_def)
  show "resolve_type_projection proj c owner t = Some m \<Longrightarrow> \<not> spawner m"
    using type native
    by (auto simp: resolve_type_projection_def Let_def split: option.splits if_splits issue_type_projection.splits)
qed (auto simp: status_follow_up_def set_project_priority_mutation_def spawner_def bind_eq_Some_conv)

lemma spawns_enqueue_opt:
  "(\<And>x. m = Some x \<Longrightarrow> \<not> spawner x) \<Longrightarrow> spawns env 1 (enqueue_opt env i m)"
  by (cases m) (use spawns_outbox_enqueue in \<open>auto simp: enqueue_opt_def\<close>)

lemma spawns_resolve_project_tolerant [simp]: "spawns env 0 (resolve_project_tolerant t)"
  unfolding resolve_project_tolerant_def
  by (intro spawns_bnd0 spawns_tolerant) (auto split: option.splits intro: spawns_tolerant)

lemma spawns_filing_owner_login [simp]: "spawns env 0 (filing_owner_login t)"
  unfolding filing_owner_login_def
  by (intro spawns_bnd0 spawns_tolerant)
    (auto split: option.splits intro!: spawns_bnd0 spawns_tolerant)

lemma spawns_write_backs [simp]:
  "spawns env 0 (write_back_project_item env i item)"
  "spawns env 0 (write_back_converted_issue env i node num)"
  "spawns env 0 (workspace_still_targets_project i node)"
  unfolding write_back_project_item_def write_back_converted_issue_def Let_def workspace_still_targets_project_def
  by (intro spawns_bnd0; auto split: option.splits intro: spawns_bnd0)+

lemma spawns_enqueue_status_follow_up: "spawns env 3 (enqueue_status_follow_up env i n item)"
proof -
  have "spawns env (1 + (1 + 1)) (bnd (enqueue_opt env i (status_follow_up p t n item)) (\<lambda>_.
      bnd (enqueue_opt env i (set_project_priority_mutation p t)) (\<lambda>_.
      enqueue_opt env i (set_project_type_mutation p t))))" for p t
    by (intro spawns_bnd spawns_enqueue_opt) (auto dest: planned_not_spawner)
  then show ?thesis
    unfolding enqueue_status_follow_up_def
    by (intro spawns_bnd0) (auto split: option.splits intro!: spawns_bnd0 simp: numeral_3_eq_3)
qed

lemma spawns_enqueue_issue_type_follow_up: "spawns env 1 (enqueue_issue_type_follow_up env i c)"
  unfolding enqueue_issue_type_follow_up_def
  by (intro spawns_bnd0)
    (auto intro!: spawns_bnd0 spawns_enqueue_opt [unfolded One_nat_def] dest: planned_not_spawner)

lemma spawns_stamped_or_retry [simp]: "spawns env 0 (stamped_or_retry r)"
  by (simp add: stamped_or_retry_def split: sum.splits)

lemma spawns_clear_pending [simp]: "spawns env 0 (clear_pending_if_recorded i lt rec)"
  unfolding clear_pending_if_recorded_def
  by (intro spawns_bnd0) (auto intro: spawns_modify_db simp: clear_issue_type_pending_def Let_def)

lemma spawns_apply_update_remote [simp]: "spawns env 0 (apply_update_remote env i c r)"
  unfolding apply_update_remote_def Let_def
  by (intro spawns_bnd0) (auto split: option.splits sum.splits intro!: spawns_bnd0)

lemma spawns_apply_spawners:
  "spawns env 3 (apply_add_item env i n issue)" "spawns env 3 (apply_create_draft env i n title body)"
  "spawns env 3 (apply_convert_draft env i item repo)"
proof -
  have follow: "spawns env 3 (bnd (enqueue_status_follow_up env i n item) (\<lambda>_. ret x))" for n item x
    using spawns_bnd [OF spawns_enqueue_status_follow_up, where b = 0 and f = "\<lambda>_. ret x"] by simp
  have conv: "spawns env 3 (bnd (enqueue_issue_type_follow_up env i c) (\<lambda>_. ret x))" for c x
    using spawns_mono [OF spawns_bnd [OF spawns_enqueue_issue_type_follow_up, where b = 0 and f = "\<lambda>_. ret x"]]
    by simp
  show "spawns env 3 (apply_create_draft env i n title body)"
    unfolding apply_create_draft_def Let_def
    by (intro spawns_bnd0) (auto split: option.splits sum.splits intro!: spawns_bnd0 follow)
  show "spawns env 3 (apply_convert_draft env i item repo)"
    unfolding apply_convert_draft_def Let_def
    by (intro spawns_bnd0) (auto split: sum.splits prod.splits intro!: spawns_bnd0 conv)
  have add: "spawns env (3 + 0) (bnd (if b then bnd (write_back_project_item env i item) (\<lambda>_.
      enqueue_status_follow_up env i n item) else ret ()) (\<lambda>_. ret x))" for b item x
    by (intro spawns_bnd) (auto intro!: spawns_bnd0 spawns_enqueue_status_follow_up)
  show "spawns env 3 (apply_add_item env i n issue)"
    unfolding apply_add_item_def
  proof (rule spawns_bnd0)
    fix r :: "rstring port_result"
    show "spawns env 3 (case r of Inl e \<Rightarrow> ret (Retry (SePort e)) | Inr item_id \<Rightarrow>
      if item_id = [] then ret (DispConflict TargetRemapped)
      else bnd (workspace_still_targets_project i n) (\<lambda>still.
        bnd (if still then bnd (write_back_project_item env i item_id) (\<lambda>_.
               enqueue_status_follow_up env i n item_id) else ret ()) (\<lambda>_. ret Stamped)))"
    proof (cases r)
      case (Inr item_id)
      have "spawns env 3 (bnd (workspace_still_targets_project i n) (\<lambda>still.
        bnd (if still then bnd (write_back_project_item env i item_id) (\<lambda>_.
               enqueue_status_follow_up env i n item_id) else ret ()) (\<lambda>_. ret Stamped)))"
        by (rule spawns_bnd0 [OF spawns_write_backs(3) add [unfolded add_0_right]])
      then show ?thesis using Inr by simp
    qed simp
  qed simp
qed

lemma spawns_apply_entry:
  "spawns env (if spawner (e_mutation e) then 3 else 0) (apply_entry env e)"
proof (cases "e_mutation e")
  case (SetProjectStatus a b c d)
  then show ?thesis
    by (auto simp: apply_entry_def spawner_def apply_set_status_def split: sum.splits option.splits
        intro!: spawns_bnd0)
qed (auto simp: apply_entry_def spawner_def apply_update_draft_def split: sum.splits
    intro!: spawns_bnd0 spawns_apply_spawners)

section \<open>The measure\<close>

text \<open>An entry that can still be tried weighs its remaining attempts; an entry that may append
  follow-ups also pays for three of them per attempt.\<close>

definition entry_weight :: "nat \<Rightarrow> outbox_entry \<Rightarrow> nat" where
  "entry_weight M e =
     (if e_status e \<in> {Pending, Inflight}
      then max 1 (M - e_attempts e) * (if spawner (e_mutation e) then 3 * max 1 M + 1 else 1) else 0)"

definition queue_weight :: "nat \<Rightarrow> world \<Rightarrow> nat" where
  "queue_weight M w = sum_list (map (entry_weight M) (db_outbox (wd_db w)))"

text \<open>Entry ids are unique, and the ids the generator will still produce are new.\<close>

definition drain_inv :: "env \<Rightarrow> world \<Rightarrow> bool" where
  "drain_inv env w \<longleftrightarrow> distinct (map e_id (db_outbox (wd_db w))) \<and>
     inj_on (env_id env) {wd_tick w..} \<and>
     (\<forall>k \<ge> wd_tick w. env_id env k \<notin> e_id ` set (db_outbox (wd_db w)))"

lemma sum_update_where_key:
  assumes "distinct (map f xs)" "x \<in> set xs"
  shows "sum_list (map h (update_where (\<lambda>y. f y = f x) g xs)) + (h x :: nat) =
    sum_list (map h xs) + h (g x)"
  using assms
proof (induction xs)
  case (Cons y ys)
  show ?case
  proof (cases "x = y")
    case True
    then have "\<forall>z \<in> set ys. f z \<noteq> f x" using Cons.prems(1) by (metis distinct.simps(2) image_eqI list.simps(9) set_map)
    with True show ?thesis by (simp add: update_where_none)
  next
    case False
    then have "x \<in> set ys" "f y \<noteq> f x" using Cons.prems by (auto simp: rev_image_eqI)
    with Cons show ?thesis by simp
  qed
qed simp

lemma drain_inv_grows:
  assumes "drain_inv env w" "outbox_grows env w w' es"
  shows "drain_inv env w'"
proof -
  obtain ks where ks: "map e_id es = map (env_id env) ks" "sorted_wrt (<) ks"
    "set ks \<subseteq> {wd_tick w..<wd_tick w'}" and le: "wd_tick w \<le> wd_tick w'"
    and out: "db_outbox (wd_db w') = db_outbox (wd_db w) @ es"
    using assms(2) by (auto simp: outbox_grows_def)
  have inj: "inj_on (env_id env) {wd_tick w..}" and old: "\<And>k. k \<ge> wd_tick w \<Longrightarrow> env_id env k \<notin> e_id ` set (db_outbox (wd_db w))"
    using assms(1) by (auto simp: drain_inv_def)
  have sub: "set ks \<subseteq> {wd_tick w..}" using ks(3) by auto
  have ids: "e_id ` set es = env_id env ` set ks" using ks(1) by (metis set_map)
  have "distinct ks" using ks(2) strict_sorted_iff by blast
  then have "distinct (map (env_id env) ks)" using inj_on_subset [OF inj sub] by (simp add: distinct_map)
  moreover have "e_id ` set (db_outbox (wd_db w)) \<inter> env_id env ` set ks = {}"
  proof -
    have "\<forall>k \<in> set ks. env_id env k \<notin> e_id ` set (db_outbox (wd_db w))" using old sub by auto
    then show ?thesis unfolding disjoint_iff by (metis imageE)
  qed
  moreover have "env_id env k \<notin> env_id env ` set ks" if "k \<ge> wd_tick w'" for k
  proof
    assume "env_id env k \<in> env_id env ` set ks"
    then obtain l where "l \<in> set ks" "env_id env k = env_id env l" by blast
    with inj sub that le have "k = l" by (meson atLeast_iff inj_onD le_trans subsetD)
    with \<open>l \<in> set ks\<close> ks(3) that show False by auto
  qed
  moreover have "inj_on (env_id env) {wd_tick w'..}" using inj le by (auto intro: inj_on_subset)
  ultimately show ?thesis
    using assms(1) old le by (auto simp: drain_inv_def out ks(1) ids image_Un)
qed

lemma weight_fresh: "fresh_entry e \<Longrightarrow> entry_weight M e = max 1 M"
  by (simp add: fresh_entry_def entry_weight_def)

lemma weight_grows:
  assumes "outbox_grows env w w' es"
  shows "queue_weight M w' = queue_weight M w + length es * max 1 M"
proof -
  have "\<forall>e \<in> set es. fresh_entry e" "db_outbox (wd_db w') = db_outbox (wd_db w) @ es"
    using assms by (auto simp: outbox_grows_def)
  moreover have "\<forall>e \<in> set es. fresh_entry e \<Longrightarrow> sum_list (map (entry_weight M) es) = length es * max 1 M"
    by (induction es) (auto simp: weight_fresh)
  ultimately show ?thesis by (simp add: queue_weight_def)
qed

section \<open>One turn\<close>

text \<open>How the settling calls end: a successful one rewrites the claimed row and nothing else of the
  queue.\<close>

definition resolves :: "env \<Rightarrow> (outbox_entry \<Rightarrow> outbox_entry) \<Rightarrow> outbox_entry \<Rightarrow> world \<Rightarrow> world \<Rightarrow> bool" where
  "resolves env g e w w' \<longleftrightarrow> wd_tick w \<le> wd_tick w' \<and> wd_cat w' = wd_cat w \<and>
     db_outbox (wd_db w') = update_where (\<lambda>x. e_id x = e_id e) g (db_outbox (wd_db w))"

lemma timestamp_now_run [simp]:
  "timestamp_now env w = (Inr (env_now env (wd_tick w)), w\<lparr>wd_tick := Suc (wd_tick w)\<rparr>)"
  by (simp add: timestamp_now_def bnd_def)

lemma modify_outbox_run [simp]:
  "modify_outbox f w = (Inr (), w\<lparr>wd_db := (wd_db w)\<lparr>db_outbox := f (db_outbox (wd_db w))\<rparr>\<rparr>)"
  by (simp add: modify_outbox_def)

lemma settle_stamped_run:
  "settle_stamped env e w = (r, w') \<Longrightarrow> r = Inr () \<and> (\<exists>clk. resolves env
     (\<lambda>x. x\<lparr>e_status := Succeeded, e_last_error := None, e_updated_at := clk\<rparr>) e w w')"
  by (auto simp: settle_stamped_def bnd_def resolves_def mark_succeeded_def cache_synced_at_def update_row_def)

lemma settle_failure_run:
  assumes "settle_failure env b e err w = (r, w')"
  obtains clk nxt where "r = Inr ()" "e_attempts e + 1 < bo_max_attempts b"
      "resolves env (\<lambda>x. x\<lparr>e_status := Pending, e_last_error := Some (sync_error_msg err),
         e_attempts := e_attempts x + 1, e_next_attempt_at := Some nxt, e_updated_at := clk\<rparr>) e w w'"
    | clk where "r = Inr ()" "\<not> e_attempts e + 1 < bo_max_attempts b"
      "resolves env (\<lambda>x. x\<lparr>e_status := Failed, e_last_error := Some (sync_error_msg err),
         e_attempts := e_attempts x + 1, e_updated_at := clk\<rparr>) e w w'"
proof (cases "e_attempts e + 1 < bo_max_attempts b")
  case True
  with assms show ?thesis
    by (intro that(1)) (simp_all add: settle_failure_def bnd_def Let_def resolves_def record_retry_def, auto)
next
  case False
  with assms show ?thesis
    by (intro that(2)) (simp_all add: settle_failure_def bnd_def Let_def resolves_def mark_failed_def, auto)
qed

lemma settle_conflict_run:
  assumes "settle_conflict env e k w = (Inr u, w')"
  shows "\<exists>clk msg. resolves env (\<lambda>x. x\<lparr>e_status := Failed, e_last_error := Some msg,
     e_attempts := e_attempts x + 1, e_updated_at := clk\<rparr>) e w w'"
proof -
  let ?flip = "\<lambda>r. case r of Inr t \<Rightarrow> bnd (timestamp_now env) (\<lambda>now.
      case mark_conflicted now t of Inr t' \<Rightarrow> tasks_save env t' SrcLocalEdit | Inl _ \<Rightarrow> ret ())
    | Inl _ \<Rightarrow> ret ()"
  have quiet: "spawns env 0 (bnd (catch (tasks_get (e_task_id e))) ?flip)"
    by (intro spawns_bnd0 spawns_catch) (auto split: sum.splits intro!: spawns_bnd0)
  have "settle_conflict env e k = bnd (bnd (catch (tasks_get (e_task_id e))) ?flip) (\<lambda>_.
     bnd (timestamp_now env) (\<lambda>clk.
       modify_outbox (mark_failed clk (e_id e) (lit ''conflict: '' @ debug_conflict_kind k))))"
    unfolding settle_conflict_def bnd_assoc ..
  with assms have "bnd (bnd (catch (tasks_get (e_task_id e))) ?flip) (\<lambda>_.
     bnd (timestamp_now env) (\<lambda>clk.
       modify_outbox (mark_failed clk (e_id e) (lit ''conflict: '' @ debug_conflict_kind k)))) w = (Inr u, w')"
    by simp
  then show ?thesis
  proof (cases rule: bnd_cases)
    case (ok x v)
    obtain es where "outbox_grows env w v es" "length es \<le> 0" using spawnsD [OF quiet ok(1)] by blast
    then have "wd_tick w \<le> wd_tick v" "wd_cat v = wd_cat w" "db_outbox (wd_db v) = db_outbox (wd_db w)"
      by (auto simp: outbox_grows_def)
    with ok(2) show ?thesis
      by (intro exI [of _ "env_now env (wd_tick v)"] exI [of _ "lit ''conflict: '' @ debug_conflict_kind k"])
        (auto simp: bnd_def resolves_def mark_failed_def)
  qed simp
qed

text \<open>The rewrite of a settled row.\<close>

definition settles :: "nat \<Rightarrow> bool \<Rightarrow> outbox_entry \<Rightarrow> (outbox_entry \<Rightarrow> outbox_entry) \<Rightarrow> bool" where
  "settles M ok e g \<longleftrightarrow> (\<forall>x. e_id (g x) = e_id x \<and> e_mutation (g x) = e_mutation x \<and>
     e_task_id (g x) = e_task_id x \<and>
     (if ok then e_status (g x) = Succeeded \<and> e_attempts (g x) = e_attempts x
      else e_attempts (g x) = Suc (e_attempts x) \<and>
        (if Suc (e_attempts e) < M then e_status (g x) \<in> {Pending, Failed} else e_status (g x) = Failed)))"

definition turn :: "env \<Rightarrow> nat \<Rightarrow> bool \<Rightarrow> world \<Rightarrow> world \<Rightarrow> bool" where
  "turn env M ok w w' \<longleftrightarrow> (\<exists>now fl e tbl w1 w2 es g.
     claim_next_eligible now fl (db_outbox (wd_db w)) = (Some e, tbl) \<and>
     wd_tick w \<le> wd_tick w1 \<and> db_outbox (wd_db w1) = tbl \<and>
     outbox_grows env w1 w2 es \<and> length es \<le> (if spawner (e_mutation e) then 3 else 0) \<and>
     resolves env g e w2 w' \<and> settles M ok e g)"

lemma drain_turn_turn:
  assumes "drain_turn env b w = (Inr (Some ok), w')"
  shows "turn env (bo_max_attempts b) ok w w'"
proof -
  define now fl where "now = env_now env (wd_tick w)" and "fl = env_now env (Suc (wd_tick w))"
  obtain c tbl where claim: "claim_next_eligible now fl (db_outbox (wd_db w)) = (c, tbl)" by force
  define w1 where "w1 = w\<lparr>wd_tick := Suc (Suc (wd_tick w)), wd_db := (wd_db w)\<lparr>db_outbox := tbl\<rparr>\<rparr>"
  let ?body = "\<lambda>claimed. case claimed of None \<Rightarrow> ret None | Some e \<Rightarrow>
    bnd (catch (apply_entry env e)) (\<lambda>r. case r of
        Inr Stamped \<Rightarrow> bnd (settle_stamped env e) (\<lambda>_. ret (Some True))
      | Inr (DispConflict k) \<Rightarrow> bnd (settle_conflict env e k) (\<lambda>_. ret (Some False))
      | Inr (Retry err) \<Rightarrow> bnd (settle_failure env b e err) (\<lambda>_. ret (Some False))
      | Inl err \<Rightarrow> bnd (settle_failure env b e err) (\<lambda>_. ret (Some False)))"
  have "outbox_claim env now (w\<lparr>wd_tick := Suc (wd_tick w)\<rparr>) = (Inr c, w1)"
    using claim by (simp add: outbox_claim_def bnd_def fl_def w1_def)
  then have body: "?body c w1 = (Inr (Some ok), w')"
    using assms by (simp add: drain_turn_def bnd_def now_def)
  then obtain e where e: "c = Some e" by (cases c) auto
  obtain r w2 where run: "apply_entry env e w1 = (r, w2)" by force
  obtain es where es: "outbox_grows env w1 w2 es" "length es \<le> (if spawner (e_mutation e) then 3 else 0)"
    using spawnsD [OF spawns_apply_entry run] by blast
  have "catch (apply_entry env e) w1 = (Inr r, w2)" using run by (simp add: catch_def)
  note rest = body [unfolded e option.case bnd_Inr [of "catch (apply_entry env e)", OF this]]
  have "\<exists>g. resolves env g e w2 w' \<and> settles (bo_max_attempts b) ok e g"
  proof -
    have fail: "\<exists>g. resolves env g e w2 w' \<and> settles (bo_max_attempts b) ok e g"
      if "bnd (settle_failure env b e err) (\<lambda>_. ret (Some False)) w2 = (Inr (Some ok), w')" for err
    proof -
      from that obtain x where "settle_failure env b e err w2 = (Inr x, w')" "ok = False"
        by (cases rule: bnd_cases) auto
      from this(1) this(2) show ?thesis
        by (cases rule: settle_failure_run) (auto simp: settles_def intro!: exI)
    qed
    show ?thesis
    proof (cases r)
      case (Inl err)
      then show ?thesis using rest fail by simp
    next
      case (Inr disp)
      show ?thesis
      proof (cases disp)
        case Stamped
        with Inr rest have "bnd (settle_stamped env e) (\<lambda>_. ret (Some True)) w2 = (Inr (Some ok), w')" by simp
        then obtain x where "settle_stamped env e w2 = (Inr x, w')" "ok = True"
          by (cases rule: bnd_cases) auto
        with settle_stamped_run [OF this(1)] show ?thesis by (auto simp: settles_def)
      next
        case (Retry err)
        then show ?thesis using Inr rest fail by simp
      next
        case (DispConflict k)
        with Inr rest have "bnd (settle_conflict env e k) (\<lambda>_. ret (Some False)) w2 = (Inr (Some ok), w')" by simp
        then obtain x where "settle_conflict env e k w2 = (Inr x, w')" "ok = False"
          by (cases rule: bnd_cases) auto
        with settle_conflict_run [OF this(1)] show ?thesis by (auto simp: settles_def)
      qed
    qed
  qed
  then obtain g where "resolves env g e w2 w'" "settles (bo_max_attempts b) ok e g" by blast
  moreover have "wd_tick w \<le> wd_tick w1" "db_outbox (wd_db w1) = tbl" by (simp_all add: w1_def)
  ultimately show ?thesis using claim es unfolding turn_def e by blast
qed

text \<open>A turn in terms of the queue: one pending row is taken and rewritten, at most three new entries
  are appended.\<close>

lemma turn_rows:
  assumes "turn env M ok w w'" "drain_inv env w"
  obtains x g es where "x \<in> set (db_outbox (wd_db w))" "e_status x = Pending"
    "db_outbox (wd_db w') = update_where (\<lambda>y. e_id y = e_id x) g (db_outbox (wd_db w)) @ es"
    "\<And>y. e_id (g y) = e_id y \<and> e_mutation (g y) = e_mutation y \<and>
      (if ok then e_status (g y) = Succeeded \<and> e_attempts (g y) = e_attempts y
       else e_attempts (g y) = Suc (e_attempts y) \<and>
        (if Suc (e_attempts x) < M then e_status (g y) \<in> {Pending, Failed} else e_status (g y) = Failed))"
    "\<forall>e \<in> set es. fresh_entry e" "length es \<le> (if spawner (e_mutation x) then 3 else 0)"
    "drain_inv env w'"
proof -
  obtain now fl e tbl w1 w2 es g where t:
    "claim_next_eligible now fl (db_outbox (wd_db w)) = (Some e, tbl)"
    "wd_tick w \<le> wd_tick w1" "db_outbox (wd_db w1) = tbl" "outbox_grows env w1 w2 es"
    "length es \<le> (if spawner (e_mutation e) then 3 else 0)" "resolves env g e w2 w'" "settles M ok e g"
    using assms(1) unfolding turn_def by blast
  let ?flip = "\<lambda>x. x\<lparr>e_status := Inflight, e_updated_at := fl\<rparr>"
  obtain x where x: "x \<in> set (db_outbox (wd_db w))" "e_status x = Pending" "e = ?flip x"
    and tbl: "tbl = update_where (\<lambda>y. e_id y = e_id e) ?flip (db_outbox (wd_db w))"
    using sqlite_outbox.claim_Some [OF t(1)] by (metis nth_mem)
  have keep: "map e_id (update_where P h rows) = map e_id rows" if "\<And>y. e_id (h y) = e_id y" for P h rows
    using that by (rule map_update_where)
  have id: "e_id e = e_id x" by (simp add: x(3))
  have "map e_id (db_outbox (wd_db w1)) = map e_id (db_outbox (wd_db w))"
    by (simp add: t(3) tbl keep)
  then have inv1: "drain_inv env w1"
    using assms(2) t(2) unfolding drain_inv_def by (metis (no_types, lifting) atLeast_subset_iff inj_on_subset le_trans set_map)
  have inv2: "drain_inv env w2" by (rule drain_inv_grows [OF inv1 t(4)])
  have out2: "db_outbox (wd_db w2) = tbl @ es" and fresh: "\<forall>e \<in> set es. fresh_entry e"
    using t(3,4) by (auto simp: outbox_grows_def)
  have gid: "\<And>y. e_id (g y) = e_id y" using t(7) by (simp add: settles_def)
  have "\<forall>y \<in> set es. e_id y \<noteq> e_id x"
  proof
    fix y assume "y \<in> set es"
    moreover have "distinct (map e_id tbl @ map e_id es)" using inv2 by (simp add: drain_inv_def out2)
    moreover have "e_id x \<in> set (map e_id tbl)"
      unfolding tbl keep [of ?flip, simplified] using x(1) by simp
    ultimately show "e_id y \<noteq> e_id x"
      by (metis (no_types, lifting) disjoint_iff distinct_append image_eqI set_map)
  qed
  then have "update_where (\<lambda>y. e_id y = e_id e) g es = es" by (intro update_where_none) (simp add: id)
  then have out': "db_outbox (wd_db w') =
    update_where (\<lambda>y. e_id y = e_id x) (g \<circ> ?flip) (db_outbox (wd_db w)) @ es"
    using t(6) by (simp add: resolves_def out2 tbl id update_where_def)
  have "map e_id (db_outbox (wd_db w')) = map e_id (db_outbox (wd_db w2))"
    using t(6) gid by (simp add: resolves_def keep)
  then have inv': "drain_inv env w'"
    using inv2 t(6) unfolding drain_inv_def resolves_def
    by (metis (no_types, lifting) atLeast_subset_iff inj_on_subset le_trans set_map)
  have gflip: "e_id ((g \<circ> ?flip) y) = e_id y \<and> e_mutation ((g \<circ> ?flip) y) = e_mutation y \<and>
      (if ok then e_status ((g \<circ> ?flip) y) = Succeeded \<and> e_attempts ((g \<circ> ?flip) y) = e_attempts y
       else e_attempts ((g \<circ> ?flip) y) = Suc (e_attempts y) \<and>
        (if Suc (e_attempts x) < M then e_status ((g \<circ> ?flip) y) \<in> {Pending, Failed}
         else e_status ((g \<circ> ?flip) y) = Failed))" for y
    using t(7) [unfolded settles_def, THEN spec, of "?flip y"] by (cases ok) (simp_all add: x(3) split: if_splits)
  have "length es \<le> (if spawner (e_mutation x) then 3 else 0)" using t(5) by (simp add: x(3))
  from that [OF x(1,2) out' gflip fresh this inv'] show thesis .
qed

lemma turn_decreases:
  assumes "turn env M ok w w'" "drain_inv env w"
  shows "queue_weight M w' < queue_weight M w"
  using assms
proof (cases rule: turn_rows)
  case (1 x g es)
  let ?base = "if spawner (e_mutation x) then 3 * max 1 M + 1 else 1"
  have grown: "sum_list (map (entry_weight M) es) = length es * max 1 M"
    using 1(5) by (induction es) (auto simp: weight_fresh)
  have new: "length es * max 1 M < ?base"
  proof -
    have "length es * max 1 M \<le> (if spawner (e_mutation x) then 3 else 0) * max 1 M"
      using 1(6) by (rule mult_le_mono1)
    also have "\<dots> < ?base" by simp
    finally show ?thesis .
  qed
  have step: "entry_weight M (g x) + ?base \<le> entry_weight M x"
  proof (cases "e_status (g x) = Pending")
    case True
    with 1(4) [of x] have lt: "Suc (e_attempts x) < M" "e_attempts (g x) = Suc (e_attempts x)"
      "e_mutation (g x) = e_mutation x"
      by (auto split: if_splits)
    then have "max 1 (M - e_attempts x) = max 1 (M - Suc (e_attempts x)) + 1" by auto
    then have "entry_weight M x = (max 1 (M - Suc (e_attempts x)) + 1) * ?base"
      using 1(2) by (simp only: entry_weight_def) simp
    also have "\<dots> = max 1 (M - Suc (e_attempts x)) * ?base + ?base" by (simp only: add_mult_distrib mult_1)
    also have "max 1 (M - Suc (e_attempts x)) * ?base = entry_weight M (g x)"
      using True lt by (simp add: entry_weight_def)
    finally show ?thesis by simp
  next
    case False
    with 1(4) [of x] have "entry_weight M (g x) = 0" by (auto simp: entry_weight_def split: if_splits)
    moreover have "?base \<le> entry_weight M x" using 1(2) by (simp add: entry_weight_def max_def)
    ultimately show ?thesis by simp
  qed
  have "sum_list (map (entry_weight M) (update_where (\<lambda>y. e_id y = e_id x) g (db_outbox (wd_db w)))) +
    entry_weight M x = sum_list (map (entry_weight M) (db_outbox (wd_db w))) + entry_weight M (g x)"
    using assms(2) 1(1) by (intro sum_update_where_key) (simp_all add: drain_inv_def)
  then show ?thesis using step new grown by (simp add: queue_weight_def 1(3))
qed

section \<open>The loop\<close>

text \<open>A run of turns; the counters are the number of successes before and after.\<close>

inductive turns :: "env \<Rightarrow> nat \<Rightarrow> nat \<Rightarrow> world \<Rightarrow> nat \<Rightarrow> world \<Rightarrow> bool" for env M where
  stop: "turns env M n w n w"
| step: "turn env M ok w v \<Longrightarrow> turns env M (if ok then n + 1 else n) v n' w' \<Longrightarrow> turns env M n w n' w'"

lemma turns_inv: "turns env M n w n' w' \<Longrightarrow> drain_inv env w \<Longrightarrow> drain_inv env w'"
  by (induction rule: turns.induct) (auto elim: turn_rows)

lemma drain_loop_runs:
  assumes "drain_inv env w"
  shows "\<exists>m v r w'. drain_loop env b n w = Some (r, w') \<and> turns env (bo_max_attempts b) n w m v \<and>
    (drain_turn env b v = (Inr None, w') \<and> r = Inr m \<or> (\<exists>e. drain_turn env b v = (Inl e, w') \<and> r = Inl e))"
  using assms
proof (induction "queue_weight (bo_max_attempts b) w" arbitrary: w n rule: less_induct)
  case less
  note unfold = drain_loop.simps [of env b n w]
  obtain o1 v where run: "drain_turn env b w = (o1, v)" by force
  consider e where "o1 = Inl e" | "o1 = Inr None" | ok where "o1 = Inr (Some ok)"
    by (metis not_None_eq obj_sumE)
  then show ?case
  proof cases
    case (3 ok)
    with run have t: "turn env (bo_max_attempts b) ok w v" by (simp add: drain_turn_turn)
    have "queue_weight (bo_max_attempts b) v < queue_weight (bo_max_attempts b) w"
      using turn_decreases [OF t less.prems] .
    moreover have "drain_inv env v" using t less.prems by (auto elim: turn_rows)
    ultimately obtain m u r w' where ih:
      "drain_loop env b (if ok then n + 1 else n) v = Some (r, w')"
      "turns env (bo_max_attempts b) (if ok then n + 1 else n) v m u"
      "drain_turn env b u = (Inr None, w') \<and> r = Inr m \<or> (\<exists>e. drain_turn env b u = (Inl e, w') \<and> r = Inl e)"
      using less.hyps by blast
    with 3 run have "drain_loop env b n w = Some (r, w')" by (simp add: unfold)
    then show ?thesis using ih turns.step [OF t] by blast
  qed (use run in \<open>auto simp: unfold intro: turns.stop\<close>)
qed

section \<open>Properties\<close>

lemma spawns_enqueue_pending:
  assumes "enqueue_pending_issue_types env w = (r, w')"
  shows "r = Inr () \<and> (\<exists>es. outbox_grows env w w' es)"
proof -
  let ?f = "\<lambda>t. if \<not> is_mirror t then ret () else
    bnd (catch (plan_pending_type t)) (\<lambda>planned. case planned of
      Inr (Some m) \<Rightarrow> outbox_enqueue env (t_id t) m | Inr None \<Rightarrow> ret () | Inl _ \<Rightarrow> ret ())"
  have one: "fst (?f t v) = Inr () \<and> (\<exists>es. outbox_grows env v (snd (?f t v)) es)" for t v
  proof (cases "is_mirror t")
    case True
    obtain p v1 where p: "plan_pending_type t v = (p, v1)" by force
    have "spawns env 0 (plan_pending_type t)"
      unfolding plan_pending_type_def by (intro spawns_bnd0) auto
    then have g1: "outbox_grows env v v1 []" using spawnsD p by fastforce
    have m: "\<not> spawner m" if "p = Inr (Some m)" for m
      using p that by (auto simp: plan_pending_type_def elim!: bnd_cases dest: planned_not_spawner)
    have f: "?f t v = (case p of Inr (Some m) \<Rightarrow> outbox_enqueue env (t_id t) m | Inr None \<Rightarrow> ret ()
      | Inl _ \<Rightarrow> ret ()) v1"
      using True p by (simp add: bnd_def catch_def split: sum.splits option.splits)
    show ?thesis
    proof (cases "\<exists>m. p = Inr (Some m)")
      case True
      then obtain m where pm: "p = Inr (Some m)" by blast
      obtain r2 v2 where e: "outbox_enqueue env (t_id t) m v1 = (r2, v2)" by force
      then have "r2 = Inr ()" by (simp add: outbox_enqueue_def bnd_def)
      moreover obtain es where "outbox_grows env v1 v2 es"
        using spawnsD [OF spawns_outbox_enqueue [OF m [OF pm]] e] by blast
      ultimately show ?thesis using e outbox_grows_trans [OF g1] by (auto simp: f pm)
    next
      case False
      then show ?thesis using g1 by (auto simp: f split: sum.splits option.splits)
    qed
  qed (auto simp: outbox_grows_Nil intro: exI [of _ "[]"])
  have "fst (each ?f ts v) = Inr () \<and> (\<exists>es. outbox_grows env v (snd (each ?f ts v)) es)" for ts v
  proof (induction ts arbitrary: v)
    case (Cons t ts)
    obtain v1 where v1: "?f t v = (Inr (), v1)" using one [of t v] by (metis prod.collapse)
    moreover obtain es where "outbox_grows env v v1 es" using one [of t v] v1 by auto
    ultimately show ?case using Cons.IH [of v1] outbox_grows_trans by (fastforce simp: bnd_Inr)
  qed (auto simp: outbox_grows_Nil intro: exI [of _ "[]"])
  from this [of "list_issue_type_pending (wd_db w)" w] assms show ?thesis
    by (simp add: enqueue_pending_issue_types_def bnd_def)
qed

text \<open>C2 A drain pass always ends.  Whatever the clock, the remote answers and the back-off delays are
  (a zero delay makes a failed entry eligible again at once), each turn either resolves an entry
  or uses up one of its attempts, and follow-ups never spawn follow-ups.  The ids the generator
  returns are assumed new.\<close>

theorem drain_terminates:
  assumes "drain_inv env w"
  shows "\<exists>r w'. drain_once env b w = Some (r, w')"
proof -
  obtain r v where e: "enqueue_pending_issue_types env w = (r, v)" by force
  with spawns_enqueue_pending [OF e] obtain es where "r = Inr ()" "outbox_grows env w v es" by blast
  then show ?thesis
    using e drain_loop_runs [OF drain_inv_grows [OF assms]] by (fastforce simp: drain_once_def)
qed

definition queue_world :: "outbox_entry list \<Rightarrow> world" where
  "queue_world es = \<lparr>wd_db = empty_db\<lparr>db_outbox := es\<rparr>,
     wd_cat = \<lparr>cat_workspaces = [], cat_projects = [], cat_issue_types = [], cat_instances = [], cat_origins = []\<rparr>,
     wd_tick = 0, wd_calls = []\<rparr>"

lemma idle_inv: "distinct (map e_id es) \<Longrightarrow> \<forall>e \<in> set es. e_id e < 100 \<Longrightarrow> drain_inv idle_env (queue_world es)"
  by (auto simp: drain_inv_def idle_env_def queue_world_def inj_on_def)

theorem drain_terminates_witness:
  "\<exists>r w'. drain_once idle_env (backoff_new [0] 3)
     (queue_world [outbox_entry_new 1 0 7 (AddItem (lit ''PVT_1'') (lit ''I_1''))]) = Some (r, w')"
  by (intro drain_terminates idle_inv) (simp_all add: outbox_entry_new_def)

text \<open>The queue between passes: nothing in flight, no attempt count beyond the cap, and no pending
  entry that has used it up.\<close>

definition settled_queue :: "nat \<Rightarrow> world \<Rightarrow> bool" where
  "settled_queue M w \<longleftrightarrow> (\<forall>e \<in> set (db_outbox (wd_db w)). e_status e \<noteq> Inflight \<and> e_attempts e \<le> M \<and>
     (e_status e = Pending \<longrightarrow> e_attempts e < M))"

definition successes :: "world \<Rightarrow> nat" where
  "successes w = length (filter (\<lambda>e. e_status e = Succeeded) (db_outbox (wd_db w)))"

definition mutations :: "world \<Rightarrow> (outbox_entry_id \<times> outbox_mutation) list" where
  "mutations w = map (\<lambda>e. (e_id e, e_mutation e)) (db_outbox (wd_db w))"

lemma turn_settled:
  assumes "turn env M ok w w'" "drain_inv env w" "0 < M" "settled_queue M w"
  shows "settled_queue M w'"
  using assms(1,2)
proof (cases rule: turn_rows)
  case (1 x g es)
  have x: "e_attempts x < M" using 1(1,2) assms(4) by (auto simp: settled_queue_def)
  have "e_status (g x) \<noteq> Inflight \<and> e_attempts (g x) \<le> M \<and> (e_status (g x) = Pending \<longrightarrow> e_attempts (g x) < M)"
    using 1(4) [of x] x by (auto split: if_splits)
  moreover have "y = x" if "y \<in> set (db_outbox (wd_db w))" "e_id y = e_id x" for y
    using that 1(1) assms(2) distinct_map_key_unique by (metis drain_inv_def)
  moreover have "e_status e \<noteq> Inflight \<and> e_attempts e \<le> M \<and> (e_status e = Pending \<longrightarrow> e_attempts e < M)"
    if "e \<in> set es" for e using that 1(5) assms(3) by (auto simp: fresh_entry_def)
  ultimately show ?thesis
    using assms(4) by (auto simp: settled_queue_def 1(3) update_where_def)
qed

lemma turn_counts:
  assumes "turn env M ok w w'" "drain_inv env w"
  shows "successes w' = successes w + (if ok then 1 else 0) \<and> prefix (mutations w) (mutations w')"
  using assms
proof (cases rule: turn_rows)
  case (1 x g es)
  let ?h = "\<lambda>e. if e_status e = Succeeded then 1 else 0 :: nat"
  have succ: "length (filter (\<lambda>e. e_status e = Succeeded) rows) = sum_list (map ?h rows)" for rows
    by (induction rows) auto
  have "sum_list (map ?h es) = 0" using 1(5) by (induction es) (auto simp: fresh_entry_def)
  moreover have "sum_list (map ?h (update_where (\<lambda>y. e_id y = e_id x) g (db_outbox (wd_db w)))) + ?h x =
    sum_list (map ?h (db_outbox (wd_db w))) + ?h (g x)"
    using assms(2) 1(1) by (intro sum_update_where_key) (simp_all add: drain_inv_def)
  moreover have "?h (g x) = (if ok then 1 else 0)" using 1(4) [of x] by (auto split: if_splits)
  ultimately have "successes w' = successes w + (if ok then 1 else 0)"
    using 1(2) by (simp add: successes_def succ 1(3))
  moreover have "map (\<lambda>e. (e_id e, e_mutation e)) (update_where P g rows) =
    map (\<lambda>e. (e_id e, e_mutation e)) rows" for P rows
    using 1(4) by (intro map_update_where) simp
  then have "prefix (mutations w) (mutations w')" by (simp add: mutations_def 1(3))
  ultimately show ?thesis by blast
qed

lemma turns_results:
  assumes "turns env M n w n' w'" "drain_inv env w" "0 < M" "settled_queue M w"
  shows "settled_queue M w' \<and> successes w' + n = successes w + n' \<and> prefix (mutations w) (mutations w')"
  using assms
proof (induction rule: turns.induct)
  case (step ok w v n n' w')
  have "drain_inv env v" "settled_queue M v"
    using step.hyps(1) step.prems turn_settled by (auto elim: turn_rows)
  with step turn_counts [OF step.hyps(1) step.prems(1)] show ?case
    by (auto split: if_splits intro: prefix_order.trans)
qed simp

lemma turns_ticks: "turns env M n w n' w' \<Longrightarrow> wd_tick w \<le> wd_tick w'"
  by (induction rule: turns.induct) (auto simp: turn_def outbox_grows_def resolves_def)

text \<open>C3 What a completed pass leaves behind: the number returned is the number of entries that became
  succeeded; nothing is in flight; no attempt count exceeds the cap and no pending entry has
  reached it, so an entry at the cap is dead-lettered; no entry is lost or changes its mutation;
  and nothing is left that was eligible at the pass's last look at the clock, the claim that found
  nothing: each claim reads the clock twice, for the due times and for the update stamp, and these are
  the last two readings of the pass.\<close>

theorem drain_pass_result:
  assumes "drain_inv env w" "0 < bo_max_attempts b" "settled_queue (bo_max_attempts b) w"
    "drain_once env b w = Some (Inr n, w')"
  shows "successes w' = successes w + n \<and> settled_queue (bo_max_attempts b) w' \<and>
    prefix (mutations w) (mutations w') \<and>
    wd_tick w + 2 \<le> wd_tick w' \<and>
    (\<forall>i < length (db_outbox (wd_db w')).
       \<not> claimable (env_now env (wd_tick w' - 2)) (db_outbox (wd_db w')) (i, db_outbox (wd_db w') ! i))"
proof -
  let ?M = "bo_max_attempts b"
  obtain r u where e: "enqueue_pending_issue_types env w = (r, u)" by force
  obtain es where r: "r = Inr ()" and g: "outbox_grows env w u es" using spawns_enqueue_pending [OF e] by blast
  have inv: "drain_inv env u" by (rule drain_inv_grows [OF assms(1) g])
  have out: "db_outbox (wd_db u) = db_outbox (wd_db w) @ es" "\<forall>e \<in> set es. fresh_entry e"
    using g by (auto simp: outbox_grows_def)
  have u: "settled_queue ?M u" "successes u = successes w" "prefix (mutations w) (mutations u)"
    using assms(2,3) out(2) by (auto simp: settled_queue_def successes_def mutations_def out(1) fresh_entry_def
        filter_empty_conv)
  have "drain_loop env b 0 u = Some (Inr n, w')" using assms(4) e r by (simp add: drain_once_def)
  with drain_loop_runs [OF inv, of b 0] obtain v where
    t: "turns env ?M 0 u n v" and none: "drain_turn env b v = (Inr None, w')" by auto
  note res = turns_results [OF t inv assms(2) u(1)]
  let ?now = "env_now env (wd_tick v)"
  obtain c tbl where c: "claim_next_eligible ?now (env_now env (Suc (wd_tick v))) (db_outbox (wd_db v)) = (c, tbl)"
    by force
  have "c = None \<and> db_outbox (wd_db w') = tbl \<and> wd_tick w' = wd_tick v + 2"
  proof (cases c)
    case None
    then show ?thesis using none c by (auto simp: drain_turn_def outbox_claim_def bnd_def)
  next
    case (Some e)
    then show ?thesis
      using none c by (auto simp: drain_turn_def outbox_claim_def bnd_def split: prod.splits sum.splits apply_disposition.splits)
  qed
  then have tick: "wd_tick w' = wd_tick v + 2" and "db_outbox (wd_db w') = db_outbox (wd_db v)"
    "\<forall>i < length (db_outbox (wd_db v)). \<not> claimable ?now (db_outbox (wd_db v)) (i, db_outbox (wd_db v) ! i)"
    using c claim_next_eligible_None by metis+
  moreover have "wd_tick w \<le> wd_tick v" using g turns_ticks [OF t] by (simp add: outbox_grows_def)
  ultimately show ?thesis using res u(2,3)
    by (auto simp: successes_def settled_queue_def mutations_def intro: prefix_order.trans)
qed

lemma claim_single:
  "e_status e = Pending \<Longrightarrow> e_next_attempt_at e = None \<Longrightarrow> claim_next_eligible now fl [e] =
     (Some (e\<lparr>e_status := Inflight, e_updated_at := fl\<rparr>), [e\<lparr>e_status := Inflight, e_updated_at := fl\<rparr>])"
  "e_status e \<noteq> Pending \<Longrightarrow> claim_next_eligible now fl [e] = (None, [e])"
  by (simp_all add: claim_next_eligible_def claimable_def blocks_claim_def)

lemma drain_once_dead_letter:
  "\<exists>w'. drain_once idle_env (backoff_new [] 1) (queue_world [outbox_entry_new 2 0 7 (UpdateDraftIssue [] None None)])
     = Some (Inr 0, w') \<and> map e_status (db_outbox (wd_db w')) = [Failed]"
proof -
  define e where "e = outbox_entry_new 2 0 7 (UpdateDraftIssue [] None None)"
  define e' where "e' = e\<lparr>e_status := Inflight, e_updated_at := 0\<rparr>"
  define w where "w = queue_world [e]"
  have e: "e_status e = Pending" "e_next_attempt_at e = None" "e_attempts e = 0" "e_task_id e = 7"
    "e_mutation e = UpdateDraftIssue [] None None"
    by (simp_all add: e_def outbox_entry_new_def)
  have start: "enqueue_pending_issue_types idle_env w = (Inr (), w)"
    by (simp add: w_def enqueue_pending_issue_types_def list_issue_type_pending_def queue_world_def empty_db_def bnd_def)
  define w1 where "w1 = w\<lparr>wd_tick := 2, wd_db := (wd_db w)\<lparr>db_outbox := [e']\<rparr>\<rparr>"
  have claim: "outbox_claim idle_env 0 (w\<lparr>wd_tick := 1\<rparr>) = (Inr (Some e'), w1)"
    using e by (simp add: outbox_claim_def bnd_def w_def queue_world_def claim_single e'_def w1_def idle_env_def)
  have "tasks_get 7 w1 = (Inl (SePort (NotFound (lit ''task '' @ show_uuid 7))), w1)"
    by (simp add: tasks_get_def bnd_def get_task_def find_row_def w1_def w_def queue_world_def empty_db_def)
  then obtain err where "apply_entry idle_env e' w1 = (Inl err, w1)"
    by (simp add: apply_entry_def e'_def e apply_update_draft_def bnd_Inl)
  then have c: "catch (apply_entry idle_env e') w1 = (Inr (Inl err), w1)" by (simp add: catch_def)
  define w2 where "w2 = w1\<lparr>wd_tick := 3, wd_db := (wd_db w1)\<lparr>db_outbox := mark_failed 0 (e_id e') (sync_error_msg err) [e']\<rparr>\<rparr>"
  have f: "settle_failure idle_env (backoff_new [] 1) e' err w1 = (Inr (), w2)"
    by (simp add: settle_failure_def Let_def e'_def e backoff_new_def bnd_def w2_def w1_def idle_env_def)
  have now: "timestamp_now idle_env w = (Inr 0, w\<lparr>wd_tick := 1\<rparr>)"
    by (simp add: w_def queue_world_def idle_env_def)
  have t1: "drain_turn idle_env (backoff_new [] 1) w = (Inr (Some False), w2)"
    unfolding drain_turn_def bnd_Inr [of "timestamp_now idle_env", OF now]
      bnd_Inr [of "outbox_claim idle_env 0", OF claim] option.case
      bnd_Inr [of "catch (apply_entry idle_env e')", OF c] sum.case
      bnd_Inr [of "settle_failure idle_env (backoff_new [] 1) e' err", OF f]
    by simp
  obtain x where x: "db_outbox (wd_db w2) = [x]" "e_status x = Failed"
    by (simp add: w2_def mark_failed_def)
  then have t2: "drain_turn idle_env (backoff_new [] 1) w2 =
    (Inr None, w2\<lparr>wd_tick := Suc (Suc (wd_tick w2)), wd_db := (wd_db w2)\<lparr>db_outbox := [x]\<rparr>\<rparr>)"
    by (simp add: drain_turn_def bnd_def outbox_claim_def claim_single)
  show ?thesis
    unfolding e_def [symmetric] w_def [symmetric]
    using start t1 t2 x by (simp add: drain_once_def drain_loop.simps [of _ _ _ w] drain_loop.simps [of _ _ _ w2])
qed

theorem drain_pass_result_witness:
  "\<exists>w'. drain_once idle_env (backoff_new [] 1) (queue_world [outbox_entry_new 2 0 7 (UpdateDraftIssue [] None None)])
     = Some (Inr 0, w') \<and> map e_status (db_outbox (wd_db w')) = [Failed] \<and> settled_queue 1 w' \<and> successes w' = 0"
proof -
  let ?w = "queue_world [outbox_entry_new 2 0 7 (UpdateDraftIssue [] None None)]"
  obtain w' where w': "drain_once idle_env (backoff_new [] 1) ?w = Some (Inr 0, w')"
    "map e_status (db_outbox (wd_db w')) = [Failed]" using drain_once_dead_letter by (elim exE conjE)
  have inv: "drain_inv idle_env ?w" by (rule idle_inv) (simp_all add: outbox_entry_new_def)
  have M: "bo_max_attempts (backoff_new [] 1) = 1" by (simp add: backoff_new_def)
  have q: "settled_queue 1 ?w" "successes ?w = 0"
    by (simp_all add: settled_queue_def successes_def queue_world_def outbox_entry_new_def)
  have "successes w' = successes ?w + 0 \<and> settled_queue 1 w'"
    using drain_pass_result [OF inv _ _ w'(1), unfolded M, OF zero_less_one q(1)] by (elim conjE) (intro conjI)
  with q(2) have "successes w' = 0" "settled_queue 1 w'" by simp_all
  with w' show ?thesis by (intro exI [of _ w'] conjI)
qed

end
