(* ===== verification/DrainEffects.thy ===== *)
theory DrainEffects
  imports DrainLoop
begin

text \<open>
  What applying one outbox entry does to the stored task and which remote calls it makes:
  convergence of an issue update, when a response is a conflict, replay of the calls that are not
  idempotent, detached boards, and the back-off of a failed entry.
\<close>

section \<open>Running the ports\<close>

lemma tasks_get_run:
  "tasks_get i w = (case get_task i (wd_db w) of Inl e \<Rightarrow> (Inl (SePort e), w) | Inr t \<Rightarrow> (Inr t, w))"
  by (simp add: tasks_get_def bnd_def lift_port_def)

lemma tasks_get_ok: "get_task i (wd_db w) = Inr t \<Longrightarrow> tasks_get i w = (Inr t, w)"
  by (simp add: tasks_get_run)

lemma tasks_save_run:
  "tasks_save env t src w =
     (case save_task (env_now env (wd_tick w)) t src (wd_db w) of
        Inl e \<Rightarrow> (Inl (SePort e), w\<lparr>wd_tick := Suc (wd_tick w)\<rparr>)
      | Inr d \<Rightarrow> (Inr (), w\<lparr>wd_tick := Suc (wd_tick w), wd_db := d\<rparr>))"
  by (simp add: tasks_save_def bnd_def lift_port_def split: sum.splits)

definition called :: "remote_call \<Rightarrow> world \<Rightarrow> world" where
  "called c w = w\<lparr>wd_tick := Suc (wd_tick w), wd_calls := wd_calls w @ [c]\<rparr>"

lemma remote_run: "remote c a w = (Inr (a (wd_tick w)), called c w)"
  by (simp add: remote_def bnd_def called_def)

lemma called_simps [simp]:
  "wd_db (called c w) = wd_db w" "wd_cat (called c w) = wd_cat w"
  "wd_calls (called c w) = wd_calls w @ [c]" "wd_tick (called c w) = Suc (wd_tick w)"
  by (simp_all add: called_def)

lemma bnd_tasks_get: "get_task i (wd_db w) = Inr t \<Longrightarrow> bnd (tasks_get i) f w = f t w"
  by (simp add: bnd_def tasks_get_ok)

lemma bnd_remote: "bnd (remote c a) f w = f (a (wd_tick w)) (called c w)"
  by (simp add: bnd_def remote_run)

section \<open>Issue updates\<close>

text \<open>C15 An issue update that is stamped has converged.  For a task that is staged or dirty at most one
  remote call was made, carrying the difference between the task and its baseline and none when there
  is no difference, and the stored task now reloads Synced, with an empty patch and the local content
  kept, while no other task changed.  For a task in any other state (local only, already synced, or
  in conflict) the stamp only settles the entry: no call is made and nothing is written.\<close>

theorem update_remote_converges:
  assumes "get_task i (wd_db w) = Inr t" "apply_update_remote env i repo rid w = (Inr Stamped, w')"
  shows "if t_sync t \<in> {Staged, DirtyLocal, DirtyRemote}
    then wd_calls w' = wd_calls w @ (case build_update_from_patch (diff_against_baseline t) repo rid of
        None \<Rightarrow> [] | Some u \<Rightarrow> [CallUpdateRemote u]) \<and>
      (\<exists>t'. get_task i (wd_db w') = Inr t' \<and> t_sync t' = Synced \<and> patch_is_empty (diff_against_baseline t') \<and>
         t_title t' = t_title t \<and> t_body t' = t_body t \<and> t_lifecycle t' = t_lifecycle t \<and>
         t_assignees t' = t_assignees t) \<and>
      (\<forall>j. j \<noteq> i \<longrightarrow> get_task j (wd_db w') = get_task j (wd_db w))
    else w' = w"
proof (cases "t_sync t \<in> {Staged, DirtyLocal, DirtyRemote}")
  case False
  then show ?thesis using assms by (auto simp: apply_update_remote_def bnd_tasks_get)
next
  case True
  let ?p = "diff_against_baseline t"
  let ?confirm = "bnd (timestamp_now env) (\<lambda>now. bnd (lift_domain (confirm_synced_fields now SrcPush ?p t)) (\<lambda>t'.
    bnd (tasks_save env t' SrcPush) (\<lambda>_. ret Stamped)))"
  have confirm: "wd_calls w' = wd_calls v \<and> (\<exists>t'. get_task i (wd_db w') = Inr t' \<and> t_sync t' = Synced \<and>
      patch_is_empty (diff_against_baseline t') \<and> t_title t' = t_title t \<and> t_body t' = t_body t \<and>
      t_lifecycle t' = t_lifecycle t \<and> t_assignees t' = t_assignees t) \<and>
      (\<forall>j. j \<noteq> i \<longrightarrow> get_task j (wd_db w') = get_task j (wd_db w))"
    if "?confirm v = (Inr Stamped, w')" "wd_db v = wd_db w" for v
  proof -
    from that obtain now cap t1 d where c: "confirm_synced_fields now SrcPush ?p t = Inr t1"
      "save_task cap t1 SrcPush (wd_db w) = Inr d" "wd_db w' = d" "wd_calls w' = wd_calls v"
      by (auto simp: bnd_def lift_domain_def tasks_save_run split: sum.splits)
    have "t_id t1 = i" using get_task_id [OF assms(1)] c(1) by (auto elim!: confirm_synced_fields_cases)
    with get_save_task_other [OF c(2)] c(3) have "\<forall>j. j \<noteq> i \<longrightarrow> get_task j (wd_db w') = get_task j (wd_db w)" by simp
    with c sqlite_tasks.push_cycle [OF assms(1) c(1,2)] show ?thesis by simp
  qed
  have start: "apply_update_remote env i repo rid w = (case build_update_from_patch ?p repo rid of
      None \<Rightarrow> ?confirm | Some u \<Rightarrow> bnd (remote (CallUpdateRemote u) (\<lambda>k. update_remote env k u)) (\<lambda>r.
        case r of Inl e \<Rightarrow> ret (Retry (SePort e)) | Inr snap \<Rightarrow>
          (case u_assignees u of None \<Rightarrow> ?confirm | Some sent \<Rightarrow>
             if rs_assignees snap = sent \<or> sent = [] \<and> rs_assignees snap = [] then ?confirm
             else ret (DispConflict AssigneeMismatch)))) w"
    using True by (simp add: apply_update_remote_def bnd_tasks_get [OF assms(1)] Let_def)
  show ?thesis
  proof (cases "build_update_from_patch ?p repo rid")
    case None
    with start assms(2) have "?confirm w = (Inr Stamped, w')" by simp
    from confirm [OF this] None True show ?thesis by simp
  next
    case (Some u)
    have "?confirm (called (CallUpdateRemote u) w) = (Inr Stamped, w')"
      using start assms(2) Some
      by (auto simp: bnd_remote split: sum.splits option.splits if_splits)
    from confirm [OF this] Some True show ?thesis by simp
  qed
qed

text \<open>A mirrored task with a baseline, edited since: the world both update witnesses start from.\<close>

lemma edited_world:
  fixes f :: "task \<Rightarrow> task"
  assumes "t_id (f sample_mirror) = t_id sample_mirror" "t_relations (f sample_mirror) = []"
  obtains w :: world and t b where "get_task (t_id sample_mirror) (wd_db w) = Inr t" "same_record (f sample_mirror) t"
    "t_synced_baseline t = Some b" "s_title b = t_title sample_mirror" "s_assignees b = t_assignees sample_mirror"
    "t_relations t = []" "solo_db (t_id sample_mirror) (wd_db w)"
proof -
  let ?i = "t_id sample_mirror"
  have rel: "t_relations sample_mirror = []" by (simp add: sample_simps)
  obtain d1 where d1: "save_task 5 sample_mirror SrcPull empty_db = Inr d1" "solo_db ?i d1"
    using save_solo [OF _ rel] solo_empty_db by metis
  obtain d2 where d2: "save_task 6 (f sample_mirror) SrcLocalEdit d1 = Inr d2" "solo_db ?i d2"
  proof -
    have "solo_db (t_id (f sample_mirror)) d1" using d1(2) assms(1) by simp
    from save_solo [OF this assms(2)] that assms(1) show thesis by metis
  qed
  obtain old where old: "get_task ?i d1 = Inr old" using get_save_task [OF d1(1)] by blast
  have "makes_baseline sample_mirror SrcPull" by (simp add: makes_baseline_def source_is_baseline_def)
  then obtain b where b: "t_synced_baseline old = Some b" "s_title b = t_title sample_mirror" "s_assignees b = t_assignees sample_mirror"
    using sqlite_tasks.baseline_taken [OF d1(1) _ old] by blast
  obtain t where t: "get_task ?i d2 = Inr t" "same_record (f sample_mirror) t" using get_save_task [OF d2(1)] assms(1) by auto
  have "\<not> makes_baseline (f sample_mirror) SrcLocalEdit" by (simp add: makes_baseline_def source_is_baseline_def)
  then have tb: "t_synced_baseline t = Some b"
    using sqlite_tasks.baseline_kept [OF d2(1), of old t] t(1) old b(1) assms(1) by simp
  have "t_relations t = []" using t(2) assms(2) by (simp add: same_record_def)
  then show thesis using that [of "(queue_world [])\<lparr>wd_db := d2\<rparr>" t b] t tb b d2(2) by simp
qed

lemma build_update_Some:
  "\<not> patch_is_empty p \<Longrightarrow>
     \<exists>u. build_update_from_patch p repo rid = Some u \<and> u_assignees u = mp_assignees p \<and> u_title u = mp_title p"
  by (cases "mp_status p") (auto simp: build_update_from_patch_def split: prod.splits)

definition echo_env :: "remote_task_snapshot \<Rightarrow> env" where
  "echo_env snap = idle_env\<lparr>update_remote := \<lambda>_ _. Inr snap\<rparr>"

theorem update_remote_converges_witness:
  "\<exists>w t u w' t'. get_task (t_id sample_mirror) (wd_db w) = Inr t \<and> t_sync t = DirtyLocal \<and> u_title u = Some (lit ''c'') \<and>
     apply_update_remote (echo_env (remote_task_snapshot.make [] None [] [] False 0 [] [])) (t_id sample_mirror) (lit ''o/r'') (lit ''1'') w = (Inr Stamped, w') \<and>
     wd_calls w' = wd_calls w @ [CallUpdateRemote u] \<and>
     get_task (t_id sample_mirror) (wd_db w') = Inr t' \<and> t_sync t' = Synced \<and> t_title t' = lit ''c''"
proof -
  let ?f = "\<lambda>t. t\<lparr>t_sync := DirtyLocal, t_title := lit ''c''\<rparr>" and ?i = "t_id sample_mirror"
  let ?env = "echo_env (remote_task_snapshot.make [] None [] [] False 0 [] [])"
  obtain w :: world and t b where w: "get_task ?i (wd_db w) = Inr t" "same_record (?f sample_mirror) t"
    "t_synced_baseline t = Some b" "s_title b = t_title sample_mirror" "s_assignees b = t_assignees sample_mirror"
    "t_relations t = []" "solo_db ?i (wd_db w)"
    by (rule edited_world [of ?f]) (simp_all add: sample_simps)
  have t: "t_sync t = DirtyLocal" "t_title t = lit ''c''" "t_assignees t = t_assignees sample_mirror" "t_id t = ?i"
    using w(2) get_task_id [OF w(1)] by (simp_all add: same_record_def)
  have "mp_title (diff_against_baseline t) = Some (lit ''c'')" "mp_assignees (diff_against_baseline t) = None"
    using w(3-5) t by (simp_all add: diff_against_baseline_def assignees_equal_def sample_simps)
  then obtain u where u: "build_update_from_patch (diff_against_baseline t) (lit ''o/r'') (lit ''1'') = Some u"
    "u_assignees u = None" "u_title u = Some (lit ''c'')"
    using build_update_Some [of "diff_against_baseline t"] by (auto simp: patch_is_empty_def)
  obtain t1 where t1: "confirm_synced_fields 0 SrcPush (diff_against_baseline t) t = Inr t1" "t_relations t1 = []" "t_id t1 = ?i"
    using w(3,6) t by (auto simp: confirm_synced_fields_def touch_def)
  have env: "env_now ?env k = 0" "\<exists>snap. update_remote ?env k x = Inr snap" for k x by (simp_all add: echo_env_def idle_env_def)
  then obtain snap where snap: "update_remote ?env (wd_tick w) u = Inr snap" by blast
  obtain d where d: "save_task 0 t1 SrcPush (wd_db w) = Inr d" using save_solo [of t1 "wd_db w"] w(7) t1(2,3) by metis
  have "\<exists>w'. apply_update_remote ?env ?i (lit ''o/r'') (lit ''1'') w = (Inr Stamped, w')"
    using u t(1) t1(1) d
    by (simp add: apply_update_remote_def tasks_get_ok [OF w(1)] Let_def bnd_def tasks_save_run remote_run env(1) snap)
  then obtain w' where run: "apply_update_remote ?env ?i (lit ''o/r'') (lit ''1'') w = (Inr Stamped, w')" by blast
  from update_remote_converges [OF w(1) run] t u(1) obtain t' where
    "wd_calls w' = wd_calls w @ [CallUpdateRemote u]" "get_task ?i (wd_db w') = Inr t'" "t_sync t' = Synced" "t_title t' = lit ''c''"
    by auto
  with w(1) t(1) u(3) run show ?thesis
    by (intro exI [of _ w] exI [of _ t] exI [of _ u] exI [of _ w'] exI [of _ t']) simp
qed


text \<open>C37 When the answer to an issue update is read as a conflict: exactly when assignees were sent
  and the answer lists other names or the same names in another order.  A provider error is a
  retry; in both cases the tables are untouched.\<close>

theorem update_remote_disposition:
  assumes "get_task i (wd_db w) = Inr t" "t_sync t \<in> {Staged, DirtyLocal, DirtyRemote}"
    "build_update_from_patch (diff_against_baseline t) repo rid = Some u"
  shows "case update_remote env (wd_tick w) u of
      Inl e \<Rightarrow> apply_update_remote env i repo rid w = (Inr (Retry (SePort e)), called (CallUpdateRemote u) w)
    | Inr snap \<Rightarrow>
        (if \<exists>sent. u_assignees u = Some sent \<and> rs_assignees snap \<noteq> sent
         then apply_update_remote env i repo rid w =
           (Inr (DispConflict AssigneeMismatch), called (CallUpdateRemote u) w)
         else \<forall>k w'. apply_update_remote env i repo rid w \<noteq> (Inr (DispConflict k), w'))"
proof (cases "update_remote env (wd_tick w) u")
  case (Inl e)
  then show ?thesis
    using assms(2,3) by (simp add: apply_update_remote_def bnd_tasks_get [OF assms(1)] bnd_remote Let_def)
next
  case (Inr snap)
  have "\<And>v. bnd (timestamp_now env) (\<lambda>now. bnd (lift_domain (confirm_synced_fields now SrcPush p t)) (\<lambda>t'.
      bnd (tasks_save env t' SrcPush) (\<lambda>_. ret Stamped))) v \<noteq> (Inr (DispConflict k), w')" for p k w'
    by (auto simp: bnd_def split: sum.splits prod.splits)
  then show ?thesis
    using assms(2,3) Inr
    by (auto simp: apply_update_remote_def bnd_tasks_get [OF assms(1)] bnd_remote Let_def split: option.splits)
qed

theorem update_remote_disposition_witness:
  "\<exists>w t u snap. get_task (t_id sample_mirror) (wd_db w) = Inr t \<and>
     build_update_from_patch (diff_against_baseline t) (lit ''o/r'') (lit ''1'') = Some u \<and>
     u_assignees u = Some [lit ''b'', lit ''a''] \<and> assignees_equal (rs_assignees snap) [lit ''b'', lit ''a''] \<and>
     apply_update_remote (echo_env snap) (t_id sample_mirror) (lit ''o/r'') (lit ''1'') w =
       (Inr (DispConflict AssigneeMismatch), called (CallUpdateRemote u) w)"
proof -
  let ?new = "[lit ''b'', lit ''a'']" and ?i = "t_id sample_mirror"
  let ?f = "\<lambda>t. t\<lparr>t_sync := DirtyLocal, t_assignees := ?new\<rparr>"
  obtain w :: world and t b where w: "get_task ?i (wd_db w) = Inr t" "same_record (?f sample_mirror) t"
    "t_synced_baseline t = Some b" "s_title b = t_title sample_mirror" "s_assignees b = t_assignees sample_mirror"
    "t_relations t = []" "solo_db ?i (wd_db w)"
    by (rule edited_world [of ?f]) (simp_all add: sample_simps)
  have t: "t_sync t = DirtyLocal" "t_assignees t = ?new" "t_assignees sample_mirror = [lit ''x'', lit ''y'']"
    using w(2) by (simp_all add: same_record_def sample_simps)
  have "mp_assignees (diff_against_baseline t) = Some ?new"
    using w(3,5) t by (simp add: diff_against_baseline_def assignees_equal_def doubleton_eq_iff)
  then obtain u where u: "build_update_from_patch (diff_against_baseline t) (lit ''o/r'') (lit ''1'') = Some u"
    "u_assignees u = Some ?new"
    using build_update_Some [of "diff_against_baseline t"] by (auto simp: patch_is_empty_def)
  let ?snap = "remote_task_snapshot.make [] None [] [] False 0 [lit ''a'', lit ''b''] []"
  have "apply_update_remote (echo_env ?snap) ?i (lit ''o/r'') (lit ''1'') w =
       (Inr (DispConflict AssigneeMismatch), called (CallUpdateRemote u) w)"
    using update_remote_disposition [OF w(1) _ u(1), of "echo_env ?snap"] t(1) u(2)
    by (simp add: echo_env_def remote_task_snapshot.make_def)
  moreover have "assignees_equal (rs_assignees ?snap) ?new"
    by (auto simp: assignees_equal_def remote_task_snapshot.make_def)
  ultimately show ?thesis using w(1) u by blast
qed

section \<open>Replays\<close>

lemma write_back_project_item_run:
  assumes "write_back_project_item env i item w = (Inr x, w')"
  shows "wd_calls w' = wd_calls w \<and> (\<exists>t'. get_task i (wd_db w') = Inr t' \<and> t_project_item_id t' = Some item)"
proof -
  obtain t where t: "get_task i (wd_db w) = Inr t"
    using assms by (auto simp: write_back_project_item_def bnd_def tasks_get_run split: sum.splits)
  show ?thesis
  proof (cases "t_project_item_id t = Some item")
    case True
    with assms t show ?thesis by (auto simp: write_back_project_item_def bnd_tasks_get [OF t])
  next
    case False
    then obtain cap d where d: "save_task cap (t\<lparr>t_project_item_id := Some item\<rparr>) SrcLocalEdit (wd_db w) = Inr d"
      "wd_db w' = d" "wd_calls w' = wd_calls w"
      using assms by (auto simp: write_back_project_item_def bnd_tasks_get [OF t] tasks_save_run split: sum.splits)
    have "t_id t = i" using t by (rule get_task_id)
    with get_save_task [OF d(1)] d show ?thesis by (auto simp: same_record_def)
  qed
qed

text \<open>Programs that leave an observation of the world alone.\<close>

definition preserves :: "(world \<Rightarrow> 'b) \<Rightarrow> 'a sm \<Rightarrow> bool" where
  "preserves f m \<longleftrightarrow> (\<forall>w r w'. m w = (r, w') \<longrightarrow> f w' = f w)"

lemma preservesD: "preserves f m \<Longrightarrow> m w = (r, w') \<Longrightarrow> f w' = f w"
  by (simp add: preserves_def)

lemma preserves_bnd: "preserves f m \<Longrightarrow> (\<And>x. preserves f (g x)) \<Longrightarrow> preserves f (bnd m g)"
  unfolding preserves_def by (metis bnd_cases)

lemma preserves_prims [simp]:
  "preserves f (ret x)" "preserves f (throw e)" "preserves f (reads h)" "preserves f (lift_port p)"
  by (auto simp: preserves_def lift_port_def split: sum.splits)

lemma preserves_lookups [simp]:
  "preserves f (tasks_get i)" "preserves f (workspaces_get i)" "preserves f (projects_get p)"
  unfolding tasks_get_def workspaces_get_def projects_get_def by (intro preserves_bnd; simp)+

lemma preserves_tolerant: "preserves f m \<Longrightarrow> preserves f (tolerant m)"
  unfolding tolerant_def
  by (intro preserves_bnd)
    (auto simp: preserves_def catch_def split: prod.splits sum.splits sync_error.splits port_error.splits)

text \<open>The stored tasks and the calls made so far.\<close>

definition tasks_view :: "world \<Rightarrow> (task_id \<Rightarrow> task port_result) \<times> remote_call list" where
  "tasks_view w = (\<lambda>i. get_task i (wd_db w), wd_calls w)"

lemma get_task_outbox: "get_task i (d\<lparr>db_outbox := x\<rparr>) = get_task i d"
  by (simp add: get_task_def find_row_def hydrate_def load_relations_def load_comments_def
      load_latest_baseline_def baseline_rows_def split: option.splits)

lemma preserves_enqueue_opt: "preserves tasks_view (enqueue_opt env i m)"
  by (auto simp: preserves_def enqueue_opt_def outbox_enqueue_def bnd_def tasks_view_def get_task_outbox
      split: option.splits)

lemma preserves_follow_ups:
  "preserves tasks_view (enqueue_status_follow_up env i p item)"
  "preserves tasks_view (enqueue_issue_type_follow_up env i c)"
  unfolding enqueue_status_follow_up_def enqueue_issue_type_follow_up_def resolve_project_tolerant_def
  by (intro preserves_bnd preserves_enqueue_opt preserves_tolerant;
      auto split: option.splits intro!: preserves_bnd preserves_enqueue_opt preserves_tolerant)+

lemmas follow_up_view =
  preservesD [OF preserves_follow_ups(1), unfolded tasks_view_def prod.inject fun_eq_iff]
  preservesD [OF preserves_follow_ups(2), unfolded tasks_view_def prod.inject fun_eq_iff]

text \<open>C30 Creating a draft is not repeated.  An entry that is applied to a task without a board item
  makes exactly one create call, and once it is stamped the stored task carries the item; a
  replay of the entry from that database, whatever the environment then answers, makes no remote
  call at all.\<close>

theorem draft_created_once:
  assumes "get_task i (wd_db w) = Inr t" "t_project_item_id t = None"
    "apply_create_draft env i p title body w = (Inr Stamped, w')"
  shows "wd_calls w' = wd_calls w @ [CallCreateDraft p title body] \<and>
    (\<exists>t' item. get_task i (wd_db w') = Inr t' \<and> item \<noteq> [] \<and> t_project_item_id t' = Some item) \<and>
    (\<forall>env2 v r v'. wd_db v = wd_db w' \<longrightarrow> apply_create_draft env2 i p title body v = (r, v') \<longrightarrow>
       wd_calls v' = wd_calls v)"
proof -
  let ?c = "called (CallCreateDraft p title body) w"
  obtain item where item: "item \<noteq> []"
    "bnd (write_back_project_item env i item) (\<lambda>_. bnd (enqueue_status_follow_up env i p item) (\<lambda>_. ret Stamped)) ?c
       = (Inr Stamped, w')"
    using assms(2,3)
    by (auto simp: apply_create_draft_def bnd_tasks_get [OF assms(1)] bnd_remote Let_def split: sum.splits if_splits)
  from item(2) obtain x v where v: "write_back_project_item env i item ?c = (Inr x, v)"
    "bnd (enqueue_status_follow_up env i p item) (\<lambda>_. ret Stamped) v = (Inr Stamped, w')"
    by (auto elim: bnd_cases)
  from v(2) obtain y where y: "enqueue_status_follow_up env i p item v = (Inr y, w')" by (auto elim: bnd_cases)
  have wb: "wd_calls v = wd_calls ?c" "\<exists>t'. get_task i (wd_db v) = Inr t' \<and> t_project_item_id t' = Some item"
    using write_back_project_item_run [OF v(1)] by auto
  note fu = follow_up_view(1) [OF y]
  obtain t' where t': "get_task i (wd_db w') = Inr t'" "t_project_item_id t' = Some item" using wb(2) fu by auto
  have "wd_calls v' = wd_calls v" if "wd_db v = wd_db w'" "apply_create_draft env2 i p title body v = (r, v')"
    for env2 v r v'
  proof -
    have g: "get_task i (wd_db v) = Inr t'" using t'(1) that(1) by simp
    from that(2) t'(2) have "bnd (enqueue_status_follow_up env2 i p item) (\<lambda>_. ret Stamped) v = (r, v')"
      by (simp add: apply_create_draft_def bnd_tasks_get [OF g])
    then show ?thesis by (cases rule: bnd_cases) (auto dest: follow_up_view(1))
  qed
  with t' item(1) wb(1) fu show ?thesis by auto
qed

definition sample_workspace :: "project_id option \<Rightarrow> workspace" where
  "sample_workspace proj = (workspace_new (t_workspace_id sample_mirror) 0 (lit ''w'') None True)\<lparr>w_project_id := proj\<rparr>"

definition board_world :: "project_id option \<Rightarrow> db \<Rightarrow> world" where
  "board_world proj d = (queue_world [])\<lparr>wd_db := d, wd_cat :=
     \<lparr>cat_workspaces = [sample_workspace proj], cat_projects = [sample_project], cat_issue_types = [],
      cat_instances = [], cat_origins = []\<rparr>\<rparr>"

definition board_env :: env where
  "board_env = idle_env\<lparr>create_draft_issue := \<lambda>_ _ _ _. Inr (lit ''PVTI_1''),
     add_item := \<lambda>_ _ _. Inr (lit ''PVTI_1'')\<rparr>"

lemma sample_board_world:
  obtains d t where "get_task (t_id sample_mirror) d = Inr t" "t_project_item_id t = None"
    "t_workspace_id t = t_workspace_id sample_mirror" "t_relations t = []" "solo_db (t_id sample_mirror) d"
proof -
  have s: "t_relations sample_mirror = []" "t_project_item_id sample_mirror = None" by (simp_all add: sample_simps)
  obtain d where d: "save_task 5 sample_mirror SrcPull empty_db = Inr d" "solo_db (t_id sample_mirror) d"
    using save_solo [OF _ s(1)] solo_empty_db by metis
  obtain t where "get_task (t_id sample_mirror) d = Inr t" "same_record sample_mirror t"
    using get_save_task [OF d(1)] by blast
  with d(2) s that [of d t] show thesis by (auto simp: same_record_def)
qed

lemma board_world_lookups:
  "wd_db (board_world proj d) = d" "wd_calls (board_world proj d) = []"
  "get_workspace (t_workspace_id sample_mirror) (wd_cat (board_world proj d)) = Inr (sample_workspace proj)"
  "w_project_id (sample_workspace proj) = proj"
  by (simp_all add: board_world_def queue_world_def get_workspace_def sample_workspace_def workspace_new_def)

theorem draft_created_once_witness:
  "\<exists>w t w'. get_task (t_id sample_mirror) (wd_db w) = Inr t \<and> t_project_item_id t = None \<and>
     apply_create_draft board_env (t_id sample_mirror) (lit ''PVT_1'') [] [] w = (Inr Stamped, w') \<and>
     wd_calls w' = [CallCreateDraft (lit ''PVT_1'') [] []]"
proof -
  let ?i = "t_id sample_mirror" and ?p = "lit ''PVT_1''" and ?item = "lit ''PVTI_1''"
  obtain d t where t: "get_task ?i d = Inr t" "t_project_item_id t = None"
    "t_workspace_id t = t_workspace_id sample_mirror" "t_relations t = []" "solo_db ?i d"
    by (rule sample_board_world)
  let ?w = "board_world None d" and ?c = "CallCreateDraft (lit ''PVT_1'') [] []"
  have id: "t_id t = ?i" using t(1) by (rule get_task_id)
  let ?u = "t\<lparr>t_project_item_id := Some ?item\<rparr>"
  have "t_relations ?u = []" "solo_db (t_id ?u) d" using t(4,5) id by simp_all
  from save_solo [OF this(2,1)] obtain d' where d': "save_task 0 ?u SrcLocalEdit d = Inr d'" by metis
  obtain t' where t': "get_task ?i d' = Inr t'" "t_workspace_id t' = t_workspace_id sample_mirror"
    using get_save_task [OF d'] t(3) id by (auto simp: same_record_def)
  let ?v = "(called ?c ?w)\<lparr>wd_tick := Suc (Suc (wd_tick ?w)), wd_db := d'\<rparr>"
  have wb: "write_back_project_item board_env ?i ?item (called ?c ?w) = (Inr (), ?v)"
    using t(1,2) d' by (simp add: write_back_project_item_def bnd_def tasks_get_run board_world_lookups tasks_save_run
        board_env_def idle_env_def)
  have fu: "enqueue_status_follow_up board_env ?i ?p ?item ?v = (Inr (), ?v)"
    using t' by (simp add: enqueue_status_follow_up_def bnd_def tasks_get_run workspaces_get_def
        board_world_lookups)
  have ans: "create_draft_issue board_env k ?p [] [] = Inr ?item" for k by (simp add: board_env_def)
  have get: "get_task ?i (wd_db ?w) = Inr t" using t(1) by (simp add: board_world_lookups)
  have "bnd (write_back_project_item board_env ?i ?item) (\<lambda>_.
    bnd (enqueue_status_follow_up board_env ?i ?p ?item) (\<lambda>_. ret Stamped)) (called ?c ?w) = (Inr Stamped, ?v)"
    using wb fu by (simp add: bnd_def)
  then have run: "apply_create_draft board_env ?i ?p [] [] ?w = (Inr Stamped, ?v)"
    using t(2) ans by (simp add: apply_create_draft_def bnd_tasks_get [OF get] bnd_remote)
  from draft_created_once [OF get t(2) run] get t(2) run show ?thesis
    by (intro exI conjI) (auto simp: board_world_lookups)
qed

text \<open>An attach that finishes after the workspace left the board is discarded: the entry succeeds
  with its one remote call, and neither the task nor the queue changes.\<close>

theorem detached_add_item_discarded:
  assumes "get_task i (wd_db w) = Inr t" "get_workspace (t_workspace_id t) (wd_cat w) = Inr ws"
    "w_project_id ws = None \<or> (\<exists>pid p. w_project_id ws = Some pid \<and> get_project pid (wd_cat w) = Inr p \<and> p_id p \<noteq> node)"
    "add_item env (wd_tick w) node issue = Inr item" "item \<noteq> []"
  shows "apply_add_item env i node issue w = (Inr Stamped, called (CallAddItem node issue) w)"
proof -
  let ?v = "called (CallAddItem node issue) w"
  have "workspace_still_targets_project i node ?v = (Inr False, ?v)"
    using assms(1-3)
    by (auto simp: workspace_still_targets_project_def bnd_def tasks_get_run workspaces_get_def projects_get_def)
  then show ?thesis using assms(4,5) by (simp add: apply_add_item_def bnd_remote) (simp add: bnd_def)
qed

theorem detached_add_item_discarded_witness:
  "\<exists>d w'. apply_add_item board_env (t_id sample_mirror) (lit ''PVT_9'') (lit ''I_1'') (board_world None d) = (Inr Stamped, w') \<and>
     wd_db w' = d"
proof -
  obtain d t where t: "get_task (t_id sample_mirror) d = Inr t" "t_workspace_id t = t_workspace_id sample_mirror"
    by (rule sample_board_world)
  let ?w = "board_world None d"
  have "get_task (t_id sample_mirror) (wd_db ?w) = Inr t"
    "get_workspace (t_workspace_id t) (wd_cat ?w) = Inr (sample_workspace None)" "w_project_id (sample_workspace None) = None"
    using t by (simp_all add: board_world_lookups)
  moreover have "add_item board_env (wd_tick ?w) (lit ''PVT_9'') (lit ''I_1'') = Inr (lit ''PVTI_1'')"
    by (simp add: board_env_def)
  ultimately have "apply_add_item board_env (t_id sample_mirror) (lit ''PVT_9'') (lit ''I_1'') ?w =
    (Inr Stamped, called (CallAddItem (lit ''PVT_9'') (lit ''I_1'')) ?w)"
    by (intro detached_add_item_discarded) auto
  then show ?thesis by (intro exI [of _ d]) (auto simp: board_world_lookups)
qed

section \<open>Back-off\<close>

lemma delay_for_standard:
  "delay_for backoff_standard k = (if k \<le> 1 then 5 * 10^9 else if k = 2 then 30 * 10^9
     else if k = 3 then 120 * 10^9 else 600 * 10^9)"
proof -
  have "k \<le> 1 \<or> k = 2 \<or> k = 3 \<or> (\<exists>n. k = n + 4)" by presburger
  then show ?thesis
    by (elim disjE exE) (simp_all add: delay_for_def backoff_standard_def nth_Cons' del: power_numeral)
qed

text \<open>The standard schedule: waits grow from 5 seconds to 10 minutes and stay there.  A failed entry
  below the cap goes back to the queue with its attempt counted and is not eligible before the
  wait counted from the moment of failure is over; at the cap it is dead-lettered.\<close>

theorem retry_backs_off:
  assumes "e \<in> set (db_outbox (wd_db w))" "distinct (map e_id (db_outbox (wd_db w)))"
    "env_from_std env (delay_for backoff_standard (Suc (e_attempts e))) =
       Some (int (delay_for backoff_standard (Suc (e_attempts e))))"
    "settle_failure env backoff_standard e err w = (Inr (), w')"
  shows "delay_for backoff_standard k \<le> delay_for backoff_standard (Suc k) \<and>
    5 * 10^9 \<le> delay_for backoff_standard k \<and> delay_for backoff_standard k \<le> 600 * 10^9 \<and>
    (\<exists>e'. e' \<in> set (db_outbox (wd_db w')) \<and> e_id e' = e_id e \<and> e_attempts e' = Suc (e_attempts e) \<and>
       (if Suc (e_attempts e) < 5
        then e_status e' = Pending \<and> (\<forall>now tbl i. now < env_now env (wd_tick w) + 5 * 10^9 \<longrightarrow>
               \<not> claimable now tbl (i, e'))
        else e_status e' = Failed))"
proof (intro conjI)
  let ?M = "bo_max_attempts backoff_standard" and ?d = "delay_for backoff_standard (Suc (e_attempts e))"
  show "delay_for backoff_standard k \<le> delay_for backoff_standard (Suc k)"
    "5 * 10^9 \<le> delay_for backoff_standard k" "delay_for backoff_standard k \<le> 600 * 10^9"
    by (simp_all add: delay_for_standard)
  have d: "5 * 10^9 \<le> int ?d" by (simp add: delay_for_standard)
  have M: "?M = 5" by (simp add: backoff_standard_def)
  let ?g = "if Suc (e_attempts e) < 5
    then \<lambda>x. x\<lparr>e_status := Pending, e_last_error := Some (sync_error_msg err), e_attempts := e_attempts x + 1,
      e_next_attempt_at := Some (env_now env (wd_tick w) + int ?d), e_updated_at := env_now env (Suc (wd_tick w))\<rparr>
    else (\<lambda>x. x\<lparr>e_status := Failed, e_last_error := Some (sync_error_msg err), e_attempts := e_attempts x + 1,
      e_updated_at := env_now env (wd_tick w)\<rparr>)"
  have "db_outbox (wd_db w') = update_where (\<lambda>x. e_id x = e_id e) ?g (db_outbox (wd_db w))"
    using assms(3,4) M
    by (auto simp: settle_failure_def Let_def bnd_def record_retry_def mark_failed_def split: if_splits)
  then have "?g e \<in> set (db_outbox (wd_db w'))" using assms(1) by (auto simp: set_update_where)
  then show "\<exists>e'. e' \<in> set (db_outbox (wd_db w')) \<and> e_id e' = e_id e \<and> e_attempts e' = Suc (e_attempts e) \<and>
       (if Suc (e_attempts e) < 5
        then e_status e' = Pending \<and> (\<forall>now tbl i. now < env_now env (wd_tick w) + 5 * 10^9 \<longrightarrow>
               \<not> claimable now tbl (i, e'))
        else e_status e' = Failed)"
    using d by (intro exI [of _ "?g e"]) (auto simp: claimable_def)
qed

theorem retry_backs_off_witness:
  "\<exists>w'. settle_failure idle_env backoff_standard (outbox_entry_new 2 0 7 (AddItem [] [])) SeNoRepo
       (queue_world [outbox_entry_new 2 0 7 (AddItem [] [])]) = (Inr (), w') \<and>
     (\<exists>e' \<in> set (db_outbox (wd_db w')). e_status e' = Pending \<and> e_attempts e' = 1 \<and> \<not> claimable 1 [] (0, e'))"
proof -
  let ?e = "outbox_entry_new 2 0 7 (AddItem [] [])"
  obtain w' where w': "settle_failure idle_env backoff_standard ?e SeNoRepo (queue_world [?e]) = (Inr (), w')"
    by (cases "e_attempts ?e + 1 < bo_max_attempts backoff_standard")
      (auto simp: settle_failure_def Let_def bnd_def)
  have "?e \<in> set (db_outbox (wd_db (queue_world [?e])))" "distinct (map e_id (db_outbox (wd_db (queue_world [?e]))))"
    by (simp_all add: queue_world_def)
  moreover have "env_from_std idle_env d = Some (int d)" "env_now idle_env k = 0" "e_attempts ?e = 0" for d k
    by (simp_all add: idle_env_def outbox_entry_new_def)
  ultimately show ?thesis using retry_backs_off [OF _ _ _ w', of 0] w' by auto
qed

end
