(* ===== verification/StoreGrowth.thy ===== *)
theory StoreGrowth
  imports Poller ServiceStore DrainEffects
begin

text \<open>
  No program of the four services damages the tables: whatever a task command, a sync command, a
  drain pass or a poll does, and wherever it stops, the integrity constraints are kept and the
  snapshot history of every task is only extended.  A session of task-service requests also keeps the
  relation graph well-formed, as the ids given out from one request to the next never clash.
\<close>

section \<open>Growing stores\<close>

definition grows :: "db \<Rightarrow> db \<Rightarrow> bool" where
  "grows d d' \<longleftrightarrow> (db_wf d \<longrightarrow> db_wf d') \<and> (\<forall>i. prefix (task_log i d) (task_log i d'))"

lemma grows_refl [simp]: "grows d d"
  by (simp add: grows_def)

lemma grows_trans: "grows d e \<Longrightarrow> grows e f \<Longrightarrow> grows d f"
  unfolding grows_def by (meson prefix_order.trans)

lemma grows_op: "apply_db_op op d = Inr d' \<Longrightarrow> \<forall>i. op \<noteq> DbDelete i \<Longrightarrow> grows d d'"
  unfolding grows_def by (meson apply_db_op_wf apply_db_op_log)

lemma grows_writes:
  "save_task cap t src d = Inr d' \<Longrightarrow> grows d d'"
  "save_many_with_outbox cap ts es d = Inr d' \<Longrightarrow> grows d d'"
  using grows_op [of "DbSave cap t src" d d'] grows_op [of "DbSaveMany cap ts es" d d'] by simp_all

lemma grows_columns:
  "grows d (cache_project_status i opt d)" "grows d (apply_polled_priority i p d)" "grows d (mark_remote_dirty i d)"
  "grows d (cache_remote_node_id i n d)" "grows d (snd (clear_issue_type_pending i it d))" "grows d (cache_synced_at i ts d)"
  "grows d (replace_comments fresh i cs d)" "grows d (add_pending_comment c i a b ts d)"
  "grows d (mark_comments_pushed fresh i drained pushed d)"
  by (rule grows_op [of "DbStatus i opt"] grows_op [of "DbPriority i p"] grows_op [of "DbRemoteDirty i"]
      grows_op [of "DbNodeId i n"] grows_op [of "DbClearType i it"] grows_op [of "DbSyncedAt i ts"]
      grows_op [of "DbComments fresh i cs"] grows_op [of "DbAddComment c i a b ts"]
      grows_op [of "DbPushComments fresh i drained pushed"]; simp)+

lemma grows_outbox: "grows d (d\<lparr>db_outbox := es\<rparr>)"
  by (simp add: grows_def db_wf_other_tables task_log_def)

lemma grows_save_with_outbox: "save_with_outbox cap t src es d = Inr d' \<Longrightarrow> grows d d'"
  by (auto simp: save_with_outbox_def insert_entries_def save_task_def [symmetric] split: sum.splits
      intro: grows_trans [OF grows_writes(1) grows_outbox])

lemma grows_save_many: "save_many cap ts d = Inr d' \<Longrightarrow> grows d d'"
  unfolding grows_def by (meson save_many_wf save_many_snapshots prefix_task_log)

section \<open>Programs that let the store grow\<close>

definition within :: "(world \<Rightarrow> world \<Rightarrow> bool) \<Rightarrow> ('e, 'a) em \<Rightarrow> bool" where
  "within R m \<longleftrightarrow> (\<forall>w. R w (snd (m w)))"

text \<open>A relation between worlds that composes: programs built from steps inside it stay inside it.\<close>

locale effect =
  fixes R :: "world \<Rightarrow> world \<Rightarrow> bool"
  assumes same: "wd_db w' = wd_db w \<Longrightarrow> wd_cat w' = wd_cat w \<Longrightarrow> wd_calls w' = wd_calls w \<Longrightarrow>
      wd_tick w \<le> wd_tick w' \<Longrightarrow> R w w'"
    and compose: "R u v \<Longrightarrow> R v w \<Longrightarrow> R u w"
begin

lemma bnd: "within R m \<Longrightarrow> (\<And>x. within R (f x)) \<Longrightarrow> within R (bnd m f)"
  unfolding within_def
proof
  fix w assume m: "\<forall>w. R w (snd (m w))" and f: "\<And>x. \<forall>w. R w (snd (f x w))"
  obtain r v where v: "m w = (r, v)" by fastforce
  with m have "R w v" by (metis snd_conv)
  moreover have "R v (snd (f x v))" for x using f by simp
  ultimately show "R w (snd (bnd m f w))" using v by (cases r) (auto simp: bnd_def intro: compose)
qed

lemma prims:
  "within R (ret x)" "within R (throw e)" "within R (reads f)" "within R (query g)" "within R tick"
  "within R (timestamp_now env)" "within R (lift_port r)" "within R (lift_domain q)" "within R (fresh_rows env n)"
  "(\<And>w. R w (w\<lparr>wd_db := h (wd_db w)\<rparr>)) \<Longrightarrow> within R (modify_db h)" "(\<And>w. R w (called c w)) \<Longrightarrow> within R (remote c answer)"
  by (simp_all add: within_def query_def fresh_rows_def timestamp_now_def bnd_def lift_port_def lift_domain_def remote_def called_def
      same split: sum.split)

lemma control:
  "(b \<Longrightarrow> within R m) \<Longrightarrow> (\<not> b \<Longrightarrow> within R n) \<Longrightarrow> within R (if b then m else n)"
  "within R m1 \<Longrightarrow> (\<And>x. within R (f1 x)) \<Longrightarrow> within R (case o1 of None \<Rightarrow> m1 | Some x \<Rightarrow> f1 x)"
  "(\<And>x. within R (f2 x)) \<Longrightarrow> (\<And>y. within R (g2 y)) \<Longrightarrow> within R (case r2 of Inl x \<Rightarrow> f2 x | Inr y \<Rightarrow> g2 y)"
  "(\<And>x y. within R (f3 x y)) \<Longrightarrow> within R (case p3 of (x, y) \<Rightarrow> f3 x y)"
  "within R m4 \<Longrightarrow> (\<And>x xs. within R (f4 x xs)) \<Longrightarrow> within R (case l4 of [] \<Rightarrow> m4 | x # xs \<Rightarrow> f4 x xs)"
  by (simp_all split: option.split sum.split prod.split list.split)

lemma caught: "within R m \<Longrightarrow> within R (catch m)"
  by (auto simp: within_def catch_def split: prod.splits) (metis snd_conv)

lemma loops: "(\<And>x. within R (f x)) \<Longrightarrow> within R (each f xs)" "(\<And>x. within R (g x)) \<Longrightarrow> within R (collect g ys)"
proof -
  show "within R (each f xs)" if "\<And>x. within R (f x)" by (induction xs) (simp_all add: bnd prims that del: prim_simps)
  show "within R (collect g ys)" if "\<And>x. within R (g x)" by (induction ys) (simp_all add: bnd prims that del: prim_simps)
qed

end

text \<open>The catalog is not touched either: only the workspace service writes it.  And no program gives back
  a tick, so what it draws from its environment is never drawn again.\<close>

definition growth :: "world \<Rightarrow> world \<Rightarrow> bool" where
  "growth w w' \<longleftrightarrow> grows (wd_db w) (wd_db w') \<and> wd_cat w' = wd_cat w \<and> wd_tick w \<le> wd_tick w'"

interpretation growing: effect growth
  by unfold_locales (auto simp: growth_def intro: grows_trans)

definition safe :: "('e, 'a) em \<Rightarrow> bool" where
  "safe m \<longleftrightarrow> within growth m"

lemma growth_trans: "growth u v \<Longrightarrow> growth v w \<Longrightarrow> growth u w"
  by (rule growing.compose)

lemma growth_refl: "growth w w"
  by (simp add: growth_def)

lemma safe_iff: "safe m \<longleftrightarrow> (\<forall>w. grows (wd_db w) (wd_db (snd (m w))) \<and> wd_cat (snd (m w)) = wd_cat w \<and>
    wd_tick w \<le> wd_tick (snd (m w)))"
  by (simp add: safe_def within_def growth_def)

named_theorems safe_intros

lemmas safe_monad [safe_intros] =
  growing.bnd [folded safe_def] growing.control [folded safe_def] growing.caught [folded safe_def] growing.loops [folded safe_def]
  growing.prims(1-9) [folded safe_def]

lemma safe_prims [safe_intros]: "safe (log_call c)" "(\<And>d. grows d (h d)) \<Longrightarrow> safe (modify_db h)"
  by (simp_all add: safe_iff)

lemma safe_remote [safe_intros]: "safe (remote c answer)" "safe (call c answer)"
  by (simp_all add: remote_def call_def safe_intros del: prim_simps)

lemma safe_commit [safe_intros]:
  assumes "\<And>cap d d'. f cap d = Inr d' \<Longrightarrow> grows d d'"
  shows "safe (commit env f)" "safe (transact env f)"
  using assms
  by (auto simp: safe_iff commit_def transact_def timestamp_now_def bnd_def query_def sync_port_def from_port_def
      split: sum.splits prod.splits)

lemma safe_ports [safe_intros]:
  "safe (tasks_get i)" "safe (tasks_save env t src)" "safe (workspaces_get ws)" "safe (projects_get p)"
  "safe (bindings_get r)" "safe (bindings_get_origin x)" "safe (outbox_enqueue env i mu)" "safe (modify_outbox u)"
  "safe (sync_id env s)" "safe (sync_edit env g t)" "safe (ts_task env s)" "safe (task_dto t)" "safe (id_arg env what s)"
  "safe (edit env h t)" "safe (into_entries env i ms)"
proof -
  show "safe (tasks_save env t src)"
    by (auto simp: safe_iff tasks_save_def timestamp_now_def bnd_def lift_port_def split: sum.splits dest: grows_writes(1))
qed (simp_all add: tasks_get_def workspaces_get_def projects_get_def bindings_get_def bindings_get_origin_def
    outbox_enqueue_def modify_outbox_def sync_id_def sync_edit_def ts_task_def task_dto_def id_arg_def edit_def into_entries_def
    grows_outbox safe_intros del: prim_simps)

lemma safe_tolerant [safe_intros]: "safe m \<Longrightarrow> safe (tolerant m)"
  unfolding tolerant_def by (intro safe_intros) (auto split: sum.split sync_error.split port_error.split intro: safe_intros)

lemmas safe_db = grows_writes grows_columns grows_outbox grows_save_with_outbox grows_save_many

section \<open>The sync commands\<close>

lemma promote_safe [safe_intros]: "safe (sy_promote env s)"
proof -
  have backfill: "safe (relation_backfill rs c cache)" for rs c cache
    by (induction rs arbitrary: cache) (simp_all add: safe_intros split: prod.split del: prim_simps)
  show ?thesis
    unfolding sy_promote_def promote_file_def find_promoted_orphan_def first_filing_type_def Let_def
    by (intro safe_intros backfill safe_db | assumption)+
qed

lemma push_safe [safe_intros]: "safe (push_inner env s force)"
proof -
  have comments: "safe (push_comments env i c r cs)" for i c r cs
    by (induction cs) (simp_all add: safe_intros grows_columns split: option.split del: prim_simps)
  show ?thesis
    unfolding push_inner_def push_snapshot_def Let_def by (intro safe_intros comments safe_db | assumption)+
qed

lemma reconcile_safe [safe_intros]: "safe (reconcile_relations_inbound env t c r)"
proof -
  have load: "safe (load_neighbor nbs j)" for nbs j
    by (simp add: load_neighbor_def safe_intros split: option.split del: prim_simps)
  have add: "safe (add_edges env k k' cur js st)" for k k' cur js st
    by (induction env k k' cur js st rule: add_edges.induct) (simp_all add: safe_intros load del: prim_simps)
  have drop: "safe (drop_edges env k k' des js st)" for k k' des js st
    by (induction env k k' des js st rule: drop_edges.induct) (simp_all add: safe_intros load del: prim_simps)
  have family: "safe (reconcile_family env k k' des st)" for k k' des st
    by (simp add: reconcile_family_def Let_def safe_intros add drop del: prim_simps)
  show ?thesis
    unfolding reconcile_relations_inbound_def reconcile_parent_def Let_def
    by (intro safe_intros family safe_db | assumption)+
qed

lemma pull_safe [safe_intros]: "safe (pull_inner env s force)"
  unfolding pull_inner_def adopt_remote_def mirror_inbound_def Let_def by (intro safe_intros safe_db | assumption)+

lemma link_safe [safe_intros]: "safe (sy_link env s url r relink)"
proof -
  have bare: "safe (bare_link_task env url r i t)" for i t
    unfolding bare_link_task_def
    by (intro safe_intros safe_db | assumption | (simp split: port_error.split del: prim_simps, intro safe_intros allI impI conjI))+
  show ?thesis
    unfolding sy_link_def relink_task_def verify_redirect_def Let_def
    by (intro safe_intros bare safe_db | assumption)+
qed

lemma transfer_safe [safe_intros]: "safe (sy_transfer env s dst)"
  unfolding sy_transfer_def transfer_guard_def move_issue_def transfer_node_id_def Let_def
  by (intro safe_intros safe_db | assumption)+

lemma sync_verbs_safe [safe_intros]:
  "safe (sy_push env s)" "safe (sy_push_accept_local env s)" "safe (sy_pull env s)" "safe (sy_pull_accept_remote env s)"
  "safe (sy_refresh env s)" "safe (sy_list_remote env ws repo since)"
proof -
  show "safe (sy_refresh env s)" unfolding sy_refresh_def by (intro safe_intros safe_db)
  show "safe (sy_list_remote env ws repo since)"
    unfolding sy_list_remote_def list_remote_group_of_def by (intro safe_intros)
qed (simp_all add: sy_push_def sy_push_accept_local_def sy_pull_def sy_pull_accept_remote_def safe_intros del: prim_simps)

section \<open>The poll\<close>

lemma poll_safe [safe_intros]: "safe (poll_once env wm)"
proof -
  have item: "safe (reconcile_item p item st)" for p item st
    unfolding reconcile_item_def check_content_def reconcile_priority_def by (cases st) (simp, intro safe_intros safe_db)
  have items: "safe (reconcile_items p since items st)" for p since items st
    by (induction items arbitrary: st) (simp_all add: safe_intros item del: prim_simps)
  have project: "safe (poll_project env p st)" for p st
    unfolding poll_project_def Let_def by (intro safe_intros items)
  have projects: "safe (poll_projects env ps st)" for ps st
    by (induction ps arbitrary: st) (simp_all add: safe_intros project del: prim_simps)
  have stamp: "safe (stamp_candidates env done_set ts n)" for done_set ts n
    by (induction ts arbitrary: n) (simp_all add: safe_intros grows_columns del: prim_simps)
  show ?thesis unfolding poll_once_def by (intro safe_intros projects stamp)
qed

section \<open>The drainer\<close>

lemma follow_up_safe [safe_intros]:
  "safe (enqueue_status_follow_up env i p item)" "safe (enqueue_issue_type_follow_up env i c)"
  "safe (write_back_project_item env i item)" "safe (write_back_converted_issue env i node num)"
  "safe (stamped_or_retry r)" "safe (clear_pending_if_recorded i lt rec)" "safe (workspace_still_targets_project i p)"
  "safe (resolve_project_tolerant t)" "safe (filing_owner_login t)"
  unfolding enqueue_status_follow_up_def enqueue_issue_type_follow_up_def enqueue_opt_def write_back_project_item_def
    write_back_converted_issue_def stamped_or_retry_def clear_pending_if_recorded_def workspace_still_targets_project_def
    resolve_project_tolerant_def filing_owner_login_def Let_def
  by (intro safe_intros safe_db)+

lemma apply_safe [safe_intros]: "safe (apply_mutation env i m)"
proof -
  have update: "safe (apply_update_remote env i c r)" for c r
    unfolding apply_update_remote_def Let_def by (intro safe_intros)
  show ?thesis
    by (cases m)
      (simp_all add: update apply_add_item_def apply_create_draft_def apply_update_draft_def apply_convert_draft_def
        apply_set_status_def Let_def safe_intros split: option.split sum.split prod.split del: prim_simps)
qed

lemma drain_turn_safe: "safe (drain_turn env b)"
proof -
  have claim: "safe (outbox_claim env now)" for now
    unfolding outbox_claim_def by (intro safe_intros)
  have settle: "safe (settle_stamped env e)" "safe (settle_conflict env e k)" "safe (settle_failure env b e err)" for e k err
    unfolding settle_stamped_def settle_conflict_def settle_failure_def Let_def by (intro safe_intros safe_db)+
  show ?thesis
    unfolding drain_turn_def apply_entry_def
    by (intro safe_intros claim) (simp_all add: safe_intros settle split: apply_disposition.split del: prim_simps)
qed

lemma drain_loop_grows:
  assumes "drain_loop env b n w = Some y"
  shows "growth w (snd y)"
proof (induction rule: drain_loop.raw_induct [OF _ assms])
  case (1 loop env b n w y)
  have turn: "growth w (snd (drain_turn env b w))"
    using drain_turn_safe by (simp add: safe_def within_def)
  show ?case
    using 1(2) turn by (auto split: prod.splits sum.splits option.splits dest!: 1(1) intro: growth_trans)
qed

lemma drain_once_grows:
  assumes "drain_once env b w = Some (r, w')"
  shows "growth w w'"
proof -
  have "safe (enqueue_pending_issue_types env)"
    unfolding enqueue_pending_issue_types_def plan_pending_type_def by (intro safe_intros)
  then have "growth w (snd (enqueue_pending_issue_types env w))" by (simp add: safe_def within_def)
  with assms show ?thesis
    by (auto simp: drain_once_def split: prod.splits sum.splits dest!: drain_loop_grows intro: growth_trans)
qed

section \<open>The task commands\<close>

lemma mint_safe [safe_intros]: "safe (save_with_minted_hash env t src)"
proof -
  have "growth w (snd (mint_loop env t src len n w))" for len n w
  proof (induction env t src len n w rule: mint_loop.induct)
    case (1 env t src len n w)
    let ?w = "w\<lparr>wd_tick := Suc (wd_tick w)\<rparr>"
    have step: "growth w ?w" by (simp add: growing.same)
    have saved: "growth w (?w\<lparr>wd_db := d\<rparr>)" if "save_task cap t' src (wd_db w) = Inr d" for cap t' d
      using grows_writes(1) [OF that] by (simp add: growth_def)
    show ?case
    proof (cases "save_task (env_now env (wd_tick w)) (t\<lparr>t_hash := random_lowercase_base32 (env_draws env (wd_tick w)) len\<rparr>) src (wd_db w)")
      case (Inl e)
      note again = growth_trans [OF step 1(1) [OF refl refl Inl]] growth_trans [OF step 1(2) [OF refl refl Inl]]
      show ?thesis
        by (subst mint_loop.simps) (simp add: Let_def Inl step again)
    qed (subst mint_loop.simps, simp add: Let_def saved)
  qed
  then show ?thesis by (simp add: safe_def within_def save_with_minted_hash_def)
qed

lemma plans_safe [safe_intros]:
  "safe (plan_mirror_mutations env c t)" "safe (plan_update_mutations env sb conv t)" "safe (plan_off_axis p it t)"
  "safe (first_filing o1 f t)" "safe (origin_of_binding env s)" "(\<And>v. safe (g v y)) \<Longrightarrow> safe (given x g y)" "safe (cycle_guard k t t')"
  unfolding plan_update_mutations_def plan_mirror_mutations_def plan_off_axis_def first_filing_def origin_of_binding_def given_def
    cycle_guard_def Let_def
  by (intro safe_intros | assumption)+

lemma task_commands_safe:
  "safe (ts_create env ct)" "safe (ts_import_mirror env ci)" "safe (ts_show env q)" "safe (ts_list env lq)"
  "safe (ts_list_snapshots env q)" "safe (ts_add_comment env q b a)" "safe (ts_update env cu)"
  "safe (ts_repoint_filing_repo env q target)" "safe (transition env q op)" "safe (transition_mirror env q op)"
  "safe (ts_rollback env q v)" "safe (ts_add_relation env cr)" "safe (ts_remove_relation env cr)"
  unfolding ts_create_def ts_import_mirror_def ts_show_def ts_list_def ts_list_snapshots_def ts_add_comment_def ts_update_def
    apply_update_cmd_def ts_repoint_filing_repo_def transition_def transition_mirror_def ts_rollback_def ts_add_relation_def
    ts_remove_relation_def Let_def
  by (intro safe_intros safe_db | assumption)+

lemma clear_relations_safe: "safe (ts_clear_relations env q)"
proof -
  have strip: "safe (strip_neighbours env removed i js cache)" for removed i js cache
    by (induction js arbitrary: cache) (simp_all add: safe_intros split: prod.split del: prim_simps)
  show ?thesis unfolding ts_clear_relations_def by (intro safe_intros strip safe_db | assumption)+
qed

lemma run_request_grows: "growth w (run_request env rq w)"
  using task_commands_safe clear_relations_safe
  by (cases rq) (simp_all add: safe_def within_def after_def ts_stage_for_sync_def ts_start_def ts_complete_def ts_reopen_def ts_archive_def)

section \<open>A session of requests\<close>

text \<open>What holds between two requests of one session: the store and its relation graph are intact, and
  the ids the environment has not given out yet name no stored task.\<close>

definition session_ok :: "env \<Rightarrow> world \<Rightarrow> bool" where
  "session_ok env w \<longleftrightarrow> db_wf (wd_db w) \<and> graph_wf (relation_edges (wd_db w)) \<and>
     (\<forall>k \<ge> wd_tick w. env_id env k \<notin> task_ids (wd_db w))"

lemma session_step:
  assumes "session_ok env w" "inj_on (env_id env) {k0..}" "k0 \<le> wd_tick w"
    and order: "\<And>k xs. set (env_map_order env k xs) = set xs"
  shows "session_ok env (run_request env rq w) \<and> k0 \<le> wd_tick (run_request env rq w)"
proof -
  let ?w = "run_request env rq w"
  have tick: "wd_tick w \<le> wd_tick ?w" using run_request_grows [of w env rq] by (simp add: growth_def)
  from assms(1) have "request_result env w ?w"
    by (intro run_request_result order) (simp_all add: session_ok_def)
  then have wf: "db_wf (wd_db ?w)" "graph_wf (relation_edges (wd_db ?w))" and
    ids: "task_ids (wd_db ?w) \<subseteq> task_ids (wd_db w) \<or>
      wd_tick w < wd_tick ?w \<and> task_ids (wd_db ?w) \<subseteq> insert (env_id env (wd_tick w)) (task_ids (wd_db w))"
    by (simp_all add: request_result_def)
  have "env_id env k \<notin> task_ids (wd_db ?w)" if k: "wd_tick ?w \<le> k" for k
  proof -
    have "env_id env k \<notin> task_ids (wd_db w)" using assms(1) k tick by (auto simp: session_ok_def)
    moreover have "env_id env k \<noteq> env_id env (wd_tick w)" if "wd_tick w < wd_tick ?w"
      using inj_onD [OF assms(2), of k "wd_tick w"] assms(3) that k by auto
    ultimately show ?thesis using ids by blast
  qed
  with wf assms(3) tick show ?thesis by (simp add: session_ok_def)
qed

lemma session_run:
  assumes "session_ok env w" "inj_on (env_id env) {k0..}" "k0 \<le> wd_tick w"
    and order: "\<And>k xs. set (env_map_order env k xs) = set xs"
  shows "session_ok env (fold (run_request env) rqs w)"
  using assms(1,3)
proof (induction rqs arbitrary: w)
  case (Cons rq rqs)
  from session_step [OF Cons.prems(1) assms(2) Cons.prems(2) order, of rq] Cons.IH show ?case by simp
qed simp

text \<open>C7 No sequence of task-service commands, each succeeding or failing part-way, damages the
  store: ids, hashes and remote identities stay unique, relations resolvable and stored in both
  directions, snapshots densely numbered, and neither blocking nor hierarchy edges ever form a
  cycle.  Of the ids the environment has still to give out it is assumed that they are distinct and
  that no task stored at the start has one; that the created tasks never clash with each other or
  with later ones is part of what is shown.\<close>

theorem service_keeps_store:
  assumes "db_wf (wd_db w)" "graph_wf (relation_edges (wd_db w))"
    and distinct_ids: "inj_on (env_id env) {wd_tick w..}"
    and fresh: "\<forall>k \<ge> wd_tick w. env_id env k \<notin> t_id ` set (db_tasks (wd_db w))"
    and order: "\<And>k xs. set (env_map_order env k xs) = set xs"
  shows "db_wf (wd_db (fold (run_request env) rqs w)) \<and>
    graph_wf (relation_edges (wd_db (fold (run_request env) rqs w)))"
  using session_run [OF _ distinct_ids order_refl order, of rqs] assms(1,2) fresh by (simp add: session_ok_def)

lemma pair_world_session:
  "inj_on (env_id idle_env) {wd_tick pair_world..}"
  "\<forall>k \<ge> wd_tick pair_world. env_id idle_env k \<notin> t_id ` set (db_tasks (wd_db pair_world))"
  using pair_world_ok(3) by (auto simp: inj_on_def idle_env_def)

theorem service_keeps_store_witness:
  "graph_wf (relation_edges (wd_db (fold (run_request idle_env)
     [RqImport \<lparr>ic_workspace_id = lit ''3'', ic_repo_id = None, ic_provider = lit ''github'', ic_remote_id = lit ''9'',
        ic_title = lit ''a'', ic_body = [], ic_assignees = [], ic_closed = False\<rparr>,
      RqAddRelation \<lparr>rc_task_id = lit ''bcd'', rc_kind = lit ''blocked_by'', rc_other = lit ''abc''\<rparr>,
      RqClearRelations (lit ''abc'')] pair_world)))"
  using service_keeps_store [OF pair_world_ok(1,2) pair_world_session pair_world_ok(4)] by blast

section \<open>The system\<close>

text \<open>What the processes of the system do to the tables, one run at a time; the poller keeps its
  watermarks, and every run meets its own environment.\<close>

datatype sync_request =
    SqPromote rstring
  | SqPush rstring bool
  | SqPull rstring bool
  | SqRefresh rstring
  | SqLink rstring rstring rstring bool
  | SqTransfer rstring rstring
  | SqListRemote workspace_id "repo_id option" timestamp

fun run_sync :: "env \<Rightarrow> sync_request \<Rightarrow> world \<Rightarrow> world" where
  "run_sync env (SqPromote s) w = after (sy_promote env s) w"
| "run_sync env (SqPush s force) w = after (if force then sy_push_accept_local env s else sy_push env s) w"
| "run_sync env (SqPull s force) w = after (if force then sy_pull_accept_remote env s else sy_pull env s) w"
| "run_sync env (SqRefresh s) w = after (sy_refresh env s) w"
| "run_sync env (SqLink s url r relink) w = after (sy_link env s url r relink) w"
| "run_sync env (SqTransfer s dst) w = after (sy_transfer env s dst) w"
| "run_sync env (SqListRemote ws repo since) w = after (sy_list_remote env ws repo since) w"

lemma safe_after: "safe m \<Longrightarrow> growth w (after m w)"
  by (simp add: safe_def within_def after_def)

lemma run_sync_grows: "growth w (run_sync env rq w)"
  by (cases rq) (simp_all add: safe_after safe_intros del: prim_simps)

datatype system_run =
    TaskRun service_request
  | SyncRun sync_request
  | DrainRun backoff_schedule
  | RequeueRun
  | PollRun watermarks

fun run_system :: "env \<times> system_run \<Rightarrow> world \<Rightarrow> world" where
  "run_system (env, TaskRun rq) w = run_request env rq w"
| "run_system (env, SyncRun rq) w = run_sync env rq w"
| "run_system (env, DrainRun b) w = (case drain_once env b w of None \<Rightarrow> w | Some (r, w') \<Rightarrow> w')"
| "run_system (env, RequeueRun) w =
     w\<lparr>wd_db := (wd_db w)\<lparr>db_outbox := snd (requeue_orphaned_inflight (env_now env (wd_tick w)) (db_outbox (wd_db w)))\<rparr>\<rparr>"
| "run_system (env, PollRun wm) w = after (poll_once env wm) w"

lemma run_system_grows: "growth w (run_system r w)"
proof (cases r)
  case (Pair env run)
  have "growth w (after (poll_once env wm) w)" for wm
    using poll_safe by (rule safe_after)
  then show ?thesis
    unfolding Pair
    by (cases run) (auto simp: run_request_grows run_sync_grows growth_def [of w "w\<lparr>wd_db := x\<rparr>" for x] grows_outbox growth_refl
        split: option.split dest: drain_once_grows)
qed

lemma run_systems_grow: "growth w (fold run_system runs w)"
  by (induction runs arbitrary: w) (auto intro: growth_trans growth_refl run_system_grows)

end
