(* ===== verification/SyncEffects.thy ===== *)
theory SyncEffects
  imports StoreGrowth
begin

text \<open>
  What the sync commands do to the stored task and which remote calls they make: a promote never
  files an issue twice, a push and a pull converge, a transfer is guarded.
\<close>

section \<open>Weakest preconditions of the sync primitives\<close>

lemma wp_ports [wp_simps]:
  "wp (tasks_get i) Q1 w \<longleftrightarrow> Q1 (sync_port (get_task i (wd_db w))) w"
  "wp (workspaces_get j) Q2 w \<longleftrightarrow> Q2 (sync_port (get_workspace j (wd_cat w))) w"
  "wp (sync_id env s) Q3 w \<longleftrightarrow> Q3 (case env_parse_uuid env s of Some u \<Rightarrow> Inr u
     | None \<Rightarrow> Inl (SeBadId (lit ''invalid task id: '' @ env_uuid_error env s))) w"
  "wp (sync_edit env g t) Q4 w \<longleftrightarrow>
     Q4 (sync_domain (g (env_now env (wd_tick w)) t)) (w\<lparr>wd_tick := Suc (wd_tick w)\<rparr>)"
  "wp (remote c a) Q5 w \<longleftrightarrow> Q5 (Inr (a (wd_tick w))) (called c w)"
  "wp (call c a) Q6 w \<longleftrightarrow> Q6 (sync_port (a (wd_tick w))) (called c w)"
  "wp (fresh_rows env n) Q7 w \<longleftrightarrow>
     Q7 (Inr (\<lambda>j. show_uuid (env_id env (wd_tick w + j)))) (w\<lparr>wd_tick := wd_tick w + n\<rparr>)"
  by (simp_all add: wp_simps tasks_get_def workspaces_get_def sync_id_def sync_edit_def remote_def call_def called_def
      fresh_rows_def wp_def bnd_def query_def lift_port_def sync_port_def timestamp_now_def split: sum.split)

lemma wp_commit [wp_simps]:
  "wp (commit env f) Q w \<longleftrightarrow>
     (case f (env_now env (wd_tick w)) (wd_db w) of
        Inl e \<Rightarrow> Q (Inl (SePort e)) (w\<lparr>wd_tick := Suc (wd_tick w)\<rparr>)
      | Inr d \<Rightarrow> Q (Inr ()) (w\<lparr>wd_tick := Suc (wd_tick w), wd_db := d\<rparr>))"
  by (simp add: commit_def wp_simps sync_port_def split: sum.splits)

lemma sync_port_simps [simp]:
  "sync_port (Inr x) = Inr x" "sync_port (Inl e) = Inl (SePort e)" "sync_port r = Inr x \<longleftrightarrow> r = Inr x"
  "sync_domain (Inr x) = Inr x" "sync_domain (Inl e') = Inl (SeDomain e')" "sync_domain q = Inr x \<longleftrightarrow> q = Inr x"
  by (simp_all add: sync_port_def sync_domain_def split: sum.splits)

section \<open>Observers\<close>

text \<open>A program that writes nothing and makes only calls that satisfy \<open>C\<close>.\<close>

definition observed :: "(remote_call \<Rightarrow> bool) \<Rightarrow> world \<Rightarrow> world \<Rightarrow> bool" where
  "observed C w w' \<longleftrightarrow> wd_db w' = wd_db w \<and> wd_cat w' = wd_cat w \<and>
     (\<exists>cs. wd_calls w' = wd_calls w @ cs \<and> list_all C cs)"

definition observes :: "(remote_call \<Rightarrow> bool) \<Rightarrow> ('e, 'a) em \<Rightarrow> ('a \<Rightarrow> bool) \<Rightarrow> bool" where
  "observes C m V \<longleftrightarrow> (\<forall>w. wp m (\<lambda>r w'. observed C w w' \<and> (\<forall>x. r = Inr x \<longrightarrow> V x)) w)"

named_theorems observes_intros

lemma observed_refl: "wd_db w' = wd_db w \<Longrightarrow> wd_cat w' = wd_cat w \<Longrightarrow> wd_calls w' = wd_calls w \<Longrightarrow> observed C w w'"
  by (simp add: observed_def)

lemma observed_trans: "observed C w v \<Longrightarrow> observed C v u \<Longrightarrow> observed C w u"
  by (auto simp: observed_def)

lemma wp_observes:
  assumes "observes C m V" "\<And>e v. observed C w v \<Longrightarrow> Q (Inl e) v" "\<And>x v. observed C w v \<Longrightarrow> V x \<Longrightarrow> Q (Inr x) v"
  shows "wp m Q w"
proof -
  have "wp m (\<lambda>r w'. observed C w w' \<and> (\<forall>x. r = Inr x \<longrightarrow> V x)) w" using assms(1) by (simp add: observes_def)
  then show ?thesis by (rule wp_conseq) (use assms(2,3) in \<open>metis obj_sumE\<close>)
qed

lemma observes_bnd:
  assumes "observes C m V" "\<And>x. V x \<Longrightarrow> observes C (f x) U"
  shows "observes C (bnd m f) U"
  unfolding observes_def
proof
  fix w
  show "wp (bnd m f) (\<lambda>r w'. observed C w w' \<and> (\<forall>x. r = Inr x \<longrightarrow> U x)) w"
    unfolding wp_bnd
  proof (rule wp_observes [OF assms(1)])
    fix x v assume v: "observed C w v" "V x"
    show "case Inr x of Inl e \<Rightarrow> observed C w v \<and> (\<forall>y. Inl e = Inr y \<longrightarrow> U y)
        | Inr x \<Rightarrow> wp (f x) (\<lambda>r w'. observed C w w' \<and> (\<forall>x. r = Inr x \<longrightarrow> U x)) v"
      unfolding sum.case
      by (rule wp_conseq [OF assms(2) [OF v(2), unfolded observes_def, rule_format]]) (use v(1) in \<open>auto intro: observed_trans\<close>)
  qed simp
qed

lemma observes_step [observes_intros]:
  "observes C m (\<lambda>_. True) \<Longrightarrow> (\<And>x. observes C (f x) U) \<Longrightarrow> observes C (bnd m f) U"
  by (rule observes_bnd)

lemma observes_prims [observes_intros]:
  "V x \<Longrightarrow> observes C (ret x) V" "observes C (throw e) V1" "observes C (reads f) (\<lambda>_. True)"
  "observes C (query g) (\<lambda>_. True)" "observes C (timestamp_now env) (\<lambda>_. True)"
  "observes C (tasks_get i) (\<lambda>_. True)" "C c \<Longrightarrow> observes C (call c a) (\<lambda>_. True)"
  "observes C (workspaces_get j) (\<lambda>_. True)"
  by (auto simp: observes_def wp_simps observed_def)

lemma observes_control [observes_intros]:
  "(b \<Longrightarrow> observes C m V) \<Longrightarrow> (\<not> b \<Longrightarrow> observes C n V) \<Longrightarrow> observes C (if b then m else n) V"
  "observes C m1 V1 \<Longrightarrow> (\<And>x. observes C (f1 x) V1) \<Longrightarrow> observes C (case o1 of None \<Rightarrow> m1 | Some x \<Rightarrow> f1 x) V1"
  "(\<And>x y. observes C (f3 x y) V3) \<Longrightarrow> observes C (case p3 of (x, y) \<Rightarrow> f3 x y) V3"
  "observes C m4 V4 \<Longrightarrow> (\<And>x xs. observes C (f4 x xs) V4) \<Longrightarrow> observes C (case l4 of [] \<Rightarrow> m4 | x # xs \<Rightarrow> f4 x xs) V4"
  by (simp_all split: option.split prod.split list.split)

lemma observes_weaken: "observes C m V \<Longrightarrow> (\<And>x. V x \<Longrightarrow> U x) \<Longrightarrow> observes C m U"
  unfolding observes_def by (fast elim: wp_conseq)

section \<open>Stored tasks\<close>

lemma get_task_other_tables [simp]: "get_task i (insert_entries es d) = get_task i d"
  by (simp add: insert_entries_def get_task_outbox)

lemma save_with_outbox_stored:
  assumes "save_with_outbox cap t src es d = Inr d'" "makes_baseline t src"
  shows "\<exists>x. get_task (t_id t) d' = Inr x \<and> same_record t x \<and> patch_is_empty (diff_against_baseline x)"
proof -
  obtain d1 where "save_task cap t src d = Inr d1" "d' = insert_entries es d1"
    using assms(1) by (auto simp: save_with_outbox_def save_task_def split: sum.splits)
  with sqlite_tasks.aligned_save assms(2) show ?thesis by force
qed

section \<open>Promote\<close>

definition is_create :: "remote_call \<Rightarrow> bool" where
  "is_create c \<longleftrightarrow> (\<exists>cmd. c = CallCreateRemote cmd)"

text \<open>A promoted task: in step with its issue, with the content it was promoted with.\<close>

definition promoted :: "task \<Rightarrow> task \<Rightarrow> bool" where
  "promoted t x \<longleftrightarrow> t_sync x = Synced \<and> t_remote x \<noteq> None \<and> patch_is_empty (diff_against_baseline x) \<and>
     t_title x = t_title t \<and> t_body x = t_body t \<and> t_lifecycle x = t_lifecycle t \<and> t_assignees x = t_assignees t \<and>
     t_filing_repo_id x = t_filing_repo_id t"

lemma find_promoted_orphan_observes: "observes (\<lambda>c. \<not> is_create c) (find_promoted_orphan env t canonical origin) (\<lambda>_. True)"
  unfolding find_promoted_orphan_def Let_def by (intro observes_intros TrueI) (simp_all add: is_create_def)

lemma relation_backfill_observes: "observes C (relation_backfill rs c cache) (\<lambda>_. True)"
proof (induction rs arbitrary: cache)
  case (Cons r rs)
  show ?case unfolding relation_backfill.simps by (intro observes_intros Cons TrueI)
qed (unfold relation_backfill.simps, intro observes_intros TrueI)

definition same_filed :: "task \<Rightarrow> task \<Rightarrow> bool" where
  "same_filed t x \<longleftrightarrow> t_id x = t_id t \<and> t_sync x = t_sync t \<and> t_remote x = t_remote t \<and> t_title x = t_title t \<and>
     t_body x = t_body t \<and> t_lifecycle x = t_lifecycle t \<and> t_assignees x = t_assignees t \<and>
     t_filing_repo_id x = t_filing_repo_id t"

lemma first_filing_type_observes:
  "observes C (first_filing_type env ws canonical t) (\<lambda>(x, ms). same_filed t x)"
  unfolding first_filing_type_def Let_def
  by (intro observes_intros TrueI) (auto simp: same_filed_def set_issue_type_default_def touch_def split: option.split)

lemma promote_stamp_wp:
  fixes v :: world
  assumes "get_task (t_id t) (wd_db v) = Inr y" "t_sync t = Staged"
  shows "wp (bnd (timestamp_now env) (\<lambda>cap.
     bnd (sync_edit env (\<lambda>now. promote_to_remote now cap rr) t) (\<lambda>t.
     bnd (relation_backfill (t_relations t) coords []) (\<lambda>ms.
     bnd (first_filing_type env ws canonical t) (\<lambda>(t, type_ms).
     bnd (into_entries env (t_id t) (ms @ type_ms)) (\<lambda>entries.
     bnd (commit env (\<lambda>cap. save_with_outbox cap t SrcPromote entries)) (\<lambda>_. ret (g t))))))))
     (\<lambda>r w'. wd_calls w' = wd_calls v \<and>
        (case r of Inl _ \<Rightarrow> get_task (t_id t) (wd_db w') = Inr y
         | Inr _ \<Rightarrow> \<exists>x. get_task (t_id t) (wd_db w') = Inr x \<and> promoted t x \<and> t_remote x = Some rr)) v"
    (is "wp _ ?Q v")
proof -
  define cap where "cap = env_now env (wd_tick v)"
  define now where "now = env_now env (Suc (wd_tick v))"
  obtain t1 where t1: "promote_to_remote now cap rr t = Inr t1" "t_id t1 = t_id t" "t_sync t1 = Synced" "t_remote t1 = Some rr"
    "t_title t1 = t_title t" "t_body t1 = t_body t" "t_lifecycle t1 = t_lifecycle t" "t_assignees t1 = t_assignees t"
    "t_filing_repo_id t1 = t_filing_repo_id t"
    using assms(2) by (auto simp: promote_to_remote_def Let_def touch_def)
  have obs: "observed (\<lambda>_. False) (v\<lparr>wd_tick := k\<rparr>) u \<Longrightarrow> wd_db u = wd_db v \<and> wd_calls u = wd_calls v" for u :: world and k
    by (auto simp: observed_def list_all_iff)
  have fin: "wp (bnd (into_entries env (t_id x) ms) (\<lambda>entries.
      bnd (commit env (\<lambda>cap. save_with_outbox cap x SrcPromote entries)) (\<lambda>_. ret (g x)))) ?Q u"
    if "same_filed t1 x" "wd_db u = wd_db v" "wd_calls u = wd_calls v" for x ms u
  proof -
    have ok: "\<exists>z. get_task (t_id t) d' = Inr z \<and> promoted t z \<and> t_remote z = Some rr"
      if "save_with_outbox c x SrcPromote es (wd_db v) = Inr d'" for c es d'
      using save_with_outbox_stored [OF that] \<open>same_filed t1 x\<close> t1
      by (fastforce simp: makes_baseline_def source_is_baseline_def same_filed_def promoted_def same_record_def)
    from that(2,3) assms(1) show ?thesis by (simp add: wp_simps split: sum.split) (use ok in blast)
  qed
  have backfill: "wp (bnd (relation_backfill (t_relations t1) coords []) (\<lambda>ms.
     bnd (first_filing_type env ws canonical t1) (\<lambda>(t, type_ms).
     bnd (into_entries env (t_id t) (ms @ type_ms)) (\<lambda>entries.
     bnd (commit env (\<lambda>cap. save_with_outbox cap t SrcPromote entries)) (\<lambda>_. ret (g t)))))) ?Q (v\<lparr>wd_tick := k\<rparr>)" for k
    unfolding wp_bnd [of "relation_backfill _ _ _"]
  proof (rule wp_observes [OF relation_backfill_observes [where C = "\<lambda>_. False"]])
    fix ms u assume u: "observed (\<lambda>_. False) (v\<lparr>wd_tick := k\<rparr>) u"
    show "case Inr ms of Inl e \<Rightarrow> ?Q (Inl e) u | Inr ms \<Rightarrow>
        wp (bnd (first_filing_type env ws canonical t1) (\<lambda>(t, type_ms).
          bnd (into_entries env (t_id t) (ms @ type_ms)) (\<lambda>entries.
          bnd (commit env (\<lambda>cap. save_with_outbox cap t SrcPromote entries)) (\<lambda>_. ret (g t))))) ?Q u"
      unfolding sum.case wp_bnd [of "first_filing_type _ _ _ _"]
      by (rule wp_observes [OF first_filing_type_observes [where C = "\<lambda>_. False"]])
        (use obs [OF u] assms(1) in \<open>auto simp: observed_def list_all_iff intro: fin\<close>)
  qed (use obs assms(1) in auto)
  show ?thesis
    unfolding wp_bnd [of "timestamp_now env"] wp_bnd [of "sync_edit _ _ _"] wp_timestamp_now wp_ports sum.case
    using backfill by (simp add: t1(1) [unfolded now_def cap_def])
qed

lemma promote_file_wp:
  fixes v :: world
  assumes "get_task (t_id t) (wd_db v) = Inr y" "t_sync t = Staged"
  shows "wp (promote_file env prev ws filing canonical t) (\<lambda>r w'. \<exists>cs. wd_calls w' = wd_calls v @ cs \<and>
     length (filter is_create cs) \<le> 1 \<and>
     (case r of Inl _ \<Rightarrow> get_task (t_id t) (wd_db w') = Inr y
      | Inr _ \<Rightarrow> \<exists>x. get_task (t_id t) (wd_db w') = Inr x \<and> promoted t x)) v" (is "wp _ ?Q v")
proof -
  define Q where "Q = ?Q"
  have fail: "Q (Inl e) u" if "wd_db u = wd_db v" "wd_calls u = wd_calls v @ cs" "length (filter is_create cs) \<le> 1" for u e cs
    using that assms(1) by (auto simp: Q_def)
  have rest: "wp (bnd (timestamp_now env) (\<lambda>cap.
     bnd (sync_edit env (\<lambda>now. promote_to_remote now cap rr) t) (\<lambda>t.
     bnd (relation_backfill (t_relations t) coords []) (\<lambda>ms.
     bnd (first_filing_type env ws canonical t) (\<lambda>(t, type_ms).
     bnd (into_entries env (t_id t) (ms @ type_ms)) (\<lambda>entries.
     bnd (commit env (\<lambda>cap. save_with_outbox cap t SrcPromote entries)) (\<lambda>_. ret (g t)))))))) Q u"
    if "wd_db u = wd_db v" "wd_calls u = wd_calls v @ cs" "length (filter is_create cs) \<le> 1" for u rr coords g cs
    by (rule wp_conseq [OF promote_stamp_wp]) (use that assms in \<open>auto simp: Q_def split: sum.splits\<close>)
  have orphan: "observes (\<lambda>c. \<not> is_create c)
      (if prev = Staged then find_promoted_orphan env t canonical filing else ret None) (\<lambda>_. True)"
    using find_promoted_orphan_observes by (intro observes_intros TrueI) simp
  have "wp (promote_file env prev ws filing canonical t) Q v"
    unfolding promote_file_def wp_bnd [of "if _ then find_promoted_orphan _ _ _ _ else _"]
  proof (rule wp_observes [OF orphan], goal_cases)
    case (1 e u)
    then obtain cs where "wd_db u = wd_db v" "wd_calls u = wd_calls v @ cs" "filter is_create cs = []"
      by (auto simp: observed_def list_all_iff filter_empty_conv)
    then show ?case by (auto intro: fail)
  next
    case (2 adopted u)
    then obtain cs where u: "wd_db u = wd_db v" "wd_calls u = wd_calls v @ cs" "filter is_create cs = []"
      by (auto simp: observed_def list_all_iff filter_empty_conv)
    have c: "wd_db (called c u) = wd_db v" "wd_calls (called c u) = wd_calls v @ (cs @ [c])"
      "length (filter is_create (cs @ [c])) \<le> 1" for c using u by simp_all
    show ?case
    proof (cases adopted)
      case None
      show ?thesis
        unfolding None sum.case option.case Let_def wp_bnd [of "call _ _"] wp_ports sync_port_def
        by (simp split: sum.split del: prim_simps) (intro conjI allI impI; rule fail [OF c] rest [OF c])
    next
      case (Some s)
      have "length (filter is_create cs) \<le> 1" using u(3) by simp
      from rest [OF u(1,2) this] show ?thesis unfolding Some sum.case option.case by (simp del: prim_simps)
    qed
  qed
  then show ?thesis by (simp only: Q_def)
qed

lemma sync_filing_canonical_None:
  "sync_filing_canonical c t = Inr u \<Longrightarrow> get_workspace (t_workspace_id t) c = Inr ws \<Longrightarrow>
   logical_origin_for c t = Inr logical \<Longrightarrow>
   resolve_filing_repo (t_filing_repo_id t) (w_filing_repo_id ws) logical \<noteq> None"
  by (auto simp: sync_filing_canonical_def filing_canonical_for_def and_then_Inr found_def logical_origin_for_def
      origin_canonical_def split: option.splits)

lemma set_filing_repo_id_fields:
  "set_filing_repo_id now f t = Inr t' \<Longrightarrow> t_filing_repo_id t' = f \<and> t_id t' = t_id t \<and> t_sync t' = t_sync t \<and>
     t_title t' = t_title t \<and> t_body t' = t_body t \<and> t_lifecycle t' = t_lifecycle t \<and> t_assignees t' = t_assignees t \<and>
     t_workspace_id t' = t_workspace_id t \<and> t_repo_id t' = t_repo_id t \<and> (t_filing_repo_id t = f \<longrightarrow> t' = t)"
  by (auto simp: set_filing_repo_id_def touch_def split: if_splits)

text \<open>C4 A promote files at most one issue, and never without a durable record: when it called the
  remote to create one, the stored task is at least \<open>Staged\<close>, under the filing repository it was filed
  in, however the command ended.  A promote that succeeds leaves the task \<open>Synced\<close> with a remote,
  nothing to push and its content and filing repository unchanged.\<close>

theorem promote_files_once:
  assumes "sy_promote env s w = (r, w')" "env_parse_uuid env s = Some i" "get_task i (wd_db w) = Inr t0"
  shows "\<exists>calls. wd_calls w' = wd_calls w @ calls \<and> length (filter is_create calls) \<le> 1 \<and>
    (list_ex is_create calls \<longrightarrow> t_lifecycle t0 \<noteq> NotPlanned \<and> t_sync t0 \<in> {LocalOnly, Staged} \<and>
       (\<exists>x. get_task i (wd_db w') = Inr x \<and> t_sync x \<in> {Staged, Synced} \<and> t_filing_repo_id x \<noteq> None)) \<and>
    (\<forall>sum. r = Inr sum \<longrightarrow> (\<exists>x. get_task i (wd_db w') = Inr x \<and> t_sync x = Synced \<and> t_remote x \<noteq> None \<and>
       patch_is_empty (diff_against_baseline x) \<and> t_title x = t_title t0 \<and> t_body x = t_body t0 \<and>
       t_lifecycle x = t_lifecycle t0 \<and> t_assignees x = t_assignees t0))"
proof -
  define Q where "Q = (\<lambda>(r :: sync_error + sync_summary) (w' :: world). \<exists>calls. wd_calls w' = wd_calls w @ calls \<and> length (filter is_create calls) \<le> 1 \<and>
    (list_ex is_create calls \<longrightarrow> t_lifecycle t0 \<noteq> NotPlanned \<and> t_sync t0 \<in> {LocalOnly, Staged} \<and>
       (\<exists>x. get_task i (wd_db w') = Inr x \<and> t_sync x \<in> {Staged, Synced} \<and> t_filing_repo_id x \<noteq> None)) \<and>
    (\<forall>sum. r = Inr sum \<longrightarrow> (\<exists>x. get_task i (wd_db w') = Inr x \<and> t_sync x = Synced \<and> t_remote x \<noteq> None \<and>
       patch_is_empty (diff_against_baseline x) \<and> t_title x = t_title t0 \<and> t_body x = t_body t0 \<and>
       t_lifecycle x = t_lifecycle t0 \<and> t_assignees x = t_assignees t0)))"
  have i: "t_id t0 = i" using get_task_id [OF assms(3)] .
  have fail: "Q (Inl e) v" if "wd_calls v = wd_calls w" for e v using that by (auto simp: Q_def)
  have filed: "wp (promote_file env prev ws filing canonical t2) Q v"
    if t2: "t_id t2 = i" "t_sync t2 = Staged" "t_title t2 = t_title t0" "t_body t2 = t_body t0" "t_lifecycle t2 = t_lifecycle t0"
      "t_assignees t2 = t_assignees t0" "t_filing_repo_id t2 \<noteq> None"
      and y: "get_task i (wd_db v) = Inr y" "t_sync y = Staged" "t_filing_repo_id y \<noteq> None"
      and v: "wd_calls v = wd_calls w" and ok: "t_lifecycle t0 \<noteq> NotPlanned" "t_sync t0 \<in> {LocalOnly, Staged}"
    for prev ws filing canonical t2 v y
    by (rule wp_conseq [OF promote_file_wp [of t2 v y]])
      (use t2 y v ok in \<open>auto simp: Q_def promoted_def split: sum.splits\<close>)
  define rest where "rest prev t1 = bnd (workspaces_get (t_workspace_id t1)) (\<lambda>ws.
         bnd (query (\<lambda>w. logical_origin_for (wd_cat w) t1)) (\<lambda>logical.
         bnd (sync_edit env (\<lambda>now. set_filing_repo_id now (resolve_filing_repo (t_filing_repo_id t1) (w_filing_repo_id ws) logical)) t1) (\<lambda>t2.
         bnd (query (\<lambda>w. sync_filing_canonical (wd_cat w) t2)) (\<lambda>canonical.
         bnd (if prev \<noteq> Staged \<or> resolve_filing_repo (t_filing_repo_id t1) (w_filing_repo_id ws) logical \<noteq> t_filing_repo_id t1
              then commit env (\<lambda>cap. save_task cap t2 SrcLocalEdit) else ret ()) (\<lambda>_.
           promote_file env (prev) ws (resolve_filing_repo (t_filing_repo_id t1) (w_filing_repo_id ws) logical) canonical t2)))))" for prev t1
  have tail: "wp (rest (t_sync t0) t1) Q (w\<lparr>wd_tick := k\<rparr>)"
    if t1: "t_id t1 = i" "t_sync t1 = Staged" "t_title t1 = t_title t0" "t_body t1 = t_body t0" "t_lifecycle t1 = t_lifecycle t0"
        "t_assignees t1 = t_assignees t0" "t_sync t0 = Staged \<longrightarrow> t1 = t0"
      and ok: "t_lifecycle t0 \<noteq> NotPlanned" "t_sync t0 \<in> {LocalOnly, Staged}" for t1 k
  proof -
    let ?f = "\<lambda>ws logical. resolve_filing_repo (t_filing_repo_id t1) (w_filing_repo_id ws) logical"
    have t2: "t_id t2 = i \<and> t_sync t2 = Staged \<and> t_title t2 = t_title t0 \<and> t_body t2 = t_body t0 \<and>
        t_lifecycle t2 = t_lifecycle t0 \<and> t_assignees t2 = t_assignees t0 \<and> t_filing_repo_id t2 = ?f ws logical \<and>
        ?f ws logical \<noteq> None \<and> (t_filing_repo_id t1 = ?f ws logical \<longrightarrow> t2 = t1)"
      if "set_filing_repo_id now (?f ws logical) t1 = Inr t2" "sync_filing_canonical (wd_cat w) t2 = Inr canonical"
        "get_workspace (t_workspace_id t1) (wd_cat w) = Inr ws" "logical_origin_for (wd_cat w) t1 = Inr logical"
      for now ws logical t2 canonical
    proof -
      note f = set_filing_repo_id_fields [OF that(1)]
      have "resolve_filing_repo (?f ws logical) (w_filing_repo_id ws) logical \<noteq> None"
        using sync_filing_canonical_None [OF that(2), of ws logical] f that(3,4) by (simp add: logical_origin_for_def)
      then have "?f ws logical \<noteq> None" by (auto simp: resolve_filing_repo_def or_else_def split: option.splits)
      with f t1 show ?thesis by simp
    qed
    have saved: "wp (promote_file env (t_sync t0) ws (?f ws logical) canonical t2) Q (w\<lparr>wd_tick := m, wd_db := d\<rparr>)"
      if "save_task cap t2 SrcLocalEdit (wd_db w) = Inr d" "sync_filing_canonical (wd_cat w) t2 = Inr canonical"
        "set_filing_repo_id now (?f ws logical) t1 = Inr t2" "logical_origin_for (wd_cat w) t1 = Inr logical"
        "get_workspace (t_workspace_id t1) (wd_cat w) = Inr ws" for cap now ws logical t2 canonical d m
    proof -
      note t2 = t2 [OF that(3,2,5,4)]
      from get_save_task [OF that(1)] obtain y where "get_task i d = Inr y" "same_record t2 y" using t2 by auto
      with t2 ok show ?thesis by (intro filed) (auto simp: same_record_def)
    qed
    have kept: "wp (promote_file env Staged ws (t_filing_repo_id t1) canonical t2) Q (w\<lparr>wd_tick := m\<rparr>)"
      if "sync_filing_canonical (wd_cat w) t2 = Inr canonical"
        "set_filing_repo_id now (t_filing_repo_id t1) t1 = Inr t2" "logical_origin_for (wd_cat w) t1 = Inr logical"
        "get_workspace (t_workspace_id t1) (wd_cat w) = Inr ws" "t_sync t0 = Staged" "?f ws logical = t_filing_repo_id t1"
      for now ws logical t2 canonical m
    proof -
      note t2 = t2 [of now ws logical t2 canonical, unfolded that(6), OF that(2,1,4,3)]
      with ok t1 that(5) assms(3) show ?thesis by (intro filed [where y = t0]) auto
    qed
    show ?thesis
      unfolding rest_def
      using ok(2) by (simp add: wp_simps fail split: sum.split del: prim_simps) (auto intro: fail saved kept)
  qed
  have staged: "wp (rest LocalOnly (t0\<lparr>t_sync := Staged, t_updated_at := k'\<rparr>)) Q (w\<lparr>wd_tick := k\<rparr>)"
    if "t_sync t0 = LocalOnly" "t_lifecycle t0 \<noteq> NotPlanned" for k k'
    unfolding that(1) [symmetric] by (rule tail) (simp_all add: that i)
  have resumed: "wp (rest Staged t0) Q w" if "t_sync t0 = Staged" "t_lifecycle t0 \<noteq> NotPlanned"
    using tail [of t0 "wd_tick w"] by (simp add: that i)
  have "wp (sy_promote env s) Q w"
    unfolding sy_promote_def Let_def rest_def [symmetric]
    by (cases "t_lifecycle t0 = NotPlanned"; cases "t_sync t0")
      (simp_all add: wp_simps assms(2,3) ensure_not_archived_def stage_for_sync_def touch_def fail staged resumed del: prim_simps)
  with assms(1) show ?thesis by (simp add: wp_def Q_def)
qed

text \<open>Sample worlds: one stored task in a workspace with one attached repository.\<close>

definition sync_catalog :: catalog where
  "sync_catalog = \<lparr>cat_workspaces = [sample_workspace None], cat_projects = [], cat_issue_types = [],
     cat_instances = [\<lparr>ri_id = 4, ri_workspace_id = t_workspace_id sample_mirror, ri_origin_id = 9, ri_tracked_branch = None,
       ri_canonical_url = lit ''github.com/o/r'', ri_worktrees = [], ri_created_at = 0, ri_updated_at = 0\<rparr>],
     cat_origins = [\<lparr>ro_id = 9, ro_canonical_url = lit ''github.com/o/r'', ro_remote_url = [], ro_name = lit ''r'',
       ro_aliases = [], ro_prefix = lit ''rl'', ro_created_at = 0, ro_updated_at = 0\<rparr>]\<rparr>"

definition sync_world :: "task \<Rightarrow> world" where
  "sync_world t = (queue_world [])\<lparr>wd_db := (case save_task 5 t SrcPull empty_db of Inl _ \<Rightarrow> empty_db | Inr d \<Rightarrow> d),
     wd_cat := sync_catalog\<rparr>"

definition remote_snapshot :: "task \<Rightarrow> remote_task_snapshot" where
  "remote_snapshot t = \<lparr>rs_remote_id = lit ''7'', rs_node_id = Some (lit ''I_7''), rs_title = t_title t, rs_body = t_body t,
     rs_closed = False, rs_updated_at = 0, rs_assignees = [], rs_labels = []\<rparr>"

definition sync_env :: env where
  "sync_env = idle_env\<lparr>env_parse_uuid := \<lambda>_. Some (t_id sample_mirror),
     create_remote := \<lambda>_ _. Inr (remote_snapshot sample_mirror), fetch_remote := \<lambda>_ _ _. Inr (remote_snapshot sample_mirror),
     list_changed_since := \<lambda>_ _ _. Inr [remote_snapshot sample_mirror], fetch_comments := \<lambda>_ _ _. Inr [],
     fetch_sub_issues := \<lambda>_ _ _. Inr [], fetch_blocked_by := \<lambda>_ _ _. Inr [], fetch_parent := \<lambda>_ _ _. Inr [],
     update_remote := \<lambda>_ _. Inr (remote_snapshot sample_mirror), discover_move_target := \<lambda>_ _ _. Inr None,
     transfer_issue := \<lambda>_ _ _. Inr (lit ''I_8'', 8)\<rparr>"

lemma sync_world_task:
  assumes "t_relations t = []" "t_id t = t_id sample_mirror"
  shows "\<exists>x. get_task (t_id sample_mirror) (wd_db (sync_world t)) = Inr x \<and> same_record t x"
proof -
  obtain d where d: "save_task 5 t SrcPull empty_db = Inr d"
    using save_solo [of t empty_db 5 SrcPull] assms by (auto simp: solo_empty_db)
  with get_save_task [OF d] assms show ?thesis by (auto simp: sync_world_def)
qed

lemma sync_env_simps: "env_parse_uuid sync_env s = Some (t_id sample_mirror)"
  "list_changed_since sync_env k c since = Inr [remote_snapshot sample_mirror]"
  "fetch_remote sync_env k c r = Inr (remote_snapshot sample_mirror)"
  by (simp_all add: sync_env_def)

theorem promote_files_once_witness:
  "\<exists>r w' calls. sy_promote sync_env [] (sync_world (sample_mirror\<lparr>t_sync := LocalOnly, t_remote := None, t_repo_id := Some 4\<rparr>)) = (r, w') \<and>
     wd_calls w' = calls \<and> length (filter is_create calls) \<le> 1"
proof -
  let ?w = "sync_world (sample_mirror\<lparr>t_sync := LocalOnly, t_remote := None, t_repo_id := Some 4\<rparr>)"
  obtain x where "get_task (t_id sample_mirror) (wd_db ?w) = Inr x"
    using sync_world_task [of "sample_mirror\<lparr>t_sync := LocalOnly, t_remote := None, t_repo_id := Some 4\<rparr>"]
    by (auto simp: sample_simps)
  moreover obtain r w' where "sy_promote sync_env [] ?w = (r, w')" by force
  ultimately show ?thesis
    using promote_files_once [of sync_env "[]" ?w r w'] sync_env_simps(1) by (fastforce simp: sync_world_def queue_world_def)
qed

text \<open>The remote issues a crashed promote may have left: same title and body, mirrored by no local task.\<close>

definition orphans :: "rstring \<Rightarrow> repo_origin_id \<Rightarrow> task \<Rightarrow> remote_task_snapshot list \<Rightarrow> db \<Rightarrow> remote_task_snapshot list" where
  "orphans canonical filing t snaps d =
     filter (\<lambda>s. rs_title s = t_title t \<and> rs_body s = t_body t \<and>
       (\<forall>row \<in> set (db_tasks d). \<not> (t_filing_repo_id row = Some filing \<and>
          map_option (\<lambda>r. (rr_provider r, rr_remote_id r)) (t_remote row) = Some (provider_label canonical, rs_remote_id s)))) snaps"

lemma tracked_remote_ids_iff:
  "x \<in> set (tracked_remote_ids f p ids d) \<longleftrightarrow> x \<in> set ids \<and>
     (\<exists>row \<in> set (db_tasks d). t_filing_repo_id row = Some f \<and> map_option (\<lambda>r. (rr_provider r, rr_remote_id r)) (t_remote row) = Some (p, x))"
  by (force simp: tracked_remote_ids_def List.map_filter_def split: option.splits if_splits)

lemma find_promoted_orphan_one:
  assumes "\<And>k since. list_changed_since env k canonical since = Inr snaps"
    "orphans canonical filing t snaps (wd_db v) = [snap]"
  shows "wp (find_promoted_orphan env t canonical (Some filing)) (\<lambda>r w'. r = Inr (Some snap) \<and> observed (\<lambda>c. \<not> is_create c) v w') v"
proof -
  let ?m = "filter (\<lambda>s. rs_title s = t_title t \<and> rs_body s = t_body t) snaps"
  have un: "filter (\<lambda>s. rs_remote_id s \<notin> set (tracked_remote_ids filing (provider_label canonical) (map rs_remote_id ?m) (wd_db v))) ?m = [snap]"
    unfolding assms(2) [symmetric] orphans_def
    by (auto simp: tracked_remote_ids_iff intro!: filter_cong)
  then have "?m \<noteq> []" by (metis filter.simps(1) list.distinct(1))
  then show ?thesis
    unfolding find_promoted_orphan_def
    by (simp add: wp_simps Let_def assms(1) un [unfolded Let_def] observed_def is_create_def del: filter_filter)
qed

text \<open>C19 A retried promote does not duplicate the issue: a task left \<open>Staged\<close> by a promote that crashed
  after the remote had created its issue adopts that issue when it is the only untracked one with its
  title and body. No issue is created, and a retry that succeeds mirrors exactly that issue.\<close>

theorem promote_retry_adopts:
  assumes "sy_promote env s w = (r, w')" "env_parse_uuid env s = Some i" "get_task i (wd_db w) = Inr t0"
    "t_sync t0 = Staged" "t_filing_repo_id t0 = Some filing" "sync_filing_canonical (wd_cat w) t0 = Inr canonical"
    "\<And>k since. list_changed_since env k canonical since = Inr snaps"
    "orphans canonical filing t0 snaps (wd_db w) = [snap]"
  shows "\<exists>calls. wd_calls w' = wd_calls w @ calls \<and> \<not> list_ex is_create calls \<and>
    (\<forall>sum. r = Inr sum \<longrightarrow> (\<exists>x rr. get_task i (wd_db w') = Inr x \<and> t_sync x = Synced \<and>
       t_remote x = Some rr \<and> rr_remote_id rr = rs_remote_id snap \<and> rr_node_id rr = rs_node_id snap))"
proof -
  define Q where "Q = (\<lambda>(r :: sync_error + sync_summary) (w' :: world). \<exists>calls. wd_calls w' = wd_calls w @ calls \<and> \<not> list_ex is_create calls \<and>
    (\<forall>sum. r = Inr sum \<longrightarrow> (\<exists>x rr. get_task i (wd_db w') = Inr x \<and> t_sync x = Synced \<and>
       t_remote x = Some rr \<and> rr_remote_id rr = rs_remote_id snap \<and> rr_node_id rr = rs_node_id snap)))"
  have i: "t_id t0 = i" using get_task_id [OF assms(3)] .
  have fail: "Q (Inl e) v" if "wd_calls v = wd_calls w" for e v using that by (auto simp: Q_def)
  have filed: "wp (promote_file env Staged ws (Some filing) canonical t0) Q (w\<lparr>wd_tick := k\<rparr>)" for ws k
    unfolding promote_file_def if_P [OF refl] wp_bnd [of "find_promoted_orphan _ _ _ _"]
  proof (rule wp_conseq [OF find_promoted_orphan_one [of env canonical snaps filing t0 _ snap]], goal_cases)
    case (3 r' v)
    then obtain cs where v: "wd_db v = wd_db w" "wd_calls v = wd_calls w @ cs" "\<not> list_ex is_create cs"
      by (auto simp: observed_def list_all_iff list_ex_iff)
    have y: "get_task (t_id t0) (wd_db v) = Inr t0" using assms(3) v(1) i by simp
    let ?rr = "(remote_ref_new (provider_label canonical) (rs_remote_id snap))\<lparr>rr_node_id := rs_node_id snap\<rparr>"
    have "Q r w'" if "wd_calls w' = wd_calls v \<and> (case r of Inl _ \<Rightarrow> get_task (t_id t0) (wd_db w') = Inr t0
         | Inr _ \<Rightarrow> \<exists>x. get_task (t_id t0) (wd_db w') = Inr x \<and> promoted t0 x \<and> t_remote x = Some ?rr)" for r w'
      using that v(2,3) i unfolding Q_def by (auto simp: promoted_def remote_ref_new_def split: sum.splits)
    note adopted = wp_conseq [OF promote_stamp_wp [OF y assms(4), where rr = ?rr], of Q, OF this]
    have r': "r' = Inr (Some snap)" using 3 by simp
    show ?case unfolding r' sum.case option.case wp_bnd [of "ret _"] wp_prims by (rule adopted)
  qed (use assms(7,8) in simp_all)
  have "wp (sy_promote env s) Q w"
    unfolding sy_promote_def Let_def
    using filed by (simp add: wp_simps assms(2-6) ensure_not_archived_def resolve_filing_repo_def or_else_def
        set_filing_repo_id_def fail split: sum.split del: prim_simps)
  with assms(1) show ?thesis by (simp add: wp_def Q_def)
qed

lemma sync_world_rows:
  "t_relations t = [] \<Longrightarrow> db_tasks (wd_db (sync_world t)) = [bare_row t]"
  by (auto simp: sync_world_def save_task_def write_task_in_tx_def empty_db_def upsert_tasks_def upsert_mapping_def Let_def
      split: option.splits)

lemma sync_world_canonical:
  "same_record t x \<Longrightarrow> t_workspace_id t = t_workspace_id sample_mirror \<Longrightarrow> t_filing_repo_id t = Some 9 \<Longrightarrow>
   t_repo_id t \<in> {None, Some 4} \<Longrightarrow> sync_filing_canonical (wd_cat (sync_world u)) x = Inr (lit ''github.com/o/r'')"
  by (auto simp: sync_world_def sync_catalog_def sync_filing_canonical_def get_origin_def get_binding_def workspace_new_def filing_canonical_for_def get_workspace_def found_def
      sample_workspace_def same_record_def resolve_filing_repo_def or_else_def origin_canonical_def instance_origin_tolerant_def and_then_def)

theorem promote_retry_adopts_witness:
  "\<exists>r w' calls. sy_promote sync_env [] (sync_world (sample_mirror\<lparr>t_sync := Staged, t_remote := None, t_repo_id := Some 4, t_filing_repo_id := Some 9\<rparr>)) = (r, w') \<and>
     wd_calls w' = calls \<and> \<not> list_ex is_create calls"
proof -
  let ?t = "sample_mirror\<lparr>t_sync := Staged, t_remote := None, t_repo_id := Some 4, t_filing_repo_id := Some 9\<rparr>" and ?c = "lit ''github.com/o/r''"
  obtain x where x: "get_task (t_id sample_mirror) (wd_db (sync_world ?t)) = Inr x" "same_record ?t x"
    using sync_world_task [of ?t] by (auto simp: sample_simps)
  have snap: "orphans ?c 9 x [remote_snapshot sample_mirror] (wd_db (sync_world ?t)) = [remote_snapshot sample_mirror]"
    using x(2) by (simp add: orphans_def sync_world_rows sample_simps same_record_def remote_snapshot_def bare_row_def)
  obtain r w' where run: "sy_promote sync_env [] (sync_world ?t) = (r, w')" by force
  have c: "sync_filing_canonical (wd_cat (sync_world ?t)) x = Inr ?c" by (rule sync_world_canonical [OF x(2)]) simp_all
  have "t_sync x = Staged" "t_filing_repo_id x = Some 9" using x(2) by (simp_all add: same_record_def)
  from promote_retry_adopts [OF run sync_env_simps(1) x(1) this c sync_env_simps(2) snap] run show ?thesis
    by (auto simp: sync_world_def queue_world_def)
qed

end
