(* ===== verification/PollEffects.thy ===== *)
theory PollEffects
  imports SyncEffects
begin

text \<open>
  What a board poll does: it writes hints about the remote and nothing else, and its watermark
  decides what the next pass looks at.
\<close>

section \<open>Hints\<close>

text \<open>The columns a poll may write, blanked; what it may do to one row.\<close>

definition unhinted :: "task \<Rightarrow> task" where
  "unhinted t = t\<lparr>t_project_status_option_id := None, t_priority := P0, t_synced_at := None, t_sync := Synced\<rparr>"

definition hint :: "outbox_entry list \<Rightarrow> task \<Rightarrow> task \<Rightarrow> bool" where
  "hint q t t' \<longleftrightarrow> unhinted t' = unhinted t \<and> (t_sync t' = t_sync t \<or> t_sync t = Synced \<and> t_sync t' = DirtyRemote) \<and>
     (t_priority t' = t_priority t \<or>
      \<not> list_ex (\<lambda>e. case e_mutation e of SetProjectPriority _ _ _ _ \<Rightarrow> True | _ \<Rightarrow> False) (list_pending (t_id t) q))"

definition is_poll :: "remote_call \<Rightarrow> bool" where
  "is_poll c \<longleftrightarrow> (\<exists>p f q. c = CallPollItems p f q)"

definition polled :: "world \<Rightarrow> world \<Rightarrow> bool" where
  "polled w w' \<longleftrightarrow> (wd_db w')\<lparr>db_tasks := []\<rparr> = (wd_db w)\<lparr>db_tasks := []\<rparr> \<and> wd_cat w' = wd_cat w \<and>
     list_all2 (hint (db_outbox (wd_db w))) (db_tasks (wd_db w)) (db_tasks (wd_db w')) \<and>
     (\<exists>cs. wd_calls w' = wd_calls w @ cs \<and> list_all is_poll cs)"

lemma unhinted_id: "unhinted t' = unhinted t \<Longrightarrow> t_id t' = t_id t"
  by (drule arg_cong [where f = t_id]) (simp add: unhinted_def)

lemma hint_refl: "hint q t t"
  by (simp add: hint_def)

lemma hint_id: "hint q t t' \<Longrightarrow> t_id t' = t_id t"
  by (rule unhinted_id) (simp add: hint_def)

lemma hint_trans: "hint q t u \<Longrightarrow> hint q u v \<Longrightarrow> hint q t v"
  by (frule hint_id) (auto simp: hint_def)

lemma outbox_other_tables: "d'\<lparr>db_tasks := []\<rparr> = d\<lparr>db_tasks := []\<rparr> \<Longrightarrow> db_outbox d' = db_outbox d"
  by (drule arg_cong [where f = db_outbox]) simp

interpretation polling: effect polled
proof
  fix w w' :: world assume "wd_db w' = wd_db w" "wd_cat w' = wd_cat w" "wd_calls w' = wd_calls w"
  then show "polled w w'" by (simp add: polled_def list.rel_refl hint_refl)
next
  fix u v w assume uv: "polled u v" and vw: "polled v w"
  then have q: "db_outbox (wd_db v) = db_outbox (wd_db u)" by (auto simp: polled_def intro: outbox_other_tables)
  have "list_all2 (hint (db_outbox (wd_db u))) (db_tasks (wd_db u)) (db_tasks (wd_db w))"
    using uv vw by (auto simp: polled_def q intro: list_all2_trans [OF hint_trans])
  then show "polled u w" using uv vw by (auto simp: polled_def)
qed

lemma polled_update_row:
  "(\<And>r. t_id r = i \<Longrightarrow> hint (db_outbox (wd_db w)) r (f r)) \<Longrightarrow> polled w (w\<lparr>wd_db := update_row i f (wd_db w)\<rparr>)"
  by (simp add: polled_def update_row_def update_where_def list_all2_map2 list.rel_refl_strong hint_refl)

lemma polled_columns:
  "polled w (w\<lparr>wd_db := cache_project_status i opt (wd_db w)\<rparr>)"
  "polled w (w\<lparr>wd_db := mark_remote_dirty i (wd_db w)\<rparr>)"
  "polled w (w\<lparr>wd_db := cache_synced_at i ts (wd_db w)\<rparr>)"
  "\<not> has_pending_priority_push i (wd_db w) \<Longrightarrow> polled w (w\<lparr>wd_db := apply_polled_priority i prio (wd_db w)\<rparr>)"
  unfolding cache_project_status_def mark_remote_dirty_def cache_synced_at_def apply_polled_priority_def
  by (rule polled_update_row; simp add: hint_def unhinted_def has_pending_priority_push_def)+

lemmas polling_intros = polling.bnd polling.control polling.prims polled_columns

lemma priority_polled: "within polled (reconcile_priority p item t)"
proof -
  have "within polled (bnd (reads (\<lambda>w. has_pending_priority_push (t_id t) (wd_db w))) (\<lambda>pending.
      if pending then ret t else bnd (modify_db (apply_polled_priority (t_id t) prio)) (\<lambda>_. ret (t\<lparr>t_priority := prio\<rparr>))))" for prio
    by (auto simp: within_def bnd_def polled_columns polling.same)
  then show ?thesis
    unfolding reconcile_priority_def by (auto split: option.split intro: polling.prims(1) simp del: prim_simps)
qed

lemma poll_polled: "within polled (poll_once env wm)"
proof -
  have item: "within polled (reconcile_item p item st)" for p item st
    unfolding reconcile_item_def check_content_def by (cases st) (simp, intro polling_intros priority_polled)
  have items: "within polled (reconcile_items p since items st)" for p since items st
    by (induction items arbitrary: st) (simp_all add: polling_intros item del: prim_simps)
  have project: "within polled (poll_project env p st)" for p st
    unfolding poll_project_def Let_def
    by (intro polling_intros items) (auto simp: polled_def called_def is_poll_def list.rel_refl hint_refl)
  have projects: "within polled (poll_projects env ps st)" for ps st
    by (induction ps arbitrary: st) (simp_all add: polling_intros project del: prim_simps)
  have stamp: "within polled (stamp_candidates env done_set ts n)" for done_set ts n
    by (induction ts arbitrary: n) (simp_all add: polling_intros del: prim_simps)
  show ?thesis unfolding poll_once_def by (intro polling_intros projects stamp)
qed

lemma find_list_all2:
  "list_all2 R xs ys \<Longrightarrow> (\<And>x y. R x y \<Longrightarrow> P y = P x) \<Longrightarrow> List.find P xs = Some x \<Longrightarrow> \<exists>y. List.find P ys = Some y \<and> R x y"
  by (induction rule: list_all2_induct) (auto split: if_splits)

lemma polled_task:
  assumes "polled w w'" "get_task i (wd_db w) = Inr t"
  shows "\<exists>t'. get_task i (wd_db w') = Inr t' \<and> hint (db_outbox (wd_db w)) t t'"
proof -
  let ?d = "wd_db w" and ?d' = "wd_db w'"
  obtain r where r: "find_row ?d i = Some r" "t = hydrate ?d r"
    using assms(2) by (auto simp: get_task_def split: option.splits)
  then obtain r' where r': "find_row ?d' i = Some r'" "hint (db_outbox ?d) r r'"
    using assms(1) find_list_all2 [of "hint (db_outbox ?d)" "db_tasks ?d" "db_tasks ?d'" "\<lambda>r. t_id r = i" r] hint_id
    by (auto simp: polled_def find_row_def)
  obtain ts where d': "?d' = ?d\<lparr>db_tasks := ts\<rparr>"
  proof
    have "?d'\<lparr>db_tasks := []\<rparr>\<lparr>db_tasks := db_tasks ?d'\<rparr> = ?d\<lparr>db_tasks := []\<rparr>\<lparr>db_tasks := db_tasks ?d'\<rparr>"
      using assms(1) by (simp only: polled_def)
    then show "?d' = ?d\<lparr>db_tasks := db_tasks ?d'\<rparr>" by simp
  qed
  have h: "hydrate ?d' x = hydrate ?d x" for x
    by (simp add: d' hydrate_def load_relations_def load_comments_def load_latest_baseline_def baseline_rows_def)
  have blank: "unhinted (hydrate ?d x) = unhinted (hydrate ?d (unhinted x))" for x
    by (simp add: unhinted_def hydrate_def row_to_task_def)
  have "unhinted r' = unhinted r" using r'(2) by (simp add: hint_def)
  then have "unhinted (hydrate ?d r') = unhinted (hydrate ?d r)" by (subst (1 2) blank) simp
  then have "hint (db_outbox ?d) (hydrate ?d r) (hydrate ?d r')"
    using r'(2) by (auto simp: hint_def hydrate_def row_to_task_def)
  then show ?thesis using r'(1) by (auto simp: get_task_def r(2) h)
qed

text \<open>C20 A board poll only leaves hints: whatever the boards answer and however the pass ends, a stored
  task keeps every column but the cached status, the priority and the freshness stamp, and its sync state
  moves only from \<open>Synced\<close> to \<open>DirtyRemote\<close>; a priority the task still owes the board is not
  overwritten; baseline, history, relations, comments and queue are untouched, and no call but board
  polls is made.\<close>

theorem poll_only_hints:
  assumes "poll_once env wm w = (r, w')" "get_task i (wd_db w) = Inr t"
  shows "\<exists>t' calls. get_task i (wd_db w') = Inr t' \<and> unhinted t' = unhinted t \<and>
    (t_sync t' = t_sync t \<or> t_sync t = Synced \<and> t_sync t' = DirtyRemote) \<and>
    (has_pending_priority_push i (wd_db w) \<longrightarrow> t_priority t' = t_priority t) \<and>
    (wd_db w')\<lparr>db_tasks := []\<rparr> = (wd_db w)\<lparr>db_tasks := []\<rparr> \<and>
    wd_calls w' = wd_calls w @ calls \<and> list_all is_poll calls"
proof -
  have "polled w w'" using poll_polled [of env wm] assms(1) by (simp add: within_def) (metis snd_conv)
  moreover obtain t' where "get_task i (wd_db w') = Inr t'" "hint (db_outbox (wd_db w)) t t'"
    using polled_task [OF \<open>polled w w'\<close> assms(2)] by blast
  ultimately show ?thesis
    using get_task_id [OF assms(2)] by (auto simp: polled_def hint_def has_pending_priority_push_def)
qed

theorem poll_only_hints_witness:
  "\<exists>t. get_task (t_id sample_mirror) (wd_db (snd (poll_once idle_env [] (sync_world sample_mirror)))) = Inr t \<and>
     t_title t = t_title sample_mirror"
proof -
  obtain x where x: "get_task (t_id sample_mirror) (wd_db (sync_world sample_mirror)) = Inr x" "t_title x = t_title sample_mirror"
    using sync_world_task [of sample_mirror] by (auto simp: sample_simps same_record_def)
  have title: "t_title t' = t_title t" if "unhinted t' = unhinted t" for t t'
    using arg_cong [OF that, of t_title] by (simp add: unhinted_def)
  from poll_only_hints [OF prod.collapse [symmetric] x(1)] x(2) title show ?thesis by metis
qed

section \<open>The watermark\<close>

lemma watermark_put: "watermark (put_key p v wm) q = (if q = p then v else watermark wm q)"
proof -
  have "map_of (filter (\<lambda>x. fst x \<noteq> p) wm) q = map_of wm q" if "q \<noteq> p" using that by (induction wm) auto
  then show ?thesis by (simp add: watermark_def put_key_def)
qed

lemma max_seen_Max: "max_seen since items = Max (insert since (pi_updated_at ` set items))"
proof -
  have "max_seen since items = fold max (map pi_updated_at items) since"
    by (simp add: max_seen_def fold_map comp_def max_def not_less) (rule fold_cong; auto)
  then show ?thesis by (simp only: Max.set_eq_fold [symmetric] list.set(2) set_map)
qed

lemma max_seen_bounds:
  "since \<le> max_seen since items" "item \<in> set items \<Longrightarrow> pi_updated_at item \<le> max_seen since items"
  by (simp_all add: max_seen_Max)

lemma poll_project_watermarks:
  assumes "poll_project env p st w = (Inr st', w')" "status_field_id p = Some field"
    "poll_project_items env (wd_tick w) (p_id p) field POLL_QUERY = Inr page"
  shows "ps_watermarks st' = advance (p_id p) (watermark (ps_watermarks st) (p_id p)) page (ps_watermarks st)"
  using assms(1) by (auto simp: poll_project_def assms(2,3) Let_def bnd_def remote_run split: prod.splits sum.splits)

lemma reconcile_newer:
  "reconcile_items p mark items st = reconcile_items p mark (filter (\<lambda>x. mark < pi_updated_at x) items) st"
proof (induction items arbitrary: st)
  case (Cons x xs)
  then show ?case by (cases "mark < pi_updated_at x") (auto simp: bnd_def fun_eq_iff split: prod.split sum.split)
qed simp

text \<open>C40 The watermark of a board, exactly: a pass keeps it when the page was truncated, and a complete page
  moves it to one second before the newest item of the page, or leaves it when that is not later.  So it
  never falls and never passes what the page has shown: a change dated later than one second before the
  newest item seen, whether on the page or made afterwards, is still newer than the mark, and
  the next pass looks at exactly the items newer than it.  A change more than a second older than the newest
  of its page is not looked at again, also when the task it belongs to was outside the working set of
  this pass.\<close>

theorem poll_watermark_exact:
  assumes "poll_project env p st w = (Inr st', w')" "status_field_id p = Some field"
    "poll_project_items env (wd_tick w) (p_id p) field POLL_QUERY = Inr page"
  shows "let since = watermark (ps_watermarks st) (p_id p); mark = watermark (ps_watermarks st') (p_id p) in
    mark = (if pp_truncated page then since else Max (insert since ((\<lambda>x. pi_updated_at x - 10 ^ 9) ` set (pp_items page)))) \<and>
    since \<le> mark \<and> (pp_truncated page \<longrightarrow> mark = since) \<and>
    (\<forall>q. q \<noteq> p_id p \<longrightarrow> watermark (ps_watermarks st') q = watermark (ps_watermarks st) q) \<and>
    (\<not> pp_truncated page \<longrightarrow> (\<forall>x \<in> set (pp_items page). pi_updated_at x \<le> mark + 10 ^ 9)) \<and>
    (\<forall>items st2. reconcile_items p mark items st2 = reconcile_items p mark (filter (\<lambda>x. mark < pi_updated_at x) items) st2) \<and>
    (\<forall>x \<in> set (pp_items page). \<forall>y \<in> set (pp_items page).
       \<not> pp_truncated page \<and> pi_updated_at x + 10 ^ 9 \<le> pi_updated_at y \<longrightarrow> \<not> mark < pi_updated_at x) \<and>
    (\<forall>ts. since < ts \<and> (\<forall>x \<in> set (pp_items page). pi_updated_at x < ts + 10 ^ 9) \<longrightarrow> mark < ts)"
proof -
  note wm = poll_project_watermarks [OF assms]
  define since mark where "since = watermark (ps_watermarks st) (p_id p)" and "mark = watermark (ps_watermarks st') (p_id p)"
  let ?new = "max_seen since (pp_items page)" and ?M = "insert since ((\<lambda>x. pi_updated_at x - 10 ^ 9) ` set (pp_items page))"
  have mark: "mark = (if \<not> pp_truncated page \<and> ?new > since then max since (?new - 10 ^ 9) else since)"
    by (simp add: mark_def since_def wm advance_def Let_def watermark_put minus_one_second_def)
  have old: "watermark (ps_watermarks st') q = watermark (ps_watermarks st) q" if "q \<noteq> p_id p" for q
    using that by (simp add: wm advance_def Let_def watermark_put)
  have b: "pi_updated_at x \<le> ?new" if "x \<in> set (pp_items page)" for x using that by (rule max_seen_bounds(2))
  have newest: "?new = since \<or> (\<exists>x \<in> set (pp_items page). ?new = pi_updated_at x)"
    using Max_in [of "insert since (pi_updated_at ` set (pp_items page))"] by (auto simp: max_seen_Max)
  have exact: "mark = (if pp_truncated page then since else Max ?M)"
  proof (cases "pp_truncated page")
    case False
    have "Max ?M = mark"
    proof (rule Max_eqI)
      show "mark \<in> ?M" using newest False by (auto simp: mark max_def)
      show "y \<le> mark" if "y \<in> ?M" for y
        using that b max_seen_bounds(1) [of since "pp_items page"] False by (fastforce simp: mark)
    qed simp
    with False show ?thesis by simp
  qed (simp add: mark)
  show ?thesis
    unfolding Let_def since_def [symmetric] mark_def [symmetric]
  proof (intro conjI allI ballI impI exact)
    show "reconcile_items p mark items st2 = reconcile_items p mark (filter (\<lambda>x. mark < pi_updated_at x) items) st2" for items st2
      by (rule reconcile_newer)
    show "pi_updated_at x \<le> mark + 10 ^ 9" if "\<not> pp_truncated page" "x \<in> set (pp_items page)" for x
      using b [OF that(2)] that(1) max_seen_bounds(1) [of since "pp_items page"] by (auto simp: mark split: if_splits)
    show "\<not> mark < pi_updated_at x" if "x \<in> set (pp_items page)" "y \<in> set (pp_items page)"
      "\<not> pp_truncated page \<and> pi_updated_at x + 10 ^ 9 \<le> pi_updated_at y" for x y
      using b [OF that(1)] b [OF that(2)] that(3) by (auto simp: mark split: if_splits)
    show "mark < ts" if "since < ts \<and> (\<forall>x \<in> set (pp_items page). pi_updated_at x < ts + 10 ^ 9)" for ts
      using that newest by (auto simp: mark)
  qed (use old in \<open>auto simp: mark\<close>)
qed

definition poll_item :: "rstring \<Rightarrow> timestamp \<Rightarrow> remote_project_item" where
  "poll_item i ts = \<lparr>pi_item_node_id = i, pi_issue_node_id = None, pi_canonical_repo = None, pi_number = None, pi_title = [], pi_body = [], pi_closed = False, pi_status_option_id = None,
     pi_single_select_options = [], pi_updated_at = ts\<rparr>"

theorem poll_watermark_exact_witness:
  "\<exists>st' w'. poll_project (idle_env\<lparr>poll_project_items := \<lambda>_ _ _ _. Inr \<lparr>pp_items = [poll_item [1] 5, poll_item [2] 6000000000], pp_truncated = False\<rparr>\<rparr>)
       sample_project \<lparr>ps_index = [], ps_report = empty_report, ps_completed = {}, ps_watermarks = []\<rparr> (sync_world sample_mirror) = (Inr st', w') \<and>
     watermark (ps_watermarks st') (p_id sample_project) = 5 * 10 ^ 9"
proof -
  let ?page = "\<lparr>pp_items = [poll_item [1] 5, poll_item [2] 6000000000], pp_truncated = False\<rparr>"
  let ?env = "idle_env\<lparr>poll_project_items := \<lambda>_ _ _ _. Inr ?page\<rparr>"
  let ?st = "\<lparr>ps_index = [], ps_report = empty_report, ps_completed = {}, ps_watermarks = []\<rparr>"
  have field: "status_field_id sample_project = Some (lit ''F'')"
    by (simp add: sample_project_def project_new_def from_fields_def validate_mappings_def
        validate_priority_mappings_def options_of_kind_def sample_options_def status_field_id_def status_field_def)
  have "\<exists>st' w'. poll_project ?env sample_project ?st (sync_world sample_mirror) = (Inr st', w')"
    by (simp add: poll_project_def field Let_def bnd_def remote_run reconcile_item_def poll_item_def watermark_def epoch_def)
  then obtain st' w' where run: "poll_project ?env sample_project ?st (sync_world sample_mirror) = (Inr st', w')" by blast
  have "watermark (ps_watermarks st') (p_id sample_project) = Max {0, 5 - 10 ^ 9, 5 * 10 ^ 9}"
    using poll_watermark_exact [OF run field, of ?page]
    by (simp add: Let_def poll_item_def watermark_def [of "[]"] epoch_def)
  with run show ?thesis by auto
qed

end
