(* ===== verification/SyncOutcomes.thy ===== *)
theory SyncOutcomes
  imports PollEffects
begin

text \<open>
  What push, pull, link and transfer leave behind: the calls they made, the stored task, and what
  is kept when they stop half-way.
\<close>

section \<open>Comments\<close>

text \<open>The posts a list of pending comments owes; the comments of a task that are still pending.\<close>

definition comment_calls :: "rstring \<Rightarrow> rstring \<Rightarrow> task_comment list \<Rightarrow> remote_call list" where
  "comment_calls canonical rid cs =
     map (\<lambda>c. CallCreateComment canonical rid (c_body c)) (filter (\<lambda>c. c_local_id c \<noteq> None) cs)"

definition pending_comments :: "task_id \<Rightarrow> db \<Rightarrow> task_comment set" where
  "pending_comments i d = {c. (i, c) \<in> set (db_comments d) \<and> c_remote_id c = None}"

definition comments_only :: "db \<Rightarrow> db \<Rightarrow> bool" where
  "comments_only d d' \<longleftrightarrow> d'\<lparr>db_comments := []\<rparr> = d\<lparr>db_comments := []\<rparr>"

lemma comments_only_refl [simp]: "comments_only d d"
  by (simp add: comments_only_def)

lemma comments_only_trans [trans]: "comments_only d e \<Longrightarrow> comments_only e f \<Longrightarrow> comments_only d f"
  by (simp add: comments_only_def)

lemma comments_only_writes [simp]:
  "comments_only d (mark_comments_pushed fresh i l p d)" "comments_only d (replace_comments fresh i cs d)"
  by (simp_all add: comments_only_def mark_comments_pushed_def replace_comments_def)

lemma comment_calls_simps [simp]:
  "comment_calls u r [] = []" "comment_calls u r (xs @ ys) = comment_calls u r xs @ comment_calls u r ys"
  "comment_calls u r (c # cs) = (if c_local_id c = None then [] else [CallCreateComment u r (c_body c)]) @ comment_calls u r cs"
  by (simp_all add: comment_calls_def)

lemma pending_after_push:
  "pending_comments i (mark_comments_pushed fresh i [l] [p] d) = {c \<in> pending_comments i d. c_local_id c \<noteq> Some l}"
  by (auto simp: pending_comments_def mark_comments_pushed_def synced_comment_def)

lemma push_comments_run:
  assumes "push_comments env i u rid cs v = (r, w')"
  shows "\<exists>sent rest. cs = sent @ rest \<and> comments_only (wd_db v) (wd_db w') \<and>
    pending_comments i (wd_db w') = {c \<in> pending_comments i (wd_db v). c_local_id c = None \<or> c_local_id c \<notin> c_local_id ` set sent} \<and>
    (case r of Inr _ \<Rightarrow> rest = [] \<and> wd_calls w' = wd_calls v @ comment_calls u rid sent
     | Inl _ \<Rightarrow> rest \<noteq> [] \<and> wd_calls w' = wd_calls v @ comment_calls u rid (sent @ [hd rest]))"
  using assms
proof (induction cs arbitrary: v)
  case Nil
  then show ?case by auto
next
  case (Cons c cs)
  have step: ?case
    if run: "push_comments env i u rid cs v1 = (r, w')" and d: "comments_only (wd_db v) (wd_db v1)"
      and p: "pending_comments i (wd_db v1) = {x \<in> pending_comments i (wd_db v). c_local_id x = None \<or> c_local_id x \<noteq> c_local_id c}"
      and calls: "wd_calls v1 = wd_calls v @ comment_calls u rid [c]" for v1
  proof -
    from Cons.IH [OF run] obtain sent rest where "cs = sent @ rest" "comments_only (wd_db v1) (wd_db w')"
      "pending_comments i (wd_db w') = {x \<in> pending_comments i (wd_db v1). c_local_id x = None \<or> c_local_id x \<notin> c_local_id ` set sent}"
      "case r of Inr _ \<Rightarrow> rest = [] \<and> wd_calls w' = wd_calls v1 @ comment_calls u rid sent
       | Inl _ \<Rightarrow> rest \<noteq> [] \<and> wd_calls w' = wd_calls v1 @ comment_calls u rid (sent @ [hd rest])" by blast
    note ih = this
    show ?thesis
    proof (intro exI conjI)
      show "c # cs = (c # sent) @ rest" using ih(1) by simp
      show "comments_only (wd_db v) (wd_db w')" using d ih(2) by (rule comments_only_trans)
      show "pending_comments i (wd_db w') = {x \<in> pending_comments i (wd_db v). c_local_id x = None \<or> c_local_id x \<notin> c_local_id ` set (c # sent)}"
        unfolding ih(3) p by auto
    qed (use ih(4) calls in \<open>auto split: sum.splits\<close>)
  qed
  show ?case
  proof (cases "c_local_id c")
    case None
    with Cons.prems have "push_comments env i u rid cs v = (r, w')" by (simp add: bnd_def)
    then show ?thesis by (rule step) (use None in auto)
  next
    case (Some l)
    show ?thesis
    proof (cases "create_comment env (wd_tick v) u rid (c_body c)")
      case (Inl e)
      with Cons.prems Some have "r = Inl (SePort e)" "w' = called (CallCreateComment u rid (c_body c)) v"
        by (auto simp: bnd_def call_def remote_run query_def)
      then show ?thesis using Some by (intro exI [of _ "[]"] exI [of _ "c # cs"]) (auto simp: called_def)
    next
      case (Inr p)
      let ?v = "called (CallCreateComment u rid (c_body c)) v"
      let ?f = "\<lambda>j. show_uuid (env_id env (wd_tick ?v + j))"
      have "push_comments env i u rid cs (?v\<lparr>wd_tick := wd_tick ?v + 1, wd_db := mark_comments_pushed ?f i [l] [p] (wd_db ?v)\<rparr>) = (r, w')"
        using Cons.prems Some Inr by (simp add: bnd_def call_def remote_run query_def fresh_rows_def)
      then show ?thesis by (rule step) (use Some in \<open>auto simp: pending_after_push called_def\<close>)
    qed
  qed
qed

lemma comments_only_task:
  assumes "comments_only d d'" "get_task i d = Inr x"
  shows "\<exists>y. get_task i d' = Inr y \<and> y\<lparr>t_comments := []\<rparr> = x\<lparr>t_comments := []\<rparr> \<and>
    {c \<in> set (t_comments y). c_remote_id c = None} = pending_comments i d'"
proof -
  have "d'\<lparr>db_comments := []\<rparr>\<lparr>db_comments := db_comments d'\<rparr> = d\<lparr>db_comments := []\<rparr>\<lparr>db_comments := db_comments d'\<rparr>"
    using assms(1) by (simp only: comments_only_def)
  then obtain cs where d': "d' = d\<lparr>db_comments := cs\<rparr>" by auto
  obtain r where r: "find_row d i = Some r" "x = hydrate d r" "t_id r = i"
    using assms(2) by (auto simp: get_task_def find_row_def find_Some_iff split: option.splits)
  then show ?thesis
    by (auto simp: d' get_task_def find_row_def hydrate_def load_relations_def load_latest_baseline_def baseline_rows_def
        load_comments_def pending_comments_def intro: rev_image_eqI)
qed

lemma comments_apart:
  assumes "y\<lparr>t_comments := []\<rparr> = x\<lparr>t_comments := []\<rparr>"
  shows "t_title y = t_title x" "t_body y = t_body x" "t_lifecycle y = t_lifecycle x" "t_assignees y = t_assignees x"
    "t_sync y = t_sync x" "t_synced_baseline y = t_synced_baseline x" "t_remote y = t_remote x" "t_repo_id y = t_repo_id x"
    "t_filing_repo_id y = t_filing_repo_id x" "t_workspace_id y = t_workspace_id x"
    "diff_against_baseline y = diff_against_baseline x"
proof -
  have f: "f y = f x" if "\<And>t. f (t\<lparr>t_comments := []\<rparr>) = f t" for f :: "task \<Rightarrow> 'b" using assms that by metis
  show "t_title y = t_title x" "t_body y = t_body x" "t_lifecycle y = t_lifecycle x" "t_assignees y = t_assignees x"
    "t_sync y = t_sync x" "t_synced_baseline y = t_synced_baseline x" "t_remote y = t_remote x" "t_repo_id y = t_repo_id x"
    "t_filing_repo_id y = t_filing_repo_id x" "t_workspace_id y = t_workspace_id x"
    by (rule f; simp)+
  then show "diff_against_baseline y = diff_against_baseline x" by (simp add: diff_against_baseline_def split: option.split)
qed

section \<open>Push\<close>

text \<open>The snapshot half of a push: on success the task is stored in step, otherwise nothing is written.\<close>

lemma push_snapshot_run:
  assumes "push_snapshot env False u rid t v = (r, w')" "get_task i (wd_db v) = Inr t"
  shows "(case r of Inl _ \<Rightarrow> wd_db w' = wd_db v | Inr t1 \<Rightarrow>
      (\<exists>x. get_task i (wd_db w') = Inr x \<and> t_sync x = Synced \<and> patch_is_empty (diff_against_baseline x) \<and> t_title x = t_title t \<and>
         t_body x = t_body t \<and> t_lifecycle x = t_lifecycle t \<and> t_assignees x = t_assignees t) \<and> db_comments (wd_db w') = db_comments (wd_db v)) \<and>
    (\<exists>n. wd_calls w' = wd_calls v @ take n (case build_update_from_patch (diff_against_baseline t) u rid of
        None \<Rightarrow> [] | Some c \<Rightarrow> [CallUpdateRemote c]) \<and> (isl r \<or> n = 1))"
proof -
  let ?p = "diff_against_baseline t"
  define Q where "Q = (\<lambda>(r :: sync_error + task) (w' :: world).
    (case r of Inl _ \<Rightarrow> wd_db w' = wd_db v | Inr t1 \<Rightarrow>
      (\<exists>x. get_task i (wd_db w') = Inr x \<and> t_sync x = Synced \<and> patch_is_empty (diff_against_baseline x) \<and> t_title x = t_title t \<and>
         t_body x = t_body t \<and> t_lifecycle x = t_lifecycle t \<and> t_assignees x = t_assignees t) \<and> db_comments (wd_db w') = db_comments (wd_db v)) \<and>
    (\<exists>n. wd_calls w' = wd_calls v @ take n (case build_update_from_patch ?p u rid of
        None \<Rightarrow> [] | Some c \<Rightarrow> [CallUpdateRemote c]) \<and> (isl r \<or> n = 1)))"
  have fail: "Q (Inl e) v1" if "wd_db v1 = wd_db v" "\<exists>n. wd_calls v1 = wd_calls v @ take n (case build_update_from_patch ?p u rid of
        None \<Rightarrow> [] | Some c \<Rightarrow> [CallUpdateRemote c])" for e v1 using that by (auto simp: Q_def)
  have confirm: "wp (bnd (sync_edit env (\<lambda>now. confirm_synced_fields now SrcPush ?p) t) (\<lambda>t'.
      bnd (commit env (\<lambda>cap. save_task cap t' SrcPush)) (\<lambda>_. ret t'))) Q v1"
    if v1: "wd_db v1 = wd_db v" "wd_calls v1 = wd_calls v @ (case build_update_from_patch ?p u rid of
        None \<Rightarrow> [] | Some c \<Rightarrow> [CallUpdateRemote c])" for v1
  proof -
    have all: "\<exists>n. wd_calls v1 = wd_calls v @ take n (case build_update_from_patch ?p u rid of
        None \<Rightarrow> [] | Some c \<Rightarrow> [CallUpdateRemote c])" using v1(2) by (intro exI [of _ 1]) (auto split: option.splits)
    have saved: "Q (Inr t1) (v1\<lparr>wd_tick := m, wd_db := d\<rparr>)"
      if "confirm_synced_fields now SrcPush ?p t = Inr t1" "save_task cap t1 SrcPush (wd_db v) = Inr d" for now cap t1 d m
    proof -
      have "db_comments d = db_comments (wd_db v)"
        using that(2) by (auto simp: save_task_def write_task_in_tx_def Let_def split: if_splits sum.splits)
      with sqlite_tasks.push_cycle [OF assms(2) that] v1(2) show ?thesis
        by (auto simp: Q_def split: option.splits intro!: exI [of _ "1 :: nat"])
    qed
    show ?thesis
      by (simp add: wp_simps v1(1) sync_domain_def split: sum.split del: prim_simps) (auto intro: fail saved simp: v1(1) all)
  qed
  have "wp (push_snapshot env False u rid t) Q v"
  proof (cases "build_update_from_patch ?p u rid")
    case None
    then show ?thesis
      unfolding push_snapshot_def Let_def by (simp add: confirm None)
  next
    case (Some c)
    have err: "Q (Inl e) (called (CallUpdateRemote c) v)" for e
      by (rule fail) (auto simp: called_def Some intro!: exI [of _ "1 :: nat"])
    show ?thesis
      unfolding push_snapshot_def Let_def
      using confirm [of "called (CallUpdateRemote c) v"] Some
      by (simp add: wp_bnd [of "call _ _"] wp_bnd [of "bnd _ _"] wp_ports wp_prims err [unfolded called_def] sync_port_def called_def
          split: sum.split del: prim_simps)
  qed
  with assms(1) show ?thesis by (simp add: wp_def Q_def)
qed

definition update_calls :: "rstring \<Rightarrow> rstring \<Rightarrow> task \<Rightarrow> remote_call list" where
  "update_calls canonical rid t =
     (if t_sync t \<in> {DirtyLocal, Staged}
      then case build_update_from_patch (diff_against_baseline t) canonical rid of None \<Rightarrow> [] | Some c \<Rightarrow> [CallUpdateRemote c]
      else [])"

text \<open>C6 A push that succeeds has converged: it sent the difference to the baseline, if there was one,
  and then posted each pending comment with a row id once and in order; the stored task has its content, an
  edited one is \<open>Synced\<close> with nothing left to push, and no comment with a row id is pending.  A push that fails
  has made an initial part of these calls and has stored which comments were posted, so that a retry
  does not post them again.\<close>

theorem push_converges:
  assumes "sy_push env s w = (r, w')" "env_parse_uuid env s = Some i" "get_task i (wd_db w) = Inr t"
    "sync_filing_canonical (wd_cat w) t = Inr canonical" "t_remote t = Some rr"
  shows "let pending = filter (\<lambda>c. c_remote_id c = None) (t_comments t) in
    \<exists>x. get_task i (wd_db w') = Inr x \<and>
      t_title x = t_title t \<and> t_body x = t_body t \<and> t_lifecycle x = t_lifecycle t \<and> t_assignees x = t_assignees t \<and>
      (case r of
         Inr _ \<Rightarrow> wd_calls w' = wd_calls w @ update_calls canonical (rr_remote_id rr) t @ comment_calls canonical (rr_remote_id rr) pending \<and>
           (\<forall>c \<in> set (t_comments x). c_remote_id c = None \<longrightarrow> c_local_id c = None) \<and>
           (if t_sync t \<in> {DirtyLocal, Staged} then t_sync x = Synced \<and> patch_is_empty (diff_against_baseline x)
            else t_sync x = t_sync t)
       | Inl _ \<Rightarrow> \<exists>sent rest. pending = sent @ rest \<and>
           prefix (wd_calls w') (wd_calls w @ update_calls canonical (rr_remote_id rr) t @
             comment_calls canonical (rr_remote_id rr) (sent @ take 1 rest)) \<and>
           (\<forall>c \<in> set (t_comments x). c_remote_id c = None \<and> c_local_id c \<noteq> None \<longrightarrow> c_local_id c \<notin> c_local_id ` set sent))"
proof -
  define u where "u = update_calls canonical (rr_remote_id rr) t"
  define pending where "pending = filter (\<lambda>c. c_remote_id c = None) (t_comments t)"
  define dirty where "dirty \<longleftrightarrow> t_sync t \<in> {DirtyLocal, Staged}"
  have pend: "pending_comments i (wd_db w) = set pending"
    using comments_only_task [OF comments_only_refl assms(3)] assms(3) by (auto simp: pending_def)
  obtain r1 v where first: "(if dirty then push_snapshot env False canonical (rr_remote_id rr) t else ret t) w = (r1, v)" by fastforce
  have snap: "(isl r1 \<and> wd_db v = wd_db w \<and> prefix (wd_calls v) (wd_calls w @ u)) \<or>
    (\<not> isl r1 \<and> wd_calls v = wd_calls w @ u \<and> db_comments (wd_db v) = db_comments (wd_db w) \<and>
      (\<exists>x. get_task i (wd_db v) = Inr x \<and> t_title x = t_title t \<and> t_body x = t_body t \<and> t_lifecycle x = t_lifecycle t \<and>
         t_assignees x = t_assignees t \<and> (if dirty then t_sync x = Synced \<and> patch_is_empty (diff_against_baseline x) else t_sync x = t_sync t)))"
  proof (cases dirty)
    case True
    with first have "push_snapshot env False canonical (rr_remote_id rr) t w = (r1, v)" by simp
    have "length (case build_update_from_patch (diff_against_baseline t) canonical (rr_remote_id rr) of
        None \<Rightarrow> [] | Some c \<Rightarrow> [CallUpdateRemote c]) \<le> Suc 0" by (simp split: option.split)
    with push_snapshot_run [OF \<open>push_snapshot env False canonical (rr_remote_id rr) t w = (r1, v)\<close> assms(3)] True show ?thesis
      by (auto simp: u_def update_calls_def dirty_def take_is_prefix split: sum.splits)
  next
    case False
    with first show ?thesis using assms(3) by (auto simp: u_def update_calls_def dirty_def)
  qed
  have run: "(if \<not> dirty \<and> pending = [] then isl r \<and> w' = w
     else case r1 of Inl e \<Rightarrow> r = Inl e \<and> w' = v
       | Inr _ \<Rightarrow> \<exists>r2. push_comments env i canonical (rr_remote_id rr) pending v = (r2, w') \<and> isl r = isl r2)"
    using assms(1) first
    by (auto simp: sy_push_def push_inner_def sync_id_def query_def tasks_get_ok [OF assms(3)] assms(2,4,5) remote_of_def Let_def bnd_def
        pending_def dirty_def split: sum.splits prod.splits if_splits)
  have "\<exists>x. get_task i (wd_db w') = Inr x \<and>
      t_title x = t_title t \<and> t_body x = t_body t \<and> t_lifecycle x = t_lifecycle t \<and> t_assignees x = t_assignees t \<and>
      (case r of
         Inr _ \<Rightarrow> wd_calls w' = wd_calls w @ u @ comment_calls canonical (rr_remote_id rr) pending \<and>
           (\<forall>c \<in> set (t_comments x). c_remote_id c = None \<longrightarrow> c_local_id c = None) \<and>
           (if dirty then t_sync x = Synced \<and> patch_is_empty (diff_against_baseline x) else t_sync x = t_sync t)
       | Inl _ \<Rightarrow> \<exists>sent rest. pending = sent @ rest \<and>
           prefix (wd_calls w') (wd_calls w @ u @ comment_calls canonical (rr_remote_id rr) (sent @ take 1 rest)) \<and>
           (\<forall>c \<in> set (t_comments x). c_remote_id c = None \<and> c_local_id c \<noteq> None \<longrightarrow> c_local_id c \<notin> c_local_id ` set sent))"
  proof (cases "\<not> isl r1 \<and> (dirty \<or> pending \<noteq> [])")
    case False
    then have w': "isl r" "wd_db w' = wd_db w" "prefix (wd_calls w') (wd_calls w @ u)"
      using run snap by (auto split: if_splits sum.splits)
    have "prefix (wd_calls w') (wd_calls w @ u @ xs)" for xs
      using w'(3) by (metis append.assoc prefix_prefix)
    then have "\<exists>sent rest. pending = sent @ rest \<and>
        prefix (wd_calls w') (wd_calls w @ u @ comment_calls canonical (rr_remote_id rr) (sent @ take 1 rest)) \<and>
        (\<forall>c \<in> set (t_comments t). c_remote_id c = None \<and> c_local_id c \<noteq> None \<longrightarrow> c_local_id c \<notin> c_local_id ` set sent)"
      by (intro exI [of _ "[]"] exI [of _ pending]) simp
    with w'(1,2) assms(3) show ?thesis by (auto split: sum.splits)
  next
    case True
    then obtain r2 where r2: "push_comments env i canonical (rr_remote_id rr) pending v = (r2, w')" "isl r = isl r2"
      using run by (auto split: if_splits sum.splits)
    from True snap obtain x where v: "wd_calls v = wd_calls w @ u" "db_comments (wd_db v) = db_comments (wd_db w)"
      and x: "get_task i (wd_db v) = Inr x" "t_title x = t_title t" "t_body x = t_body t" "t_lifecycle x = t_lifecycle t"
        "t_assignees x = t_assignees t" "if dirty then t_sync x = Synced \<and> patch_is_empty (diff_against_baseline x) else t_sync x = t_sync t"
      by auto
    have pv: "pending_comments i (wd_db v) = set pending" using pend v(2) by (simp add: pending_comments_def)
    from push_comments_run [OF r2(1)] obtain sent rest where p: "pending = sent @ rest" "comments_only (wd_db v) (wd_db w')"
      "pending_comments i (wd_db w') = {c \<in> set pending. c_local_id c = None \<or> c_local_id c \<notin> c_local_id ` set sent}"
      "case r2 of Inr _ \<Rightarrow> rest = [] \<and> wd_calls w' = wd_calls v @ comment_calls canonical (rr_remote_id rr) sent
       | Inl _ \<Rightarrow> rest \<noteq> [] \<and> wd_calls w' = wd_calls v @ comment_calls canonical (rr_remote_id rr) (sent @ [hd rest])"
      unfolding pv by blast
    from comments_only_task [OF p(2) x(1)] obtain y where y: "get_task i (wd_db w') = Inr y"
      "y\<lparr>t_comments := []\<rparr> = x\<lparr>t_comments := []\<rparr>" "{c \<in> set (t_comments y). c_remote_id c = None} = pending_comments i (wd_db w')" by blast
    note same = comments_apart [OF y(2)]
    have left: "c_local_id c = None \<or> c_local_id c \<notin> c_local_id ` set sent" "c \<in> set pending"
      if "c \<in> set (t_comments y)" "c_remote_id c = None" for c
    proof -
      have "c \<in> pending_comments i (wd_db w')" using that y(3) by blast
      then show "c_local_id c = None \<or> c_local_id c \<notin> c_local_id ` set sent" "c \<in> set pending" by (simp_all add: p(3))
    qed
    have out: "case r of
         Inr _ \<Rightarrow> wd_calls w' = wd_calls w @ u @ comment_calls canonical (rr_remote_id rr) pending \<and>
           (\<forall>c \<in> set (t_comments y). c_remote_id c = None \<longrightarrow> c_local_id c = None) \<and>
           (if dirty then t_sync y = Synced \<and> patch_is_empty (diff_against_baseline y) else t_sync y = t_sync t)
       | Inl _ \<Rightarrow> \<exists>sent rest. pending = sent @ rest \<and>
           prefix (wd_calls w') (wd_calls w @ u @ comment_calls canonical (rr_remote_id rr) (sent @ take 1 rest)) \<and>
           (\<forall>c \<in> set (t_comments y). c_remote_id c = None \<and> c_local_id c \<noteq> None \<longrightarrow> c_local_id c \<notin> c_local_id ` set sent)"
    proof (cases r2)
      case (Inl e)
      then obtain e' where "r = Inl e'" using r2(2) by (cases r) auto
      have "take 1 rest = [hd rest]" using p(4) Inl by (cases rest) auto
      then have "prefix (wd_calls w') (wd_calls w @ u @ comment_calls canonical (rr_remote_id rr) (sent @ take 1 rest))"
        using p(4) Inl v(1) by simp
      moreover have "\<forall>c \<in> set (t_comments y). c_remote_id c = None \<and> c_local_id c \<noteq> None \<longrightarrow> c_local_id c \<notin> c_local_id ` set sent"
        by (intro ballI impI, elim conjE, drule (1) left(1)) (metis option.distinct(1))
      ultimately show ?thesis
        unfolding \<open>r = Inl e'\<close> sum.case using p(1) by (intro exI conjI)
    next
      case (Inr _)
      then obtain s' where "r = Inr s'" using r2(2) by (cases r) auto
      moreover have "c_local_id c = None" if "c \<in> set (t_comments y)" "c_remote_id c = None" for c
        using left [OF that] p(1,4) Inr by auto
      moreover have "wd_calls w' = wd_calls w @ u @ comment_calls canonical (rr_remote_id rr) pending"
        using Inr p(1,4) v(1) by auto
      ultimately show ?thesis using x(6) by (simp add: same(5,11))
    qed
    show ?thesis
      using y(1) same(1-4) [unfolded x(2-5)] out by blast
  qed
  then show ?thesis unfolding Let_def u_def pending_def dirty_def .
qed

definition linked_mirror :: task where
  "linked_mirror = sample_mirror\<lparr>t_repo_id := Some 4, t_filing_repo_id := Some 9,
     t_remote := Some ((remote_ref_new (lit ''github'') (lit ''7''))\<lparr>rr_node_id := Some (lit ''I_7'')\<rparr>)\<rparr>"

lemma linked_world:
  assumes "u = linked_mirror\<lparr>t_sync := st\<rparr>"
  shows "\<exists>x. get_task (t_id sample_mirror) (wd_db (sync_world u)) = Inr x \<and> same_record u x \<and>
    sync_filing_canonical (wd_cat (sync_world u)) x = Inr (lit ''github.com/o/r'') \<and>
    t_remote x = Some ((remote_ref_new (lit ''github'') (lit ''7''))\<lparr>rr_node_id := Some (lit ''I_7'')\<rparr>)"
proof -
  have u: "t_relations u = []" "t_id u = t_id sample_mirror" by (simp_all add: assms linked_mirror_def sample_simps)
  from sync_world_task [OF this] obtain x where x: "get_task (t_id sample_mirror) (wd_db (sync_world u)) = Inr x" "same_record u x"
    by blast
  have "sync_filing_canonical (wd_cat (sync_world u)) x = Inr (lit ''github.com/o/r'')"
    by (rule sync_world_canonical [OF x(2)]) (simp_all add: assms linked_mirror_def)
  with x show ?thesis by (auto simp: same_record_def assms linked_mirror_def)
qed

theorem push_converges_witness:
  "\<exists>x r w'. sy_push sync_env [] (sync_world (linked_mirror\<lparr>t_sync := DirtyLocal\<rparr>)) = (r, w') \<and>
     get_task (t_id sample_mirror) (wd_db w') = Inr x \<and> t_title x = t_title sample_mirror"
proof -
  let ?w = "sync_world (linked_mirror\<lparr>t_sync := DirtyLocal\<rparr>)"
  obtain x where x: "get_task (t_id sample_mirror) (wd_db ?w) = Inr x" "same_record (linked_mirror\<lparr>t_sync := DirtyLocal\<rparr>) x"
    "sync_filing_canonical (wd_cat ?w) x = Inr (lit ''github.com/o/r'')"
    "t_remote x = Some ((remote_ref_new (lit ''github'') (lit ''7''))\<lparr>rr_node_id := Some (lit ''I_7'')\<rparr>)"
    using linked_world [OF refl] by blast
  obtain r w' where run: "sy_push sync_env [] ?w = (r, w')" by force
  from push_converges [OF run sync_env_simps(1) x(1,3,4)] obtain y where
    "get_task (t_id sample_mirror) (wd_db w') = Inr y" "t_title y = t_title x" by (auto simp: Let_def)
  with run x(2) show ?thesis by (auto simp: same_record_def linked_mirror_def)
qed

end
