(* ===== verification/PullOutcomes.thy ===== *)
theory PullOutcomes
  imports SyncOutcomes
begin

text \<open>
  Pull: the inbound relations keep the content of the task, the remote's content is adopted when the
  policy says so, and what it replaces stays in the history.
\<close>

section \<open>Inbound relations\<close>

definition same_core :: "task \<Rightarrow> task \<Rightarrow> bool" where
  "same_core t x \<longleftrightarrow> t_id x = t_id t \<and> t_sync x = t_sync t \<and> t_title x = t_title t \<and> t_body x = t_body t \<and>
     t_lifecycle x = t_lifecycle t \<and> t_assignees x = t_assignees t"

lemma same_core_refl [simp]: "same_core t t"
  by (simp add: same_core_def)

lemma same_core_trans: "same_core t x \<Longrightarrow> same_core x y \<Longrightarrow> same_core t y"
  by (simp add: same_core_def)

lemma same_core_relations [simp]:
  "same_core t (add_relation now k j x) \<longleftrightarrow> same_core t x" "same_core t (snd (remove_relation now k j x)) \<longleftrightarrow> same_core t x"
  "t_id (add_relation now k j x) = t_id x" "t_id (snd (remove_relation now k j x)) = t_id x"
  by (simp_all add: same_core_def add_relation_def remove_relation_def touch_def Let_def)

lemma same_core_record: "same_record t x \<Longrightarrow> same_core t x"
  by (simp add: same_core_def same_record_def)

text \<open>The neighbour cache holds other tasks under their own ids.\<close>

definition cached :: "task_id \<Rightarrow> neighbors \<Rightarrow> bool" where
  "cached i nbs \<longleftrightarrow> (\<forall>(k, x) \<in> set nbs. t_id x = k \<and> k \<noteq> i)"

definition reconciling :: "task \<Rightarrow> reconcile_state \<Rightarrow> bool" where
  "reconciling t = (\<lambda>(x, nbs, notices, changed). same_core t x \<and> cached (t_id t) nbs)"

lemma cached_simps [simp]:
  "cached i []" "cached i nbs \<Longrightarrow> t_id x \<noteq> i \<Longrightarrow> cached i (put_neighbor x nbs)" "cached i nbs \<Longrightarrow> cached i (filter P nbs)"
  by (auto simp: cached_def put_neighbor_def)

lemma load_neighbor_observes:
  assumes "cached i nbs"
  shows "observes C (load_neighbor nbs j) (\<lambda>x. t_id x = j)"
proof (cases "map_of nbs j")
  case None
  then show ?thesis
    by (auto simp: load_neighbor_def observes_def wp_simps observed_def sync_port_def split: sum.splits dest: get_task_id)
next
  case (Some x)
  then have "t_id x = j" using assms by (auto simp: cached_def dest: map_of_SomeD)
  with Some show ?thesis by (simp add: load_neighbor_def observes_prims)
qed

lemma edges_observe:
  "reconciling t st \<Longrightarrow> observes C (add_edges env k k' cur js st) (reconciling t)"
  "reconciling t st' \<Longrightarrow> observes C (drop_edges env k k' des js' st') (reconciling t)"
proof -
  show "observes C (add_edges env k k' cur js st) (reconciling t)" if "reconciling t st" using that
  proof (induction env k k' cur js st rule: add_edges.induct)
    case (2 env k k' cur other rest x nbs notices changed)
    then have c: "cached (t_id t) nbs" "same_core t x" by (simp_all add: reconciling_def)
    show ?case
    proof (cases "other = t_id x \<or> other \<in> cur")
      case True
      with 2(1,3) show ?thesis by simp
    next
      case False
      then have "other \<noteq> t_id t" using c(2) by (simp add: same_core_def)
      with False show ?thesis
        using c by (simp del: prim_simps)
          (intro observes_bnd [OF load_neighbor_observes [OF c(1)]] observes_bnd [OF observes_prims(5)] 2(2); simp add: reconciling_def)
    qed
  qed (simp add: observes_prims)
  show "observes C (drop_edges env k k' des js' st') (reconciling t)" if "reconciling t st'" using that
  proof (induction env k k' des js' st' rule: drop_edges.induct)
    case (2 env k k' des other rest x nbs notices changed)
    then have c: "cached (t_id t) nbs" "same_core t x" by (simp_all add: reconciling_def)
    show ?case
    proof (cases "other = t_id x \<or> other \<in> des")
      case True
      with 2(1,4) show ?thesis by simp
    next
      case False
      then have "other \<noteq> t_id t" using c(2) by (simp add: same_core_def)
      with False show ?thesis
        using c by (simp del: prim_simps)
          (intro observes_bnd [OF load_neighbor_observes [OF c(1)]] observes_control(1) observes_bnd [OF observes_prims(5)] 2(2,3);
           simp add: reconciling_def)
    qed
  qed (simp add: observes_prims)
qed

lemma family_observes:
  "reconciling t st \<Longrightarrow> observes C (reconcile_family env k k' des st) (reconciling t)"
  unfolding reconcile_family_def Let_def by (rule observes_bnd [OF edges_observe(1) edges_observe(2)])

lemma parent_observes:
  assumes "reconciling t st"
  shows "observes C (reconcile_parent env parents st) (reconciling t)"
proof -
  obtain x nbs notices changed where st: "st = (x, nbs, notices, changed)" by (cases st)
  have "reconciling t (x, nbs, notices @ more, changed)" for more using assms by (simp add: st reconciling_def)
  with assms show ?thesis
    unfolding reconcile_parent_def Let_def st prod.case
    by (intro observes_intros family_observes TrueI) simp_all
qed

lemma get_save_many_other:
  assumes "save_many cap ts d = Inr d'" "\<forall>(x, src) \<in> set ts. t_id x \<noteq> i"
  shows "get_task i d' = get_task i d"
  using assms
proof (induction ts arbitrary: d)
  case (Cons p ts)
  then show ?case
    by (cases p) (auto simp: get_save_task_other [unfolded save_task_def] split: sum.splits)
qed simp

text \<open>The task after the inbound relations: its content and sync state, and a fresh baseline when it was saved.\<close>

lemma reconcile_inbound_wp:
  assumes "get_task i (wd_db v) = Inr y" "same_core t y" "t_id t = i"
  shows "wp (reconcile_relations_inbound env t c rid) (\<lambda>r w'. \<exists>x. get_task i (wd_db w') = Inr x \<and> same_core t x \<and>
     (wd_db w' = wd_db v \<or> patch_is_empty (diff_against_baseline x))) v" (is "wp _ ?Q v")
proof -
  define Q where "Q = ?Q"
  have kept: "Q r u" if "observed (\<lambda>_. True) v u" for r u using that assms by (auto simp: Q_def observed_def)
  have saved: "Q (Inr z) (u\<lparr>wd_tick := m, wd_db := d\<rparr>)"
    if "observed (\<lambda>_. True) v u" "reconciling t (x, nbs, notices, changed)"
      "save_many cap ((x, SrcPull) # map (\<lambda>x. (x, SrcPull)) (neighbor_values env k nbs)) (wd_db u) = Inr d"
    for u x nbs notices changed cap k d m z
  proof -
    from that(3) obtain d1 where d1: "save_task cap x SrcPull (wd_db u) = Inr d1"
      "save_many cap (map (\<lambda>x. (x, SrcPull)) (neighbor_values env k nbs)) d1 = Inr d"
      by (auto simp: save_task_def split: sum.splits)
    have x: "same_core t x" "t_id x = i" using that(2) assms(3) by (simp_all add: reconciling_def same_core_def)
    have "\<exists>j. map_of nbs j = Some n" if "n \<in> set (neighbor_values env k nbs)" for n
      using that by (auto simp: neighbor_values_def List.map_filter_def)
    then have "\<forall>n \<in> set (neighbor_values env k nbs). t_id n \<noteq> i"
      using that(2) assms(3) by (fastforce simp: reconciling_def cached_def dest: map_of_SomeD)
    then have "get_task i d = get_task i d1" by (intro get_save_many_other [OF d1(2)]) auto
    with sqlite_tasks.aligned_save [OF d1(1)] x show ?thesis
      by (fastforce simp: Q_def makes_baseline_def source_is_baseline_def dest: same_core_record intro: same_core_trans)
  qed
  have stage: "wp (bnd m f) Q u"
    if "observed (\<lambda>_. True) v u" "observes (\<lambda>_. True) m V" "\<And>x u'. observed (\<lambda>_. True) v u' \<Longrightarrow> V x \<Longrightarrow> wp (f x) Q u'"
    for m :: "(sync_error, 'x) em" and f V u
    unfolding wp_bnd
    by (rule wp_observes [OF that(2)]) (auto intro: that(3) kept observed_trans [OF that(1)])
  have finish: "wp (case st of (x, nbs, notices, changed) \<Rightarrow> bnd (if changed then bnd tick (\<lambda>k. commit env (\<lambda>cap. save_many cap
        ((x, SrcPull) # map (\<lambda>x. (x, SrcPull)) (neighbor_values env k nbs)))) else ret ()) (\<lambda>_. ret (x, notices))) Q u"
    if o: "observed (\<lambda>_. True) v u" and st: "reconciling t st" for u st
  proof -
    obtain x nbs notices changed where tuple: "st = (x, nbs, notices, changed)" by (cases st)
    have "observed (\<lambda>_. True) v (u\<lparr>wd_tick := m\<rparr>)" for m using o by (auto simp: observed_def)
    then show ?thesis
      unfolding tuple prod.case using saved [OF o st [unfolded tuple]] kept o by (auto simp: wp_simps simp del: prim_simps save_many.simps split: sum.split)
  qed
  have "wp (reconcile_relations_inbound env t c rid) Q v"
    unfolding reconcile_relations_inbound_def
    apply (rule stage [OF observed_refl observes_prims(7)], simp, simp, simp, simp)
    apply (rule stage [OF _ observes_prims(7)], assumption, simp)
    apply (rule stage [OF _ observes_prims(7)], assumption, simp)
    apply (rule stage [OF _ observes_prims(3)], assumption)
    apply (split prod.split, intro allI impI, rule stage [OF _ observes_prims(3)], assumption)
    apply (split prod.split, intro allI impI, rule stage [OF _ family_observes [of t]], assumption)
    apply (simp add: reconciling_def)
    apply (rule stage [OF _ family_observes [of t]], assumption, assumption)
    apply (rule stage [OF _ parent_observes [of t]], assumption, assumption)
    apply (rule finish; assumption)
    done
  then show ?thesis by (simp only: Q_def)
qed

section \<open>Targeted columns\<close>

lemma get_update_row:
  assumes "get_task i d = Inr y" "\<And>r. t_id (f r) = t_id r"
  shows "\<exists>r. y = hydrate d r \<and> get_task i (update_row i f d) = Inr (hydrate d (f r))"
proof -
  obtain r where r: "List.find (\<lambda>r. t_id r = i) (db_tasks d) = Some r" "y = hydrate d r"
    using assms(1) by (auto simp: get_task_def find_row_def split: option.splits)
  have "t_id r = i" using r(1) by (auto simp: find_Some_iff)
  with find_update_where [of "\<lambda>r. t_id r = i" t_id f i "db_tasks d" r] assms(2) r(1)
  have "find_row (update_row i f d) i = Some (f r)" by (simp add: find_row_def update_row_def)
  moreover have "hydrate (update_row i f d) x = hydrate d x" for x
    by (simp add: update_row_def hydrate_def load_relations_def load_comments_def load_latest_baseline_def baseline_rows_def)
  ultimately show ?thesis using r(2) by (auto simp: get_task_def)
qed

text \<open>A reload with the same content and the same distance to its baseline.\<close>

definition in_place :: "task_id \<Rightarrow> db \<Rightarrow> db \<Rightarrow> bool" where
  "in_place i d d' \<longleftrightarrow> (\<forall>y. get_task i d = Inr y \<longrightarrow>
     (\<exists>x. get_task i d' = Inr x \<and> same_core y x \<and> diff_against_baseline x = diff_against_baseline y))"

lemma in_place_columns:
  "in_place i d (cache_synced_at i ts d)" "in_place i d (cache_remote_node_id i n d)" "in_place i d (replace_comments fresh i cs d)"
proof -
  have col: "in_place i d (update_row i f d)"
    if "\<And>r. t_id (f r) = t_id r" "\<And>r. same_core (hydrate d r) (hydrate d (f r))"
      "\<And>r. diff_against_baseline (hydrate d (f r)) = diff_against_baseline (hydrate d r)" for f
    unfolding in_place_def using get_update_row [of i d _ f] that by blast
  show "in_place i d (cache_synced_at i ts d)" "in_place i d (cache_remote_node_id i n d)"
    unfolding cache_synced_at_def cache_remote_node_id_def
    by (rule col; simp add: same_core_def hydrate_def row_to_task_def diff_against_baseline_def split: option.split)+
  show "in_place i d (replace_comments fresh i cs d)"
    unfolding in_place_def
  proof (intro allI impI)
    fix y assume y: "get_task i d = Inr y"
    from comments_only_task [OF comments_only_writes(2) y] obtain x where
      x: "get_task i (replace_comments fresh i cs d) = Inr x" "x\<lparr>t_comments := []\<rparr> = y\<lparr>t_comments := []\<rparr>" by blast
    have "t_id x = t_id y" using get_task_id [OF x(1)] get_task_id [OF y] by simp
    with x(1) comments_apart [OF x(2)] show "\<exists>x. get_task i (replace_comments fresh i cs d) = Inr x \<and> same_core y x \<and>
        diff_against_baseline x = diff_against_baseline y" by (auto simp: same_core_def)
  qed
qed

lemma in_place_refl: "in_place i d d"
  by (simp add: in_place_def)

lemma in_place_trans: "in_place i d e \<Longrightarrow> in_place i e f \<Longrightarrow> in_place i d f"
  unfolding in_place_def by (metis same_core_trans)

end
