(* ===== verification/PullProps.thy ===== *)
theory PullProps
  imports PullOutcomes
begin

text \<open>
  The theorems on pull, link and transfer.
\<close>

section \<open>Pull\<close>

lemma wp_conj: "wp m P w \<Longrightarrow> wp m Q w \<Longrightarrow> wp m (\<lambda>r w'. P r w' \<and> Q r w') w"
  by (auto simp: wp_def)

lemma wp_safe: "safe m \<Longrightarrow> wp m (\<lambda>r w'. grows (wd_db w) (wd_db w')) w"
  by (auto simp: safe_iff wp_def) (metis snd_conv)

lemma in_place_task:
  "in_place i d d' \<Longrightarrow> get_task i d = Inr y \<Longrightarrow> same_core t y \<Longrightarrow>
   \<exists>x. get_task i d' = Inr x \<and> same_core t x \<and> diff_against_baseline x = diff_against_baseline y"
  unfolding in_place_def by (metis same_core_trans)

lemma mirror_inbound_wp:
  assumes "get_task i (wd_db v) = Inr y" "same_core t y" "t_id t = i"
  shows "wp (mirror_inbound env i canonical rid nid t) (\<lambda>r w'. grows (wd_db v) (wd_db w') \<and>
     (\<exists>x. get_task i (wd_db w') = Inr x \<and> same_core t x \<and>
        (patch_is_empty (diff_against_baseline y) \<longrightarrow> patch_is_empty (diff_against_baseline x)))) v"
proof (rule wp_conj [OF wp_safe])
  show "safe (mirror_inbound env i canonical rid nid t)"
    unfolding mirror_inbound_def by (intro safe_intros safe_db | assumption)+
  define Q where "Q = (\<lambda>(r :: sync_error + task \<times> sync_notice list) (w' :: world). \<exists>x. get_task i (wd_db w') = Inr x \<and> same_core t x \<and>
        (patch_is_empty (diff_against_baseline y) \<longrightarrow> patch_is_empty (diff_against_baseline x)))"
  have rec: "wp (reconcile_relations_inbound env t canonical rid) Q u" if "in_place i (wd_db v) (wd_db u)" for u
  proof -
    from in_place_task [OF that assms(1,2)] obtain z where
      z: "get_task i (wd_db u) = Inr z" "same_core t z" "diff_against_baseline z = diff_against_baseline y" by blast
    show ?thesis
      by (rule wp_conseq [OF reconcile_inbound_wp [OF z(1,2) assms(3)]]) (use z in \<open>auto simp: Q_def\<close>)
  qed
  have fail: "Q (Inl e) u" if "wd_db u = wd_db v" for e u using that assms by (auto simp: Q_def)
  have "wp (mirror_inbound env i canonical rid nid t) Q v"
    unfolding mirror_inbound_def
    by (auto simp: wp_simps simp del: prim_simps split: sum.split option.split
        intro!: fail rec in_place_columns in_place_trans [OF in_place_columns(3) in_place_columns(2)])
  then show "wp (mirror_inbound env i canonical rid nid t) (\<lambda>r w'. \<exists>x. get_task i (wd_db w') = Inr x \<and> same_core t x \<and>
        (patch_is_empty (diff_against_baseline y) \<longrightarrow> patch_is_empty (diff_against_baseline x))) v" by (simp only: Q_def)
qed

text \<open>The snapshot of the local content a pull takes before it overwrites it.\<close>

definition kept_before :: "task \<Rightarrow> db \<Rightarrow> bool" where
  "kept_before t d \<longleftrightarrow> (\<exists>p \<in> set (list_snapshots (t_id t) d). s_source p = SrcPrePull \<and> s_title p = t_title t \<and>
     s_body p = t_body t \<and> s_lifecycle p = t_lifecycle t \<and> s_assignees p = t_assignees t)"

lemma set_list_snapshots: "set (list_snapshots i d) = decode_snapshot ` set (task_log i d)"
  by (simp add: list_snapshots_def task_log_def)

lemma kept_before_grows: "kept_before t d \<Longrightarrow> grows d d' \<Longrightarrow> kept_before t d'"
  unfolding kept_before_def grows_def set_list_snapshots by (meson image_mono set_mono_prefix subsetD)

lemma kept_before_save: "save_task cap t SrcPrePull d = Inr d' \<Longrightarrow> kept_before t d'"
  unfolding kept_before_def set_list_snapshots
  by (auto simp: save_task_def task_log_def snapshot_row_def decode_snapshot_def dest!: write_task_snapshots)

text \<open>The remote's content, adopted.\<close>

definition adopts :: "remote_task_snapshot \<Rightarrow> task \<Rightarrow> task \<Rightarrow> bool" where
  "adopts snap t x \<longleftrightarrow> t_id x = t_id t \<and> t_sync x = Synced \<and> t_title x = rs_title snap \<and> t_body x = rs_body snap \<and>
     t_assignees x = rs_assignees snap \<and> is_open (t_lifecycle x) = (\<not> rs_closed snap)"

lemma adopt_remote_wp:
  assumes "get_task (t_id t) (wd_db v) = Inr y" "same_core t y"
  shows "wp (adopt_remote env snap t) (\<lambda>r w'. case r of
      Inl _ \<Rightarrow> (\<exists>x. get_task (t_id t) (wd_db w') = Inr x \<and> same_core t x)
    | Inr t' \<Rightarrow> kept_before t (wd_db w') \<and> adopts snap t t' \<and>
        (\<exists>x. get_task (t_id t) (wd_db w') = Inr x \<and> same_core t' x \<and> patch_is_empty (diff_against_baseline x))) v" (is "wp _ ?Q v")
proof -
  define Q where "Q = ?Q"
  have fail: "Q (Inl e) u" if "wd_db u = wd_db v" for e u using that assms by (auto simp: Q_def)
  have fail1: "Q (Inl e) u" if d: "save_task cap t SrcPrePull (wd_db v) = Inr (wd_db u)" for e u cap
    using get_save_task [OF d] by (auto simp: Q_def dest: same_core_record)
  have saved: "Q (Inr t') u" if d1: "save_task cap t SrcPrePull (wd_db v) = Inr d1"
      and t': "adopt_aligned_state now c SrcPull
        (copy_inbound_mirror_from_snap t (rs_title snap) (rs_body snap) (rs_assignees snap) (rs_closed snap)) = Inr t'"
      and d2: "save_task cap' t' SrcPull d1 = Inr (wd_db u)" for cap d1 now c t' cap' u
  proof -
    have a: "adopts snap t t'"
      using t' by (auto simp: adopts_def adopt_aligned_state_def copy_inbound_mirror_from_snap_def Let_def touch_def
          remote_state_to_lifecycle_def split: if_splits bool.splits)
    obtain x where "get_task (t_id t') (wd_db u) = Inr x" "same_record t' x" "patch_is_empty (diff_against_baseline x)"
      using sqlite_tasks.aligned_save [OF d2] by (auto simp: makes_baseline_def source_is_baseline_def)
    moreover have "kept_before t (wd_db u)"
      using kept_before_save [OF d1] grows_writes(1) [OF d2] by (rule kept_before_grows)
    ultimately show ?thesis using a by (auto simp: Q_def adopts_def dest: same_core_record)
  qed
  have "wp (adopt_remote env snap t) Q v"
    unfolding adopt_remote_def
    by (auto simp: wp_simps sync_domain_def simp del: prim_simps split: sum.split intro: fail fail1 saved)
  then show ?thesis by (simp only: Q_def)
qed

lemma pulled_wp:
  assumes "get_task i (wd_db v) = Inr y" "same_core t y" "same_core t t1"
  shows "wp (bnd (if D = PullRemote then adopt_remote env snap t1 else ret t1) (\<lambda>t2.
       bnd (mirror_inbound env i canonical rid nid t2) (\<lambda>(t3, messages). ret (g t3 messages))))
     (\<lambda>r w'. \<exists>x. get_task i (wd_db w') = Inr x \<and> (same_core t x \<or> kept_before t (wd_db w')) \<and>
        (isl r \<or> (if D = PullRemote then adopts snap t x \<and> patch_is_empty (diff_against_baseline x) else same_core t x))) v"
    (is "wp _ ?Q v")
proof -
  define Q where "Q = ?Q"
  have i: "t_id t = i" "t_id t1 = i" using get_task_id [OF assms(1)] assms(2,3) by (simp_all add: same_core_def)
  have y1: "same_core t1 y" using assms(2,3) by (simp add: same_core_def)
  have kept: "kept_before t d" if "kept_before t1 d" for d using that assms(3) by (simp add: kept_before_def same_core_def)
  have core: "same_core t x" if "same_core t1 x" for x using assms(3) that by (rule same_core_trans)
  have tail: "wp (bnd (mirror_inbound env i canonical rid nid t2) (\<lambda>(t3, messages). ret (g t3 messages))) Q u"
    if "get_task i (wd_db u) = Inr z" "same_core t2 z" "t_id t2 = i"
      and "D = PullRemote \<Longrightarrow> kept_before t1 (wd_db u) \<and> adopts snap t1 t2 \<and> patch_is_empty (diff_against_baseline z)"
      and "D \<noteq> PullRemote \<Longrightarrow> t2 = t1" for t2 u z
    unfolding wp_bnd
  proof (rule wp_conseq [OF mirror_inbound_wp [OF that(1-3)]])
    fix r :: "sync_error + task \<times> sync_notice list" and w' :: world assume "grows (wd_db u) (wd_db w') \<and> (\<exists>x. get_task i (wd_db w') = Inr x \<and> same_core t2 x \<and>
        (patch_is_empty (diff_against_baseline z) \<longrightarrow> patch_is_empty (diff_against_baseline x)))"
    then obtain x where x: "grows (wd_db u) (wd_db w')" "get_task i (wd_db w') = Inr x" "same_core t2 x"
      "patch_is_empty (diff_against_baseline z) \<longrightarrow> patch_is_empty (diff_against_baseline x)" by blast
    have "adopts snap t x" if "adopts snap t1 t2" using that x(3) assms(3) by (simp add: adopts_def same_core_def)
    then have "Q r' w'" for r' using that(4,5) x kept_before_grows [OF _ x(1)] kept core by (cases "D = PullRemote") (auto simp: Q_def)
    then show "case r of Inl e \<Rightarrow> Q (Inl e) w' | Inr x \<Rightarrow> wp (case x of (t3, messages) \<Rightarrow> ret (g t3 messages)) Q w'"
      by (auto simp: wp_simps split: sum.split prod.split simp del: prim_simps)
  qed
  have "wp (bnd (if D = PullRemote then adopt_remote env snap t1 else ret t1) (\<lambda>t2.
       bnd (mirror_inbound env i canonical rid nid t2) (\<lambda>(t3, messages). ret (g t3 messages)))) Q v"
  proof (cases "D = PullRemote")
    case True
    show ?thesis
      unfolding if_P [OF True] wp_bnd [of "adopt_remote _ _ _"]
    proof (rule wp_conseq [OF adopt_remote_wp [OF _ y1]], goal_cases)
      case 1
      then show ?case using assms(1) i by simp
    next
      case (2 r u)
      show ?case
      proof (cases r)
        case (Inl e)
        with 2 i core show ?thesis by (auto simp: Q_def)
      next
        case (Inr t2)
        with 2 i obtain z where z: "kept_before t1 (wd_db u)" "adopts snap t1 t2" "get_task i (wd_db u) = Inr z" "same_core t2 z"
          "patch_is_empty (diff_against_baseline z)" by auto
        have "t_id t2 = i" using z(2) i by (simp add: adopts_def)
        from tail [OF z(3,4) this] z True show ?thesis unfolding Inr sum.case by blast
      qed
    qed
  next
    case False
    then show ?thesis using tail [OF assms(1) y1 i(2)] by simp
  qed
  then show ?thesis by (simp only: Q_def)
qed

text \<open>C5 A pull never loses local content: however it ends, the stored task still has the content it had, or
  the history holds a \<open>PrePull\<close> snapshot of exactly that content.  A pull that succeeds after
  deciding for the remote leaves the task \<open>Synced\<close> with the remote's title, body, assignees and open
  state and with nothing to push; on any other decision the content and the sync state are kept.\<close>

theorem pull_loses_nothing:
  assumes "pull_inner env s force w = (r, w')" "env_parse_uuid env s = Some i" "get_task i (wd_db w) = Inr t"
  shows "\<exists>x. get_task i (wd_db w') = Inr x \<and> (same_core t x \<or> kept_before t (wd_db w')) \<and>
    (\<forall>sum canonical rr snap. r = Inr sum \<and> sync_filing_canonical (wd_cat w) t = Inr canonical \<and> t_remote t = Some rr \<and>
       fetch_remote env (wd_tick w) canonical (rr_remote_id rr) = Inr snap \<longrightarrow>
       (if pull_decision force snap t = PullRemote then adopts snap t x \<and> patch_is_empty (diff_against_baseline x)
        else same_core t x))"
proof -
  define Q where "Q = (\<lambda>(r :: sync_error + sync_summary) (w' :: world).
    \<exists>x. get_task i (wd_db w') = Inr x \<and> (same_core t x \<or> kept_before t (wd_db w')) \<and>
    (\<forall>sum canonical rr snap. r = Inr sum \<and> sync_filing_canonical (wd_cat w) t = Inr canonical \<and> t_remote t = Some rr \<and>
       fetch_remote env (wd_tick w) canonical (rr_remote_id rr) = Inr snap \<longrightarrow>
       (if pull_decision force snap t = PullRemote then adopts snap t x \<and> patch_is_empty (diff_against_baseline x)
        else same_core t x)))"
  have i: "t_id t = i" using get_task_id [OF assms(3)] .
  have fail: "Q (Inl e) u" if "in_place i (wd_db w) (wd_db u)" for e u
    using in_place_task [OF that assms(3) same_core_refl] by (auto simp: Q_def)
  have stage: "wp (bnd (if D = PullRemote then adopt_remote env snap t1 else ret t1) (\<lambda>t2.
       bnd (mirror_inbound env i canonical (rr_remote_id rr) nid t2) (\<lambda>(t3, messages). ret (g t3 messages)))) Q u"
    if "in_place i (wd_db w) (wd_db u)" "same_core t t1" "t_remote t = Some rr" "sync_filing_canonical (wd_cat w) t = Inr canonical"
      "fetch_remote env (wd_tick w) canonical (rr_remote_id rr) = Inr snap" "D = pull_decision force snap t"
    for D snap t1 canonical rr nid g u
  proof -
    from in_place_task [OF that(1) assms(3) same_core_refl] obtain y where y: "get_task i (wd_db u) = Inr y" "same_core t y" by blast
    show ?thesis
      by (rule wp_conseq [OF pulled_wp [OF y that(2)]]) (use that(3-6) in \<open>auto simp: Q_def split: sum.splits\<close>)
  qed
  let ?t1 = "\<lambda>nid. case nid of None \<Rightarrow> t | Some n \<Rightarrow> t\<lparr>t_remote := map_option (\<lambda>r. r\<lparr>rr_node_id := Some n\<rparr>) (t_remote t)\<rparr>"
  have t1: "pull_decision force snap (?t1 nid) = pull_decision force snap t" "same_core t (?t1 nid)" for snap nid
    by (simp_all add: pull_decision_def same_core_def split: option.split)
  have "wp (pull_inner env s force) Q w"
  proof (cases "t_remote t")
    case None
    then show ?thesis by (simp add: pull_inner_def wp_simps assms(2,3) ensure_not_archived_def remote_of_def fail in_place_refl split: sum.split)
  next
    case (Some rr)
    show ?thesis
      unfolding pull_inner_def Let_def
        wp_bnd [of "sync_id _ _"] wp_bnd [of "tasks_get _"] wp_bnd [of "query _"] wp_bnd [of "call _ _"]
        wp_bnd [of "timestamp_now _"] wp_bnd [of "modify_db _"] wp_ports wp_prims wp_timestamp_now
      using Some by (cases "t_lifecycle t = NotPlanned")
        (simp_all add: assms(2,3) ensure_not_archived_def remote_of_def sync_port_def fail in_place_refl in_place_columns t1 stage
          split: sum.split split del: if_split del: prim_simps)
  qed
  with assms(1) show ?thesis by (simp add: wp_def Q_def)
qed

theorem pull_loses_nothing_witness:
  "\<exists>x r w'. pull_inner sync_env [] True (sync_world (linked_mirror\<lparr>t_sync := DirtyRemote\<rparr>)) = (r, w') \<and>
     get_task (t_id sample_mirror) (wd_db w') = Inr x \<and>
     (t_title x = t_title sample_mirror \<or>
      (\<exists>p \<in> set (list_snapshots (t_id sample_mirror) (wd_db w')). s_source p = SrcPrePull \<and> s_title p = t_title sample_mirror))"
proof -
  let ?w = "sync_world (linked_mirror\<lparr>t_sync := DirtyRemote\<rparr>)"
  obtain y where y: "get_task (t_id sample_mirror) (wd_db ?w) = Inr y" "same_record (linked_mirror\<lparr>t_sync := DirtyRemote\<rparr>) y"
    using linked_world [OF refl] by blast
  obtain r w' where run: "pull_inner sync_env [] True ?w = (r, w')" by force
  from pull_loses_nothing [OF run sync_env_simps(1) y(1)] obtain x where
    "get_task (t_id sample_mirror) (wd_db w') = Inr x" "same_core y x \<or> kept_before y (wd_db w')" by blast
  moreover have "t_title y = t_title sample_mirror" "t_id y = t_id sample_mirror"
    using y(2) by (simp_all add: same_record_def linked_mirror_def)
  ultimately show ?thesis using run unfolding same_core_def kept_before_def by metis
qed

section \<open>Transfer\<close>

lemma recorded_filing_wins:
  assumes "t_filing_repo_id x = Some f" "get_origin f c = Inr orig"
  shows "sync_filing_canonical c x = Inr (ro_canonical_url orig)"
proof -
  have "\<exists>z. found (get_workspace j c) = Inr z" "\<exists>z. found (get_binding k c) = Inr z" for j k
    by (auto simp: found_def get_workspace_def get_binding_def split: option.splits)
  then show ?thesis
    by (auto simp: sync_filing_canonical_def filing_canonical_for_def instance_origin_tolerant_def assms resolve_filing_repo_def or_else_def
        origin_canonical_def and_then_def sync_port_def split: option.splits sum.splits) (metis sum.distinct(1))+
qed

definition is_transfer :: "remote_call \<Rightarrow> bool" where
  "is_transfer c \<longleftrightarrow> (\<exists>node dst. c = CallTransferIssue node dst)"

text \<open>The task after its issue moved to another repository: identical but for the filing repository, the
  remote identity, the board item it loses there, and the edit stamp; \<open>Synced\<close> against a fresh baseline.\<close>

definition moved :: "repo_origin_id \<Rightarrow> remote_ref \<Rightarrow> task \<Rightarrow> task \<Rightarrow> bool" where
  "moved origin rr t x \<longleftrightarrow> t_sync x = Synced \<and> patch_is_empty (diff_against_baseline x) \<and>
     (\<exists>now. same_record (t\<lparr>t_remote := Some rr, t_filing_repo_id := Some origin, t_project_item_id := None, t_updated_at := now\<rparr>) x)"

text \<open>The tables once the move is recorded: the task's row, no other task, and the board entry owed for
  the issue's new identity.\<close>

definition refiled :: "catalog \<Rightarrow> repo_origin_id \<Rightarrow> remote_ref \<Rightarrow> task \<Rightarrow> db \<Rightarrow> db \<Rightarrow> bool" where
  "refiled c origin rr t d d' \<longleftrightarrow> (\<exists>x. get_task (t_id t) d' = Inr x \<and> moved origin rr t x) \<and>
     (\<forall>j. j \<noteq> t_id t \<longrightarrow> get_task j d' = get_task j d) \<and>
     (\<exists>ws proj es. get_workspace (t_workspace_id t) c = Inr ws \<and> project_for_workspace c ws = Inr proj \<and>
        db_outbox d' = db_outbox d @ es \<and>
        map (\<lambda>e. (e_task_id e, e_mutation e)) es =
          (case proj of None \<Rightarrow> [] | Some p \<Rightarrow> [(t_id t, AddItem (p_id p) (the (rr_node_id rr)))]))"

text \<open>The node id a transfer uses: the recorded one, or else the one a fetch of the issue returns.\<close>

definition issue_node :: "env \<Rightarrow> nat \<Rightarrow> rstring \<Rightarrow> remote_ref \<Rightarrow> rstring \<Rightarrow> remote_call list \<Rightarrow> bool" where
  "issue_node env k current rr node cs \<longleftrightarrow>
     (case rr_node_id rr of
        Some n \<Rightarrow> node = n \<and> cs = []
      | None \<Rightarrow> cs = [CallFetchRemote current (rr_remote_id rr)] \<and>
          (\<exists>snap. fetch_remote env k current (rr_remote_id rr) = Inr snap \<and> rs_node_id snap = Some node))"

definition move_result :: "env \<Rightarrow> rstring \<Rightarrow> rstring \<Rightarrow> repo_origin_id \<Rightarrow> remote_ref \<Rightarrow> task \<Rightarrow> world \<Rightarrow> sync_error + 'a \<Rightarrow> world \<Rightarrow> bool" where
  "move_result env current dst origin rr t v r w' \<longleftrightarrow> (\<exists>cs. wd_calls w' = wd_calls v @ cs \<and>
     (if list_ex is_transfer cs
      then \<exists>node pre. issue_node env (wd_tick v) current rr node pre \<and> cs = pre @ [CallTransferIssue node dst] \<and>
        (case r of Inl _ \<Rightarrow> wd_db w' = wd_db v
         | Inr _ \<Rightarrow> \<exists>new_node num. transfer_issue env (wd_tick v + length pre) node dst = Inr (new_node, num) \<and>
             refiled (wd_cat v) origin ((remote_ref_new (rr_provider rr) (show_nat num))\<lparr>rr_node_id := Some new_node\<rparr>) t (wd_db v) (wd_db w'))
      else isl r \<and> wd_db w' = wd_db v))"

lemma refiled_saved:
  assumes "save_with_outbox cap x SrcLink es d = Inr d'" "t_sync x = Synced" "es = planned_entries env (t_id t) k ms"
    and "x = t\<lparr>t_remote := Some rr, t_filing_repo_id := Some origin, t_project_item_id := None, t_updated_at := now\<rparr>"
    "get_workspace (t_workspace_id t) c = Inr ws" "project_for_workspace c ws = Inr proj" "rr_node_id rr = Some n"
    "ms = (case proj of None \<Rightarrow> [] | Some p \<Rightarrow> [AddItem (p_id p) n])"
  shows "refiled c origin rr t d d'"
proof -
  have id: "t_id x = t_id t" by (simp add: assms(4))
  obtain d1 where d1: "save_task cap x SrcLink d = Inr d1" "d' = insert_entries es d1"
    using assms(1) by (auto simp: save_with_outbox_def save_task_def split: sum.splits)
  obtain y where y: "get_task (t_id t) d' = Inr y" "same_record x y" "patch_is_empty (diff_against_baseline y)"
    using save_with_outbox_stored [OF assms(1)] assms(2) by (auto simp: makes_baseline_def id)
  have "get_task j d' = get_task j d" if "j \<noteq> t_id t" for j
    using get_save_task_other [OF d1(1), of j] that by (simp add: id d1(2))
  moreover have "moved origin rr t y" using y(2,3) assms(2) by (auto simp: moved_def same_record_def assms(4))
  moreover have "db_outbox d' = db_outbox d @ es"
    using save_task_outbox [OF d1(1)]
    by (auto simp: d1(2) insert_entries_def assms(3,8) planned_entries_def insert_outbox_in_tx_def outbox_entry_new_def lit_def
        split: option.split)
  moreover have "map (\<lambda>e. (e_task_id e, e_mutation e)) es = (case proj of None \<Rightarrow> [] | Some p \<Rightarrow> [(t_id t, AddItem (p_id p) n)])"
    by (auto simp: assms(3,8) planned_entries_def outbox_entry_new_def split: option.split)
  ultimately show ?thesis using y(1) assms(5-7) by (cases proj) (auto simp: refiled_def)
qed

lemma move_issue_result:
  assumes "t_sync t = Synced"
  shows "wp (move_issue env current dst origin rr t) (move_result env current dst origin rr t v) v"
proof -
  let ?Q = "move_result env current dst origin rr t v"
  let ?rr = "\<lambda>node num. (remote_ref_new (rr_provider rr) (show_nat num))\<lparr>rr_node_id := Some node\<rparr>"
  let ?x = "\<lambda>node num now. (force_set_filing_repo_id now (Some origin) (t\<lparr>t_remote := Some (?rr node num)\<rparr>))\<lparr>t_project_item_id := None\<rparr>"
  have x: "?x node num now = t\<lparr>t_remote := Some (?rr node num), t_filing_repo_id := Some origin, t_project_item_id := None,
      t_updated_at := if t_filing_repo_id t = Some origin then t_updated_at t else now\<rparr>" for node num now
    by (cases t) (simp add: force_set_filing_repo_id_def touch_def)
  have xs: "t_workspace_id (?x node num now) = t_workspace_id t" "t_id (?x node num now) = t_id t"
    "t_sync (?x node num now) = Synced" for node num now
    using assms by (simp_all add: force_set_filing_repo_id_def touch_def)
  have saved: "refiled (wd_cat v) origin (?rr node num) t (wd_db v) d'"
    if "save_with_outbox cap (?x node num now) SrcLink (planned_entries env (t_id t) k
        (case proj of None \<Rightarrow> [] | Some p \<Rightarrow> [AddItem (p_id p) node])) (wd_db v) = Inr d'"
      "get_workspace (t_workspace_id t) (wd_cat v) = Inr ws" "project_for_workspace (wd_cat v) ws = Inr proj"
    for node num now cap k proj ws d'
    by (rule refiled_saved [OF that(1) xs(3) refl x that(2,3) _ refl]) (simp add: remote_ref_new_def)
  have fail: "?Q (Inl e) u" if "wd_db u = wd_db v" "wd_calls u = wd_calls v @ cs" "\<not> list_ex is_transfer cs" for e u cs
    using that by (auto simp: move_result_def)
  have after: "wp (bnd (call (CallTransferIssue node dst) (\<lambda>k. transfer_issue env k node dst)) (\<lambda>(new_node, new_number).
     bnd (timestamp_now env) (\<lambda>now.
     bnd (workspaces_get (t_workspace_id (?x new_node new_number now))) (\<lambda>ws.
     bnd (query (\<lambda>w. sync_port (project_for_workspace (wd_cat w) ws))) (\<lambda>proj.
     bnd (into_entries env (t_id (?x new_node new_number now)) (case proj of None \<Rightarrow> [] | Some p \<Rightarrow> [AddItem (p_id p) new_node])) (\<lambda>entries.
     bnd (commit env (\<lambda>cap. save_with_outbox cap (?x new_node new_number now) SrcLink entries)) (\<lambda>_.
       ret (g new_node new_number now)))))))) ?Q u"
    if u: "wd_db u = wd_db v" "wd_cat u = wd_cat v" "wd_calls u = wd_calls v @ pre" "wd_tick u = wd_tick v + length pre"
      "issue_node env (wd_tick v) current rr node pre" for node u pre g
  proof -
    have moved: "?Q r u'" if "wd_calls u' = wd_calls v @ (pre @ [CallTransferIssue node dst])"
      "case r of Inl _ \<Rightarrow> wd_db u' = wd_db v
       | Inr _ \<Rightarrow> \<exists>new_node num. transfer_issue env (wd_tick v + length pre) node dst = Inr (new_node, num) \<and>
           refiled (wd_cat v) origin (?rr new_node num) t (wd_db v) (wd_db u')" for r u'
      unfolding move_result_def
      by (intro exI [of _ "pre @ [CallTransferIssue node dst]"]) (use that u(5) in \<open>auto simp: is_transfer_def\<close>)
    show ?thesis
      unfolding wp_bnd [of "call _ _"] wp_ports sync_port_def
      using u(1-4)
      by (auto simp: wp_simps xs sync_port_def called_def simp del: prim_simps split: sum.split intro!: moved intro: saved)
  qed
  show ?thesis
  proof (cases "rr_node_id rr")
    case (Some node)
    then show ?thesis
      unfolding move_issue_def transfer_node_id_def Let_def Some option.case wp_bnd [of "ret _"] wp_prims sum.case
      by (intro after [of _ "[]"]) (simp_all add: issue_node_def Some)
  next
    case None
    let ?c = "CallFetchRemote current (rr_remote_id rr)"
    have c: "wd_db (called ?c v) = wd_db v" "wd_calls (called ?c v) = wd_calls v @ [?c]" "\<not> list_ex is_transfer [?c]"
      by (simp_all add: called_def is_transfer_def)
    show ?thesis
    proof (cases "fetch_remote env (wd_tick v) current (rr_remote_id rr)")
      case (Inl e)
      then show ?thesis
        using fail [OF c] by (simp add: move_issue_def transfer_node_id_def None wp_bnd wp_ports)
    next
      case (Inr snap)
      show ?thesis
      proof (cases "rs_node_id snap")
        case None
        then show ?thesis
          using fail [OF c] Inr \<open>rr_node_id rr = None\<close>
          by (simp add: move_issue_def transfer_node_id_def wp_bnd wp_ports wp_prims)
      next
        case (Some node)
        have "issue_node env (wd_tick v) current rr node [?c]"
          using Some Inr \<open>rr_node_id rr = None\<close> by (simp add: issue_node_def)
        with c(1,2) show ?thesis
          unfolding move_issue_def transfer_node_id_def Let_def \<open>rr_node_id rr = None\<close> option.case wp_bnd [of "bnd _ _"]
            wp_bnd [of "call (CallFetchRemote _ _) _"] wp_ports Inr sync_port_simps sum.case Some wp_prims
          by (intro after [of _ "[?c]"]) (simp_all add: called_def)
      qed
    qed
  qed
qed


text \<open>C18 A transfer is guarded: an issue is moved at most once, and only for a task that is not archived, is
  \<open>Synced\<close>, has a remote, owes the queue nothing and is filed elsewhere, into a repository attached to
  its workspace, and only after the remote has answered that the issue was not moved before; the node
  sent is the recorded one, or the one just fetched.  A transfer that succeeds stores exactly the new
  filing repository and the identity the call returned, takes the task off the board, keeps
  everything else of it and every other task, and owes the board of the workspace the issue's new node;
  without a transfer call a success means that the task was already filed there, and nothing is written.
  One that fails changes no table, even after the call.\<close>

theorem transfer_guarded:
  assumes "sy_transfer env s dst w = (r, w')" "env_parse_uuid env s = Some i" "get_task i (wd_db w) = Inr t"
  shows "\<exists>calls. wd_calls w' = wd_calls w @ calls \<and>
    (if list_ex is_transfer calls
     then \<exists>rr current inst origin node pre.
       t_lifecycle t \<noteq> NotPlanned \<and> t_sync t = Synced \<and> list_pending i (db_outbox (wd_db w)) = [] \<and>
       t_remote t = Some rr \<and> find_by_canonical_url (t_workspace_id t) dst (wd_cat w) = Some (inst, origin) \<and>
       sync_filing_canonical (wd_cat w) t = Inr current \<and> current \<noteq> dst \<and>
       discover_move_target env (wd_tick w) current (rr_remote_id rr) = Inr None \<and>
       issue_node env (Suc (wd_tick w)) current rr node pre \<and>
       calls = CallDiscoverMove current (rr_remote_id rr) # pre @ [CallTransferIssue node dst] \<and>
       (case r of Inl _ \<Rightarrow> wd_db w' = wd_db w
        | Inr _ \<Rightarrow> \<exists>new_node num. transfer_issue env (Suc (wd_tick w) + length pre) node dst = Inr (new_node, num) \<and>
            refiled (wd_cat w) (ro_id origin) ((remote_ref_new (rr_provider rr) (show_nat num))\<lparr>rr_node_id := Some new_node\<rparr>) t
              (wd_db w) (wd_db w'))
     else wd_db w' = wd_db w \<and> (\<forall>z. r = Inr z \<longrightarrow> sync_filing_canonical (wd_cat w) t = Inr dst))"
  (is "?Q r w'")
proof -
  define Q where "Q = ?Q"
  have none: "Q r u" if "wd_db u = wd_db w" "wd_calls u = wd_calls w @ cs" "\<not> list_ex is_transfer cs"
    "\<forall>z. r = Inr z \<longrightarrow> sync_filing_canonical (wd_cat w) t = Inr dst" for r u cs
    using that by (auto simp: Q_def)
  note quiet = none [where cs = "[]", simplified]
  have move: "wp (move_issue env current dst (ro_id origin) rr t) Q (called (CallDiscoverMove current (rr_remote_id rr)) w)"
    if "t_lifecycle t \<noteq> NotPlanned" "t_sync t = Synced" "list_pending i (db_outbox (wd_db w)) = []" "t_remote t = Some rr"
      "find_by_canonical_url (t_workspace_id t) dst (wd_cat w) = Some (inst, origin)" "sync_filing_canonical (wd_cat w) t = Inr current"
      "current \<noteq> dst" "discover_move_target env (wd_tick w) current (rr_remote_id rr) = Inr None" for current origin rr inst
  proof (rule wp_conseq [OF move_issue_result [OF that(2)]], goal_cases)
    case (1 r w')
    let ?c = "CallDiscoverMove current (rr_remote_id rr)"
    have v: "wd_db (called ?c w) = wd_db w" "wd_cat (called ?c w) = wd_cat w" "wd_tick (called ?c w) = Suc (wd_tick w)"
      "wd_calls (called ?c w) @ xs = wd_calls w @ (?c # xs)" for xs
      by (simp_all add: called_def)
    from 1 obtain cs where cs: "wd_calls w' = wd_calls w @ (?c # cs)" "if list_ex is_transfer cs
      then \<exists>node pre. issue_node env (Suc (wd_tick w)) current rr node pre \<and> cs = pre @ [CallTransferIssue node dst] \<and>
        (case r of Inl _ \<Rightarrow> wd_db w' = wd_db w
         | Inr _ \<Rightarrow> \<exists>new_node num. transfer_issue env (Suc (wd_tick w) + length pre) node dst = Inr (new_node, num) \<and>
             refiled (wd_cat w) (ro_id origin) ((remote_ref_new (rr_provider rr) (show_nat num))\<lparr>rr_node_id := Some new_node\<rparr>) t
               (wd_db w) (wd_db w'))
      else isl r \<and> wd_db w' = wd_db w"
      unfolding move_result_def v by blast
    show ?case
    proof (cases "list_ex is_transfer cs")
      case True
      with cs(2) that show ?thesis unfolding Q_def
        by (intro exI [of _ "?c # cs"] conjI cs(1)) (auto simp: is_transfer_def)
    next
      case False
      with cs show ?thesis by (intro none [of _ "?c # cs"]) (auto simp: is_transfer_def)
    qed
  qed
  have guard: "wp (bnd (transfer_guard env i current (rr_remote_id rr)) (\<lambda>_. move_issue env current dst (ro_id origin) rr t)) Q w"
    if "t_lifecycle t \<noteq> NotPlanned" "t_sync t = Synced" "t_remote t = Some rr"
      "find_by_canonical_url (t_workspace_id t) dst (wd_cat w) = Some (inst, origin)"
      "sync_filing_canonical (wd_cat w) t = Inr current" "current \<noteq> dst" for current origin rr inst
  proof -
    let ?c = "CallDiscoverMove current (rr_remote_id rr)"
    have c: "wd_db (called ?c w) = wd_db w" "wd_calls (called ?c w) = wd_calls w @ [?c]" "\<not> list_ex is_transfer [?c]"
      by (simp_all add: called_def is_transfer_def)
    show ?thesis
      unfolding transfer_guard_def wp_bnd [of "bnd _ _"] wp_bnd [of "reads _"] wp_bnd [of "call _ _"] wp_ports wp_prims wp_if sum.case sync_port_def
      using none [OF c, of "Inl e" for e] move [OF that(1,2) _ that(3-6)] quiet [of w "Inl e" for e]
      by (auto simp: wp_prims wp_bnd wp_ports sync_port_def split: sum.split option.split simp del: prim_simps)
  qed
  have "wp (sy_transfer env s dst) Q w"
  proof (cases "t_remote t")
    case None
    then show ?thesis by (simp add: sy_transfer_def wp_simps assms(2,3) ensure_not_archived_def remote_of_def quiet)
  next
    case (Some rr)
    then show ?thesis
      unfolding sy_transfer_def
      by (simp add: wp_bnd [of "sync_id _ _"] wp_bnd [of "tasks_get _"] wp_bnd [of "query _"] wp_bnd [of "reads _"] wp_ports wp_prims
          assms(2,3) ensure_not_archived_def remote_of_def quiet guard split: sum.split option.split prod.split del: prim_simps)
  qed
  with assms(1) show ?thesis by (simp add: wp_def Q_def)
qed


text \<open>The sample task with a second repository attached to its workspace.\<close>

definition two_repo_world :: world where
  "two_repo_world = (sync_world (linked_mirror\<lparr>t_sync := Synced\<rparr>))\<lparr>wd_cat := sync_catalog\<lparr>
     cat_instances := cat_instances sync_catalog @ [\<lparr>ri_id = 5, ri_workspace_id = t_workspace_id sample_mirror, ri_origin_id = 10,
       ri_tracked_branch = None, ri_canonical_url = lit ''github.com/o/s'', ri_worktrees = [], ri_created_at = 0, ri_updated_at = 0\<rparr>],
     cat_origins := cat_origins sync_catalog @ [\<lparr>ro_id = 10, ro_canonical_url = lit ''github.com/o/s'', ro_remote_url = [], ro_name = lit ''s'',
       ro_aliases = [], ro_prefix = lit ''s'', ro_created_at = 0, ro_updated_at = 0\<rparr>]\<rparr>\<rparr>"

theorem transfer_guarded_witness:
  "\<exists>z w' x. sy_transfer sync_env [] (lit ''github.com/o/s'') two_repo_world = (Inr z, w') \<and>
     get_task (t_id sample_mirror) (wd_db w') = Inr x \<and> t_filing_repo_id x = Some 10 \<and> t_sync x = Synced \<and>
     map_option rr_remote_id (t_remote x) = Some (lit ''8'')"
proof -
  let ?u = "linked_mirror\<lparr>t_sync := Synced\<rparr>" and ?c = "wd_cat two_repo_world" and ?d = "wd_db two_repo_world"
    and ?dst = "lit ''github.com/o/s''"
  have d: "?d = wd_db (sync_world ?u)" by (simp add: two_repo_world_def)
  obtain y where y: "get_task (t_id sample_mirror) ?d = Inr y" "same_record ?u y"
    "t_remote y = Some ((remote_ref_new (lit ''github'') (lit ''7''))\<lparr>rr_node_id := Some (lit ''I_7'')\<rparr>)"
    unfolding d using linked_world [OF refl] by blast
  have id: "t_id y = t_id sample_mirror" by (rule get_task_id [OF y(1)])
  have f: "t_workspace_id y = t_workspace_id sample_mirror" "t_filing_repo_id y = Some 9" "t_repo_id y = Some 4" "t_relations y = []"
    "t_sync y = Synced"
    using y(2) by (simp_all add: same_record_def linked_mirror_def sample_simps)
  obtain inst origin where b: "find_by_canonical_url (t_workspace_id y) ?dst ?c = Some (inst, origin)" "ro_id origin = 10"
    by (simp add: f two_repo_world_def sync_catalog_def find_by_canonical_url_def List.map_filter_def first_opt_def)
  have c: "sync_filing_canonical ?c y = Inr (lit ''github.com/o/r'')"
  proof -
    have "get_origin 9 ?c = Inr (hd (cat_origins ?c))" by (simp add: two_repo_world_def sync_catalog_def get_origin_def)
    from recorded_filing_wins [OF f(2) this] show ?thesis by (simp add: two_repo_world_def sync_catalog_def)
  qed
  have ws: "get_workspace (t_workspace_id y) ?c = Inr (sample_workspace None)" "project_for_workspace ?c (sample_workspace None) = Inr None"
    by (simp_all add: f two_repo_world_def sync_catalog_def get_workspace_def sample_workspace_def workspace_new_def project_for_workspace_def)
  have pending: "db_outbox ?d = []"
    unfolding d by (auto simp: sync_world_def empty_db_def split: sum.split dest: save_task_outbox)
  have solo: "solo_db (t_id sample_mirror) ?d"
  proof -
    have "t_relations ?u = []" "t_id ?u = t_id sample_mirror" by (simp_all add: linked_mirror_def sample_simps)
    then obtain d where "save_task 5 ?u SrcPull empty_db = Inr d" "solo_db (t_id sample_mirror) d"
      using save_solo [of ?u empty_db 5 SrcPull] solo_empty_db by metis
    then show ?thesis by (simp add: d sync_world_def)
  qed
  have stored: "\<exists>d. save_task cap (y\<lparr>t_remote := m, t_filing_repo_id := o', t_updated_at := now, t_project_item_id := it\<rparr>) SrcLink ?d = Inr d"
    for cap m o' now and it :: "rstring option"
    using save_solo [of "y\<lparr>t_remote := m, t_filing_repo_id := o', t_updated_at := now, t_project_item_id := it\<rparr>" ?d cap SrcLink] solo f(4) id
    by auto
  have save: "save_with_outbox cap (y\<lparr>t_remote := m, t_filing_repo_id := o', t_updated_at := now, t_project_item_id := it\<rparr>) SrcLink es ?d \<noteq> Inl e"
    for cap m o' now es e and it :: "rstring option"
    using stored [of cap it now o' m] by (auto simp: save_with_outbox_def save_task_def)
  have live: "t_lifecycle y \<noteq> NotPlanned" using y(2) by (simp add: same_record_def linked_mirror_def sample_simps)
  have env: "discover_move_target sync_env k cu rid = Inr None" "transfer_issue sync_env k node cu = Inr (lit ''I_8'', 8)" for k cu rid node
    by (simp_all add: sync_env_def)
  have "wp (sy_transfer sync_env [] ?dst) (\<lambda>r w'. \<exists>z. r = Inr z) two_repo_world"
    unfolding sy_transfer_def transfer_guard_def move_issue_def transfer_node_id_def Let_def
    by (auto simp: wp_simps sync_env_simps y(1,3) b(1) [unfolded f(1), simplified] c [simplified] ws [unfolded f(1)] pending list_pending_def remote_of_def ensure_not_archived_def f
        live env b(2) called_def force_set_filing_repo_id_def touch_def save split: sum.splits simp del: prim_simps)
  then obtain z w' where run: "sy_transfer sync_env [] ?dst two_repo_world = (Inr z, w')" by (auto simp: wp_def)
  have "sync_filing_canonical ?c y \<noteq> Inr ?dst" by (simp add: c)
  with transfer_guarded [OF run sync_env_simps(1) y(1)] run obtain origin' node k new_node num inst' where
    "find_by_canonical_url (t_workspace_id y) ?dst ?c = Some (inst', origin')"
    and "transfer_issue sync_env k node ?dst = Inr (new_node, num)"
    and "refiled ?c (ro_id origin') ((remote_ref_new (lit ''github'') (show_nat num))\<lparr>rr_node_id := Some new_node\<rparr>) y ?d (wd_db w')"
    using y(3) by (auto simp: remote_ref_new_def split: if_splits)
  with b env obtain x where "get_task (t_id sample_mirror) (wd_db w') = Inr x"
    "moved 10 ((remote_ref_new (lit ''github'') (show_nat 8))\<lparr>rr_node_id := Some new_node\<rparr>) y x"
    by (auto simp: refiled_def id)
  with run show ?thesis
    by (auto simp: moved_def same_record_def remote_ref_new_def show_nat.simps [of 8])
qed

section \<open>Link\<close>

text \<open>What a successful link stores.\<close>

definition linked :: "bool \<Rightarrow> repo_id \<Rightarrow> rstring \<Rightarrow> task \<Rightarrow> task \<Rightarrow> bool" where
  "linked relink inst rid t x \<longleftrightarrow> t_repo_id x = Some inst \<and> (\<exists>rr. t_remote x = Some rr \<and> rr_remote_id rr = rid) \<and>
     t_sync x = (if relink then Synced else Conflict) \<and> t_filing_repo_id x = t_filing_repo_id t"

lemma saved_comments:
  assumes "save_task cap t2 SrcLink d = Inr d1"
  shows "\<exists>x. get_task (t_id t2) (replace_comments fresh (t_id t2) cs d1) = Inr x \<and> t_repo_id x = t_repo_id t2 \<and> t_remote x = t_remote t2 \<and>
    t_sync x = t_sync t2 \<and> t_filing_repo_id x = t_filing_repo_id t2"
proof -
  obtain y where y: "get_task (t_id t2) d1 = Inr y" "same_record t2 y" using get_save_task [OF assms] by blast
  from comments_only_task [OF comments_only_writes(2) y(1)] obtain x where
    "get_task (t_id t2) (replace_comments fresh (t_id t2) cs d1) = Inr x" "x\<lparr>t_comments := []\<rparr> = y\<lparr>t_comments := []\<rparr>" by blast
  with comments_apart [OF this(2)] y(2) show ?thesis by (auto simp: same_record_def)
qed

lemma link_tasks_wp:
  assumes "t_id t = i"
  shows "wp (relink_task env url rid inst t) (\<lambda>r w'. isl r \<or> (\<exists>y. get_task i (wd_db w') = Inr y \<and> linked True inst rid t y)) v"
    "wp (bare_link_task env url rid inst t) (\<lambda>r w'. isl r \<or> (\<exists>y. get_task i (wd_db w') = Inr y \<and> linked False inst rid t y)) v"
proof -
  have stored: "\<exists>y. get_task i (replace_comments fresh (t_id t2) cs d1) = Inr y \<and> linked relink inst rid t y"
    if "link_to_remote now inst rr (\<not> relink) t1 = Inr t2" "save_task cap t2 SrcLink d = Inr d1" "t_id t1 = i"
      "t_filing_repo_id t1 = t_filing_repo_id t" "rr_remote_id rr = rid" "relink \<Longrightarrow> t_sync t1 = Synced"
    for now rr t1 t2 cap d d1 fresh cs relink
  proof -
    have "t_id t2 = i" "t_repo_id t2 = Some inst" "t_remote t2 = Some rr" "t_filing_repo_id t2 = t_filing_repo_id t"
      "t_sync t2 = (if relink then Synced else Conflict)"
      using that by (auto simp: link_to_remote_def touch_def Let_def split: if_splits)
    with saved_comments [OF that(2), of fresh cs] that(5) show ?thesis by (auto simp: linked_def)
  qed
  have fail: "wp (verify_redirect env url rid t) (\<lambda>r w'. isl r \<or> t_sync t = Synced) v" for v
    unfolding verify_redirect_def by (auto simp: wp_simps split: sum.split option.split prod.split simp del: prim_simps)
  show "wp (relink_task env url rid inst t) (\<lambda>r w'. isl r \<or> (\<exists>y. get_task i (wd_db w') = Inr y \<and> linked True inst rid t y)) v"
    unfolding relink_task_def wp_bnd [of "verify_redirect _ _ _ _"]
    by (rule wp_conseq [OF fail])
      (use assms stored [where relink = True] in \<open>auto simp: wp_simps Let_def copy_inbound_mirror_from_snap_def remote_ref_new_def
         split: sum.splits simp del: prim_simps\<close>)
  show "wp (bare_link_task env url rid inst t) (\<lambda>r w'. isl r \<or> (\<exists>y. get_task i (wd_db w') = Inr y \<and> linked False inst rid t y)) v"
    unfolding bare_link_task_def
    using assms stored [where relink = False]
    by (auto simp: wp_simps remote_ref_new_def split: sum.splits port_error.splits simp del: prim_simps)
qed

text \<open>What a link changes and what it leaves: a link that succeeds and was not already in place points the
  task at the requested issue number and the attached repository, \<open>Conflict\<close> for a bare link and
  \<open>Synced\<close> for a verified relink.  The recorded filing repository is kept; since it wins over
  the logical one, later pushes and pulls of a task that has one are addressed to that
  repository, with the number of the new issue.\<close>

theorem link_keeps_filing_repo:
  assumes "sy_link env s url rid relink w = (Inr res, w')" "env_parse_uuid env s = Some i" "get_task i (wd_db w) = Inr t"
    "ss_decision res \<noteq> lit ''noop''"
  shows "\<exists>inst origin x rr. find_by_canonical_url (t_workspace_id t) url (wd_cat w) = Some (inst, origin) \<and> get_task i (wd_db w') = Inr x \<and>
    t_repo_id x = Some (ri_id inst) \<and> t_remote x = Some rr \<and> rr_remote_id rr = rid \<and>
    t_sync x = (if relink then Synced else Conflict) \<and> t_filing_repo_id x = t_filing_repo_id t \<and>
    (\<forall>f orig. t_filing_repo_id t = Some f \<and> get_origin f (wd_cat w) = Inr orig \<longrightarrow>
       sync_filing_canonical (wd_cat w) x = Inr (ro_canonical_url orig))"
proof -
  define Q where "Q = (\<lambda>(r :: sync_error + sync_summary) (w' :: world). \<forall>sum. r = Inr sum \<and> ss_decision sum \<noteq> lit ''noop'' \<longrightarrow>
    (\<exists>inst origin x. find_by_canonical_url (t_workspace_id t) url (wd_cat w) = Some (inst, origin) \<and> get_task i (wd_db w') = Inr x \<and>
       linked relink (ri_id inst) rid t x))"
  have i: "t_id t = i" using get_task_id [OF assms(3)] .
  have fail: "Q (Inl e) u" for e u by (simp add: Q_def)
  have noop: "Q (Inr (link_summary t p (lit ''noop'') None)) u" for p u
    by (simp add: Q_def link_summary_def summary_of_def)
  have re: "wp (bnd (relink_task env url rid (ri_id inst) t) (\<lambda>t'. ret (g t'))) Q w"
    if "relink" "find_by_canonical_url (t_workspace_id t) url (wd_cat w) = Some (inst, origin)" for inst origin g
    unfolding wp_bnd by (rule wp_conseq [OF link_tasks_wp(1) [OF i]]) (use that in \<open>auto simp: Q_def wp_prims split: sum.split simp del: prim_simps\<close>)
  have bare: "wp (bnd (bare_link_task env url rid (ri_id inst) t) (\<lambda>(t', note). ret (g t' note))) Q w"
    if "\<not> relink" "find_by_canonical_url (t_workspace_id t) url (wd_cat w) = Some (inst, origin)" for inst origin g
    unfolding wp_bnd by (rule wp_conseq [OF link_tasks_wp(2) [OF i]]) (use that in \<open>auto simp: Q_def wp_prims split: sum.split prod.split simp del: prim_simps\<close>)
  have "wp (sy_link env s url rid relink) Q w"
    unfolding sy_link_def
    by (simp add: wp_bnd [of "sync_id _ _"] wp_bnd [of "tasks_get _"] wp_bnd [of "reads _"] wp_ports wp_prims wp_if assms(2,3) fail noop
        split: sum.split option.split prod.split del: prim_simps) (auto intro: re bare noop [simplified])
  with assms(1,4) obtain inst origin x where x: "find_by_canonical_url (t_workspace_id t) url (wd_cat w) = Some (inst, origin)"
    "get_task i (wd_db w') = Inr x" "linked relink (ri_id inst) rid t x" by (auto simp: wp_def Q_def)
  moreover have "sync_filing_canonical (wd_cat w) x = Inr (ro_canonical_url orig)"
    if "t_filing_repo_id t = Some f" "get_origin f (wd_cat w) = Inr orig" for f orig
    using x(3) that by (intro recorded_filing_wins [of x f]) (simp_all add: linked_def)
  ultimately show ?thesis by (auto simp: linked_def)
qed

theorem link_keeps_filing_repo_witness:
  "\<exists>x res w'. sy_link sync_env [] (lit ''github.com/o/r'') (lit ''8'') False (sync_world (linked_mirror\<lparr>t_sync := Synced\<rparr>)) = (Inr res, w') \<and>
     get_task (t_id sample_mirror) (wd_db w') = Inr x \<and> t_filing_repo_id x = Some 9 \<and> t_sync x = Conflict"
proof -
  let ?t = "linked_mirror\<lparr>t_sync := Synced\<rparr>" and ?u = "lit ''github.com/o/r''"
  obtain y where y: "get_task (t_id sample_mirror) (wd_db (sync_world ?t)) = Inr y" "same_record ?t y"
    "t_remote y = Some ((remote_ref_new (lit ''github'') (lit ''7''))\<lparr>rr_node_id := Some (lit ''I_7'')\<rparr>)"
    using linked_world [OF refl] by blast
  have ws: "t_workspace_id y = t_workspace_id sample_mirror" "t_filing_repo_id y = Some 9" "t_relations y = []"
    using y(2) by (simp_all add: same_record_def linked_mirror_def sample_simps)
  have "\<exists>b. find_by_canonical_url (t_workspace_id y) ?u (wd_cat (sync_world ?t)) = Some b"
    by (simp add: ws sync_world_def sync_catalog_def find_by_canonical_url_def List.map_filter_def first_opt_def)
  then obtain b where b: "find_by_canonical_url (t_workspace_id y) ?u (wd_cat (sync_world ?t)) = Some b" by blast
  have solo: "solo_db (t_id sample_mirror) (wd_db (sync_world ?t))"
  proof -
    have "t_relations ?t = []" "t_id ?t = t_id sample_mirror" by (simp_all add: linked_mirror_def sample_simps)
    then obtain d where "save_task 5 ?t SrcPull empty_db = Inr d" "solo_db (t_id sample_mirror) d"
      using save_solo [of ?t empty_db 5 SrcPull] solo_empty_db by metis
    then show ?thesis by (simp add: sync_world_def)
  qed
  have stored: "\<exists>d. save_task cap (touch now (y\<lparr>t_repo_id := r, t_remote := m, t_sync := Conflict\<rparr>)) SrcLink (wd_db (sync_world ?t)) = Inr d" for cap now r m
    using save_solo [of "touch now (y\<lparr>t_repo_id := r, t_remote := m, t_sync := Conflict\<rparr>)" "wd_db (sync_world ?t)" cap SrcLink]
      solo ws(3) get_task_id [OF y(1)] by (auto simp: touch_def)
  have save: "save_task cap (touch now (y\<lparr>t_repo_id := r, t_remote := m, t_sync := Conflict\<rparr>)) SrcLink (wd_db (sync_world ?t)) \<noteq> Inl e" for cap now r m e
    using stored by (metis sum.distinct(1))
  have "\<exists>res w'. sy_link sync_env [] ?u (lit ''8'') False (sync_world ?t) = (Inr res, w') \<and> ss_decision res \<noteq> lit ''noop''"
  proof -
    obtain inst origin where b: "find_by_canonical_url (t_workspace_id y) ?u (wd_cat (sync_world ?t)) = Some (inst, origin)"
      using b by (cases b) simp
    have "wp (sy_link sync_env [] ?u (lit ''8'') False) (\<lambda>r w'. \<exists>res. r = Inr res \<and> ss_decision res \<noteq> lit ''noop'') (sync_world ?t)"
      unfolding sy_link_def bare_link_task_def
      by (auto simp: wp_simps save sync_env_simps y(1,3) b [simplified] link_to_remote_def remote_ref_new_def Let_def called_def
          link_summary_def summary_of_def split: sum.splits simp del: prim_simps)
    then show ?thesis by (auto simp: wp_def)
  qed
  then obtain res w' where run: "sy_link sync_env [] ?u (lit ''8'') False (sync_world ?t) = (Inr res, w')" "ss_decision res \<noteq> lit ''noop''" by blast
  from link_keeps_filing_repo [OF run(1) sync_env_simps(1) y(1) run(2)] ws(2) run(1) show ?thesis by auto
qed

end
