(* ===== verification/SearchText.thy ===== *)
theory SearchText
  imports ProjectBoard TaskEnums
begin

text \<open>
  The text side of task search (\<open>application-search/src\<close>: \<open>chunker.rs\<close>, \<open>fold.rs\<close>, \<open>query_mode.rs\<close>,
  the literal lane of \<open>service.rs\<close>): cutting a task into index chunks of bounded size, finding a
  query in case-folded text and mapping the hits back to raw byte spans.  Offsets and lengths are
  UTF-8 bytes, as in the code.  The hash, the case folding and the Unicode letter tests are arguments.
\<close>

section \<open>Strings by bytes\<close>

lemma str_len_simps [simp]:
  "str_len [] = 0" "str_len (c # cs) = len_utf8_char c + str_len cs" "str_len (xs @ ys) = str_len xs + str_len ys"
  by (simp_all add: str_len_def)

lemma len_utf8_bounds [simp]: "0 < len_utf8_char c" "len_utf8_char c \<le> 4" "len_utf8_char c \<noteq> 0"
  by (simp_all add: len_utf8_char_def)

lemma str_len_eq_0 [simp]: "str_len s = 0 \<longleftrightarrow> s = []"
  by (cases s) auto

text \<open>\<open>&s[..n]\<close> with \<open>n\<close> rounded down to a scalar boundary, and \<open>&s[n..]\<close> at a boundary.\<close>

fun take_utf8 :: "nat \<Rightarrow> rstring \<Rightarrow> rstring" where
  "take_utf8 n [] = []"
| "take_utf8 n (c # cs) = (if len_utf8_char c \<le> n then c # take_utf8 (n - len_utf8_char c) cs else [])"

fun drop_utf8 :: "nat \<Rightarrow> rstring \<Rightarrow> rstring" where
  "drop_utf8 n [] = []"
| "drop_utf8 n (c # cs) = (if len_utf8_char c \<le> n then drop_utf8 (n - len_utf8_char c) cs else c # cs)"

lemma take_utf8_bytes: "str_len (take_utf8 n s) \<le> n"
  by (induction n s rule: take_utf8.induct) auto

lemma take_utf8_prefix: "\<exists>r. s = take_utf8 n s @ r"
  by (induction n s rule: take_utf8.induct) auto

lemma take_utf8_all: "str_len s \<le> n \<Longrightarrow> take_utf8 n s = s"
  by (induction n s rule: take_utf8.induct) auto

lemma take_utf8_length: "take (length (take_utf8 n s)) s = take_utf8 n s"
  using take_utf8_prefix [of s n] by (metis append_eq_conv_conj)

lemma str_len_take_mono: "k \<le> j \<Longrightarrow> str_len (take k s) \<le> str_len (take j s)"
  by (induction s arbitrary: k j) (auto simp: take_Cons split: nat.splits)

fun replace_crlf :: "rstring \<Rightarrow> rstring" where
  "replace_crlf [] = []"
| "replace_crlf [c] = [c]"
| "replace_crlf (a # b # cs) = (if a = 13 \<and> b = 10 then 10 # replace_crlf cs else a # replace_crlf (b # cs))"

section \<open>Chunks\<close>

definition CHUNK_BUDGET_BYTES :: nat where "CHUNK_BUDGET_BYTES = 900"

record comment_text_row =
  ctr_remote_comment_id :: "rstring option"
  ctr_body :: rstring

record task_text_row =
  ttr_task_id :: task_id
  ttr_workspace_id :: workspace_id
  ttr_repo_id :: "repo_id option"
  ttr_is_open :: bool
  ttr_title :: rstring
  ttr_body :: rstring
  ttr_comments :: "comment_text_row list"

datatype chunk_kind = ChunkCore | ChunkComment

record chunk_target =
  ck_task_id :: task_id
  ck_kind :: chunk_kind
  ck_content_hash :: "nat list"
  ck_text :: rstring

fun split_paragraphs :: "rstring \<Rightarrow> rstring list" where
  "split_paragraphs [] = [[]]"
| "split_paragraphs [c] = [[c]]"
| "split_paragraphs (a # b # cs) =
     (if a = 10 \<and> b = 10 then [] # split_paragraphs cs
      else (case split_paragraphs (b # cs) of [] \<Rightarrow> [[a]] | p # ps \<Rightarrow> (a # p) # ps))"

definition last_sentence_boundary :: "rstring \<Rightarrow> nat option" where
  "last_sentence_boundary s =
     map_option (\<lambda>i. length s - 1 - i) (position (\<lambda>c. c \<in> {46, 63, 33, 10}) (rev s))"

definition split_paragraph_fragment :: "rstring \<Rightarrow> rstring \<Rightarrow> rstring \<times> rstring" where
  "split_paragraph_fragment header s =
     (let avail = CHUNK_BUDGET_BYTES - str_len header; fit = take_utf8 (min avail (str_len s)) s in
      if avail = 0 \<or> fit = [] then (take 1 s, drop 1 s)
      else
        let cut = (case last_sentence_boundary fit of None \<Rightarrow> length fit | Some pos \<Rightarrow> pos + 1)
        in (take cut s, drop cut s))"

lemma split_fragment_progress: "s \<noteq> [] \<Longrightarrow> length (snd (split_paragraph_fragment header s)) < length s"
  by (auto simp: split_paragraph_fragment_def Let_def split: option.splits)

function fragments :: "rstring \<Rightarrow> rstring \<Rightarrow> rstring list" where
  "fragments header s =
     (if s = [] then []
      else case split_paragraph_fragment header s of (head, rest) \<Rightarrow> head # fragments header rest)"
  by auto
termination fragments
  by (relation "measure (\<lambda>(h, s). length s)") (auto, metis snd_conv split_fragment_progress)

declare fragments.simps [simp del]

fun pack_paragraphs :: "rstring \<Rightarrow> rstring list \<Rightarrow> rstring \<Rightarrow> rstring list" where
  "pack_paragraphs header [] cur = (if str_len cur > str_len header then [cur] else [])"
| "pack_paragraphs header (p # ps) cur =
     (if p = [] then pack_paragraphs header ps cur
      else
        let cand = cur @ (if str_len cur > str_len header then [10, 10] else []) @ p
        in if str_len cand \<le> CHUNK_BUDGET_BYTES then pack_paragraphs header ps cand
           else (if str_len cur > str_len header then [cur] else []) @
                map (\<lambda>head. header @ head) (fragments header p) @
                pack_paragraphs header ps (if str_len cur > str_len header then header else cur))"

definition pack_body :: "rstring \<Rightarrow> rstring \<Rightarrow> rstring list" where
  "pack_body header body = pack_paragraphs header (split_paragraphs body) header"

definition chunk_header :: "rstring \<Rightarrow> rstring \<Rightarrow> rstring" where
  "chunk_header title label = lit ''Title: '' @ title @ [10, 10] @ label @ lit '':'' @ [10]"

definition title_chunk :: "rstring \<Rightarrow> rstring \<Rightarrow> rstring" where
  "title_chunk title label = lit ''Title: '' @ title @ [10, 10] @ label @ lit '':''"

definition bounded_anchor :: "rstring \<Rightarrow> rstring \<Rightarrow> rstring" where
  "bounded_anchor title label =
     (let max_title = CHUNK_BUDGET_BYTES - (str_len (chunk_header [] label) + str_len [8230] + 300)
      in if str_len title \<le> max_title then title else take_utf8 max_title title @ [8230])"

definition chunk_formatted :: "rstring \<Rightarrow> rstring \<Rightarrow> rstring \<Rightarrow> bool \<Rightarrow> rstring list" where
  "chunk_formatted title body0 label allow_title_only =
     (let body = replace_crlf body0 in
      if trim body = [] then (if allow_title_only then [title_chunk title label] else [])
      else if str_len (chunk_header title label) > CHUNK_BUDGET_BYTES
      then title_chunk title label # pack_body (chunk_header (bounded_anchor title label) label) body
      else pack_body (chunk_header title label) body)"

text \<open>\<open>str::as_bytes\<close>.\<close>

fun utf8_char :: "rchar \<Rightarrow> nat list" where
  "utf8_char c =
     (if c < 128 then [c]
      else if c < 2048 then [192 + c div 64, 128 + c mod 64]
      else if c < 65536 then [224 + c div 4096, 128 + c div 64 mod 64, 128 + c mod 64]
      else [240 + c div 262144, 128 + c div 4096 mod 64, 128 + c div 64 mod 64, 128 + c mod 64])"

definition utf8_bytes :: "rstring \<Rightarrow> nat list" where
  "utf8_bytes s = concat (map utf8_char s)"

lemma length_utf8_bytes [simp]: "length (utf8_bytes s) = str_len s"
  by (induction s) (simp_all add: utf8_bytes_def len_utf8_char_def)

definition chunk_target_of :: "(nat list \<Rightarrow> nat list) \<Rightarrow> task_id \<Rightarrow> chunk_kind \<Rightarrow> rstring \<Rightarrow> chunk_target" where
  "chunk_target_of sha256 i k text = \<lparr>ck_task_id = i, ck_kind = k, ck_content_hash = sha256 (utf8_bytes text), ck_text = text\<rparr>"

definition chunk_task :: "(nat list \<Rightarrow> nat list) \<Rightarrow> task_text_row \<Rightarrow> chunk_target list" where
  "chunk_task sha256 row =
     map (chunk_target_of sha256 (ttr_task_id row) ChunkCore)
       (chunk_formatted (ttr_title row) (ttr_body row) (lit ''Description'') True) @
     concat (map (\<lambda>c. map (chunk_target_of sha256 (ttr_task_id row) ChunkComment)
       (chunk_formatted (ttr_title row) (ctr_body c) (lit ''Comment'') False)) (ttr_comments row))"

section \<open>Substrings\<close>

text \<open>\<open>str::find\<close> of a string gives the byte offset of its first occurrence; UTF-8 is
  self-synchronizing, so an occurrence of the bytes is an occurrence of the characters.
  \<open>split_whitespace\<close> and \<open>str::replace\<close> of a character by a string.\<close>

fun find_utf8 :: "rstring \<Rightarrow> rstring \<Rightarrow> nat option" where
  "find_utf8 needle [] = (if needle = [] then Some 0 else None)"
| "find_utf8 needle (c # cs) =
     (if starts_with (c # cs) needle then Some 0 else map_option ((+) (len_utf8_char c)) (find_utf8 needle cs))"

definition contains :: "rstring \<Rightarrow> rstring \<Rightarrow> bool" where
  "contains s needle \<longleftrightarrow> find_utf8 needle s \<noteq> None"

definition split_whitespace :: "rstring \<Rightarrow> rstring list" where
  "split_whitespace s = filter (\<lambda>w. w \<noteq> []) (split_by is_whitespace s)"

definition replace_char :: "rchar \<Rightarrow> rstring \<Rightarrow> rstring \<Rightarrow> rstring" where
  "replace_char c r s = concat (map (\<lambda>x. if x = c then r else [x]) s)"

text \<open>\<open>is_char_boundary\<close> and the two rounding loops.\<close>

fun is_char_boundary :: "rstring \<Rightarrow> nat \<Rightarrow> bool" where
  "is_char_boundary [] n \<longleftrightarrow> n = 0"
| "is_char_boundary (c # cs) n \<longleftrightarrow> n = 0 \<or> (len_utf8_char c \<le> n \<and> is_char_boundary cs (n - len_utf8_char c))"

fun round_down :: "rstring \<Rightarrow> nat \<Rightarrow> nat" where
  "round_down raw 0 = 0"
| "round_down raw (Suc n) = (if is_char_boundary raw (Suc n) then Suc n else round_down raw n)"

function round_up :: "rstring \<Rightarrow> nat \<Rightarrow> nat" where
  "round_up raw n = (if n < str_len raw \<and> \<not> is_char_boundary raw n then round_up raw (n + 1) else n)"
  by auto
termination round_up by (relation "measure (\<lambda>(raw, n). str_len raw - n)") auto

declare round_up.simps [simp del]

section \<open>Case-folded search\<close>

text \<open>\<open>fold c\<close> is the full case fold of one scalar; the crate folds a string scalar by scalar.
  \<open>emit_folded\<close> is the inner loop of \<open>fold_source\<close>, \<open>fold_chars\<close> the outer one.\<close>

record fold_char =
  fc_folded_start :: nat
  fc_folded_end :: nat
  fc_source_start :: nat
  fc_source_end :: nat

record folded_source =
  fs_text :: rstring
  fs_chars :: "fold_char list"

fun emit_folded :: "nat \<Rightarrow> nat \<Rightarrow> nat \<Rightarrow> rstring \<Rightarrow> fold_char list" where
  "emit_folded start src_start src_end [] = []"
| "emit_folded start src_start src_end (fc # fcs) =
     \<lparr>fc_folded_start = start, fc_folded_end = start + len_utf8_char fc,
      fc_source_start = src_start, fc_source_end = src_end\<rparr> #
     emit_folded (start + len_utf8_char fc) src_start src_end fcs"

fun fold_chars :: "(rchar \<Rightarrow> rstring) \<Rightarrow> nat \<Rightarrow> nat \<Rightarrow> rstring \<Rightarrow> fold_char list" where
  "fold_chars fold_of start byte_off [] = []"
| "fold_chars fold_of start byte_off (c # cs) =
     emit_folded start byte_off (byte_off + len_utf8_char c) (fold_of c) @
     fold_chars fold_of (start + str_len (fold_of c)) (byte_off + len_utf8_char c) cs"

definition fold_plain :: "(rchar \<Rightarrow> rstring) \<Rightarrow> rstring \<Rightarrow> rstring" where
  "fold_plain fold_of s = concat (map fold_of s)"

definition fold_source :: "(rchar \<Rightarrow> rstring) \<Rightarrow> rstring \<Rightarrow> folded_source" where
  "fold_source fold_of s = \<lparr>fs_text = concat (map fold_of s), fs_chars = fold_chars fold_of 0 0 s\<rparr>"

definition map_to_raw :: "fold_char list \<Rightarrow> nat \<Rightarrow> nat \<Rightarrow> (nat \<times> nat) option" where
  "map_to_raw chars mstart mend =
     (case List.find (\<lambda>c. mstart < fc_folded_end c) chars of
        None \<Rightarrow> None
      | Some fst_char \<Rightarrow>
          Some (fc_source_start fst_char,
            fc_source_end (case List.find (\<lambda>c. fc_folded_start c < mend) (rev chars) of
              Some c \<Rightarrow> c | None \<Rightarrow> fst_char)))"

text \<open>The loop of \<open>find_literal_spans\<close>: \<open>rest\<close> is \<open>src.text[search_from..]\<close>.\<close>

lemma drop_utf8_length: "length (drop_utf8 n s) \<le> length s"
  by (induction n s rule: drop_utf8.induct) auto

function spans_from :: "fold_char list \<Rightarrow> rstring \<Rightarrow> nat \<Rightarrow> rstring \<Rightarrow> (nat \<times> nat) list" where
  "spans_from chars needle_folded search_from rest =
     (case find_utf8 needle_folded rest of
        None \<Rightarrow> []
      | Some pos \<Rightarrow>
          let mstart = search_from + pos; mend = mstart + str_len needle_folded
          in (case map_to_raw chars mstart mend of Some span \<Rightarrow> [span] | None \<Rightarrow> []) @
             (case drop_utf8 pos rest of
                [] \<Rightarrow> []
              | c # cs \<Rightarrow> spans_from chars needle_folded (mstart + len_utf8_char c) cs))"
  by pat_completeness auto
termination spans_from
proof (relation "measure (\<lambda>(chars, needle, n, rest). length rest)", simp)
  fix chars :: "fold_char list" and needle :: rstring and search_from :: nat and rest pos x xa x21 x22
  assume "drop_utf8 pos rest = x21 # x22"
  with drop_utf8_length [of pos rest]
  show "((chars, needle, xa + len_utf8_char x21, x22), chars, needle, search_from, rest)
        \<in> measure (\<lambda>(chars, needle, n, rest). length rest)" by simp
qed

declare spans_from.simps [simp del]

definition find_literal_spans :: "(rchar \<Rightarrow> rstring) \<Rightarrow> rstring \<Rightarrow> rstring \<Rightarrow> (nat \<times> nat) list" where
  "find_literal_spans fold_of text needle =
     (if needle = [] then []
      else
        let src = fold_source fold_of text; needle_folded = fold_plain fold_of needle
        in if needle_folded = [] then [] else spans_from (fs_chars src) needle_folded 0 (fs_text src))"

definition excerpt :: "rstring \<Rightarrow> nat \<times> nat \<Rightarrow> nat \<Rightarrow> rstring" where
  "excerpt raw span limit =
     (let s = round_down raw (fst span - limit div 2);
          e = round_up raw (min (snd span + limit div 2) (str_len raw))
      in (if 0 < s then [8230] else []) @ take_utf8 (e - s) (drop_utf8 s raw) @
         (if e < str_len raw then [8230] else []))"

section \<open>Query modes\<close>

text \<open>\<open>upper\<close> and \<open>lower\<close> are \<open>char::is_uppercase\<close> and \<open>char::is_lowercase\<close> (the Unicode tables).\<close>

datatype query_mode = Exact | Identifier | Natural

fun scan_token :: "(rchar \<Rightarrow> bool) \<Rightarrow> (rchar \<Rightarrow> bool) \<Rightarrow> rchar option \<Rightarrow> bool \<Rightarrow> nat \<Rightarrow> rstring \<Rightarrow> bool" where
  "scan_token upper lower prev prev_lower uppercase [] \<longleftrightarrow> 2 \<le> uppercase"
| "scan_token upper lower prev prev_lower uppercase (c # cs) \<longleftrightarrow>
     (if prev_lower \<and> upper c then True
      else if is_ascii_digit c \<and> (case prev of Some p \<Rightarrow> upper p | None \<Rightarrow> False) then True
      else if is_ascii_digit c \<and> (case cs of n # _ \<Rightarrow> upper n | [] \<Rightarrow> False) then True
      else scan_token upper lower (Some c) (lower c) (if upper c then uppercase + 1 else uppercase) cs)"

definition is_identifier_token :: "(rchar \<Rightarrow> bool) \<Rightarrow> (rchar \<Rightarrow> bool) \<Rightarrow> rstring \<Rightarrow> bool" where
  "is_identifier_token upper lower tok =
     (if tok = [] then False
      else if list_ex (\<lambda>c. c \<in> set tok) [95, 47, 35, 45] \<or> contains tok (lit ''::'') then True
      else scan_token upper lower None False 0 tok)"

definition identifier_tokens :: "(rchar \<Rightarrow> bool) \<Rightarrow> (rchar \<Rightarrow> bool) \<Rightarrow> rstring \<Rightarrow> rstring list" where
  "identifier_tokens upper lower query = filter (is_identifier_token upper lower) (split_whitespace query)"

definition classify :: "(rchar \<Rightarrow> bool) \<Rightarrow> (rchar \<Rightarrow> bool) \<Rightarrow> rstring \<Rightarrow> bool \<Rightarrow> query_mode" where
  "classify upper lower query exact =
     (if exact then Exact
      else if list_ex (is_identifier_token upper lower) (split_whitespace query) then Identifier
      else Natural)"

end
