(* ===== verification/ChunkProps.thy ===== *)
theory ChunkProps
  imports SearchText
begin

text \<open>
  Facts about the chunker: how a paragraph is cut into fragments, how \<open>pack_body\<close> groups
  paragraphs and fragments into chunks, that no text is lost and how long a chunk can be.
\<close>

lemma position_bound: "position P xs = Some i \<Longrightarrow> i < length xs \<and> P (xs ! i) \<and> (\<forall>j < i. \<not> P (xs ! j))"
proof (induction xs arbitrary: i)
  case (Cons x xs)
  then show ?case by (auto simp: nth_Cons less_Suc_eq_0_disj split: if_splits nat.splits)
qed simp

lemma last_sentence_less: "last_sentence_boundary s = Some i \<Longrightarrow> i < length s"
  by (auto simp: last_sentence_boundary_def dest!: position_bound)

section \<open>Fragments\<close>

lemma split_fragment:
  assumes "split_paragraph_fragment header s = (h, r)" "s \<noteq> []"
  shows "h @ r = s" "h \<noteq> []" "str_len header + str_len h \<le> max CHUNK_BUDGET_BYTES (str_len header + 4)"
proof -
  define avail where "avail = CHUNK_BUDGET_BYTES - str_len header"
  define fit where "fit = take_utf8 (min avail (str_len s)) s"
  define cut where "cut = (case last_sentence_boundary fit of None \<Rightarrow> length fit | Some pos \<Rightarrow> pos + 1)"
  have hr: "(h, r) = (if avail = 0 \<or> fit = [] then (take 1 s, drop 1 s) else (take cut s, drop cut s))"
    unfolding assms(1) [symmetric] split_paragraph_fragment_def Let_def avail_def fit_def cut_def by (rule refl)
  have cut: "0 < cut" "cut \<le> length fit" if "fit \<noteq> []"
    using that last_sentence_less by (auto simp: cut_def Suc_le_eq split: option.splits)
  from hr show "h @ r = s" by (auto split: if_splits)
  from hr cut assms(2) show "h \<noteq> []" by (auto split: if_splits)
  show "str_len header + str_len h \<le> max CHUNK_BUDGET_BYTES (str_len header + 4)"
  proof (cases "avail = 0 \<or> fit = []")
    case True
    with hr have "h = take 1 s" by simp
    then show ?thesis using assms(2) len_utf8_bounds(2) [of "hd s"] by (cases s) (auto simp: max_def simp del: len_utf8_bounds)
  next
    case False
    with hr have "h = take cut s" by simp
    moreover have "str_len (take cut s) \<le> str_len (take (length fit) s)" using cut False by (intro str_len_take_mono) simp
    moreover have "take (length fit) s = fit" unfolding fit_def by (rule take_utf8_length)
    moreover have "str_len fit \<le> avail" using take_utf8_bytes [of "min avail (str_len s)" s] by (simp add: fit_def)
    ultimately show ?thesis using False by (auto simp: avail_def max_def)
  qed
qed

lemma fragments_facts:
  "concat (fragments header s) = s \<and> [] \<notin> set (fragments header s) \<and>
   (\<forall>h \<in> set (fragments header s). str_len header + str_len h \<le> max CHUNK_BUDGET_BYTES (str_len header + 4))"
proof (induction header s rule: fragments.induct)
  case (1 header s)
  show ?case
  proof (cases "s = []")
    case True
    then show ?thesis by (simp add: fragments.simps)
  next
    case False
    obtain h r where hr: "split_paragraph_fragment header s = (h, r)" by fastforce
    from split_fragment [OF hr False] 1 [OF False hr [symmetric]] show ?thesis
      by (subst (1 2 3) fragments.simps) (auto simp: False hr)
  qed
qed

lemma fragments_nonempty: "s \<noteq> [] \<Longrightarrow> fragments header s \<noteq> []"
  using fragments_facts [of header s] by auto

section \<open>Packing\<close>

text \<open>The text of a chunk is the header and fragments set apart by blank lines.\<close>

lemma join_append: "gs \<noteq> [] \<Longrightarrow> join sep (gs @ [p]) = join sep gs @ sep @ p"
proof (induction gs)
  case (Cons x xs)
  then show ?case by (cases xs) simp_all
qed simp

lemma join_empty: "[] \<notin> set gs \<Longrightarrow> join sep gs = [] \<longleftrightarrow> gs = []"
  by (cases gs; cases "tl gs") auto

definition packed :: "rstring \<Rightarrow> rstring list list \<Rightarrow> bool" where
  "packed header groups \<longleftrightarrow> [] \<notin> set groups \<and> [] \<notin> set (concat groups) \<and>
     (\<forall>g \<in> set groups. str_len header + str_len (join [10, 10] g) \<le> max CHUNK_BUDGET_BYTES (str_len header + 4))"

abbreviation chunk_of :: "rstring \<Rightarrow> rstring list \<Rightarrow> rstring" where
  "chunk_of header g \<equiv> header @ join [10, 10] g"

lemma packed_append: "packed header (gs @ hs) \<longleftrightarrow> packed header gs \<and> packed header hs"
  by (auto simp: packed_def)

lemma packed_fragments: "packed header (map (\<lambda>f. [f]) (fragments header p))"
  using fragments_facts [of header p] by (auto simp: packed_def)

lemma packed_one: "g = [] \<or> packed header [g] \<Longrightarrow> packed header (if g = [] then [] else [g])"
  by (auto simp: packed_def)

lemma concat_singles: "concat (map (\<lambda>f. [f]) xs) = xs"
  by (induction xs) auto

lemma pack_groups:
  assumes "g = [] \<or> packed header [g]"
  shows "\<exists>groups. pack_paragraphs header ps (chunk_of header g) = map (chunk_of header) groups \<and>
     packed header groups \<and> concat (concat groups) = concat g @ concat ps"
  using assms
proof (induction ps arbitrary: g)
  case Nil
  then have "str_len header < str_len (chunk_of header g) \<longleftrightarrow> g \<noteq> []"
    by (auto simp: packed_def join_empty zero_less_iff_neq_zero)
  then show ?case using Nil by (cases "g = []") (auto intro: exI [of _ "[]"] exI [of _ "[g]"] simp: packed_def)
next
  case (Cons p ps)
  have long: "str_len header < str_len (chunk_of header g) \<longleftrightarrow> g \<noteq> []"
    using Cons.prems by (auto simp: packed_def join_empty zero_less_iff_neq_zero)
  have cand: "chunk_of header g @ (if str_len (chunk_of header g) > str_len header then [10, 10] else []) @ p = chunk_of header (g @ [p])"
    by (simp only: long) (simp add: join_append)
  show ?case
  proof (cases "p = []")
    case True
    with Cons show ?thesis by simp
  next
    case p: False
    show ?thesis
    proof (cases "str_len (chunk_of header (g @ [p])) \<le> CHUNK_BUDGET_BYTES")
      case True
      then have "packed header [g @ [p]]" using Cons.prems p by (auto simp: packed_def max_def)
      with Cons.IH [of "g @ [p]"] True p show ?thesis by (simp only: pack_paragraphs.simps cand Let_def if_True if_False simp_thms) simp
    next
      case False
      from Cons.IH [of "[]"] obtain groups where groups:
        "pack_paragraphs header ps header = map (chunk_of header) groups" "packed header groups" "concat (concat groups) = concat ps"
        by auto
      let ?gs = "(if g = [] then [] else [g]) @ map (\<lambda>f. [f]) (fragments header p) @ groups"
      have "pack_paragraphs header (p # ps) (chunk_of header g) = map (chunk_of header) ?gs"
        by (simp only: pack_paragraphs.simps cand Let_def if_not_P [OF False] if_not_P [OF p], simp only: long) (simp add: groups(1) comp_def)
      moreover have "packed header ?gs"
        using packed_one [OF Cons.prems] packed_fragments groups(2) by (simp only: packed_append)
      moreover have "concat (concat ?gs) = concat g @ concat (p # ps)"
        using fragments_facts [of header p] groups(3) by (simp add: comp_def concat_singles)
      ultimately show ?thesis by blast
    qed
  qed
qed

lemma split_paragraphs_nonempty [simp]: "split_paragraphs s \<noteq> []"
  by (cases s rule: split_paragraphs.cases) (auto split: list.splits)

lemma split_paragraphs_join: "join [10, 10] (split_paragraphs s) = s"
proof (induction s rule: split_paragraphs.induct)
  case (3 a b cs)
  obtain p ps where "split_paragraphs (b # cs) = p # ps" by (cases "split_paragraphs (b # cs)") auto
  moreover obtain q qs where "split_paragraphs cs = q # qs" by (cases "split_paragraphs cs") auto
  ultimately show ?case using 3 by (cases ps) auto
qed simp_all

text \<open>C24 Indexing drops no text.  Packing a body under a header gives chunks that all open with the
  header; the rest of each chunk is a non-empty group of non-empty pieces set apart by blank lines, and the
  pieces of all chunks, in order, are the paragraphs of the body run together, every character once.  No
  chunk is longer than 900 bytes, except under a header that leaves less than one character of room, where
  it is at most one character (four bytes) longer than the header.\<close>

theorem chunks_lose_nothing:
  "\<exists>groups. pack_body header body = map (\<lambda>g. header @ join [10, 10] g) groups \<and>
     [] \<notin> set groups \<and> [] \<notin> set (concat groups) \<and>
     concat (concat groups) = concat (split_paragraphs body) \<and> join [10, 10] (split_paragraphs body) = body \<and>
     list_all (\<lambda>c. str_len c \<le> max CHUNK_BUDGET_BYTES (str_len header + 4)) (pack_body header body)"
proof -
  from pack_groups [of "[]" header "split_paragraphs body"] obtain groups where
    "pack_body header body = map (chunk_of header) groups" "packed header groups"
    "concat (concat groups) = concat (split_paragraphs body)"
    by (auto simp: pack_body_def)
  moreover from this(2) have "\<forall>c \<in> set (map (chunk_of header) groups). str_len c \<le> max CHUNK_BUDGET_BYTES (str_len header + 4)"
    by (auto simp: packed_def)
  ultimately show ?thesis using split_paragraphs_join [of body] by (intro exI [of _ groups]) (simp add: packed_def list_all_iff)
qed

text \<open>A paragraph that fits under the header on its own, but came behind others that it did not fit with, is
  still cut behind its last sentence end.\<close>

lemma fitting_paragraph_cut:
  assumes "str_len header + str_len (q @ 46 # r) \<le> CHUNK_BUDGET_BYTES" "list_all (\<lambda>c. c \<notin> {46, 63, 33, 10}) r"
  shows "split_paragraph_fragment header (q @ 46 # r) = (q @ [46], r)"
proof -
  have "position (\<lambda>c. c \<in> {46, 63, 33, 10}) (rev r @ 46 # rev q) = Some (length r)"
    using assms(2) by (induction r rule: rev_induct) auto
  then have "last_sentence_boundary (q @ 46 # r) = Some (length q)" by (simp add: last_sentence_boundary_def)
  moreover have "take_utf8 (min (CHUNK_BUDGET_BYTES - str_len header) (str_len (q @ 46 # r))) (q @ 46 # r) = q @ 46 # r"
    using assms(1) by (intro take_utf8_all) simp
  moreover have "CHUNK_BUDGET_BYTES - str_len header \<noteq> 0"
  proof -
    have "0 < str_len (q @ 46 # r)" by (simp del: str_len_simps len_utf8_bounds add: zero_less_iff_neq_zero)
    with assms(1) show ?thesis by linarith
  qed
  ultimately show ?thesis by (simp only: split_paragraph_fragment_def Let_def) simp
qed

end
