(* ===== verification/FoldProps.thy ===== *)
theory FoldProps
  imports SearchText
begin

text \<open>
  Facts about the case-folded search: the byte offsets recorded while folding, the occurrences the
  search loop visits, and the rounding of an excerpt to character boundaries.
\<close>

section \<open>Character boundaries\<close>

lemma str_len_take_less: "i < j \<Longrightarrow> j \<le> length s \<Longrightarrow> str_len (take i s) < str_len (take j s)"
proof (induction s arbitrary: i j)
  case (Cons c cs)
  then show ?case by (cases i; cases j) auto
qed simp

lemma str_len_take_less_iff:
  "i \<le> length s \<Longrightarrow> j \<le> length s \<Longrightarrow> str_len (take i s) < str_len (take j s) \<longleftrightarrow> i < j"
  by (metis str_len_take_less leD linorder_neqE_nat not_less_iff_gr_or_eq)

lemma drop_utf8_take: "drop_utf8 (str_len (take k s)) s = drop k s"
proof (induction s arbitrary: k)
  case (Cons c cs)
  show ?case
  proof (cases k)
    case 0
    then show ?thesis using len_utf8_bounds(1) [of c] by (simp del: len_utf8_bounds)
  next
    case (Suc k')
    with Cons show ?thesis by simp
  qed
qed simp

lemma take_utf8_take: "take_utf8 (str_len (take k s)) s = take k s"
proof (induction s arbitrary: k)
  case (Cons c cs)
  then show ?case by (cases k) simp_all
qed simp

lemma is_char_boundary_iff: "is_char_boundary s n \<longleftrightarrow> (\<exists>k \<le> length s. n = str_len (take k s))"
proof (induction s arbitrary: n)
  case (Cons c cs)
  have "(\<exists>k \<le> length (c # cs). n = str_len (take k (c # cs))) \<longleftrightarrow>
      n = 0 \<or> (\<exists>k \<le> length cs. n = len_utf8_char c + str_len (take k cs))"
    by (metis (no_types, lifting) Suc_le_mono length_Cons list.size(4) not0_implies_Suc str_len_simps(1) str_len_simps(2) take0 take_Suc_Cons zero_le)
  also have "\<dots> \<longleftrightarrow> is_char_boundary (c # cs) n" using Cons.IH by (auto simp: le_iff_add)
  finally show ?case by simp
qed auto

lemma take_utf8_length_le: "length (take_utf8 n s) \<le> length s"
  by (induction n s rule: take_utf8.induct) auto

lemma take_utf8_boundary: "is_char_boundary s (str_len (take_utf8 n s))"
  unfolding is_char_boundary_iff using take_utf8_length [of n s] take_utf8_length_le [of n s] by metis

lemma take_utf8_room: "n \<le> str_len s \<Longrightarrow> n < str_len (take_utf8 n s) + 4"
proof (induction n s rule: take_utf8.induct)
  case (2 n c cs)
  then have "n - len_utf8_char c \<le> str_len cs \<longrightarrow> n < len_utf8_char c + str_len (take_utf8 (n - len_utf8_char c) cs) + 4"
    if "len_utf8_char c \<le> n" using that by linarith
  with 2 show ?case using len_utf8_bounds(2) [of c] by (auto simp del: len_utf8_bounds)
qed simp

lemma round_down_boundary: "is_char_boundary s (round_down s n)"
  by (induction s n rule: round_down.induct) (auto simp: is_char_boundary_iff intro: exI [of _ 0])

lemma round_down_le: "round_down s n \<le> n"
  by (induction s n rule: round_down.induct) auto

lemma round_down_greatest: "is_char_boundary s m \<Longrightarrow> m \<le> n \<Longrightarrow> m \<le> round_down s n"
proof (induction s n rule: round_down.induct)
  case (2 raw n)
  then show ?case by (cases "m = Suc n") auto
qed simp

lemma round_down_room: "n \<le> str_len s \<Longrightarrow> n < round_down s n + 4"
  using round_down_greatest [OF take_utf8_boundary [of s n] take_utf8_bytes] take_utf8_room [of n s] by linarith

lemma round_up_boundary: "n \<le> str_len s \<Longrightarrow> is_char_boundary s (round_up s n)"
proof (induction s n rule: round_up.induct)
  case (1 s n)
  have "is_char_boundary s (str_len s)" unfolding is_char_boundary_iff by (intro exI [of _ "length s"]) simp
  with 1 round_up.simps [of s n] show ?case by (cases "n = str_len s") (auto simp del: round_up.simps)
qed

lemma round_up_ge: "n \<le> round_up s n"
proof (induction s n rule: round_up.induct)
  case (1 s n)
  then show ?case by (auto simp: round_up.simps [of s n] intro: Suc_leD)
qed

lemma round_up_least: "is_char_boundary s m \<Longrightarrow> n \<le> m \<Longrightarrow> round_up s n \<le> m"
proof (induction s n rule: round_up.induct)
  case (1 s n)
  show ?case
  proof (cases "n < str_len s \<and> \<not> is_char_boundary s n")
    case True
    with 1 have "n + 1 \<le> m" by (cases "n = m") auto
    with 1 True show ?thesis by (simp add: round_up.simps [of s n])
  next
    case False
    with 1 show ?thesis by (simp only: round_up.simps [of s n] if_False)
  qed
qed

lemma next_boundary:
  assumes "n \<le> str_len s"
  shows "\<exists>m. is_char_boundary s m \<and> n \<le> m \<and> m < n + 4"
  using assms
proof (induction s arbitrary: n)
  case (Cons c cs)
  show ?case
  proof (cases "len_utf8_char c \<le> n")
    case True
    then have "n - len_utf8_char c \<le> str_len cs" using Cons.prems by simp
    from Cons.IH [OF this] obtain m where "is_char_boundary cs m" "n - len_utf8_char c \<le> m" "m < n - len_utf8_char c + 4" by blast
    with True show ?thesis by (intro exI [of _ "len_utf8_char c + m"]) auto
  next
    case False
    have "is_char_boundary (c # cs) 0" "is_char_boundary (c # cs) (len_utf8_char c)"
      by (auto simp: is_char_boundary_iff intro: exI [of _ 0])
    moreover have "len_utf8_char c < n + 4 \<or> n = 0" using len_utf8_bounds(2) [of c] by linarith
    ultimately show ?thesis using False by (metis nat_le_linear zero_less_numeral add_0)
  qed
qed (auto intro: exI [of _ 0])

lemma round_up_room: "n \<le> str_len s \<Longrightarrow> round_up s n < n + 4"
  by (meson next_boundary round_up_least le_less_trans)

section \<open>What folding records\<close>

text \<open>\<open>owners\<close>: for each character of the folded text, the index of the source character it comes from.\<close>

fun owners :: "(rchar \<Rightarrow> rstring) \<Rightarrow> nat \<Rightarrow> rstring \<Rightarrow> nat list" where
  "owners fold_of i [] = []"
| "owners fold_of i (c # cs) = replicate (length (fold_of c)) i @ owners fold_of (Suc i) cs"

lemma fold_plain_simps [simp]:
  "fold_plain f [] = []" "fold_plain f (c # cs) = f c @ fold_plain f cs"
  "fold_plain f (xs @ ys) = fold_plain f xs @ fold_plain f ys"
  by (simp_all add: fold_plain_def)

lemma length_owners [simp]: "length (owners f i s) = length (fold_plain f s)"
  by (induction s arbitrary: i) auto

lemma owners_Suc: "owners f (Suc i) s = map Suc (owners f i s)"
  by (induction s arbitrary: i) (auto simp: map_replicate)

lemma owners_less: "k \<in> set (owners f i s) \<Longrightarrow> i \<le> k \<and> k < i + length s"
  by (induction s arbitrary: i) fastforce+

lemma owners_sorted: "sorted (owners f i s)"
  by (induction s arbitrary: i) (auto simp: sorted_append sorted_replicate dest: owners_less)

definition char_at :: "nat \<Rightarrow> nat \<Rightarrow> rstring \<Rightarrow> rstring \<Rightarrow> nat \<Rightarrow> nat \<Rightarrow> fold_char" where
  "char_at start off ft s i k =
     \<lparr>fc_folded_start = start + str_len (take i ft), fc_folded_end = start + str_len (take (Suc i) ft),
      fc_source_start = off + str_len (take k s), fc_source_end = off + str_len (take (Suc k) s)\<rparr>"

lemma length_emit_folded [simp]: "length (emit_folded st a b fcs) = length fcs"
  by (induction st a b fcs rule: emit_folded.induct) auto

lemma length_fold_chars [simp]: "length (fold_chars f st off s) = length (fold_plain f s)"
  by (induction f st off s rule: fold_chars.induct) auto

lemma emit_folded_nth:
  "i < length fcs \<Longrightarrow> emit_folded st a b fcs ! i =
     \<lparr>fc_folded_start = st + str_len (take i fcs), fc_folded_end = st + str_len (take (Suc i) fcs),
      fc_source_start = a, fc_source_end = b\<rparr>"
proof (induction fcs arbitrary: st i)
  case (Cons c cs)
  then show ?case by (cases i) auto
qed simp

lemma fold_chars_nth:
  "i < length (fold_plain f s) \<Longrightarrow>
     fold_chars f st off s ! i = char_at st off (fold_plain f s) s i (owners f 0 s ! i)"
proof (induction f st off s arbitrary: i rule: fold_chars.induct)
  case (2 f st off c cs)
  show ?case
  proof (cases "i < length (f c)")
    case True
    then show ?thesis by (simp add: nth_append emit_folded_nth char_at_def)
  next
    case False
    then have "i - length (f c) < length (fold_plain f cs)" using "2.prems" by simp
    from "2.IH" [OF this] this False show ?thesis
      by (simp add: nth_append char_at_def owners_Suc Suc_diff_le)
  qed
qed simp

lemma find_at:
  assumes "k < length xs" "P (xs ! k)" "\<And>j. j < k \<Longrightarrow> \<not> P (xs ! j)"
  shows "List.find P xs = Some (xs ! k)"
  using assms by (auto simp: find_Some_iff)

definition folded_len :: "(rchar \<Rightarrow> rstring) \<Rightarrow> rstring \<Rightarrow> nat" where
  "folded_len f s = length (fold_plain f s)"

definition raw_span :: "(rchar \<Rightarrow> rstring) \<Rightarrow> rstring \<Rightarrow> nat \<Rightarrow> nat \<Rightarrow> nat \<times> nat" where
  "raw_span f s k n =
     (str_len (take (owners f 0 s ! k) s), str_len (take (Suc (owners f 0 s ! (k + n - 1))) s))"

lemma map_to_raw_span:
  assumes "0 < n" "k + n \<le> length (fold_plain f s)"
  shows "map_to_raw (fold_chars f 0 0 s) (str_len (take k (fold_plain f s))) (str_len (take (k + n) (fold_plain f s))) =
    Some (raw_span f s k n)"
proof -
  let ?ft = "fold_plain f s" and ?cs = "fold_chars f 0 0 s"
  have "List.find (\<lambda>c. str_len (take k ?ft) < fc_folded_end c) ?cs = Some (?cs ! k)"
    using assms by (intro find_at) (auto simp: fold_chars_nth char_at_def str_len_take_less_iff)
  moreover have "List.find (\<lambda>c. fc_folded_start c < str_len (take (k + n) ?ft)) (rev ?cs) = Some (rev ?cs ! (length ?cs - (k + n)))"
    using assms by (intro find_at) (auto simp: rev_nth fold_chars_nth char_at_def str_len_take_less_iff)
  moreover have "rev ?cs ! (length ?cs - (k + n)) = ?cs ! (k + n - 1)"
    using assms by (simp add: rev_nth)
  ultimately show ?thesis
    using assms by (simp add: map_to_raw_def fold_chars_nth char_at_def raw_span_def)
qed

section \<open>The search loop\<close>

lemma starts_with_Nil [simp]: "starts_with s []"
  by (simp add: starts_with_def)

lemma find_utf8_None:
  "needle \<noteq> [] \<Longrightarrow> find_utf8 needle s = None \<longleftrightarrow> (\<forall>k < length s. \<not> starts_with (drop k s) needle)"
proof (induction s)
  case (Cons c cs)
  have "(\<forall>k < length (c # cs). \<not> starts_with (drop k (c # cs)) needle) \<longleftrightarrow>
      \<not> starts_with (c # cs) needle \<and> (\<forall>k < length cs. \<not> starts_with (drop k cs) needle)"
    by (simp only: list.size add_Suc_right add_0_right All_less_Suc2 drop_0 drop_Suc_Cons)
  with Cons show ?case by simp
qed simp

lemma find_utf8_Some:
  "needle \<noteq> [] \<Longrightarrow> find_utf8 needle s = Some pos \<Longrightarrow>
   \<exists>k < length s. pos = str_len (take k s) \<and> starts_with (drop k s) needle \<and> (\<forall>j < k. \<not> starts_with (drop j s) needle)"
proof (induction s arbitrary: pos)
  case (Cons c cs)
  show ?case
  proof (cases "starts_with (c # cs) needle")
    case True
    with Cons.prems show ?thesis by (intro exI [of _ 0]) auto
  next
    case False
    with Cons.prems obtain p where "find_utf8 needle cs = Some p" "pos = len_utf8_char c + p" by auto
    with Cons.IH [OF Cons.prems(1)] obtain k where
      "k < length cs" "p = str_len (take k cs)" "starts_with (drop k cs) needle" "\<forall>j < k. \<not> starts_with (drop j cs) needle"
      by blast
    with False \<open>pos = len_utf8_char c + p\<close> show ?thesis
      by (intro exI [of _ "Suc k"]) (auto simp: less_Suc_eq_0_disj)
  qed
qed auto

lemma starts_with_length: "starts_with s p \<Longrightarrow> length p \<le> length s"
  unfolding starts_with_def by (metis length_take min.cobounded1 min_def)

lemma filter_upt_first:
  assumes "m \<le> k" "k < n" "P k" "\<And>j. m \<le> j \<Longrightarrow> j < k \<Longrightarrow> \<not> P j"
  shows "filter P [m..<n] = k # filter P [Suc k..<n]"
proof -
  have "[m..<n] = [m..<k] @ k # [Suc k..<n]" using assms upt_add_eq_append [of m k "n - k"] by (simp add: upt_conv_Cons)
  moreover have "filter P [m..<k] = []" using assms(4) by (auto simp: filter_empty_conv)
  ultimately show ?thesis using assms(3) by simp
qed

lemma spans_from_occurrences:
  assumes "needle \<noteq> []"
  shows "m \<le> length (fold_plain f s) \<Longrightarrow>
    spans_from (fold_chars f 0 0 s) needle (str_len (take m (fold_plain f s))) (drop m (fold_plain f s)) =
    map (\<lambda>k. raw_span f s k (length needle)) (filter (\<lambda>k. starts_with (drop k (fold_plain f s)) needle) [m..<length (fold_plain f s)])"
proof (induction "length (fold_plain f s) - m" arbitrary: m rule: less_induct)
  case less
  let ?ft = "fold_plain f s" and ?cs = "fold_chars f 0 0 s"
  show ?case
  proof (cases "find_utf8 needle (drop m ?ft)")
    case None
    then have "filter (\<lambda>k. starts_with (drop k ?ft) needle) [m..<length ?ft] = []"
      unfolding find_utf8_None [OF assms] filter_empty_conv
      by (metis add_diff_inverse_nat atLeastLessThan_iff diff_less_mono drop_drop add.commute length_drop not_less set_upt)
    with None show ?thesis by (simp add: spans_from.simps)
  next
    case (Some pos)
    from find_utf8_Some [OF assms Some] obtain d where d: "d < length ?ft - m" "pos = str_len (take d (drop m ?ft))"
      "starts_with (drop (m + d) ?ft) needle" "\<forall>j < d. \<not> starts_with (drop (m + j) ?ft) needle"
      by (auto simp: add.commute)
    have len: "m + d + length needle \<le> length ?ft" using starts_with_length [OF d(3)] d(1) by simp
    have st: "str_len (take m ?ft) + pos = str_len (take (m + d) ?ft)" using d(2) by (simp add: take_add)
    have needle: "take (length needle) (drop (m + d) ?ft) = needle" using d(3) by (simp add: starts_with_def)
    have en: "str_len (take (m + d) ?ft) + str_len needle = str_len (take (m + d + length needle) ?ft)"
      by (simp only: take_add [of "m + d"] needle str_len_simps)
    have dr: "drop_utf8 pos (drop m ?ft) = ?ft ! (m + d) # drop (Suc (m + d)) ?ft"
      using d(1) by (simp add: d(2) drop_utf8_take Cons_nth_drop_Suc add.commute)
    have nx: "str_len (take (m + d) ?ft) + len_utf8_char (?ft ! (m + d)) = str_len (take (Suc (m + d)) ?ft)"
      using d(1) by (simp add: take_Suc_conv_app_nth)
    have "filter (\<lambda>k. starts_with (drop k ?ft) needle) [m..<length ?ft] =
        (m + d) # filter (\<lambda>k. starts_with (drop k ?ft) needle) [Suc (m + d)..<length ?ft]"
    proof (rule filter_upt_first)
      fix j assume "m \<le> j" "j < m + d"
      then show "\<not> starts_with (drop j ?ft) needle" using d(4) [rule_format, of "j - m"] by simp
    qed (use d in auto)
    moreover have "map_to_raw ?cs (str_len (take (m + d) ?ft)) (str_len (take (m + d + length needle) ?ft)) =
        Some (raw_span f s (m + d) (length needle))"
      using assms len by (intro map_to_raw_span) auto
    moreover have "spans_from ?cs needle (str_len (take (Suc (m + d)) ?ft)) (drop (Suc (m + d)) ?ft) =
      map (\<lambda>k. raw_span f s k (length needle)) (filter (\<lambda>k. starts_with (drop k ?ft) needle) [Suc (m + d)..<length ?ft])"
      using d(1) by (intro less) auto
    ultimately show ?thesis
      by (subst spans_from.simps) (simp only: Some option.case Let_def st en dr nx list.case list.map append.simps)
  qed
qed

text \<open>C11 The literal lane finds every occurrence and no other.  \<open>find_literal_spans\<close> is the specification one
  would write down: for every position \<open>k\<close> at which the folded text continues with the folded query,
  overlapping ones included and in order, the span from the start of the source character that gave the
  first folded character of the match to the end of the one that gave the last.  The byte offsets, the
  restarts of the loop and the two searches of \<open>map_to_raw\<close> all agree with it, for any case folding, one
  that expands or drops characters included; an empty folded query has no span.\<close>

theorem find_literal_spans_exact:
  "find_literal_spans fold_of text needle =
     (let ft = fold_plain fold_of text; nf = fold_plain fold_of needle; own = owners fold_of 0 text
      in if nf = [] then []
         else map (\<lambda>k. (str_len (take (own ! k) text), str_len (take (Suc (own ! (k + length nf - 1))) text)))
           (filter (\<lambda>k. starts_with (drop k ft) nf) [0..<length ft]))"
  using spans_from_occurrences [of "fold_plain fold_of needle" 0 fold_of "text"]
  by (auto simp: find_literal_spans_def fold_source_def raw_span_def fold_plain_def Let_def)

section \<open>Excerpts\<close>

lemma owners_cover:
  "k < length (fold_plain f s) \<Longrightarrow>
     length (fold_plain f (take (owners f 0 s ! k) s)) \<le> k \<and> k < length (fold_plain f (take (Suc (owners f 0 s ! k)) s)) \<and>
     owners f 0 s ! k < length s"
proof (induction s arbitrary: k)
  case (Cons c cs)
  show ?case
  proof (cases "k < length (f c)")
    case True
    then show ?thesis by (simp add: nth_append)
  next
    case False
    with Cons.prems have "k - length (f c) < length (fold_plain f cs)" by simp
    from Cons.IH [OF this] this False show ?thesis by (auto simp: nth_append owners_Suc)
  qed
qed simp

definition span_of_match :: "(rchar \<Rightarrow> rstring) \<Rightarrow> rstring \<Rightarrow> rstring \<Rightarrow> nat \<Rightarrow> nat \<Rightarrow> bool" where
  "span_of_match f text needle i j \<longleftrightarrow> i < j \<and> j \<le> length text \<and>
     (\<exists>xs ys. fold_plain f (drop i (take j text)) = xs @ fold_plain f needle @ ys)"

lemma take_split: "i \<le> j \<Longrightarrow> take j s = take i s @ drop i (take j s)"
  using append_take_drop_id [of i "take j s"] by (simp add: min_absorb1)

lemma middle_match:
  assumes "length xs \<le> k" "k + n \<le> length (xs @ ys)" "take n (drop k (xs @ ys @ zs)) = p"
  shows "\<exists>us vs. ys = us @ p @ vs"
proof -
  have "p = take n (drop (k - length xs) ys)" using assms by simp
  then have "ys = take (k - length xs) ys @ p @ drop n (drop (k - length xs) ys)" by (metis append_take_drop_id)
  then show ?thesis by blast
qed

lemma find_literal_spans_match:
  assumes "(a, b) \<in> set (find_literal_spans f text needle)"
  obtains i j where "a = str_len (take i text)" "b = str_len (take j text)" "span_of_match f text needle i j"
proof -
  let ?ft = "fold_plain f text" and ?nf = "fold_plain f needle"
  from assms have nf: "?nf \<noteq> []" by (auto simp: find_literal_spans_def Let_def split: if_splits)
  from assms nf obtain k where k: "k < length ?ft" "starts_with (drop k ?ft) ?nf" "(a, b) = raw_span f text k (length ?nf)"
    using spans_from_occurrences [OF nf, of 0 f "text"]
    by (auto simp: find_literal_spans_def fold_source_def fold_plain_def Let_def split: if_splits)
  have len: "k + length ?nf \<le> length ?ft" using starts_with_length [OF k(2)] k(1) by simp
  define i where "i = owners f 0 text ! k"
  define j where "j = Suc (owners f 0 text ! (k + length ?nf - 1))"
  have last: "k + length ?nf - 1 < length ?ft" using len nf by (cases ?nf) auto
  have "owners f 0 text ! k \<le> owners f 0 text ! (k + length ?nf - 1)"
    using last by (intro sorted_nth_mono [OF owners_sorted]) (cases ?nf; simp add: nf)+
  then have ij: "i < j" "j \<le> length text" using owners_cover [OF last] by (auto simp: i_def j_def)
  have whole: "text = take i text @ drop i (take j text) @ drop j text"
    using take_split [of i j "text"] append_take_drop_id [of j "text"] ij(1) by (metis append_assoc less_imp_le)
  have upto: "take j text = take i text @ drop i (take j text)"
    using take_split [of i j "text"] ij(1) by simp
  have "length (fold_plain f (take i text)) \<le> k" using owners_cover [OF k(1)] by (simp add: i_def)
  moreover have "k + length ?nf - 1 < length (fold_plain f (take j text))" using owners_cover [OF last] by (simp add: j_def)
  then have "k + length ?nf \<le> length (fold_plain f (take i text) @ fold_plain f (drop i (take j text)))"
    using nf by (subst (asm) upto) (cases ?nf; simp)
  moreover have "take (length ?nf) (drop k (fold_plain f (take i text) @ fold_plain f (drop i (take j text)) @ fold_plain f (drop j text))) = ?nf"
    using k(2) arg_cong [OF whole, of "fold_plain f"] by (simp add: starts_with_def)
  ultimately have "span_of_match f text needle i j" using ij middle_match unfolding span_of_match_def by blast
  with k(3) that show ?thesis by (auto simp: raw_span_def i_def j_def)
qed

lemma slice_utf8: "i \<le> j \<Longrightarrow> take_utf8 (str_len (take j s) - str_len (take i s)) (drop_utf8 (str_len (take i s)) s) = drop i (take j s)"
proof -
  assume "i \<le> j"
  then obtain d where "j = i + d" using le_iff_add by blast
  then show ?thesis using take_utf8_take [of d "drop i s"] by (simp add: drop_utf8_take drop_take) (simp add: take_add)
qed

lemma str_len_take_le: "str_len (take j s) \<le> str_len s"
  by (metis append_take_drop_id le_add1 str_len_simps(3))

lemma str_len_take_le_iff:
  "i \<le> length s \<Longrightarrow> j \<le> length s \<Longrightarrow> str_len (take i s) \<le> str_len (take j s) \<longleftrightarrow> i \<le> j"
  using str_len_take_less_iff [of j s i] by linarith

text \<open>C26 An excerpt shows its match and stays near it.  Around a span the literal lane reports, the excerpt is a
  stretch \<open>raw[i'..j']\<close> of whole characters of the source that contains the matched characters \<open>raw[i..j]\<close>,
  whose case fold in turn contains the folded query; an ellipsis marks a side exactly when text was left out
  there; and the excerpt exceeds the match by at most \<open>limit\<close> bytes and twelve for the rounding to
  characters and the two ellipses.  So \<open>limit\<close> bounds the padding, not the excerpt.\<close>

theorem excerpt_shows_match:
  assumes "(a, b) \<in> set (find_literal_spans fold_of raw needle)"
  shows "\<exists>i j i' j'. i' \<le> i \<and> i < j \<and> j \<le> j' \<and> j' \<le> length raw \<and>
    a = str_len (take i raw) \<and> b = str_len (take j raw) \<and>
    (\<exists>xs ys. fold_plain fold_of (drop i (take j raw)) = xs @ fold_plain fold_of needle @ ys) \<and>
    excerpt raw (a, b) limit =
      (if 0 < i' then [8230] else []) @ drop i' (take j' raw) @ (if j' < length raw then [8230] else []) \<and>
    str_len (excerpt raw (a, b) limit) \<le> (b - a) + limit + 12"
proof -
  from find_literal_spans_match [OF assms] obtain i j where
    ij: "a = str_len (take i raw)" "b = str_len (take j raw)" "span_of_match fold_of raw needle i j" .
  then have le: "i < j" "j \<le> length raw" by (auto simp: span_of_match_def)
  define s where "s = round_down raw (a - limit div 2)"
  define e where "e = round_up raw (min (b + limit div 2) (str_len raw))"
  obtain i' where i': "i' \<le> length raw" "s = str_len (take i' raw)"
    using round_down_boundary unfolding s_def is_char_boundary_iff by blast
  obtain j' where j': "j' \<le> length raw" "e = str_len (take j' raw)"
    using round_up_boundary [of _ raw] unfolding e_def is_char_boundary_iff by (meson min.cobounded2)
  have "b \<le> str_len raw" "a < b" using le by (auto simp: ij str_len_take_le str_len_take_less_iff)
  have "s \<le> a" using round_down_le [of raw "a - limit div 2"] by (simp add: s_def)
  then have "i' \<le> i" using i' le by (simp add: ij str_len_take_le_iff)
  have "b \<le> e" using round_up_ge [of "min (b + limit div 2) (str_len raw)" raw] \<open>b \<le> str_len raw\<close> by (simp add: e_def)
  then have "j \<le> j'" using j' le by (simp add: ij str_len_take_le_iff)
  have ends: "0 < s \<longleftrightarrow> 0 < i'" "e < str_len raw \<longleftrightarrow> j' < length raw"
    using i' j' str_len_take_less_iff [of 0 raw i'] str_len_take_less_iff [of j' raw "length raw"] by auto
  have shape: "excerpt raw (a, b) limit =
      (if 0 < i' then [8230] else []) @ drop i' (take j' raw) @ (if j' < length raw then [8230] else [])"
    using slice_utf8 [of i' j' raw] \<open>i' \<le> i\<close> le \<open>j \<le> j'\<close>
    by (simp add: excerpt_def Let_def s_def [symmetric] e_def [symmetric] ends) (simp add: i' j')
  have "a \<le> s + limit div 2 + 3"
    using round_down_room [of "a - limit div 2" raw] \<open>a < b\<close> \<open>b \<le> str_len raw\<close> unfolding s_def by linarith
  moreover have "e \<le> b + limit div 2 + 3"
    using round_up_room [of "min (b + limit div 2) (str_len raw)" raw] by (simp add: e_def)
  moreover have "str_len (drop i' (take j' raw)) = e - s"
    using arg_cong [OF take_split [of i' j' raw], of str_len] \<open>i' \<le> i\<close> le \<open>j \<le> j'\<close> by (simp add: i' j')
  moreover have "str_len [8230] = 3" by (simp add: len_utf8_char_def)
  moreover have "str_len (excerpt raw (a, b) limit) \<le> str_len [8230] + str_len (drop i' (take j' raw)) + str_len [8230]"
    unfolding shape by (simp only: str_len_simps(3)) simp
  ultimately have "str_len (excerpt raw (a, b) limit) \<le> (b - a) + limit + 12"
    using \<open>s \<le> a\<close> \<open>a < b\<close> \<open>b \<le> e\<close> by linarith
  moreover have "\<exists>xs ys. fold_plain fold_of (drop i (take j raw)) = xs @ fold_plain fold_of needle @ ys"
    using ij(3) by (simp add: span_of_match_def)
  ultimately show ?thesis
    using \<open>i' \<le> i\<close> le(1) \<open>j \<le> j'\<close> j'(1) ij(1,2) shape by blast
qed

definition lower_fold :: "rchar \<Rightarrow> rstring" where
  "lower_fold c = (if c = 223 then [115, 115] else [to_ascii_lowercase c])"

theorem excerpt_shows_match_witness:
  "\<exists>i j i' j'. i' \<le> i \<and> i < j \<and> j \<le> j' \<and> j' \<le> length (lit ''GROSSE Stra'' @ [223, 101]) \<and>
    (7::nat) = str_len (take i (lit ''GROSSE Stra'' @ [223, 101])) \<and> (14::nat) = str_len (take j (lit ''GROSSE Stra'' @ [223, 101])) \<and>
    (\<exists>xs ys. fold_plain lower_fold (drop i (take j (lit ''GROSSE Stra'' @ [223, 101]))) = xs @ fold_plain lower_fold (lit ''strasse'') @ ys) \<and>
    excerpt (lit ''GROSSE Stra'' @ [223, 101]) (7, 14) 4 =
      (if 0 < i' then [8230] else []) @ drop i' (take j' (lit ''GROSSE Stra'' @ [223, 101])) @
      (if j' < length (lit ''GROSSE Stra'' @ [223, 101]) then [8230] else []) \<and>
    str_len (excerpt (lit ''GROSSE Stra'' @ [223, 101]) (7, 14) 4) \<le> (14 - 7) + 4 + 12"
  by (rule excerpt_shows_match) code_simp

end
