(* ===== verification/SearchService.thy ===== *)
theory SearchService
  imports SearchText TaskStore "HOL-Library.AList"
begin

text \<open>
  Task search (\<open>application-search/src\<close>: \<open>lane.rs\<close>, \<open>service.rs\<close>): the literal lane over raw text,
  rank fusion, the ordering of the results, the vector fill loop, and the search and rebuild handlers.

  The handlers are generic in the three port traits, so the ports are arguments: the authoritative source
  (\<open>search_source\<close>), the sidecar index over a state \<open>'i\<close> of its own (\<open>search_index\<close>) and the embedding
  provider with vectors \<open>'v\<close> and scores \<open>'s\<close>.  A call whose error the service only tests for failure
  answers an \<open>option\<close>.  Fused scores are \<open>f64\<close> in the code; here they are any linearly ordered type
  with the two operations the code uses.  A \<open>HashMap\<close> is an association list without repeated keys.
\<close>

section \<open>Ports and messages\<close>

datatype matched_source_kind = MatchedCore | MatchedComment

datatype lexical_unavailable_reason =
  SidecarUnavailable | PermissionDenied | SchemaMismatch | IndexCorrupt | StorageLimit | ReconciliationFailed

datatype semantic_skipped_reason =
  LexicalIndexUnavailable | ExactMode | ModelNotPrepared | ProfileMismatch | ModelCacheMissing
  | QueryTooLong | SemanticStorageLimit | EmbeddingFailed

record search_scope =
  scope_workspace_id :: "workspace_id option"
  scope_repo_id :: "repo_id option"
  scope_is_open :: "bool option"

record search_request =
  sq_query :: rstring
  sq_scope :: search_scope
  sq_exact :: bool
  sq_limit :: nat

datatype search_error = EmptyQuery | ZeroLimit | SearchSource port_error

record task_identity =
  ident_display_id :: rstring
  ident_workspace_id :: workspace_id
  ident_workspace_name :: rstring
  ident_title :: rstring

record sidecar_info =
  si_schema_version :: int
  si_chunk_format_version :: int
  si_embedding_profile_id :: "rstring option"

record index_metadata =
  im_available :: "sidecar_info option"
  im_schema_mismatch :: "bool option"
  im_read_only :: bool

record lexical_rank =
  lr_task_id :: task_id
  lr_rank :: nat
  lr_kind :: matched_source_kind
  lr_remote_comment_id :: "rstring option"
  lr_excerpt :: rstring

record 's semantic_rank =
  sr_task_id :: task_id
  sr_score :: 's

record missing_semantic_input =
  ms_search_chunk_id :: int
  ms_task_id :: task_id
  ms_kind :: chunk_kind
  ms_content_hash :: "nat list"
  ms_text :: rstring

record 'v guarded_vector_row =
  gv_search_chunk_id :: int
  gv_task_id :: task_id
  gv_content_hash :: "nat list"
  gv_segment_index :: nat
  gv_embedding_input_hash :: "nat list"
  gv_vector :: 'v

record result_snapshot =
  sn_eligible_rows :: "task_text_row list port_result"
  sn_task_identity :: "task_id \<Rightarrow> task_identity port_result"

record search_source =
  load_reconcile_snapshot :: "task_text_row list port_result"
  begin_result_snapshot :: "search_scope \<Rightarrow> result_snapshot port_result"

record ('i, 'v, 's) search_index =
  ix_metadata :: "'i \<Rightarrow> index_metadata option"
  ix_begin_reconcile :: "'i \<Rightarrow> 'i option"
  ix_diff_chunks :: "chunk_target list \<Rightarrow> nat \<Rightarrow> 'i \<Rightarrow> lexical_unavailable_reason option \<times> 'i"
  ix_commit :: "nat list \<Rightarrow> 'i \<Rightarrow> bool \<times> 'i"
  ix_rollback :: "'i \<Rightarrow> 'i"
  ix_search_lexical :: "rstring \<Rightarrow> task_id list \<Rightarrow> 'i \<Rightarrow> lexical_rank list port_result"
  ix_rebuild :: "chunk_target list \<Rightarrow> 'i \<Rightarrow> nat port_result \<times> 'i"
  ix_claim_empty_profile :: "rstring \<Rightarrow> 'i \<Rightarrow> bool option \<times> 'i"
  ix_missing_semantic_inputs :: "nat \<Rightarrow> 'i \<Rightarrow> missing_semantic_input list option"
  ix_store_vectors_guarded :: "'v guarded_vector_row list \<Rightarrow> 'i \<Rightarrow> nat option \<times> 'i"
  ix_search_semantic :: "'v \<Rightarrow> task_id list \<Rightarrow> 'i \<Rightarrow> 's semantic_rank list option"

record 'v embedding_provider =
  em_profile_id :: rstring
  em_plan_semantic_inputs :: "rstring \<Rightarrow> rstring list option"
  em_embed_query :: "rstring \<Rightarrow> 'v option"
  em_embed_inputs :: "rstring list \<Rightarrow> 'v list option"

text \<open>The Unicode tables and the hash: case folding, \<open>is_uppercase\<close>, \<open>is_lowercase\<close> and SHA-256.\<close>

record text_tables =
  tt_fold :: "rchar \<Rightarrow> rstring"
  tt_upper :: "rchar \<Rightarrow> bool"
  tt_lower :: "rchar \<Rightarrow> bool"
  tt_sha256 :: "nat list \<Rightarrow> nat list"

record ('f, 's) search_match =
  sm_literal :: "bool option"
  sm_lexical_rank :: "nat option"
  sm_semantic_rank :: "nat option"
  sm_semantic_score :: "'s option"
  sm_fused_score :: "'f option"

record ('f, 's) search_result =
  sres_rank :: nat
  sres_id :: rstring
  sres_task_id :: task_id
  sres_workspace_id :: workspace_id
  sres_workspace_name :: rstring
  sres_title :: rstring
  sres_matched :: "('f, 's) search_match option"
  sres_source_kind :: matched_source_kind
  sres_source_comment :: "rstring option"
  sres_source_excerpt :: rstring

record ('f, 's) search_response =
  sp_query :: rstring
  sp_query_mode :: query_mode
  sp_lexical_available :: bool
  sp_lexical_unavailable_reason :: "lexical_unavailable_reason option"
  sp_semantic_available :: bool
  sp_semantic_skipped_reason :: "semantic_skipped_reason option"
  sp_sidecar_read_only :: "bool option"
  sp_results :: "('f, 's) search_result list"

section \<open>Maps and sorting\<close>

text \<open>\<open>collect\<close> into a \<open>HashMap\<close>: a later pair replaces an earlier one.  \<open>sort_by\<close> with a comparator
  that is a linear order on the elements: \<open>le x y\<close> when it does not answer \<open>Greater\<close>.\<close>

definition collect_map :: "('k \<times> 'v) list \<Rightarrow> ('k \<times> 'v) list" where
  "collect_map kvs = foldl (\<lambda>m (k, v). AList.update k v m) [] kvs"

fun insert_by :: "('a \<Rightarrow> 'a \<Rightarrow> bool) \<Rightarrow> 'a \<Rightarrow> 'a list \<Rightarrow> 'a list" where
  "insert_by le x [] = [x]"
| "insert_by le x (y # ys) = (if le x y then x # y # ys else y # insert_by le x ys)"

definition sort_by :: "('a \<Rightarrow> 'a \<Rightarrow> bool) \<Rightarrow> 'a list \<Rightarrow> 'a list" where
  "sort_by le xs = foldr (insert_by le) xs []"

section \<open>Rank fusion\<close>

record 'f score_ops =
  so_zero :: 'f
  so_add :: "'f \<Rightarrow> 'f \<Rightarrow> 'f"
  so_reciprocal :: "nat \<Rightarrow> 'f"

definition RRF_K :: nat where "RRF_K = 60"

definition fuse_one :: "'f score_ops \<Rightarrow> (task_id \<times> 'f) list \<Rightarrow> task_id \<times> nat \<Rightarrow> (task_id \<times> 'f) list" where
  "fuse_one so scores tr =
     AList.update (fst tr)
       (so_add so (case map_of scores (fst tr) of Some e \<Rightarrow> e | None \<Rightarrow> so_zero so)
         (so_reciprocal so (RRF_K + snd tr))) scores"

definition rrf_fuse :: "'f score_ops \<Rightarrow> (task_id \<times> nat) list list \<Rightarrow> (task_id \<times> 'f) list" where
  "rrf_fuse so rankings = foldl (foldl (fuse_one so)) [] rankings"

definition order_fused :: "(task_id \<times> 'f::linorder) list \<Rightarrow> task_id list" where
  "order_fused scores =
     map fst (sort_by (\<lambda>a b. snd b < snd a \<or> snd b = snd a \<and> fst a \<le> fst b) scores)"

section \<open>The literal lane\<close>

record task_literal =
  tl_contributed :: bool
  tl_full_present :: bool
  tl_all_tokens_present :: bool
  tl_occurrence :: nat
  tl_kind :: matched_source_kind
  tl_remote_comment_id :: "rstring option"
  tl_excerpt :: rstring

definition EXCERPT_LIMIT :: nat where "EXCERPT_LIMIT = 200"

definition columns :: "task_text_row \<Rightarrow> (rstring \<times> matched_source_kind \<times> rstring option) list" where
  "columns row =
     (ttr_title row, MatchedCore, None) # (ttr_body row, MatchedCore, None) #
     map (\<lambda>c. (ctr_body c, MatchedComment, ctr_remote_comment_id c)) (ttr_comments row)"

text \<open>The hits of the full query in column order, each with its evidence.\<close>

definition full_hits ::
  "text_tables \<Rightarrow> rstring \<Rightarrow> task_text_row \<Rightarrow> (matched_source_kind \<times> rstring option \<times> rstring) list" where
  "full_hits tt query row =
     concat (map (\<lambda>(col, kind, comment_id).
       if col = [] then []
       else map (\<lambda>span. (kind, comment_id, excerpt col span EXCERPT_LIMIT)) (find_literal_spans (tt_fold tt) col query))
       (columns row))"

definition has_all_tokens :: "text_tables \<Rightarrow> rstring list \<Rightarrow> task_text_row \<Rightarrow> bool" where
  "has_all_tokens tt id_tokens row \<longleftrightarrow>
     id_tokens \<noteq> [] \<and>
     list_all (\<lambda>t. list_ex (\<lambda>(col, _, _). col \<noteq> [] \<and> find_literal_spans (tt_fold tt) col t \<noteq> []) (columns row)) id_tokens"

definition row_literal :: "text_tables \<Rightarrow> rstring \<Rightarrow> query_mode \<Rightarrow> rstring list \<Rightarrow> task_text_row \<Rightarrow> task_literal" where
  "row_literal tt query mode id_tokens row =
     (let hits = full_hits tt query row;
          full_present = hits \<noteq> [];
          all_tokens = (if mode = Identifier then has_all_tokens tt id_tokens row else False);
          contributed = (case mode of
            Exact \<Rightarrow> full_present | Identifier \<Rightarrow> full_present \<or> all_tokens | Natural \<Rightarrow> 0 < length hits);
          best = (case hits of h # _ \<Rightarrow> h | [] \<Rightarrow> (MatchedCore, None, ttr_title row))
      in \<lparr>tl_contributed = contributed, tl_full_present = full_present, tl_all_tokens_present = all_tokens,
          tl_occurrence = length hits, tl_kind = fst best, tl_remote_comment_id = fst (snd best),
          tl_excerpt = snd (snd best)\<rparr>)"

definition literal_lane :: "text_tables \<Rightarrow> task_text_row list \<Rightarrow> rstring \<Rightarrow> query_mode \<Rightarrow> (task_id \<times> task_literal) list" where
  "literal_lane tt rows query mode =
     (let id_tokens = identifier_tokens (tt_upper tt) (tt_lower tt) query
      in collect_map (map (\<lambda>row. (ttr_task_id row, row_literal tt query mode id_tokens row)) rows))"

definition occurrence_of :: "(task_id \<times> task_literal) list \<Rightarrow> task_id \<Rightarrow> nat" where
  "occurrence_of literal t = (case map_of literal t of Some l \<Rightarrow> tl_occurrence l | None \<Rightarrow> 0)"

definition literal_occurrence_ranking :: "(task_id \<times> task_literal) list \<Rightarrow> (task_id \<times> nat) list" where
  "literal_occurrence_ranking literal =
     (let tasks = map fst (filter (\<lambda>(_, l). 0 < tl_occurrence l) literal);
          ranked = sort_by (\<lambda>a b. occurrence_of literal b < occurrence_of literal a \<or>
            occurrence_of literal b = occurrence_of literal a \<and> a \<le> b) tasks
      in map (\<lambda>(i, t). (t, i + 1)) (enumerate 0 ranked))"

definition build_match_expr :: "rstring \<Rightarrow> rstring" where
  "build_match_expr query =
     join (lit '' OR '') (map (\<lambda>t. 34 # replace_char 34 [34, 34] t @ [34]) (split_whitespace query))"

definition evidence ::
  "task_literal option \<Rightarrow> lexical_rank option \<Rightarrow> rstring \<Rightarrow> matched_source_kind \<times> rstring option \<times> rstring" where
  "evidence lt lx title =
     (case lt of
        Some l \<Rightarrow> if tl_contributed l then (tl_kind l, tl_remote_comment_id l, tl_excerpt l)
                  else (case lx of Some x \<Rightarrow> (lr_kind x, lr_remote_comment_id x, lr_excerpt x) | None \<Rightarrow> (MatchedCore, None, title))
      | None \<Rightarrow> (case lx of Some x \<Rightarrow> (lr_kind x, lr_remote_comment_id x, lr_excerpt x) | None \<Rightarrow> (MatchedCore, None, title)))"

section \<open>Reconciling the index\<close>

definition u64_saturating_mul :: "nat \<Rightarrow> nat \<Rightarrow> nat" where
  "u64_saturating_mul a b = min (a * b) (2 ^ 64 - 1)"

definition projected_bytes :: "chunk_target list \<Rightarrow> nat" where
  "projected_bytes targets = u64_saturating_mul (length targets) 1200"

fun chunk_kind_byte :: "chunk_kind \<Rightarrow> nat" where
  "chunk_kind_byte ChunkCore = 0"
| "chunk_kind_byte ChunkComment = 1"

definition uuid_bytes :: "uuid \<Rightarrow> nat list" where
  "uuid_bytes u = map (\<lambda>i. u div 256 ^ i mod 256) (rev [0..<16])"

definition content_fingerprint :: "(nat list \<Rightarrow> nat list) \<Rightarrow> chunk_target list \<Rightarrow> nat list" where
  "content_fingerprint sha256 targets =
     (let entries = sort (map (\<lambda>t. (ck_task_id t, chunk_kind_byte (ck_kind t), ck_content_hash t)) targets)
      in sha256 (concat (map (\<lambda>(u, k, h). uuid_bytes u @ [k] @ h) entries)))"

text \<open>What a search says of a lane: whether it is available, and the reason recorded when it is not.\<close>

type_synonym lexical_state = "bool \<times> lexical_unavailable_reason option"
type_synonym semantic_state = "bool \<times> semantic_skipped_reason option"

definition reconcile_index ::
  "('i, 'v, 's) search_index \<Rightarrow> text_tables \<Rightarrow> task_text_row list \<Rightarrow> lexical_state \<Rightarrow> 'i \<Rightarrow> lexical_state \<times> 'i" where
  "reconcile_index ix tt rows st i =
     (let targets = concat (map (chunk_task (tt_sha256 tt)) rows);
          projected = projected_bytes targets;
          fingerprint = content_fingerprint (tt_sha256 tt) targets
      in case ix_begin_reconcile ix i of
           None \<Rightarrow> ((False, Some SidecarUnavailable), i)
         | Some i1 \<Rightarrow>
             (case (case ix_diff_chunks ix targets projected i1 of
                      (None, i2) \<Rightarrow>
                        (case ix_commit ix fingerprint i2 of
                           (True, i3) \<Rightarrow> (None, i3)
                         | (False, i3) \<Rightarrow> (Some ReconciliationFailed, i3))
                    | (Some reason, i2) \<Rightarrow> (Some reason, i2)) of
                (Some reason, i4) \<Rightarrow> ((False, Some reason), ix_rollback ix i4)
              | (None, i4) \<Rightarrow> (st, i4)))"

section \<open>The semantic lane\<close>

datatype fill_outcome = Complete | Incomplete | FillFailed

definition BATCH :: nat where "BATCH = 64"

text \<open>The inner loop of a batch: the inputs of every missing chunk, each with the row it will become.\<close>

fun plan_batch ::
  "'v embedding_provider \<Rightarrow> missing_semantic_input list \<Rightarrow> (rstring \<times> missing_semantic_input \<times> nat) list option" where
  "plan_batch em [] = Some []"
| "plan_batch em (m # ms) =
     (case em_plan_semantic_inputs em (ms_text m) of
        None \<Rightarrow> None
      | Some inputs \<Rightarrow>
          map_option (\<lambda>rest. map (\<lambda>(seg, input). (input, m, seg)) (enumerate 0 inputs) @ rest) (plan_batch em ms))"

definition guarded_row ::
  "(nat list \<Rightarrow> nat list) \<Rightarrow> (rstring \<times> missing_semantic_input \<times> nat) \<times> 'v \<Rightarrow> 'v guarded_vector_row" where
  "guarded_row sha256 = (\<lambda>((input, m, seg), vector).
     \<lparr>gv_search_chunk_id = ms_search_chunk_id m, gv_task_id = ms_task_id m, gv_content_hash = ms_content_hash m,
      gv_segment_index = seg, gv_embedding_input_hash = sha256 (utf8_bytes input), gv_vector = vector\<rparr>)"

function fill_semantic_vectors ::
  "('i, 'v, 's) search_index \<Rightarrow> (nat list \<Rightarrow> nat list) \<Rightarrow> 'v embedding_provider \<Rightarrow> nat \<Rightarrow> nat \<Rightarrow> 'i \<Rightarrow> fill_outcome \<times> 'i" where
  "fill_semantic_vectors ix sha256 em max_batches batches i =
     (case ix_missing_semantic_inputs ix BATCH i of
        None \<Rightarrow> (FillFailed, i)
      | Some missing \<Rightarrow>
          if missing = [] then (Complete, i)
          else if max_batches \<le> batches then (Incomplete, i)
          else case plan_batch em missing of
            None \<Rightarrow> (FillFailed, i)
          | Some inputs \<Rightarrow>
              (case em_embed_inputs em (map fst inputs) of
                 None \<Rightarrow> (FillFailed, i)
               | Some vectors \<Rightarrow>
                   if length vectors \<noteq> length inputs then (FillFailed, i)
                   else case ix_store_vectors_guarded ix (map (guarded_row sha256) (zip inputs vectors)) i of
                     (None, i') \<Rightarrow> (FillFailed, i')
                   | (Some stored, i') \<Rightarrow>
                       if stored = 0 then (FillFailed, i')
                       else fill_semantic_vectors ix sha256 em max_batches (batches + 1) i'))"
  by pat_completeness auto
termination fill_semantic_vectors
  by (relation "measure (\<lambda>(ix, sha256, em, max_batches, batches, i). max_batches - batches)") auto

declare fill_semantic_vectors.simps [simp del]

definition semantic_gate ::
  "('i, 'v, 's) search_index \<Rightarrow> 'v embedding_provider option \<Rightarrow> query_mode \<Rightarrow> bool \<Rightarrow> bool \<Rightarrow> index_metadata option \<Rightarrow> 'i \<Rightarrow>
   semantic_state \<times> 'i" where
  "semantic_gate ix embedder mode lexical_available read_only meta i =
     (if mode = Exact
      then ((False, Some (if \<not> lexical_available then LexicalIndexUnavailable else ExactMode)), i)
      else case embedder of
        Some em \<Rightarrow>
          (if \<not> lexical_available then ((False, Some LexicalIndexUnavailable), i)
           else case Option.bind (Option.bind meta im_available) si_embedding_profile_id of
             Some p \<Rightarrow> (if p = em_profile_id em then (True, None) else (False, Some ProfileMismatch), i)
           | None \<Rightarrow>
               if read_only then ((False, Some ProfileMismatch), i)
               else (case ix_claim_empty_profile ix (em_profile_id em) i of
                 (Some True, i') \<Rightarrow> ((True, None), i')
               | (Some False, i') \<Rightarrow> ((False, Some ProfileMismatch), i')
               | (None, i') \<Rightarrow> ((False, Some EmbeddingFailed), i')))
      | None \<Rightarrow> ((False, Some (if \<not> lexical_available then LexicalIndexUnavailable else ModelNotPrepared)), i))"

text \<open>Coverage: a read-only sidecar must already be complete, a writable one is filled by one batch.
  The provider is there whenever the lane is available.\<close>

definition semantic_coverage ::
  "('i, 'v, 's) search_index \<Rightarrow> (nat list \<Rightarrow> nat list) \<Rightarrow> 'v embedding_provider option \<Rightarrow> bool \<Rightarrow> semantic_state \<Rightarrow> 'i \<Rightarrow>
   semantic_state \<times> 'i" where
  "semantic_coverage ix sha256 embedder read_only st i =
     (if fst st \<and> read_only
      then (if ix_missing_semantic_inputs ix 1 i = Some [] then st else (False, Some EmbeddingFailed), i)
      else if fst st
      then (case fill_semantic_vectors ix sha256 (the embedder) 1 0 i of
              (Complete, i') \<Rightarrow> (st, i')
            | (_, i') \<Rightarrow> ((False, Some EmbeddingFailed), i'))
      else (st, i))"

definition semantic_lane ::
  "('i, 'v, 's) search_index \<Rightarrow> 'v embedding_provider option \<Rightarrow> rstring \<Rightarrow> task_id list \<Rightarrow> semantic_state \<Rightarrow> 'i \<Rightarrow>
   semantic_state \<times> 's semantic_rank list" where
  "semantic_lane ix embedder query eligible st i =
     (if \<not> fst st then (st, [])
      else case em_plan_semantic_inputs (the embedder) query of
        None \<Rightarrow> ((False, Some EmbeddingFailed), [])
      | Some inputs \<Rightarrow>
          if 1 < length inputs then ((False, Some QueryTooLong), [])
          else case em_embed_query (the embedder) query of
            Some qv \<Rightarrow>
              (case ix_search_semantic ix qv eligible i of
                 Some ranks \<Rightarrow> (st, ranks)
               | None \<Rightarrow> ((False, Some EmbeddingFailed), []))
          | None \<Rightarrow> ((False, Some EmbeddingFailed), []))"

section \<open>Assembling the response\<close>

definition lanes_of ::
  "(task_id \<times> task_literal) list \<Rightarrow> lexical_rank list \<Rightarrow> 's semantic_rank list \<Rightarrow> (task_id \<times> nat) list list" where
  "lanes_of literal lexical semantic =
     filter (\<lambda>l. l \<noteq> [])
       [collect_map (map (\<lambda>r. (lr_task_id r, lr_rank r)) lexical),
        literal_occurrence_ranking literal,
        collect_map (map (\<lambda>(i, r). (sr_task_id r, i + 1)) (enumerate 0 semantic))]"

definition literal_ahead :: "query_mode \<Rightarrow> (task_id \<times> task_literal) list \<Rightarrow> task_id \<Rightarrow> bool" where
  "literal_ahead mode literal t =
     (case map_of literal t of
        None \<Rightarrow> False
      | Some l \<Rightarrow>
          (case mode of
             Exact \<Rightarrow> tl_full_present l
           | Identifier \<Rightarrow> tl_full_present l \<or> tl_all_tokens_present l
           | Natural \<Rightarrow> False))"

definition result_order ::
  "query_mode \<Rightarrow> (task_id \<times> task_literal) list \<Rightarrow> nat \<Rightarrow> (task_id \<times> 'f::linorder) list \<Rightarrow> task_id list" where
  "result_order mode literal limit fused =
     (let ordered = order_fused fused
      in take limit
        (if mode = Exact \<or> mode = Identifier
         then filter (literal_ahead mode literal) ordered @ filter (\<lambda>t. \<not> literal_ahead mode literal t) ordered
         else ordered))"

definition result_row ::
  "(task_id \<times> task_literal) list \<Rightarrow> lexical_rank list \<Rightarrow> 's semantic_rank list \<Rightarrow> (task_id \<times> 'f) list \<Rightarrow>
   nat \<Rightarrow> task_id \<Rightarrow> task_identity \<Rightarrow> ('f, 's) search_result" where
  "result_row literal lexical semantic fused idx tid identity =
     (let lt = map_of literal tid;
          lx = map_of (collect_map (map (\<lambda>r. (lr_task_id r, r)) lexical)) tid;
          semantic_rank = collect_map (map (\<lambda>(i, r). (sr_task_id r, i + 1)) (enumerate 0 semantic));
          semantic_score = collect_map (map (\<lambda>r. (sr_task_id r, sr_score r)) semantic);
          ev = evidence lt lx (ident_title identity)
      in \<lparr>sres_rank = idx + 1, sres_id = ident_display_id identity, sres_task_id = tid,
          sres_workspace_id = ident_workspace_id identity, sres_workspace_name = ident_workspace_name identity,
          sres_title = ident_title identity,
          sres_matched = Some
            \<lparr>sm_literal = (case lt of Some l \<Rightarrow> if tl_contributed l then Some True else None | None \<Rightarrow> None),
             sm_lexical_rank = map_option lr_rank lx,
             sm_semantic_rank = map_of semantic_rank tid,
             sm_semantic_score = map_of semantic_score tid,
             sm_fused_score = map_of fused tid\<rparr>,
          sres_source_kind = fst ev, sres_source_comment = fst (snd ev), sres_source_excerpt = snd (snd ev)\<rparr>)"

fun result_rows ::
  "(task_id \<Rightarrow> task_identity port_result) \<Rightarrow> (nat \<Rightarrow> task_id \<Rightarrow> task_identity \<Rightarrow> 'r) \<Rightarrow> nat \<Rightarrow> task_id list \<Rightarrow> search_error + 'r list" where
  "result_rows identity_of row idx [] = Inr []"
| "result_rows identity_of row idx (tid # tids) =
     (case identity_of tid of
        Inl e \<Rightarrow> Inl (SearchSource e)
      | Inr identity \<Rightarrow>
          (case result_rows identity_of row (idx + 1) tids of
             Inl e \<Rightarrow> Inl e
           | Inr rest \<Rightarrow> Inr (row idx tid identity # rest)))"

definition assemble ::
  "('f::linorder) score_ops \<Rightarrow> result_snapshot \<Rightarrow> rstring \<Rightarrow> query_mode \<Rightarrow>
   lexical_state \<Rightarrow> semantic_state \<Rightarrow>
   (task_id \<times> task_literal) list \<Rightarrow> lexical_rank list \<Rightarrow> 's semantic_rank list \<Rightarrow> nat \<Rightarrow>
   search_error + ('f, 's) search_response" where
  "assemble so snapshot query mode lexical_st semantic_st
     literal lexical semantic limit =
     (let lanes = lanes_of literal lexical semantic;
          fused = (if lanes = [] then [] else rrf_fuse so lanes);
          ordered = result_order mode literal limit fused
      in case result_rows (sn_task_identity snapshot) (result_row literal lexical semantic fused) 0 ordered of
           Inl e \<Rightarrow> Inl e
         | Inr results \<Rightarrow> Inr
             \<lparr>sp_query = query, sp_query_mode = mode,
              sp_lexical_available = fst lexical_st,
              sp_lexical_unavailable_reason = (if fst lexical_st then None else snd lexical_st),
              sp_semantic_available = fst semantic_st,
              sp_semantic_skipped_reason = (if fst semantic_st then None else snd semantic_st),
              sp_sidecar_read_only = None, sp_results = results\<rparr>)"

section \<open>The handlers\<close>

definition lexical_gate :: "index_metadata option \<Rightarrow> lexical_state" where
  "lexical_gate meta =
     (case meta of
        None \<Rightarrow> (False, Some SidecarUnavailable)
      | Some m \<Rightarrow> if im_schema_mismatch m = Some True then (False, Some SchemaMismatch) else (True, None))"

text \<open>The second half of \<open>search\<close>, from \<open>begin_result_snapshot\<close> on; it only reads.\<close>

definition answer ::
  "('f::linorder) score_ops \<Rightarrow> search_source \<Rightarrow> ('i, 'v, 's) search_index \<Rightarrow> 'v embedding_provider option \<Rightarrow> text_tables \<Rightarrow>
   search_request \<Rightarrow> rstring \<Rightarrow> query_mode \<Rightarrow> bool \<Rightarrow> lexical_state \<Rightarrow> semantic_state \<Rightarrow> 'i \<Rightarrow>
   search_error + ('f, 's) search_response" where
  "answer so src ix embedder tt req query mode read_only lexical_st semantic_st i =
     (case begin_result_snapshot src (sq_scope req) of
        Inl e \<Rightarrow> Inl (SearchSource e)
      | Inr snapshot \<Rightarrow>
          (case sn_eligible_rows snapshot of
             Inl e \<Rightarrow> Inl (SearchSource e)
           | Inr rows \<Rightarrow>
               let literal = literal_lane tt rows query mode; eligible = map ttr_task_id rows
               in case (if fst lexical_st then ix_search_lexical ix (build_match_expr query) eligible i else Inr []) of
                    Inl e \<Rightarrow> Inl (SearchSource e)
                  | Inr lexical \<Rightarrow>
                      (case semantic_lane ix embedder query eligible semantic_st i of
                         (semantic_st', semantic) \<Rightarrow>
                           (case assemble so snapshot query mode lexical_st semantic_st' literal lexical semantic (sq_limit req) of
                              Inl e \<Rightarrow> Inl e
                            | Inr response \<Rightarrow> Inr (response\<lparr>sp_sidecar_read_only := (if read_only then Some True else None)\<rparr>)))))"

definition search ::
  "('f::linorder) score_ops \<Rightarrow> search_source \<Rightarrow> ('i, 'v, 's) search_index \<Rightarrow> 'v embedding_provider option \<Rightarrow> text_tables \<Rightarrow>
   search_request \<Rightarrow> 'i \<Rightarrow> (search_error + ('f, 's) search_response) \<times> 'i" where
  "search so src ix embedder tt req i0 =
     (let query = trim (sq_query req) in
      if query = [] then (Inl EmptyQuery, i0)
      else if sq_limit req = 0 then (Inl ZeroLimit, i0)
      else
        let mode = classify (tt_upper tt) (tt_lower tt) query (sq_exact req);
            meta = ix_metadata ix i0;
            gate = lexical_gate meta;
            read_only = (case meta of Some m \<Rightarrow> im_read_only m | None \<Rightarrow> False)
        in case (if fst gate \<and> \<not> read_only
                 then (case load_reconcile_snapshot src of
                         Inl e \<Rightarrow> Inl (SearchSource e)
                       | Inr rows \<Rightarrow> Inr (reconcile_index ix tt rows gate i0))
                 else Inr (gate, i0)) of
             Inl e \<Rightarrow> (Inl e, i0)
           | Inr (lexical_st, i1) \<Rightarrow>
               (case semantic_gate ix embedder mode (fst lexical_st) read_only meta i1 of
                  (gated, i2) \<Rightarrow>
                    (case semantic_coverage ix (tt_sha256 tt) embedder read_only gated i2 of
                       (semantic_st, i3) \<Rightarrow>
                         (answer so src ix embedder tt req query mode read_only lexical_st semantic_st i3, i3))))"

definition rebuild ::
  "search_source \<Rightarrow> ('i, 'v, 's) search_index \<Rightarrow> 'v embedding_provider option \<Rightarrow> text_tables \<Rightarrow> 'i \<Rightarrow>
   (search_error + (nat \<times> fill_outcome option)) \<times> 'i" where
  "rebuild src ix embedder tt i =
     (case load_reconcile_snapshot src of
        Inl e \<Rightarrow> (Inl (SearchSource e), i)
      | Inr rows \<Rightarrow>
          (case ix_rebuild ix (concat (map (chunk_task (tt_sha256 tt)) rows)) i of
             (Inl e, i1) \<Rightarrow> (Inl (SearchSource e), i1)
           | (Inr written, i1) \<Rightarrow>
               (case embedder of
                  None \<Rightarrow> (Inr (written, None), i1)
                | Some em \<Rightarrow>
                    (case fill_semantic_vectors ix (tt_sha256 tt) em (2 ^ 64 - 1) 0 i1 of
                       (outcome, i2) \<Rightarrow> (Inr (written, Some outcome), i2)))))"

end
