(* ===== verification/SearchProps.thy ===== *)
theory SearchProps
  imports SearchService
begin

text \<open>
  Facts about a search: the quoting of the match expression, the shape of identifier tokens, the order
  of the results, what a response says of its lanes and what a search does to the sidecar.
\<close>

section \<open>Sorting and maps\<close>

lemma mset_insert_by [simp]: "mset (insert_by le x xs) = add_mset x (mset xs)"
  by (induction xs) auto

lemma mset_sort_by [simp]: "mset (sort_by le xs) = mset xs"
  by (induction xs) (auto simp: sort_by_def)

lemma set_sort_by [simp]: "set (sort_by le xs) = set xs"
  by (metis mset_sort_by set_mset_mset)

lemma sorted_insert_by:
  assumes "\<And>x y. le x y \<or> le y x" "\<And>x y z. le x y \<Longrightarrow> le y z \<Longrightarrow> le x z"
  shows "sorted_wrt le xs \<Longrightarrow> sorted_wrt le (insert_by le x xs)"
proof (induction xs)
  case (Cons y ys)
  have "set (insert_by le x ys) = insert x (set ys)"
    by (metis mset_insert_by set_mset_add_mset_insert set_mset_mset)
  with Cons assms show ?case by auto
qed simp

lemma sorted_sort_by:
  assumes "\<And>x y. le x y \<or> le y x" "\<And>x y z. le x y \<Longrightarrow> le y z \<Longrightarrow> le x z"
  shows "sorted_wrt le (sort_by le xs)"
  unfolding sort_by_def by (induction xs) (auto intro: sorted_insert_by [OF assms])

lemma distinct_collect_map: "distinct (map fst (collect_map kvs))"
proof -
  have "distinct (map fst m) \<Longrightarrow> distinct (map fst (foldl (\<lambda>m (k, v). AList.update k v m) m kvs))" for m :: "('a \<times> 'b) list"
    by (induction kvs arbitrary: m) (auto simp: distinct_update split: prod.splits)
  then show ?thesis by (simp add: collect_map_def)
qed

section \<open>Fusion\<close>

lemma distinct_fuse: "distinct (map fst m) \<Longrightarrow> distinct (map fst (foldl (foldl (fuse_one so)) m ls))"
proof (induction ls arbitrary: m)
  case (Cons l ls)
  have "distinct (map fst m) \<Longrightarrow> distinct (map fst (foldl (fuse_one so) m l))" for m
    by (induction l arbitrary: m) (auto simp: fuse_one_def distinct_update)
  with Cons show ?case by simp
qed simp

lemma distinct_rrf_fuse: "distinct (map fst (rrf_fuse so ls))"
  unfolding rrf_fuse_def by (rule distinct_fuse) simp

lemma distinct_order_fused: "distinct (map fst scores) \<Longrightarrow> distinct (order_fused scores)"
  using mset_eq_imp_distinct_iff [of "order_fused scores" "map fst scores"] by (simp add: order_fused_def)

lemma order_fused_sorted:
  "distinct (map fst scores) \<Longrightarrow>
   sorted_wrt (\<lambda>s t. the (map_of scores t) < the (map_of scores s) \<or>
     the (map_of scores t) = the (map_of scores s) \<and> s \<le> t) (order_fused scores)"
proof -
  assume d: "distinct (map fst scores)"
  let ?le = "\<lambda>a b. snd b < snd a \<or> snd b = snd a \<and> fst a \<le> (fst b :: task_id)"
  have "sorted_wrt ?le (sort_by ?le scores)" by (rule sorted_sort_by) auto
  moreover have "the (map_of scores (fst a)) = snd a" if "a \<in> set (sort_by ?le scores)" for a
    using map_of_eq_Some_iff [OF d, of "fst a" "snd a"] that unfolding set_sort_by by simp
  ultimately show ?thesis unfolding order_fused_def sorted_wrt_map by - (erule sorted_wrt_mono_rel [rotated], simp)
qed

lemma distinct_result_order:
  assumes "distinct (map fst fused)"
  shows "distinct (result_order mode literal limit fused)"
  using distinct_order_fused [OF assms] by (auto simp: result_order_def Let_def intro!: distinct_take simp del: take_append)

lemma sorted_wrt_true_on: "(\<And>x y. x \<in> set xs \<Longrightarrow> y \<in> set xs \<Longrightarrow> P x y) \<Longrightarrow> sorted_wrt P xs"
  by (induction xs) auto

lemma result_order_ahead:
  assumes "mode \<noteq> Natural"
  shows "sorted_wrt (\<lambda>s t. literal_ahead mode literal t \<longrightarrow> literal_ahead mode literal s) (result_order mode literal limit fused)"
proof -
  have "mode = Exact \<or> mode = Identifier" using assms by (cases mode) auto
  then show ?thesis
    unfolding result_order_def Let_def
    by (intro sorted_wrt_take) (auto simp: sorted_wrt_append intro!: sorted_wrt_true_on)
qed

section \<open>The response\<close>

lemma result_rows_ok:
  "result_rows identity_of row idx tids = Inr rows \<Longrightarrow>
     length rows = length tids \<and> (\<forall>k < length tids. \<exists>ident. identity_of (tids ! k) = Inr ident \<and> rows ! k = row (idx + k) (tids ! k) ident)"
proof (induction tids arbitrary: idx rows)
  case (Cons t ts)
  then obtain ident rest where *: "identity_of t = Inr ident" "result_rows identity_of row (idx + 1) ts = Inr rest" "rows = row idx t ident # rest"
    by (auto split: sum.splits)
  from Cons.IH [OF *(2)] *(1,3) show ?case by (auto simp: nth_Cons split: nat.splits)
qed simp

definition literal_flag :: "('f, 's) search_result \<Rightarrow> bool" where
  "literal_flag r \<longleftrightarrow> (\<exists>m. sres_matched r = Some m \<and> sm_literal m = Some True)"

text \<open>A literal lane whose flags agree: the task contributed exactly when its mode puts it ahead.\<close>

definition lane_for :: "query_mode \<Rightarrow> (task_id \<times> task_literal) list \<Rightarrow> bool" where
  "lane_for mode literal \<longleftrightarrow> (mode \<noteq> Natural \<longrightarrow>
     (\<forall>t l. map_of literal t = Some l \<longrightarrow> tl_contributed l = literal_ahead mode literal t))"

lemma collect_onto_range:
  "map_of (foldl (\<lambda>m (k, v). AList.update k v m) m kvs) k = Some v \<Longrightarrow> (k, v) \<in> set kvs \<or> map_of m k = Some v"
proof (induction kvs arbitrary: m)
  case (Cons kv kvs)
  obtain k' v' where "kv = (k', v')" by fastforce
  with Cons.IH [of "AList.update k' v' m"] Cons.prems show ?case by (auto simp: update_conv' split: if_splits)
qed simp

lemma collect_map_range: "map_of (collect_map kvs) k = Some v \<Longrightarrow> (k, v) \<in> set kvs"
  using collect_onto_range [of "[]" kvs k v] by (simp add: collect_map_def)

lemma lane_for_literal_lane: "lane_for mode (literal_lane tt rows query mode)"
  unfolding lane_for_def
proof (intro impI allI)
  fix t l assume "mode \<noteq> Natural" and l: "map_of (literal_lane tt rows query mode) t = Some l"
  then obtain row where "l = row_literal tt query mode (identifier_tokens (tt_upper tt) (tt_lower tt) query) row"
    by (auto simp: literal_lane_def Let_def dest!: collect_map_range)
  with l \<open>mode \<noteq> Natural\<close> show "tl_contributed l = literal_ahead mode (literal_lane tt rows query mode) t"
    by (cases mode) (auto simp: literal_ahead_def row_literal_def Let_def)
qed

lemma result_row_facts [simp]:
  "sres_rank (result_row literal lexical semantic fused idx tid ident) = Suc idx"
  "sres_task_id (result_row literal lexical semantic fused idx tid ident) = tid"
  "lane_for mode literal \<Longrightarrow> mode \<noteq> Natural \<Longrightarrow>
     literal_flag (result_row literal lexical semantic fused idx tid ident) = literal_ahead mode literal tid"
  by (auto simp: result_row_def Let_def literal_flag_def lane_for_def literal_ahead_def split: option.splits)

definition rows_ordered :: "query_mode \<Rightarrow> nat \<Rightarrow> ('f, 's) search_result list \<Rightarrow> bool" where
  "rows_ordered mode limit rows \<longleftrightarrow>
     length rows \<le> limit \<and> map sres_rank rows = [1..<Suc (length rows)] \<and> distinct (map sres_task_id rows) \<and>
     (mode \<noteq> Natural \<longrightarrow> sorted_wrt (\<lambda>x y. literal_flag y \<longrightarrow> literal_flag x) rows)"

lemma assemble_facts:
  assumes "assemble so snapshot query mode lx sx literal lexical semantic limit = Inr resp" "lane_for mode literal"
  shows "sp_query_mode resp = mode" "sp_query resp = query" "rows_ordered mode limit (sp_results resp)"
    "sp_lexical_available resp = fst lx" "sp_lexical_unavailable_reason resp = (if fst lx then None else snd lx)"
    "sp_semantic_available resp = fst sx" "sp_semantic_skipped_reason resp = (if fst sx then None else snd sx)"
proof -
  define fused where "fused = (if lanes_of literal lexical semantic = [] then [] else rrf_fuse so (lanes_of literal lexical semantic))"
  define tids where "tids = result_order mode literal limit fused"
  from assms(1) obtain rows where rows:
    "result_rows (sn_task_identity snapshot) (result_row literal lexical semantic fused) 0 tids = Inr rows" "sp_results resp = rows"
    and "sp_query_mode resp = mode" "sp_query resp = query" "sp_lexical_available resp = fst lx"
    "sp_lexical_unavailable_reason resp = (if fst lx then None else snd lx)"
    "sp_semantic_available resp = fst sx" "sp_semantic_skipped_reason resp = (if fst sx then None else snd sx)"
    by (auto simp: assemble_def Let_def fused_def [symmetric] tids_def [symmetric] split: sum.splits)
  then show "sp_query_mode resp = mode" "sp_query resp = query" "sp_lexical_available resp = fst lx"
    "sp_lexical_unavailable_reason resp = (if fst lx then None else snd lx)"
    "sp_semantic_available resp = fst sx" "sp_semantic_skipped_reason resp = (if fst sx then None else snd sx)" by auto
  from result_rows_ok [OF rows(1)] have len: "length rows = length tids"
    and row: "\<And>k. k < length tids \<Longrightarrow> \<exists>ident. rows ! k = result_row literal lexical semantic fused k (tids ! k) ident" by auto
  have "length tids \<le> limit" by (simp add: tids_def result_order_def Let_def)
  moreover have "map sres_rank rows = [1..<Suc (length rows)]"
    by (rule nth_equalityI) (use len in \<open>auto simp del: upt_Suc dest!: row\<close>)
  moreover have "map sres_task_id rows = tids" by (rule nth_equalityI) (use len in \<open>auto dest!: row\<close>)
  moreover have "distinct tids" unfolding tids_def fused_def by (rule distinct_result_order) (simp add: distinct_rrf_fuse)
  moreover have "sorted_wrt (\<lambda>x y. literal_flag y \<longrightarrow> literal_flag x) rows" if "mode \<noteq> Natural"
  proof -
    have flag: "literal_flag (rows ! k) = literal_ahead mode literal (tids ! k)" if "k < length tids" for k
      using row [OF that] result_row_facts(3) [OF assms(2) \<open>mode \<noteq> Natural\<close>] by metis
    have "sorted_wrt (\<lambda>s t. literal_ahead mode literal t \<longrightarrow> literal_ahead mode literal s) tids"
      unfolding tids_def by (rule result_order_ahead [OF that])
    then show ?thesis using flag len by (auto simp: sorted_wrt_iff_nth_less)
  qed
  ultimately show "rows_ordered mode limit (sp_results resp)" using rows(2) len by (simp add: rows_ordered_def)
qed

section \<open>The gates\<close>

abbreviation reasoned :: "bool \<times> 'r option \<Rightarrow> bool" where
  "reasoned st \<equiv> fst st \<longleftrightarrow> snd st = None"

lemma reasoned_reconcile: "reasoned st \<Longrightarrow> reasoned (fst (reconcile_index ix tt rows st i))"
  by (auto simp: reconcile_index_def Let_def split: option.splits prod.splits bool.splits)

lemma reasoned_lexical_gate: "reasoned (lexical_gate meta)"
  by (auto simp: lexical_gate_def split: option.splits)

lemma semantic_gate_facts:
  "semantic_gate ix embedder mode la ro meta i = (st, i') \<Longrightarrow>
     reasoned st \<and> (fst st \<longrightarrow> la \<and> mode \<noteq> Exact \<and> embedder \<noteq> None) \<and> (ro \<longrightarrow> i' = i)"
  by (auto simp: semantic_gate_def split: if_splits option.splits prod.splits bool.splits)

lemma fill_complete:
  "fill_semantic_vectors ix sha256 em mx n i = (Complete, i') \<Longrightarrow> ix_missing_semantic_inputs ix BATCH i' = Some []"
proof (induction ix sha256 em mx n i rule: fill_semantic_vectors.induct)
  case (1 ix sha256 em mx n i)
  from "1.prems" show ?case
    by (subst (asm) fill_semantic_vectors.simps) (auto split: option.splits if_splits prod.splits intro: "1.IH")
qed

definition covered :: "('i, 'v, 's) search_index \<Rightarrow> 'i \<Rightarrow> bool" where
  "covered ix i \<longleftrightarrow> ix_missing_semantic_inputs ix 1 i = Some [] \<or> ix_missing_semantic_inputs ix BATCH i = Some []"

lemma semantic_coverage_facts:
  assumes "semantic_coverage ix sha256 embedder ro st i = (st', i')" "reasoned st"
  shows "reasoned st' \<and> (fst st' \<longrightarrow> fst st \<and> covered ix i') \<and> (ro \<longrightarrow> i' = i)"
  using assms fill_complete [of ix sha256 "the embedder" 1 0 i]
  by (auto simp: semantic_coverage_def covered_def split: if_splits prod.splits fill_outcome.splits)

lemma semantic_lane_facts:
  "semantic_lane ix embedder query eligible st i = (st', ranks) \<Longrightarrow> reasoned st \<Longrightarrow>
     reasoned st' \<and> (fst st' \<longrightarrow> fst st)"
  by (auto simp: semantic_lane_def split: if_splits option.splits)

lemma answer_without_lane: "\<not> fst sx \<Longrightarrow> answer so src ix em tt req query mode ro lx sx i = answer so src ix em' tt req query mode ro lx sx i"
  by (simp add: answer_def semantic_lane_def cong: sum.case_cong)

lemma answer_facts:
  assumes "answer so src ix embedder tt req query mode ro lx sx i = Inr resp" "reasoned lx" "reasoned sx"
  shows "rows_ordered mode (sq_limit req) (sp_results resp) \<and> sp_query_mode resp = mode \<and>
    sp_lexical_available resp = fst lx \<and>
    (sp_lexical_available resp \<longleftrightarrow> sp_lexical_unavailable_reason resp = None) \<and>
    (sp_semantic_available resp \<longleftrightarrow> sp_semantic_skipped_reason resp = None) \<and>
    (sp_semantic_available resp \<longrightarrow> fst sx)"
proof -
  from assms(1) obtain snapshot rows lexical st' semantic resp' where
    lane: "semantic_lane ix embedder query (map ttr_task_id rows) sx i = (st', semantic)" and
    a: "assemble so snapshot query mode lx st' (literal_lane tt rows query mode) lexical semantic (sq_limit req) = Inr resp'"
    and resp: "resp = resp'\<lparr>sp_sidecar_read_only := (if ro then Some True else None)\<rparr>"
    by (auto simp: answer_def Let_def split: sum.splits prod.splits)
  note facts = assemble_facts [OF a lane_for_literal_lane] semantic_lane_facts [OF lane assms(3)]
  show ?thesis using facts assms(2) unfolding resp by simp
qed

text \<open>The two halves of a search.\<close>

lemma search_phases:
  assumes "search so src ix embedder tt req i = (res, i')"
  obtains (early) "i' = i" "\<And>resp. res \<noteq> Inr resp" "\<And>em. search so src ix em tt req i = (res, i')"
  | (full) mode ro lx i1 gated i2 sx where
      "mode = classify (tt_upper tt) (tt_lower tt) (trim (sq_query req)) (sq_exact req)"
      "ro = (case ix_metadata ix i of Some m \<Rightarrow> im_read_only m | None \<Rightarrow> False)"
      "reasoned lx" "ro \<longrightarrow> i1 = i"
      "semantic_gate ix embedder mode (fst lx) ro (ix_metadata ix i) i1 = (gated, i2)"
      "semantic_coverage ix (tt_sha256 tt) embedder ro gated i2 = (sx, i')"
      "res = answer so src ix embedder tt req (trim (sq_query req)) mode ro lx sx i'"
      "\<And>em. search so src ix em tt req i =
        (case semantic_gate ix em mode (fst lx) ro (ix_metadata ix i) i1 of (gated, i2) \<Rightarrow>
          (case semantic_coverage ix (tt_sha256 tt) em ro gated i2 of
             (sx, i3) \<Rightarrow> (answer so src ix em tt req (trim (sq_query req)) mode ro lx sx i3, i3)))"
proof -
  let ?query = "trim (sq_query req)" and ?meta = "ix_metadata ix i"
  let ?ro = "case ?meta of Some m \<Rightarrow> im_read_only m | None \<Rightarrow> False"
  let ?mode = "classify (tt_upper tt) (tt_lower tt) ?query (sq_exact req)"
  define start where "start = (if fst (lexical_gate ?meta) \<and> \<not> ?ro
      then (case load_reconcile_snapshot src of Inl e \<Rightarrow> Inl (SearchSource e) | Inr rows \<Rightarrow> Inr (reconcile_index ix tt rows (lexical_gate ?meta) i))
      else Inr (lexical_gate ?meta, i))"
  show ?thesis
  proof (cases "?query = [] \<or> sq_limit req = 0 \<or> (\<exists>e. start = Inl e)")
    case True
    then have "\<exists>e. \<forall>em. search so src ix em tt req i = (Inl e, i)"
      unfolding search_def Let_def start_def [symmetric] by (cases "?query = []"; cases "sq_limit req = 0") auto
    then obtain e where e: "\<And>em. search so src ix em tt req i = (Inl e, i)" by blast
    with assms early show ?thesis by auto
  next
    case False
    then obtain lx i1 where st: "start = Inr (lx, i1)" by (cases start) auto
    have run: "search so src ix em tt req i =
        (case semantic_gate ix em ?mode (fst lx) ?ro ?meta i1 of (gated, i2) \<Rightarrow>
          (case semantic_coverage ix (tt_sha256 tt) em ?ro gated i2 of
             (sx, i3) \<Rightarrow> (answer so src ix em tt req ?query ?mode ?ro lx sx i3, i3)))" for em
      using False unfolding search_def Let_def start_def [symmetric] st by simp
    obtain gated i2 where g: "semantic_gate ix embedder ?mode (fst lx) ?ro ?meta i1 = (gated, i2)" by fastforce
    obtain sx i3 where c: "semantic_coverage ix (tt_sha256 tt) embedder ?ro gated i2 = (sx, i3)" by fastforce
    have "(answer so src ix embedder tt req ?query ?mode ?ro lx sx i3, i3) = (res, i')"
      using assms unfolding run by (simp only: g c prod.case)
    then have "i3 = i'" and "answer so src ix embedder tt req ?query ?mode ?ro lx sx i3 = res" by (blast dest: Pair_inject)+
    then have res: "res = answer so src ix embedder tt req ?query ?mode ?ro lx sx i'" "i3 = i'" by blast+
    have "reasoned lx" "?ro \<longrightarrow> i1 = i"
      using st reasoned_reconcile [OF reasoned_lexical_gate [of ?meta], of ix tt _ i] reasoned_lexical_gate [of ?meta]
      unfolding start_def by (auto split: if_splits sum.splits) (metis fst_conv snd_conv)+
    from full [OF refl refl this g c [unfolded res(2)] res(1) run] show ?thesis .
  qed
qed

text \<open>C8 What a search answers.  The results are at most \<open>--limit\<close> many, ranked 1, 2, 3 and so on, each task
  once; in exact and identifier mode no task the literal lane flags comes after one it does not.  The
  response has a reason for a lane exactly when it reports the lane unavailable, and the semantic lane is
  reported available only together with the lexical one, only with a provider attached and never in exact
  mode; the reported mode is the classifier's verdict on the trimmed query.\<close>

theorem search_response_sound:
  assumes "search so src ix embedder tt req i = (Inr resp, i')"
  shows "length (sp_results resp) \<le> sq_limit req \<and>
    map sres_rank (sp_results resp) = [1..<Suc (length (sp_results resp))] \<and>
    distinct (map sres_task_id (sp_results resp)) \<and>
    (sp_query_mode resp \<noteq> Natural \<longrightarrow> sorted_wrt (\<lambda>x y. literal_flag y \<longrightarrow> literal_flag x) (sp_results resp)) \<and>
    (sp_lexical_available resp \<longleftrightarrow> sp_lexical_unavailable_reason resp = None) \<and>
    (sp_semantic_available resp \<longleftrightarrow> sp_semantic_skipped_reason resp = None) \<and>
    (sp_semantic_available resp \<longrightarrow> sp_lexical_available resp \<and> embedder \<noteq> None \<and> sp_query_mode resp \<noteq> Exact) \<and>
    sp_query_mode resp = classify (tt_upper tt) (tt_lower tt) (trim (sq_query req)) (sq_exact req)"
  using assms
proof (cases rule: search_phases)
  case (full mode ro lx i1 gated i2 sx)
  have gate: "reasoned gated" "fst gated \<longrightarrow> fst lx \<and> mode \<noteq> Exact \<and> embedder \<noteq> None"
    using semantic_gate_facts [OF full(5)] by blast+
  have cover: "reasoned sx" "fst sx \<longrightarrow> fst gated" using semantic_coverage_facts [OF full(6) gate(1)] by blast+
  note said = answer_facts [OF full(7) [symmetric] full(3) cover(1), unfolded rows_ordered_def]
  then have mode: "sp_query_mode resp = mode" by blast
  show ?thesis unfolding mode full(1) [symmetric] using said gate(2) cover(2) by blast
qed blast

text \<open>C23 What a search does to the sidecar.  A response that reports the semantic lane available was computed on
  a sidecar where no chunk is missing its vectors; a sidecar opened read-only is left exactly as it was; and
  an exact search is the same computation whether or not an embedding provider is attached: it claims no
  profile, embeds nothing and stores nothing.\<close>

theorem search_guards_sidecar:
  assumes "search so src ix embedder tt req i = (res, i')"
  shows "(\<forall>resp. res = Inr resp \<and> sp_semantic_available resp \<longrightarrow> covered ix i') \<and>
    (\<forall>m. ix_metadata ix i = Some m \<and> im_read_only m \<longrightarrow> i' = i) \<and>
    (sq_exact req \<longrightarrow> search so src ix None tt req i = (res, i'))"
  using assms
proof (cases rule: search_phases)
  case early
  then show ?thesis by auto
next
  case (full mode ro lx i1 gated i2 sx)
  have gate: "reasoned gated" "ro \<longrightarrow> i2 = i1" using semantic_gate_facts [OF full(5)] by blast+
  have cover: "reasoned sx" "fst sx \<longrightarrow> covered ix i'" "ro \<longrightarrow> i' = i2"
    using semantic_coverage_facts [OF full(6) gate(1)] by blast+
  have "covered ix i'" if "res = Inr resp" "sp_semantic_available resp" for resp
    using answer_facts [OF full(7) [symmetric, unfolded that(1)] full(3) cover(1)] that(2) cover(2) by blast
  moreover have "i' = i" if "ro" using that full(4) gate(2) cover(3) by simp
  moreover have "search so src ix None tt req i = (res, i')" if "sq_exact req"
  proof -
    have "mode = Exact" using that full(1) by (simp add: classify_def)
    then have "semantic_gate ix None mode (fst lx) ro (ix_metadata ix i) i1 = (gated, i2)" "\<not> fst gated"
      using full(5) by (auto simp: semantic_gate_def)
    moreover from this(2) have "semantic_coverage ix (tt_sha256 tt) None ro gated i2 = (sx, i')" "sx = gated"
      using full(6) by (auto simp: semantic_coverage_def)
    moreover from this(2) \<open>\<not> fst gated\<close> have "answer so src ix None tt req (trim (sq_query req)) mode ro lx sx i' = res"
      using full(7) answer_without_lane by metis
    ultimately show ?thesis unfolding full(8) by simp
  qed
  ultimately show ?thesis using full(2) by auto
qed

section \<open>The match expression\<close>

text \<open>How FTS5 reads such an expression: a string in double quotes, in which a doubled quote is one
  quote, and \<open>OR\<close> between strings.\<close>

fun read_string :: "rstring \<Rightarrow> (rstring \<times> rstring) option" where
  "read_string [] = None"
| "read_string (c # cs) =
     (if c = 34
      then (case cs of
              d # ds \<Rightarrow> if d = 34 then map_option (\<lambda>(t, rest). (34 # t, rest)) (read_string ds) else Some ([], cs)
            | [] \<Rightarrow> Some ([], []))
      else map_option (\<lambda>(t, rest). (c # t, rest)) (read_string cs))"

lemma read_string_length: "read_string s = Some (t, rest) \<Longrightarrow> length rest < length s"
  by (induction s arbitrary: t rest rule: read_string.induct) (fastforce split: if_splits list.splits)+

function read_terms :: "rstring \<Rightarrow> rstring list option" where
  "read_terms [] = None"
| "read_terms (c # s) =
     (if c \<noteq> 34 then None
      else case read_string s of
        None \<Rightarrow> None
      | Some (t, rest) \<Rightarrow>
          if rest = [] then Some [t]
          else if starts_with rest (lit '' OR '') then map_option ((#) t) (read_terms (drop 4 rest)) else None)"
  by pat_completeness auto
termination read_terms by (relation "measure length") (auto dest!: read_string_length)

definition read_match_expr :: "rstring \<Rightarrow> rstring list option" where
  "read_match_expr s = (if s = [] then Some [] else read_terms s)"

lemma read_quoted:
  "rest = [] \<or> hd rest \<noteq> 34 \<Longrightarrow> read_string (replace_char 34 [34, 34] t @ 34 # rest) = Some (t, rest)"
  by (induction t) (auto simp: replace_char_def split: list.splits)

definition quoted :: "rstring \<Rightarrow> rstring" where
  "quoted t = 34 # replace_char 34 [34, 34] t @ [34]"

lemma read_terms_join: "ts \<noteq> [] \<Longrightarrow> read_terms (join (lit '' OR '') (map quoted ts)) = Some ts"
proof (induction ts)
  case (Cons t ts)
  show ?case
  proof (cases ts)
    case Nil
    then show ?thesis using read_quoted [of "[]" t] by (simp add: quoted_def)
  next
    case (Cons u us)
    then have "join (lit '' OR '') (map quoted (t # ts)) =
        34 # replace_char 34 [34, 34] t @ 34 # lit '' OR '' @ join (lit '' OR '') (map quoted ts)"
      by (simp add: quoted_def)
    moreover have "read_string (replace_char 34 [34, 34] t @ 34 # lit '' OR '' @ r) = Some (t, lit '' OR '' @ r)" for r
      by (rule read_quoted) simp
    ultimately show ?thesis using Cons.IH \<open>ts = u # us\<close> by (simp add: starts_with_def del: join.simps)
  qed
qed simp

text \<open>C25 No query can inject FTS syntax.  Read back by the grammar of the expression, quoted strings in which a
  doubled quote stands for one, with \<open>OR\<close> between them, \<open>build_match_expr\<close> gives exactly the
  whitespace-separated words of the query, whatever quotes, operators or SQL they hold.\<close>

theorem match_expr_roundtrip: "read_match_expr (build_match_expr query) = Some (split_whitespace query)"
proof (cases "split_whitespace query = []")
  case True
  then show ?thesis by (simp add: build_match_expr_def read_match_expr_def)
next
  case False
  have "build_match_expr query = join (lit '' OR '') (map quoted (split_whitespace query))"
    by (simp add: build_match_expr_def quoted_def [abs_def])
  moreover have "join (lit '' OR '') (map quoted ts) \<noteq> []" if "ts \<noteq> []" for ts
    using that by (cases ts; cases "tl ts") (auto simp: quoted_def)
  ultimately show ?thesis using read_terms_join [OF False] False by (simp add: read_match_expr_def)
qed

section \<open>The shape of an identifier\<close>

definition adjacent :: "(rchar \<Rightarrow> bool) \<Rightarrow> (rchar \<Rightarrow> bool) \<Rightarrow> rstring \<Rightarrow> bool" where
  "adjacent P Q s \<longleftrightarrow> (\<exists>i. Suc i < length s \<and> P (s ! i) \<and> Q (s ! Suc i))"

lemma adjacent_Cons: "adjacent P Q (c # cs) \<longleftrightarrow> (\<exists>d ds. cs = d # ds \<and> P c \<and> Q d) \<or> adjacent P Q cs"
proof -
  have "adjacent P Q (c # cs) \<longleftrightarrow> (\<exists>i < length cs. P ((c # cs) ! i) \<and> Q (cs ! i))" by (auto simp: adjacent_def)
  also have "\<dots> \<longleftrightarrow> (0 < length cs \<and> P c \<and> Q (cs ! 0)) \<or> adjacent P Q cs"
    by (auto simp: adjacent_def gr0_conv_Suc nth_Cons split: nat.splits)
  finally show ?thesis by (cases cs) auto
qed

lemma scan_token_iff:
  "scan_token upper lower prev pl n cs \<longleftrightarrow>
     2 \<le> n + length (filter upper cs) \<or> (\<exists>c ds. cs = c # ds \<and> (pl \<and> upper c \<or> is_ascii_digit c \<and> (\<exists>p. prev = Some p \<and> upper p))) \<or>
     adjacent lower upper cs \<or> adjacent upper is_ascii_digit cs \<or> adjacent is_ascii_digit upper cs"
proof (induction cs arbitrary: prev pl n)
  case (Cons c cs)
  show ?case
    unfolding scan_token.simps Cons.IH adjacent_Cons [of _ _ c]
    by (cases cs) (auto split: option.splits)
qed (simp add: adjacent_def)

text \<open>What makes a word an identifier.  The scan answers exactly: the word has one of the characters
  underscore, slash, number sign or hyphen, or two colons in a row; or a capital right after a small
  letter; or a digit right beside a capital; or two capitals.  And a query is in identifier mode exactly
  when it is not \<open>--exact\<close> and one of its words is such a word.\<close>

lemma identifier_shape:
  "is_identifier_token upper lower tok \<longleftrightarrow>
     (\<exists>c \<in> {95, 47, 35, 45}. c \<in> set tok) \<or> contains tok (lit ''::'') \<or>
     adjacent lower upper tok \<or> adjacent upper is_ascii_digit tok \<or> adjacent is_ascii_digit upper tok \<or>
     2 \<le> length (filter upper tok)"
proof -
  have "adjacent P Q [] \<longleftrightarrow> False" "contains [] (lit ''::'') \<longleftrightarrow> False" for P Q
    by (simp_all add: adjacent_def contains_def)
  then show ?thesis by (cases "tok = []") (auto simp: is_identifier_token_def scan_token_iff)
qed

lemma identifier_mode:
  "classify upper lower query exact = Identifier \<longleftrightarrow>
     \<not> exact \<and> (\<exists>w \<in> set (split_whitespace query). is_identifier_token upper lower w)"
  by (auto simp: classify_def list_ex_iff)

text \<open>A digit beside a small letter is no error code: \<open>3xx\<close> is prose.\<close>

lemma lowercase_error_code: "\<not> is_identifier_token is_ascii_uppercase is_ascii_lowercase (lit ''3xx'')"
  by code_simp

text \<open>A task that matches only by its identifier tokens contributes to the literal lane but has no place in
  its ranking, so without another lane it is not in the results.\<close>

lemma token_match_not_ranked:
  assumes "has_all_tokens tt (identifier_tokens (tt_upper tt) (tt_lower tt) query) row" "full_hits tt query row = []"
  shows "literal_ahead Identifier (literal_lane tt [row] query Identifier) (ttr_task_id row)"
    "literal_occurrence_ranking (literal_lane tt [row] query Identifier) = []"
  using assms by (simp_all add: literal_ahead_def literal_lane_def row_literal_def collect_map_def
      literal_occurrence_ranking_def sort_by_def)

section \<open>Witnesses on a small corpus\<close>

text \<open>A read-only sidecar that ranks two tasks; its state says whether the vectors are stored.\<close>

definition small_tables :: text_tables where
  "small_tables = \<lparr>tt_fold = (\<lambda>c. [to_ascii_lowercase c]), tt_upper = is_ascii_uppercase, tt_lower = is_ascii_lowercase,
     tt_sha256 = take 4\<rparr>"

definition small_source :: search_source where
  "small_source = \<lparr>load_reconcile_snapshot = Inr [],
     begin_result_snapshot = (\<lambda>_. Inr \<lparr>sn_eligible_rows = Inr [],
       sn_task_identity = (\<lambda>t. Inr \<lparr>ident_display_id = [t], ident_workspace_id = 9, ident_workspace_name = [],
         ident_title = []\<rparr>)\<rparr>)\<rparr>"

definition small_index :: "bool \<Rightarrow> (bool, unit, nat) search_index" where
  "small_index usable =
     \<lparr>ix_metadata = (\<lambda>_. if usable then Some \<lparr>im_available =
        Some \<lparr>si_schema_version = 2, si_chunk_format_version = 1, si_embedding_profile_id = Some []\<rparr>,
        im_schema_mismatch = None, im_read_only = True\<rparr> else None),
      ix_begin_reconcile = Some, ix_diff_chunks = (\<lambda>_ _ i. (None, i)), ix_commit = (\<lambda>_ i. (True, i)),
      ix_rollback = (\<lambda>i. i),
      ix_search_lexical = (\<lambda>_ _ _. Inr [\<lparr>lr_task_id = 2, lr_rank = 1, lr_kind = MatchedCore,
        lr_remote_comment_id = None, lr_excerpt = []\<rparr>, \<lparr>lr_task_id = 1, lr_rank = 2, lr_kind = MatchedCore,
        lr_remote_comment_id = None, lr_excerpt = []\<rparr>]),
      ix_rebuild = (\<lambda>_ i. (Inr 0, i)), ix_claim_empty_profile = (\<lambda>_ i. (Some True, i)),
      ix_missing_semantic_inputs = (\<lambda>_ stored. Some (if stored then [] else
        [\<lparr>ms_search_chunk_id = 1, ms_task_id = 1, ms_kind = ChunkCore, ms_content_hash = [], ms_text = []\<rparr>])),
      ix_store_vectors_guarded = (\<lambda>rows _. (Some (length rows), True)),
      ix_search_semantic = (\<lambda>_ _ _. Some [\<lparr>sr_task_id = 2, sr_score = 7\<rparr>])\<rparr>"

definition small_embedder :: "unit embedding_provider" where
  "small_embedder = \<lparr>em_profile_id = [], em_plan_semantic_inputs = (\<lambda>t. Some [t]), em_embed_query = (\<lambda>_. Some ()),
     em_embed_inputs = (\<lambda>ts. Some (map (\<lambda>_. ()) ts))\<rparr>"

definition small_scores :: "nat score_ops" where
  "small_scores = \<lparr>so_zero = 0, so_add = (+), so_reciprocal = (\<lambda>r. 1000 div r)\<rparr>"

definition small_request :: "rstring \<Rightarrow> bool \<Rightarrow> search_request" where
  "small_request q exact = \<lparr>sq_query = q, sq_scope = \<lparr>scope_workspace_id = None, scope_repo_id = None, scope_is_open = None\<rparr>,
     sq_exact = exact, sq_limit = 5\<rparr>"

definition small_search :: "bool \<Rightarrow> rstring \<Rightarrow> bool \<Rightarrow> bool \<Rightarrow> (search_error + (nat, nat) search_response) \<times> bool" where
  "small_search usable q exact stored =
     search small_scores small_source (small_index usable) (Some small_embedder) small_tables (small_request q exact) stored"

lemma small_search_natural:
  "\<exists>resp. small_search True (lit ''b'') False True = (Inr resp, True) \<and>
     map sres_task_id (sp_results resp) = [2, 1] \<and> sp_semantic_available resp"
proof -
  have "trim [98] = [98]" by (simp add: trim_def trim_start_def is_whitespace_def)
  moreover have "classify is_ascii_uppercase is_ascii_lowercase [98] False = Natural"
    by (simp add: classify_def split_whitespace_def is_whitespace_def is_identifier_token_def contains_def starts_with_def ascii_defs)
  ultimately show ?thesis
    by (simp add: small_search_def search_def small_source_def small_index_def small_embedder_def small_tables_def
        small_scores_def small_request_def Let_def lexical_gate_def semantic_gate_def semantic_coverage_def answer_def
        semantic_lane_def assemble_def lanes_of_def literal_lane_def collect_map_def literal_occurrence_ranking_def
        enumerate_eq_zip sort_by_def rrf_fuse_def fuse_one_def RRF_K_def result_order_def order_fused_def
        result_row_def evidence_def)
qed

theorem search_response_sound_witness:
  "\<exists>resp. small_search True (lit ''b'') False True = (Inr resp, True) \<and> map sres_task_id (sp_results resp) = [2, 1] \<and>
     length (sp_results resp) \<le> 5 \<and> map sres_rank (sp_results resp) = [1..<Suc (length (sp_results resp))] \<and>
     sp_semantic_available resp \<and> sp_semantic_skipped_reason resp = None \<and>
     sp_lexical_available resp \<and> sp_lexical_unavailable_reason resp = None \<and> sp_query_mode resp \<noteq> Exact"
proof -
  obtain resp where run: "small_search True (lit ''b'') False True = (Inr resp, True)"
    "map sres_task_id (sp_results resp) = [2, 1]" "sp_semantic_available resp"
    using small_search_natural by (elim exE conjE)
  note sound = search_response_sound [OF run(1) [unfolded small_search_def]]
  have "sq_limit (small_request (lit ''b'') False) = 5" by (simp add: small_request_def)
  with sound run have "length (sp_results resp) \<le> 5" by metis
  with sound run show ?thesis by (intro exI [of _ resp] conjI) blast+
qed

theorem search_guards_sidecar_witness:
  "\<exists>resp. small_search True (lit ''b'') False True = (Inr resp, True) \<and> sp_semantic_available resp \<and> covered (small_index True) True"
proof -
  obtain resp where run: "small_search True (lit ''b'') False True = (Inr resp, True)" "sp_semantic_available resp"
    using small_search_natural by (elim exE conjE)
  from search_guards_sidecar [OF run(1) [unfolded small_search_def]] run show ?thesis by blast
qed

end
