(* ===== verification/CatalogStore.thy ===== *)
theory CatalogStore
  imports Poller SearchText
begin

text \<open>
  The statements of \<open>infra-sqlite/src/workspace_repo.rs\<close> and \<open>repo_binding_repo.rs\<close> over the rows of
  the catalog, and the integrity of the catalog: ids, names, prefixes and bindings are unique and every
  reference resolves.  \<open>save_*\<close> are upserts on the id that keep the creation time; a violated index is
  the \<open>PortError::Conflict\<close> with its columns that \<open>map_sqlx_err\<close> lifts out of the message, a violated
  foreign key a backend error.  When one write violates two indexes the model names the one on the
  handle first.  The worktree rows are read back in the order of their paths.
\<close>

section \<open>Workspaces (workspace_repo.rs)\<close>

definition foreign_key_violation :: port_error where
  "foreign_key_violation = Backend (lit ''FOREIGN KEY constraint failed'')"

definition upsert :: "('a \<Rightarrow> uuid) \<Rightarrow> ('a \<Rightarrow> 'a) \<Rightarrow> 'a \<Rightarrow> 'a list \<Rightarrow> 'a list" where
  "upsert key upd x rows =
     (if key x \<in> key ` set rows then update_where (\<lambda>r. key r = key x) upd rows else rows @ [x])"

definition save_workspace :: "workspace \<Rightarrow> catalog \<Rightarrow> catalog port_result" where
  "save_workspace w c =
     (if list_ex (\<lambda>x. w_id x \<noteq> w_id w \<and> w_name x = w_name w) (cat_workspaces c)
      then Inl (unique_violation ''workspaces.name'')
      else if (case w_project_id w of None \<Rightarrow> False | Some p \<Rightarrow> p \<notin> p_id ` set (cat_projects c))
      then Inl foreign_key_violation
      else Inr (c\<lparr>cat_workspaces :=
        upsert w_id (\<lambda>old. w\<lparr>w_created_at := w_created_at old\<rparr>) w (cat_workspaces c)\<rparr>))"

definition list_workspaces :: "bool \<Rightarrow> catalog \<Rightarrow> workspace list" where
  "list_workspaces include_archived c =
     sort_key w_created_at
       (filter (\<lambda>w. include_archived \<or> w_status w \<notin> {WArchived, WDeleted}) (cat_workspaces c))"

section \<open>Bindings (repo_binding_repo.rs)\<close>

definition save_origin :: "repo_origin \<Rightarrow> catalog \<Rightarrow> catalog port_result" where
  "save_origin ro c =
     (if ro_prefix ro \<noteq> [] \<and> list_ex (\<lambda>x. ro_id x \<noteq> ro_id ro \<and> ro_prefix x = ro_prefix ro) (cat_origins c)
      then Inl (unique_violation ''repo_origins.prefix'')
      else if list_ex (\<lambda>x. ro_id x \<noteq> ro_id ro \<and> ro_canonical_url x = ro_canonical_url ro) (cat_origins c)
      then Inl (unique_violation ''repo_origins.canonical_url'')
      else Inr (c\<lparr>cat_origins :=
        upsert ro_id (\<lambda>old. ro\<lparr>ro_created_at := ro_created_at old\<rparr>) ro (cat_origins c)\<rparr>))"

definition save_instance :: "repo_instance \<Rightarrow> catalog \<Rightarrow> catalog port_result" where
  "save_instance ri c =
     (if list_ex (\<lambda>x. ri_id x \<noteq> ri_id ri \<and> ri_workspace_id x = ri_workspace_id ri \<and>
          ri_canonical_url x = ri_canonical_url ri) (cat_instances c)
      then Inl (unique_violation ''repo_instances.workspace_id, repo_instances.canonical_url'')
      else if ri_workspace_id ri \<notin> w_id ` set (cat_workspaces c) \<or> ri_origin_id ri \<notin> ro_id ` set (cat_origins c)
      then Inl foreign_key_violation
      else if \<not> distinct (map wl_path (ri_worktrees ri))
      then Inl (unique_violation ''worktree_links.repo_id, worktree_links.path'')
      else
        let row = ri\<lparr>ri_worktrees := sort_key wl_path (ri_worktrees ri)\<rparr>
        in Inr (c\<lparr>cat_instances :=
             upsert ri_id (\<lambda>old. row\<lparr>ri_created_at := ri_created_at old\<rparr>) row (cat_instances c)\<rparr>))"

text \<open>Deleting a binding deletes its worktree rows and, by the foreign key, unsets it on the tasks.\<close>

definition delete_instance_rows :: "repo_id \<Rightarrow> catalog \<Rightarrow> catalog" where
  "delete_instance_rows i c = c\<lparr>cat_instances := filter (\<lambda>r. ri_id r \<noteq> i) (cat_instances c)\<rparr>"

definition unset_repo :: "repo_id \<Rightarrow> db \<Rightarrow> db" where
  "unset_repo i d = d\<lparr>db_tasks := update_where (\<lambda>r. t_repo_id r = Some i) (\<lambda>r. r\<lparr>t_repo_id := None\<rparr>) (db_tasks d)\<rparr>"

definition find_origin_by_canonical_url :: "rstring \<Rightarrow> catalog \<Rightarrow> repo_origin option" where
  "find_origin_by_canonical_url url c = List.find (\<lambda>x. ro_canonical_url x = url) (cat_origins c)"

definition find_origin_by_prefix :: "rstring \<Rightarrow> catalog \<Rightarrow> repo_origin option" where
  "find_origin_by_prefix p c = (if p = [] then None else List.find (\<lambda>x. ro_prefix x = p) (cat_origins c))"

definition find_by_remote_mapping ::
  "workspace_id \<Rightarrow> rstring \<Rightarrow> rstring \<Rightarrow> catalog \<Rightarrow> db \<Rightarrow> repo_origin_id option" where
  "find_by_remote_mapping ws provider remote_id c d =
     (case take 2 (concat (map (\<lambda>m. map (\<lambda>r. ri_origin_id r)
          (filter (\<lambda>r. rm_filing_repo_id m = Some (ri_origin_id r) \<and> ri_workspace_id r = ws \<and>
             rm_provider m = provider \<and> rm_remote_id m = remote_id) (cat_instances c))) (db_mappings d))) of
        [x] \<Rightarrow> Some x | _ \<Rightarrow> None)"

section \<open>Integrity\<close>

definition cat_wf :: "catalog \<Rightarrow> bool" where
  "cat_wf c \<longleftrightarrow>
     distinct (map w_id (cat_workspaces c)) \<and> distinct (map w_name (cat_workspaces c)) \<and>
     distinct (map ro_id (cat_origins c)) \<and> distinct (map ro_canonical_url (cat_origins c)) \<and>
     distinct (filter (\<lambda>p. p \<noteq> []) (map ro_prefix (cat_origins c))) \<and>
     distinct (map ri_id (cat_instances c)) \<and>
     distinct (map (\<lambda>r. (ri_workspace_id r, ri_canonical_url r)) (cat_instances c)) \<and>
     list_all (\<lambda>w. set_option (w_project_id w) \<subseteq> p_id ` set (cat_projects c)) (cat_workspaces c) \<and>
     list_all (\<lambda>r. ri_workspace_id r \<in> w_id ` set (cat_workspaces c) \<and> ri_origin_id r \<in> ro_id ` set (cat_origins c))
       (cat_instances c)"

text \<open>A column stays unique, where \<open>P\<close> indexes it, when no other row has the new value.\<close>

lemma update_column_distinct:
  assumes "\<And>old. f (upd old) = f x" "P (f x) \<Longrightarrow> \<forall>r \<in> set rows. key r \<noteq> key x \<longrightarrow> f r \<noteq> f x"
  shows "distinct (map key rows) \<Longrightarrow> distinct (filter P (map f rows)) \<Longrightarrow>
    distinct (filter P (map f (update_where (\<lambda>r. key r = key x) upd rows)))"
  using assms(2)
proof (induction rows)
  case (Cons r rs)
  show ?case
  proof (cases "key r = key x")
    case True
    have others: "key x \<notin> key ` set rs" using Cons.prems(1) True by simp
    then have "update_where (\<lambda>r. key r = key x) upd rs = rs" by (intro update_where_none) (metis image_eqI)
    moreover have "P (f x) \<Longrightarrow> f x \<notin> f ` set rs" using others Cons.prems(3) by (metis (no_types, lifting) imageE image_eqI list.set_intros(2))
    ultimately show ?thesis using True Cons.prems(2) assms(1) by (auto split: if_splits)
  next
    case False
    have "f ` set (update_where (\<lambda>r. key r = key x) upd rs) \<subseteq> insert (f x) (f ` set rs)"
      using assms(1) by (auto simp: set_update_where)
    moreover have "distinct (filter P (map f (update_where (\<lambda>r. key r = key x) upd rs)))"
      using Cons by (auto split: if_splits)
    ultimately show ?thesis using False Cons.prems(2,3) by (auto split: if_splits)
  qed
qed simp

lemma upsert_distinct:
  assumes "distinct (map key rows)" "distinct (filter P (map f rows))" "\<And>old. f (upd old) = f x"
    "P (f x) \<Longrightarrow> \<forall>r \<in> set rows. key r \<noteq> key x \<longrightarrow> f r \<noteq> f x"
  shows "distinct (filter P (map f (upsert key upd x rows)))"
proof (cases "key x \<in> key ` set rows")
  case True
  with update_column_distinct [OF assms(3,4,1,2)] show ?thesis by (simp add: upsert_def)
next
  case False
  then have "\<forall>r \<in> set rows. key r \<noteq> key x" by (metis image_eqI)
  with assms(2,4) False show ?thesis by (auto simp: upsert_def)
qed

lemmas upsert_column = upsert_distinct [where P = "\<lambda>_. True", simplified]

lemma upsert_keys:
  assumes "\<And>old. key (upd old) = key x"
  shows "key ` set (upsert key upd x rows) = insert (key x) (key ` set rows)"
proof (cases "key x \<in> key ` set rows")
  case True
  have "map key (update_where (\<lambda>r. key r = key x) upd rows) = map key rows"
    using assms by (simp add: update_where_def)
  from arg_cong [OF this, of set] True show ?thesis by (auto simp: upsert_def)
qed (auto simp: upsert_def)

lemma upsert_all:
  "(\<And>r. r \<in> set rows \<Longrightarrow> Q r) \<Longrightarrow> Q x \<Longrightarrow> (\<And>old. Q (upd old)) \<Longrightarrow> r \<in> set (upsert key upd x rows) \<Longrightarrow> Q r"
  by (auto simp: upsert_def set_update_where split: if_splits)

lemma save_workspace_wf:
  assumes "save_workspace w c = Inr c'" "cat_wf c"
  shows "cat_wf c'"
proof -
  from assms(1) have c': "c' = c\<lparr>cat_workspaces := upsert w_id (\<lambda>old. w\<lparr>w_created_at := w_created_at old\<rparr>) w (cat_workspaces c)\<rparr>"
    and name: "\<forall>x \<in> set (cat_workspaces c). w_id x \<noteq> w_id w \<longrightarrow> w_name x \<noteq> w_name w"
    and proj: "set_option (w_project_id w) \<subseteq> p_id ` set (cat_projects c)"
    by (auto simp: save_workspace_def list_ex_iff split: if_splits option.splits)
  let ?ws = "upsert w_id (\<lambda>old. w\<lparr>w_created_at := w_created_at old\<rparr>) w (cat_workspaces c)"
  have "distinct (map w_id ?ws)" "distinct (map w_name ?ws)"
    using assms(2) name by (auto simp: cat_wf_def intro!: upsert_column)
  moreover have "w_id ` set ?ws = insert (w_id w) (w_id ` set (cat_workspaces c))" by (rule upsert_keys) simp
  moreover have "\<forall>r \<in> set ?ws. set_option (w_project_id r) \<subseteq> p_id ` set (cat_projects c)"
    using assms(2) proj by (intro ballI) (erule upsert_all [rotated 3]; simp add: cat_wf_def list_all_iff)
  ultimately show ?thesis using assms(2) by (auto simp: c' cat_wf_def list_all_iff)
qed

lemma save_origin_wf:
  assumes "save_origin ro c = Inr c'" "cat_wf c"
  shows "cat_wf c'"
proof -
  let ?rows = "upsert ro_id (\<lambda>old. ro\<lparr>ro_created_at := ro_created_at old\<rparr>) ro (cat_origins c)"
  from assms(1) have c': "c' = c\<lparr>cat_origins := ?rows\<rparr>"
    and free: "ro_prefix ro \<noteq> [] \<Longrightarrow> \<forall>x \<in> set (cat_origins c). ro_id x \<noteq> ro_id ro \<longrightarrow> ro_prefix x \<noteq> ro_prefix ro"
      "\<forall>x \<in> set (cat_origins c). ro_id x \<noteq> ro_id ro \<longrightarrow> ro_canonical_url x \<noteq> ro_canonical_url ro"
    by (auto simp: save_origin_def list_ex_iff split: if_splits)
  have "distinct (map ro_id ?rows)" "distinct (map ro_canonical_url ?rows)"
    "distinct (filter (\<lambda>p. p \<noteq> []) (map ro_prefix ?rows))"
    using assms(2) free by (auto simp: cat_wf_def intro!: upsert_column upsert_distinct)
  moreover have "ro_id ` set ?rows = insert (ro_id ro) (ro_id ` set (cat_origins c))" by (rule upsert_keys) simp
  ultimately show ?thesis using assms(2) by (auto simp: c' cat_wf_def list_all_iff)
qed

lemma save_instance_wf:
  assumes "save_instance ri c = Inr c'" "cat_wf c"
  shows "cat_wf c'"
proof -
  let ?row = "ri\<lparr>ri_worktrees := sort_key wl_path (ri_worktrees ri)\<rparr>"
  let ?rows = "upsert ri_id (\<lambda>old. ?row\<lparr>ri_created_at := ri_created_at old\<rparr>) ?row (cat_instances c)"
  from assms(1) have c': "c' = c\<lparr>cat_instances := ?rows\<rparr>"
    and free: "\<forall>x \<in> set (cat_instances c). ri_id x \<noteq> ri_id ri \<longrightarrow>
        \<not> (ri_workspace_id x = ri_workspace_id ri \<and> ri_canonical_url x = ri_canonical_url ri)"
    and refs: "ri_workspace_id ri \<in> w_id ` set (cat_workspaces c)" "ri_origin_id ri \<in> ro_id ` set (cat_origins c)"
    by (auto simp: save_instance_def Let_def list_ex_iff split: if_splits)
  have "distinct (map ri_id ?rows)" "distinct (map (\<lambda>r. (ri_workspace_id r, ri_canonical_url r)) ?rows)"
    using assms(2) free by (auto simp: cat_wf_def intro!: upsert_column)
  moreover have "\<forall>r \<in> set ?rows. ri_workspace_id r \<in> w_id ` set (cat_workspaces c) \<and> ri_origin_id r \<in> ro_id ` set (cat_origins c)"
    using assms(2) refs by (intro ballI) (erule upsert_all [rotated 3]; simp add: cat_wf_def list_all_iff)
  ultimately show ?thesis using assms(2) by (auto simp: c' cat_wf_def list_all_iff)
qed

lemma delete_instance_wf: "cat_wf c \<Longrightarrow> cat_wf (delete_instance_rows i c)"
  by (simp add: cat_wf_def delete_instance_rows_def list_all_iff distinct_map_filter)

end
