(* ===== verification/WorkspaceService.thy ===== *)
theory WorkspaceService
  imports CatalogStore
begin

text \<open>
  \<open>WorkspaceService\<close> and \<open>RepoBindingService\<close> (\<open>application-workspace/src\<close>: \<open>workspace_service.rs\<close>,
  \<open>repo_binding_service.rs\<close>, \<open>error.rs\<close>, \<open>mapping.rs\<close>) in the state-and-error monad.  Which of the
  optional repositories a service was wired with is the record \<open>wiring\<close>; the file system probe and the
  simplification of paths are arguments.  Log lines are not modelled.
\<close>

section \<open>Errors and results\<close>

record ambiguous_candidate =
  amb_id :: uuid
  amb_workspace_id :: workspace_id
  amb_canonical_url :: rstring
  amb_name :: rstring

datatype ws_error =
    WePort port_error
  | WeDomain domain_error
  | DuplicateName rstring
  | WorkspaceNotFound rstring
  | EmptyWorkspaceEdit
  | WeBadId rstring
  | ProjectNotFound rstring
  | ProjectReassignmentUnsupported rstring rstring
  | ProjectsUnconfigured
  | BindingNotFound rstring
  | PrefixTaken rstring
  | AmbiguousHandle rstring "ambiguous_candidate list"

type_synonym 'a wsr = "ws_error + 'a"
type_synonym 'a wsm = "(ws_error, 'a) em"

definition we_port :: "'a port_result \<Rightarrow> 'a wsr" where
  "we_port r = (case r of Inl e \<Rightarrow> Inl (WePort e) | Inr x \<Rightarrow> Inr x)"

definition we_domain :: "'a dresult \<Rightarrow> 'a wsr" where
  "we_domain r = (case r of Inl e \<Rightarrow> Inl (WeDomain e) | Inr x \<Rightarrow> Inr x)"

definition parse_ws_id :: "env \<Rightarrow> string \<Rightarrow> rstring \<Rightarrow> uuid wsr" where
  "parse_ws_id env what s =
     (case env_parse_uuid env s of
        Some u \<Rightarrow> Inr u
      | None \<Rightarrow> Inl (WeBadId (lit ''invalid '' @ lit what @ lit '' id: '' @ env_uuid_error env s)))"

definition id_of :: "env \<Rightarrow> string \<Rightarrow> rstring \<Rightarrow> uuid wsm" where
  "id_of env what s = query (\<lambda>_. parse_ws_id env what s)"

definition port_read :: "(catalog \<Rightarrow> 'a port_result) \<Rightarrow> 'a wsm" where
  "port_read f = query (\<lambda>w. we_port (f (wd_cat w)))"

text \<open>One write to the catalog tables, and one to the task tables.\<close>

definition cat_write :: "(port_error \<Rightarrow> ws_error) \<Rightarrow> (catalog \<Rightarrow> catalog port_result) \<Rightarrow> unit wsm" where
  "cat_write err f w =
     (case f (wd_cat w) of Inl e \<Rightarrow> (Inl (err e), w) | Inr c \<Rightarrow> (Inr (), w\<lparr>wd_cat := c\<rparr>))"

definition task_write :: "env \<Rightarrow> task \<Rightarrow> snapshot_source \<Rightarrow> unit wsm" where
  "task_write env t src =
     bnd (timestamp_now env) (\<lambda>cap.
     bnd (query (\<lambda>w. we_port (save_task cap t src (wd_db w)))) (\<lambda>d. modify_db (\<lambda>_. d)))"

definition put_outbox :: "env \<Rightarrow> task_id \<Rightarrow> outbox_mutation \<Rightarrow> unit wsm" where
  "put_outbox env i m =
     bnd tick (\<lambda>k.
       modify_db (\<lambda>d. d\<lparr>db_outbox :=
         enqueue_entry (outbox_entry_new (env_id env k) (env_now env k) i m) (db_outbox d)\<rparr>))"

text \<open>\<open>map_prefix_conflict\<close>.\<close>

definition map_prefix_conflict :: "rstring \<Rightarrow> port_error \<Rightarrow> ws_error" where
  "map_prefix_conflict p e =
     (if conflict_target e = Some (lit ''repo_origins.prefix'') then PrefixTaken p else WePort e)"

fun workspace_status_str :: "workspace_status \<Rightarrow> rstring" where
  "workspace_status_str WCreated = lit ''created''"
| "workspace_status_str WActive = lit ''active''"
| "workspace_status_str WPaused = lit ''paused''"
| "workspace_status_str WArchived = lit ''archived''"
| "workspace_status_str WDeleted = lit ''deleted''"

fun link_status_str :: "link_status \<Rightarrow> rstring" where
  "link_status_str Linked = lit ''linked''"
| "link_status_str Stale = lit ''stale''"
| "link_status_str MissingPath = lit ''missing_path''"
| "link_status_str Detached = lit ''detached''"

record workspace_dto =
  wdto_id :: rstring
  wdto_name :: rstring
  wdto_description :: "rstring option"
  wdto_status :: rstring
  wdto_local_only :: bool
  wdto_project_id :: "rstring option"
  wdto_filing_repo_id :: "rstring option"
  wdto_default_issue_type :: "rstring option"
  wdto_default_sub_issue_type :: "rstring option"
  wdto_created_at :: timestamp
  wdto_updated_at :: timestamp

definition workspace_to_dto :: "workspace \<Rightarrow> workspace_dto" where
  "workspace_to_dto w =
     \<lparr>wdto_id = show_uuid (w_id w), wdto_name = w_name w, wdto_description = w_description w,
      wdto_status = workspace_status_str (w_status w), wdto_local_only = w_local_only w,
      wdto_project_id = w_project_id w, wdto_filing_repo_id = map_option show_uuid (w_filing_repo_id w),
      wdto_default_issue_type = w_default_issue_type w, wdto_default_sub_issue_type = w_default_sub_issue_type w,
      wdto_created_at = w_created_at w, wdto_updated_at = w_updated_at w\<rparr>"

record repo_binding_dto =
  bdto_id :: rstring
  bdto_workspace_id :: rstring
  bdto_origin_id :: rstring
  bdto_remote_url :: rstring
  bdto_canonical_url :: rstring
  bdto_tracked_branch :: "rstring option"
  bdto_name :: rstring
  bdto_aliases :: "rstring list"
  bdto_prefix :: rstring
  bdto_worktrees :: "(rstring \<times> rstring option \<times> rstring \<times> timestamp) list"
  bdto_created_at :: timestamp
  bdto_updated_at :: timestamp

type_synonym binding = "repo_instance \<times> repo_origin"

definition binding_to_dto :: "repo_instance \<Rightarrow> repo_origin \<Rightarrow> repo_binding_dto" where
  "binding_to_dto ri ro =
     \<lparr>bdto_id = show_uuid (ri_id ri), bdto_workspace_id = show_uuid (ri_workspace_id ri),
      bdto_origin_id = show_uuid (ro_id ro), bdto_remote_url = ro_remote_url ro,
      bdto_canonical_url = ri_canonical_url ri, bdto_tracked_branch = ri_tracked_branch ri,
      bdto_name = ro_name ro, bdto_aliases = ro_aliases ro, bdto_prefix = ro_prefix ro,
      bdto_worktrees = map (\<lambda>l. (wl_path l, wl_branch l, link_status_str (wl_status l), wl_last_seen_at l)) (ri_worktrees ri),
      bdto_created_at = ri_created_at ri, bdto_updated_at = max (ri_updated_at ri) (ro_updated_at ro)\<rparr>"

definition view_dto :: "binding \<Rightarrow> repo_binding_dto" where
  "view_dto v = binding_to_dto (fst v) (snd v)"

section \<open>Workspaces (workspace_service.rs)\<close>

text \<open>Which optional repositories are there: \<open>with_projects\<close>, \<open>with_outbox\<close>.\<close>

record wiring =
  wired_projects :: bool
  wired_outbox :: bool

record create_workspace_cmd =
  cw_name :: rstring
  cw_description :: "rstring option"
  cw_local_only :: bool
  cw_project_spec :: "rstring option"

record update_workspace_cmd =
  uw_workspace_id :: rstring
  uw_name :: "rstring option"
  uw_description :: "rstring option"

text \<open>\<open>str::split_once\<close> of a character, and \<open>str::parse::<u64>\<close>: digits, a plus sign allowed, no overflow.\<close>

definition split_once :: "rchar \<Rightarrow> rstring \<Rightarrow> (rstring \<times> rstring) option" where
  "split_once d s = map_option (\<lambda>i. (take i s, drop (Suc i) s)) (position (\<lambda>c. c = d) s)"

definition parse_u64 :: "rstring \<Rightarrow> nat option" where
  "parse_u64 s =
     (let ds = (case s of c # cs \<Rightarrow> if c = 43 then cs else s | [] \<Rightarrow> [])
      in if ds = [] \<or> \<not> list_all is_ascii_digit ds \<or> 2 ^ 64 \<le> read_nat ds then None else Some (read_nat ds))"

definition resolve_project_spec :: "wiring \<Rightarrow> rstring \<Rightarrow> catalog \<Rightarrow> project_id wsr" where
  "resolve_project_spec wr spec c =
     (if \<not> wired_projects wr then Inl ProjectsUnconfigured
      else
        let trimmed = trim spec in
        case parse_project_id trimmed of
          Inr i \<Rightarrow>
            (case get_project i c of
               Inr _ \<Rightarrow> Inr i
             | Inl (NotFound _) \<Rightarrow> Inl (ProjectNotFound spec)
             | Inl e \<Rightarrow> Inl (WePort e))
        | Inl _ \<Rightarrow>
            (case split_once 47 trimmed of
               None \<Rightarrow> Inl (ProjectNotFound spec)
             | Some (owner, number_str) \<Rightarrow>
                 (case parse_u64 number_str of
                    None \<Rightarrow> Inl (ProjectNotFound spec)
                  | Some number \<Rightarrow>
                      (case List.find (\<lambda>p. p_owner_login p = owner \<and> p_number p = number) (list_all_projects c) of
                         None \<Rightarrow> Inl (ProjectNotFound spec) | Some p \<Rightarrow> Inr (p_id p)))))"

definition resolve_workspace :: "env \<Rightarrow> rstring \<Rightarrow> catalog \<Rightarrow> workspace wsr" where
  "resolve_workspace env id_or_name c =
     (let by_name = (case find_workspace_by_name id_or_name c of
          Some w \<Rightarrow> Inr w | None \<Rightarrow> Inl (WorkspaceNotFound id_or_name))
      in case env_parse_uuid env id_or_name of
           None \<Rightarrow> by_name
         | Some i \<Rightarrow>
             (case get_workspace i c of
                Inr w \<Rightarrow> Inr w | Inl (NotFound _) \<Rightarrow> by_name | Inl e \<Rightarrow> Inl (WePort e)))"

definition save_ws :: "workspace \<Rightarrow> unit wsm" where
  "save_ws w = cat_write WePort (save_workspace w)"

definition wk_create :: "env \<Rightarrow> wiring \<Rightarrow> create_workspace_cmd \<Rightarrow> workspace_dto wsm" where
  "wk_create env wr cmd =
     bnd (query (\<lambda>_. we_domain (workspace_name_new (cw_name cmd)))) (\<lambda>name.
     bnd (query (\<lambda>w. if find_workspace_by_name name (wd_cat w) \<noteq> None then Inl (DuplicateName name) else Inr ())) (\<lambda>_.
     bnd tick (\<lambda>k. let w0 = workspace_new (env_id env k) (env_now env k) name (cw_description cmd) (cw_local_only cmd) in
     bnd (case cw_project_spec cmd of
            None \<Rightarrow> ret w0
          | Some spec \<Rightarrow>
              bnd (query (\<lambda>w. resolve_project_spec wr spec (wd_cat w))) (\<lambda>p. ret (w0\<lparr>w_project_id := Some p\<rparr>))) (\<lambda>w1.
     bnd (save_ws w1) (\<lambda>_. ret (workspace_to_dto w1))))))"

definition wk_edit :: "env \<Rightarrow> update_workspace_cmd \<Rightarrow> workspace_dto wsm" where
  "wk_edit env cmd =
     (if uw_name cmd = None \<and> uw_description cmd = None then throw EmptyWorkspaceEdit
      else
        bnd (query (\<lambda>w. resolve_workspace env (uw_workspace_id cmd) (wd_cat w))) (\<lambda>w0.
        bnd (case uw_name cmd of
               None \<Rightarrow> ret None
             | Some raw \<Rightarrow>
                 bnd (query (\<lambda>_. we_domain (workspace_name_new raw))) (\<lambda>name.
                 bnd (reads (\<lambda>w. find_workspace_by_name name (wd_cat w))) (\<lambda>existing.
                   if name \<noteq> w_name w0 \<and> (case existing of Some x \<Rightarrow> w_id x \<noteq> w_id w0 | None \<Rightarrow> False)
                   then throw (DuplicateName name)
                   else ret (Some name)))) (\<lambda>name.
        bnd (timestamp_now env) (\<lambda>now. let w1 = ws_edit now name (uw_description cmd) w0 in
        bnd (cat_write (\<lambda>e. if conflict_target e = Some (lit ''workspaces.name'')
               then DuplicateName (case name of Some n \<Rightarrow> n | None \<Rightarrow> w_name w1) else WePort e)
             (save_workspace w1)) (\<lambda>_. ret (workspace_to_dto w1))))))"

definition workspace_tasks :: "workspace_id \<Rightarrow> bool option \<Rightarrow> world \<Rightarrow> task list" where
  "workspace_tasks i want_open w =
     list_tasks (wd_cat w) (default_filter\<lparr>tf_workspace_id := Some i, tf_is_open := want_open\<rparr>) (wd_db w)"

text \<open>The detach scrub of one task, and the backfill of one task.\<close>

definition scrub_task :: "env \<Rightarrow> wiring \<Rightarrow> task \<Rightarrow> unit wsm" where
  "scrub_task env wr t =
     bnd (if wired_outbox wr
          then modify_db (\<lambda>d. d\<lparr>db_outbox := snd (delete_pending_add_items (t_id t) (db_outbox d))\<rparr>)
          else ret ()) (\<lambda>_.
       if t_project_item_id t \<noteq> None
       then task_write env (t\<lparr>t_project_item_id := None\<rparr>) SrcLocalEdit
       else ret ())"

definition already_queued :: "project_id \<Rightarrow> task_id \<Rightarrow> db \<Rightarrow> bool" where
  "already_queued p i d \<longleftrightarrow>
     list_ex (\<lambda>e. case e_mutation e of AddItem project_node_id _ \<Rightarrow> project_node_id = p | _ \<Rightarrow> False)
       (list_pending i (db_outbox d))"

definition backfill_task :: "env \<Rightarrow> project_id \<Rightarrow> task \<Rightarrow> unit wsm" where
  "backfill_task env p t =
     (if t_project_item_id t \<noteq> None then ret ()
      else case Option.bind (t_remote t) rr_node_id of
        None \<Rightarrow> ret ()
      | Some node_id \<Rightarrow>
          bnd (reads (\<lambda>w. already_queued p (t_id t) (wd_db w))) (\<lambda>queued.
            if queued then ret () else put_outbox env (t_id t) (AddItem p node_id)))"

definition wk_set_project :: "env \<Rightarrow> wiring \<Rightarrow> rstring \<Rightarrow> rstring option \<Rightarrow> workspace_dto wsm" where
  "wk_set_project env wr workspace_id project_spec =
     bnd (id_of env ''workspace'' workspace_id) (\<lambda>i.
     bnd (port_read (get_workspace i)) (\<lambda>w0.
     bnd (case project_spec of
            None \<Rightarrow> ret None
          | Some spec \<Rightarrow> bnd (query (\<lambda>w. resolve_project_spec wr spec (wd_cat w))) (\<lambda>p. ret (Some p))) (\<lambda>resolved.
     bnd (case (w_project_id w0, resolved) of
            (Some current, Some requested) \<Rightarrow>
              if current \<noteq> requested then throw (ProjectReassignmentUnsupported current requested) else ret ()
          | _ \<Rightarrow> ret ()) (\<lambda>_.
     bnd (if resolved = None \<and> wired_outbox wr
          then bnd (reads (workspace_tasks i None)) (each (scrub_task env wr))
          else ret ()) (\<lambda>_.
     let w1 = w0\<lparr>w_project_id := resolved\<rparr> in
     bnd (save_ws w1) (\<lambda>_.
     bnd (case resolved of
            Some p \<Rightarrow>
              if wired_outbox wr \<and> wired_projects wr
              then bnd (port_read (get_project p)) (\<lambda>proj.
                   bnd (reads (workspace_tasks i (Some True))) (each (backfill_task env (p_id proj))))
              else ret ()
          | None \<Rightarrow> ret ()) (\<lambda>_.
     ret (workspace_to_dto w1))))))))"

definition wk_set_filing_repo :: "env \<Rightarrow> rstring \<Rightarrow> rstring option \<Rightarrow> workspace_dto wsm" where
  "wk_set_filing_repo env workspace_id repo =
     bnd (id_of env ''workspace'' workspace_id) (\<lambda>i.
     bnd (port_read (get_workspace i)) (\<lambda>w0.
     bnd (case repo of None \<Rightarrow> ret None | Some r \<Rightarrow> bnd (id_of env ''repo'' r) (\<lambda>u. ret (Some u))) (\<lambda>parsed.
     bnd (timestamp_now env) (\<lambda>now. let w1 = ws_set_filing_repo_id now parsed w0 in
     bnd (save_ws w1) (\<lambda>_. ret (workspace_to_dto w1))))))"

definition wk_set_default_issue_types ::
  "env \<Rightarrow> rstring \<Rightarrow> rstring option option \<Rightarrow> rstring option option \<Rightarrow> workspace_dto wsm" where
  "wk_set_default_issue_types env workspace_id standalone sub_issue =
     bnd (id_of env ''workspace'' workspace_id) (\<lambda>i.
     bnd (port_read (get_workspace i)) (\<lambda>w0.
     bnd (timestamp_now env) (\<lambda>now.
       let w1 = set_default_issue_types now
         (case standalone of Some v \<Rightarrow> v | None \<Rightarrow> w_default_issue_type w0)
         (case sub_issue of Some v \<Rightarrow> v | None \<Rightarrow> w_default_sub_issue_type w0) w0 in
     bnd (save_ws w1) (\<lambda>_. ret (workspace_to_dto w1)))))"

definition wk_show :: "env \<Rightarrow> rstring \<Rightarrow> workspace_dto wsm" where
  "wk_show env s =
     bnd (id_of env ''workspace'' s) (\<lambda>i. bnd (port_read (get_workspace i)) (\<lambda>w. ret (workspace_to_dto w)))"

definition wk_list :: "bool \<Rightarrow> workspace_dto list wsm" where
  "wk_list include_archived = reads (\<lambda>w. map workspace_to_dto (list_workspaces include_archived (wd_cat w)))"

definition wk_transition :: "env \<Rightarrow> rstring \<Rightarrow> (timestamp \<Rightarrow> workspace \<Rightarrow> workspace dresult) \<Rightarrow> workspace_dto wsm" where
  "wk_transition env s op =
     bnd (id_of env ''workspace'' s) (\<lambda>i.
     bnd (port_read (get_workspace i)) (\<lambda>w0.
     bnd (timestamp_now env) (\<lambda>now.
     bnd (query (\<lambda>_. we_domain (op now w0))) (\<lambda>w1.
     bnd (save_ws w1) (\<lambda>_. ret (workspace_to_dto w1))))))"

definition wk_activate :: "env \<Rightarrow> rstring \<Rightarrow> workspace_dto wsm" where
  "wk_activate env s = wk_transition env s ws_activate"

definition wk_pause :: "env \<Rightarrow> rstring \<Rightarrow> workspace_dto wsm" where
  "wk_pause env s = wk_transition env s ws_pause"

definition wk_archive :: "env \<Rightarrow> rstring \<Rightarrow> workspace_dto wsm" where
  "wk_archive env s = wk_transition env s ws_archive"

definition wk_unarchive :: "env \<Rightarrow> rstring \<Rightarrow> workspace_dto wsm" where
  "wk_unarchive env s = wk_transition env s ws_unarchive"

section \<open>Bindings (repo_binding_service.rs)\<close>

record attach_repo_cmd =
  ar_workspace_id :: rstring
  ar_remote_url :: rstring
  ar_canonical_url :: rstring
  ar_tracked_branch :: "rstring option"
  ar_link_path :: "rstring option"
  ar_link_branch :: "rstring option"
  ar_prefix :: "rstring option"

record attach_outcome =
  ao_binding :: repo_binding_dto
  ao_merged :: bool
  ao_worktree_added :: "rstring option"

text \<open>The retry loop of \<open>save_with_unique_prefix\<close>; it returns the origin as it was saved.\<close>

function save_prefix_loop :: "env \<Rightarrow> rstring \<Rightarrow> nat \<Rightarrow> repo_origin \<Rightarrow> repo_origin wsm" where
  "save_prefix_loop env base n ro w =
     (case save_origin ro (wd_cat w) of
        Inr c \<Rightarrow> (Inr ro, w\<lparr>wd_cat := c\<rparr>)
      | Inl e \<Rightarrow>
          if conflict_target e \<noteq> Some (lit ''repo_origins.prefix'') then (Inl (WePort e), w)
          else if Suc n > SAFETY_CAP
          then (Inl (WePort (Backend (lit ''could not allocate unique repo prefix from base '' @ [39] @ base @ [39] @
            lit '' after '' @ show_nat SAFETY_CAP @ lit '' attempts''))), w)
          else
            (case set_prefix (prefix_candidate base (Suc n)) (env_now env (wd_tick w)) ro of
               Inl de \<Rightarrow> (Inl (WeDomain de), w\<lparr>wd_tick := Suc (wd_tick w)\<rparr>)
             | Inr ro' \<Rightarrow> save_prefix_loop env base (Suc n) ro' (w\<lparr>wd_tick := Suc (wd_tick w)\<rparr>)))"
  by pat_completeness auto
termination save_prefix_loop
  by (relation "measure (\<lambda>(env, base, n, ro, w). Suc SAFETY_CAP - n)") auto

declare save_prefix_loop.simps [simp del]

definition rb_attach :: "env \<Rightarrow> (rstring \<Rightarrow> rstring) \<Rightarrow> attach_repo_cmd \<Rightarrow> attach_outcome wsm" where
  "rb_attach env simplified cmd =
     bnd (id_of env ''workspace'' (ar_workspace_id cmd)) (\<lambda>ws.
     bnd (port_read (get_workspace ws)) (\<lambda>_.
     bnd (reads (\<lambda>w. find_origin_by_canonical_url (ar_canonical_url cmd) (wd_cat w))) (\<lambda>known.
     bnd (case known of
            Some ro \<Rightarrow> ret ro
          | None \<Rightarrow> bnd tick (\<lambda>k. query (\<lambda>_. we_domain
              (repo_origin_new (env_id env k) (env_now env k) (ar_remote_url cmd) (ar_canonical_url cmd))))) (\<lambda>ro0.
     bnd (case ar_prefix cmd of
            None \<Rightarrow> ret ro0
          | Some p \<Rightarrow> bnd (timestamp_now env) (\<lambda>now. query (\<lambda>_. we_domain (set_prefix p now ro0)))) (\<lambda>ro1.
     bnd (reads (\<lambda>w. find_by_canonical_url ws (ar_canonical_url cmd) (wd_cat w))) (\<lambda>existing.
     bnd (case existing of
            Some v \<Rightarrow> ret (fst v, True)
          | None \<Rightarrow> bnd tick (\<lambda>k. bnd (query (\<lambda>_. we_domain (repo_instance_new (env_id env k) (env_now env k) ws (ro_id ro1)
              (ar_canonical_url cmd) (ar_tracked_branch cmd)))) (\<lambda>ri. ret (ri, False)))) (\<lambda>(ri0, merged).
     bnd (case ar_link_path cmd of
            None \<Rightarrow> ret ri0
          | Some path \<Rightarrow> bnd (timestamp_now env) (\<lambda>now. ret (link_worktree simplified path (ar_link_branch cmd) now ri0))) (\<lambda>ri.
     bnd (if ar_prefix cmd \<noteq> None
          then bnd (cat_write (map_prefix_conflict (ro_prefix ro1)) (save_origin ro1)) (\<lambda>_. ret ro1)
          else save_prefix_loop env (ro_prefix ro1) 0 ro1) (\<lambda>ro.
     bnd (cat_write WePort (save_instance ri)) (\<lambda>_.
     ret \<lparr>ao_binding = binding_to_dto ri ro, ao_merged = merged, ao_worktree_added = ar_link_path cmd\<rparr>))))))))))"

definition rb_detach :: "env \<Rightarrow> rstring \<Rightarrow> unit wsm" where
  "rb_detach env s =
     bnd (id_of env ''repo'' s) (\<lambda>i.
     bnd (cat_write WePort (\<lambda>c. Inr (delete_instance_rows i c))) (\<lambda>_. modify_db (unset_repo i)))"

section \<open>Resolving a handle\<close>

definition live_matches :: "(binding \<Rightarrow> bool) \<Rightarrow> (workspace_status \<Rightarrow> bool) \<Rightarrow> catalog \<Rightarrow> binding list" where
  "live_matches pred st c =
     concat (map (\<lambda>ws. if st (w_status ws) then filter pred (list_by_workspace (w_id ws) c) else [])
       (list_workspaces True c))"

definition resolve_matching :: "rstring \<Rightarrow> (binding \<Rightarrow> bool) \<Rightarrow> catalog \<Rightarrow> binding wsr" where
  "resolve_matching query_str pred c =
     (let active = live_matches pred (\<lambda>s. s \<noteq> WDeleted \<and> s \<noteq> WArchived) c;
          archived = live_matches pred (\<lambda>s. s = WArchived) c
      in case (if active = [] then archived else active) of
           [] \<Rightarrow> Inl (BindingNotFound query_str)
         | [v] \<Rightarrow> Inr v
         | vs \<Rightarrow> Inl (AmbiguousHandle query_str (map (\<lambda>v. \<lparr>amb_id = ri_id (fst v), amb_workspace_id = ri_workspace_id (fst v),
             amb_canonical_url = ri_canonical_url (fst v), amb_name = ro_name (snd v)\<rparr>) vs)))"

definition named :: "rstring \<Rightarrow> binding \<Rightarrow> bool" where
  "named q v \<longleftrightarrow> ro_name (snd v) = q \<or> q \<in> set (ro_aliases (snd v))"

definition resolve_by_handle :: "rstring \<Rightarrow> catalog \<Rightarrow> binding wsr" where
  "resolve_by_handle q c =
     (case find_origin_by_prefix q c of
        None \<Rightarrow> resolve_matching q (named q) c
      | Some ro \<Rightarrow>
          (case resolve_matching q (\<lambda>v. ro_id (snd v) = ro_id ro) c of
             Inl (BindingNotFound _) \<Rightarrow> resolve_matching q (named q) c
           | resolved \<Rightarrow> resolved))"

definition rb_resolve :: "env \<Rightarrow> rstring \<Rightarrow> catalog \<Rightarrow> binding wsr" where
  "rb_resolve env q c =
     (case env_parse_uuid env q of Some i \<Rightarrow> we_port (get_binding i c) | None \<Rightarrow> resolve_by_handle q c)"

definition rb_show :: "env \<Rightarrow> rstring \<Rightarrow> repo_binding_dto wsm" where
  "rb_show env q = bnd (query (\<lambda>w. rb_resolve env q (wd_cat w))) (\<lambda>v. ret (view_dto v))"

definition resolve_filing_origin :: "repo_origin_id \<Rightarrow> (rstring \<times> rstring \<times> rstring \<times> rstring) option wsm" where
  "resolve_filing_origin i =
     query (\<lambda>w. case get_origin i (wd_cat w) of
       Inr ro \<Rightarrow> Inr (Some (show_uuid (ro_id ro), ro_name ro, ro_canonical_url ro, ro_prefix ro))
     | Inl (NotFound _) \<Rightarrow> Inr None
     | Inl e \<Rightarrow> Inl (WePort e))"

text \<open>The verbs on the shared origin: resolve, change, save.\<close>

definition edit_origin ::
  "env \<Rightarrow> rstring \<Rightarrow> (timestamp \<Rightarrow> repo_origin \<Rightarrow> repo_origin wsr) \<Rightarrow> (repo_origin \<Rightarrow> port_error \<Rightarrow> ws_error) \<Rightarrow> repo_binding_dto wsm" where
  "edit_origin env q change err =
     bnd (query (\<lambda>w. rb_resolve env q (wd_cat w))) (\<lambda>v.
     bnd (timestamp_now env) (\<lambda>now.
     bnd (query (\<lambda>_. change now (snd v))) (\<lambda>ro.
     bnd (cat_write (err ro) (save_origin ro)) (\<lambda>_. ret (binding_to_dto (fst v) ro)))))"

definition is_uuid_str :: "env \<Rightarrow> rstring \<Rightarrow> bool" where
  "is_uuid_str env s \<longleftrightarrow> env_parse_uuid env s \<noteq> None"

definition rb_rename :: "env \<Rightarrow> rstring \<Rightarrow> rstring \<Rightarrow> repo_binding_dto wsm" where
  "rb_rename env q new_name =
     edit_origin env q (\<lambda>now ro. we_domain (set_name (is_uuid_str env) new_name now ro)) (\<lambda>_. WePort)"

definition rb_set_prefix :: "env \<Rightarrow> rstring \<Rightarrow> rstring \<Rightarrow> repo_binding_dto wsm" where
  "rb_set_prefix env q new_prefix =
     edit_origin env q (\<lambda>now ro. we_domain (set_prefix new_prefix now ro)) (\<lambda>ro. map_prefix_conflict (ro_prefix ro))"

definition rb_add_alias :: "env \<Rightarrow> rstring \<Rightarrow> rstring \<Rightarrow> repo_binding_dto wsm" where
  "rb_add_alias env q alias =
     edit_origin env q (\<lambda>now ro. map_sum id snd (we_domain (add_alias (is_uuid_str env) alias now ro))) (\<lambda>_. WePort)"

definition rb_remove_alias :: "env \<Rightarrow> rstring \<Rightarrow> rstring \<Rightarrow> repo_binding_dto wsm" where
  "rb_remove_alias env q alias =
     edit_origin env q (\<lambda>now ro. case remove_alias alias now ro of (removed, ro') \<Rightarrow>
       if removed then Inr ro'
       else Inl (WeDomain (Validation (lit ''alias '' @ [39] @ alias @ [39] @ lit '' not found'')))) (\<lambda>_. WePort)"

definition find_rank :: "rstring \<Rightarrow> binding \<Rightarrow> (nat \<times> rstring) option" where
  "find_rank q v =
     (if ro_name (snd v) = q then Some (0, lit ''name'')
      else if q \<in> set (ro_aliases (snd v)) then Some (1, lit ''alias'')
      else if contains (ri_canonical_url (fst v)) q then Some (2, lit ''canonical_url'')
      else if contains (ro_name (snd v)) q then Some (3, lit ''name_substring'')
      else None)"

definition rb_find :: "rstring \<Rightarrow> catalog \<Rightarrow> (rstring \<times> repo_binding_dto \<times> rstring) list \<times> bool" where
  "rb_find q c =
     (let views = concat (map (\<lambda>ws. list_by_workspace (w_id ws) c) (list_workspaces False c));
          hits = List.map_filter (\<lambda>v. map_option (\<lambda>(rank, how). (rank, v, how)) (find_rank q v)) views;
          sorted_hits = sort_key (\<lambda>(rank, v, _). (rank, ri_created_at (fst v))) hits;
          matches = map (\<lambda>(_, v, how). (show_uuid (ri_workspace_id (fst v)), view_dto v, how)) sorted_hits
      in (matches, 1 < length matches))"

definition rb_list :: "env \<Rightarrow> rstring \<Rightarrow> repo_binding_dto list wsm" where
  "rb_list env s =
     bnd (id_of env ''workspace'' s) (\<lambda>i.
     bnd (port_read (get_workspace i)) (\<lambda>ws.
       if w_status ws \<in> {WArchived, WDeleted} then ret []
       else reads (\<lambda>w. map view_dto (list_by_workspace i (wd_cat w)))))"

definition rb_list_all :: "catalog \<Rightarrow> repo_binding_dto list" where
  "rb_list_all c = concat (map (\<lambda>ws. map view_dto (list_by_workspace (w_id ws) c)) (list_workspaces False c))"

definition memberships_for_canonical_url :: "rstring \<Rightarrow> bool \<Rightarrow> catalog \<Rightarrow> (workspace_dto \<times> repo_binding_dto) list" where
  "memberships_for_canonical_url url include_archived c =
     List.map_filter (\<lambda>ws.
       if w_status ws = WDeleted then None
       else map_option (\<lambda>v. (workspace_to_dto ws, view_dto v)) (find_by_canonical_url (w_id ws) url c))
       (list_workspaces include_archived c)"

section \<open>Worktrees\<close>

definition edit_instance :: "env \<Rightarrow> rstring \<Rightarrow> (timestamp \<Rightarrow> repo_instance \<Rightarrow> repo_instance wsr) \<Rightarrow> repo_binding_dto wsm" where
  "edit_instance env s change =
     bnd (id_of env ''repo'' s) (\<lambda>i.
     bnd (port_read (get_binding i)) (\<lambda>v.
     bnd (timestamp_now env) (\<lambda>now.
     bnd (query (\<lambda>_. change now (fst v))) (\<lambda>ri.
     bnd (cat_write WePort (save_instance ri)) (\<lambda>_. ret (binding_to_dto ri (snd v)))))))"

definition rb_link_worktree :: "env \<Rightarrow> (rstring \<Rightarrow> rstring) \<Rightarrow> rstring \<Rightarrow> rstring \<Rightarrow> rstring option \<Rightarrow> repo_binding_dto wsm" where
  "rb_link_worktree env simplified s path branch =
     edit_instance env s (\<lambda>now ri. Inr (link_worktree simplified path branch now ri))"

definition rb_unlink_worktree :: "env \<Rightarrow> (rstring \<Rightarrow> rstring) \<Rightarrow> rstring \<Rightarrow> rstring \<Rightarrow> repo_binding_dto wsm" where
  "rb_unlink_worktree env simplified s path =
     edit_instance env s (\<lambda>now ri. we_domain (unlink_worktree simplified path now ri))"

definition rb_prune_missing :: "env \<Rightarrow> rstring \<Rightarrow> repo_binding_dto wsm" where
  "rb_prune_missing env s = edit_instance env s (\<lambda>now ri. Inr (snd (prune_missing now ri)))"

record reconcile_summary =
  rsum_repos_checked :: nat
  rsum_worktrees_checked :: nat
  rsum_marked_missing :: nat
  rsum_pruned :: nat

text \<open>The recorded worktrees whose path the probe no longer finds and that are not marked yet.\<close>

fun missing_paths :: "(rstring \<Rightarrow> bool port_result) \<Rightarrow> worktree_link list \<Rightarrow> rstring list port_result" where
  "missing_paths probe [] = Inr []"
| "missing_paths probe (l # ls) =
     (case probe (wl_path l) of
        Inl e \<Rightarrow> Inl e
      | Inr exists \<Rightarrow>
          map_sum id (\<lambda>ps. if \<not> exists \<and> wl_status l \<notin> {MissingPath, Detached} then wl_path l # ps else ps)
            (missing_paths probe ls))"

fun mark_all :: "env \<Rightarrow> (rstring \<Rightarrow> rstring) \<Rightarrow> rstring list \<Rightarrow> repo_instance \<Rightarrow> repo_instance wsm" where
  "mark_all env simplified [] ri = ret ri"
| "mark_all env simplified (p # ps) ri =
     bnd (timestamp_now env) (\<lambda>now.
     bnd (query (\<lambda>_. we_domain (mark_path_missing simplified p now ri))) (\<lambda>ri'. mark_all env simplified ps ri'))"

definition reconcile_view ::
  "env \<Rightarrow> (rstring \<Rightarrow> rstring) \<Rightarrow> (rstring \<Rightarrow> bool port_result) \<Rightarrow> bool \<Rightarrow> repo_instance \<Rightarrow> reconcile_summary \<Rightarrow> reconcile_summary wsm" where
  "reconcile_view env simplified probe prune ri0 sm0 =
     bnd (query (\<lambda>_. we_port (missing_paths probe (ri_worktrees ri0)))) (\<lambda>missing.
     bnd (mark_all env simplified missing ri0) (\<lambda>ri1.
     bnd (timestamp_now env) (\<lambda>now.
       let (pruned, ri2) = (if prune then prune_missing now ri1 else (0, ri1)) in
     bnd (if missing \<noteq> [] \<or> 0 < pruned then cat_write WePort (save_instance ri2) else ret ()) (\<lambda>_.
       ret (sm0\<lparr>rsum_repos_checked := rsum_repos_checked sm0 + 1,
         rsum_worktrees_checked := rsum_worktrees_checked sm0 + length (ri_worktrees ri0),
         rsum_marked_missing := rsum_marked_missing sm0 + length missing,
         rsum_pruned := rsum_pruned sm0 + pruned\<rparr>)))))"

fun reconcile_views ::
  "env \<Rightarrow> (rstring \<Rightarrow> rstring) \<Rightarrow> (rstring \<Rightarrow> bool port_result) \<Rightarrow> bool \<Rightarrow> binding list \<Rightarrow> reconcile_summary \<Rightarrow> reconcile_summary wsm" where
  "reconcile_views env simplified probe prune [] sm = ret sm"
| "reconcile_views env simplified probe prune (v # vs) sm =
     bnd (reconcile_view env simplified probe prune (fst v) sm) (reconcile_views env simplified probe prune vs)"

definition rb_reconcile_worktrees ::
  "env \<Rightarrow> (rstring \<Rightarrow> rstring) \<Rightarrow> (rstring \<Rightarrow> bool port_result) \<Rightarrow> rstring \<Rightarrow> bool \<Rightarrow> reconcile_summary wsm" where
  "rb_reconcile_worktrees env simplified probe s prune =
     bnd (id_of env ''workspace'' s) (\<lambda>i.
     bnd (port_read (get_workspace i)) (\<lambda>_.
     bnd (reads (\<lambda>w. list_by_workspace i (wd_cat w))) (\<lambda>views.
       reconcile_views env simplified probe prune views
         \<lparr>rsum_repos_checked = 0, rsum_worktrees_checked = 0, rsum_marked_missing = 0, rsum_pruned = 0\<rparr>)))"

section \<open>The doctor\<close>

record doctor_row =
  dr_task_id :: task_id
  dr_title :: rstring
  dr_current_filing_repo_id :: repo_origin_id
  dr_target_repo_id :: "repo_origin_id option"
  dr_repaired :: bool

record doctor_summary =
  ds_affected :: nat
  ds_repaired :: nat
  ds_unresolved :: nat
  ds_rows :: "doctor_row list"

definition resolve_doctor_target :: "task \<Rightarrow> catalog \<Rightarrow> db \<Rightarrow> repo_origin_id option wsr" where
  "resolve_doctor_target t c d =
     (let by_mapping = Inr (case t_remote t of
          None \<Rightarrow> None
        | Some r \<Rightarrow> find_by_remote_mapping (t_workspace_id t) (rr_provider r) (rr_remote_id r) c d)
      in case t_repo_id t of
           None \<Rightarrow> by_mapping
         | Some logical \<Rightarrow>
             (case get_binding logical c of
                Inr v \<Rightarrow> Inr (Some (ri_origin_id (fst v)))
              | Inl (NotFound _) \<Rightarrow> by_mapping
              | Inl e \<Rightarrow> Inl (WePort e)))"

definition doctor_task :: "env \<Rightarrow> bool \<Rightarrow> repo_id option \<Rightarrow> task \<Rightarrow> doctor_row option wsm" where
  "doctor_task env repair target_override t =
     (case t_filing_repo_id t of
        None \<Rightarrow> ret None
      | Some filing_id \<Rightarrow>
          bnd (query (\<lambda>w. case get_origin filing_id (wd_cat w) of
              Inr _ \<Rightarrow> Inr False | Inl (NotFound _) \<Rightarrow> Inr True | Inl e \<Rightarrow> Inl (WePort e))) (\<lambda>dangling.
          if \<not> dangling then ret None
          else
            bnd (case target_override of
                   Some forced \<Rightarrow> ret (Some forced)
                 | None \<Rightarrow> query (\<lambda>w. resolve_doctor_target t (wd_cat w) (wd_db w))) (\<lambda>target.
            let row = \<lparr>dr_task_id = t_id t, dr_title = t_title t, dr_current_filing_repo_id = filing_id,
                       dr_target_repo_id = target, dr_repaired = False\<rparr> in
            if repair
            then (case target of
                    Some target_id \<Rightarrow>
                      bnd (query (\<lambda>w. we_port (get_task (t_id t) (wd_db w)))) (\<lambda>t0.
                      bnd (timestamp_now env) (\<lambda>now.
                      bnd (task_write env (force_set_filing_repo_id now (Some target_id) t0) SrcFilingRepoRepair) (\<lambda>_.
                        ret (Some (row\<lparr>dr_repaired := True\<rparr>)))))
                  | None \<Rightarrow> ret (Some row))
            else ret (Some row))))"

definition rb_doctor :: "env \<Rightarrow> bool \<Rightarrow> rstring \<Rightarrow> bool \<Rightarrow> repo_id option \<Rightarrow> doctor_summary wsm" where
  "rb_doctor env wired_tasks s repair target_override =
     bnd (id_of env ''workspace'' s) (\<lambda>i.
     bnd (port_read (get_workspace i)) (\<lambda>_.
       if \<not> wired_tasks
       then throw (WePort (Backend (lit ''doctor flow requires a wired task repository (RepoBindingService::with_tasks)'')))
       else
         bnd (case target_override of None \<Rightarrow> ret () | Some forced \<Rightarrow> bnd (port_read (get_origin forced)) (\<lambda>_. ret ())) (\<lambda>_.
         bnd (reads (workspace_tasks i None)) (\<lambda>ts.
         bnd (collect (doctor_task env repair target_override) ts) (\<lambda>results.
           let rows = List.map_filter id results in
           ret \<lparr>ds_affected = length rows, ds_repaired = length (filter dr_repaired rows),
                ds_unresolved = length (filter (\<lambda>r. dr_target_repo_id r = None) rows), ds_rows = rows\<rparr>)))))"

end
