(* ===== verification/WorkspaceProps.thy ===== *)
theory WorkspaceProps
  imports WorkspaceService StoreGrowth
begin

text \<open>
  What the workspace and binding services do to the tables: every command keeps the integrity of the
  catalog and of the task store, no workspace and no origin disappears, and together with the other
  processes this gives the invariant of the whole system.  Then the commands that act on many rows:
  attaching a project, the doctor, and the resolution of a handle.
\<close>

section \<open>Commands that keep the catalog\<close>

definition cat_grows :: "catalog \<Rightarrow> catalog \<Rightarrow> bool" where
  "cat_grows c c' \<longleftrightarrow> (cat_wf c \<longrightarrow> cat_wf c') \<and> w_id ` set (cat_workspaces c) \<subseteq> w_id ` set (cat_workspaces c') \<and>
     ro_id ` set (cat_origins c) \<subseteq> ro_id ` set (cat_origins c') \<and> cat_projects c' = cat_projects c"

lemma cat_grows_refl [simp]: "cat_grows c c"
  by (simp add: cat_grows_def)

lemma cat_grows_trans: "cat_grows c d \<Longrightarrow> cat_grows d e \<Longrightarrow> cat_grows c e"
  unfolding cat_grows_def by (elim conjE) (intro conjI; (erule (1) subset_trans | simp))

lemma cat_grows_writes:
  "save_workspace ws c = Inr c' \<Longrightarrow> cat_grows c c'"
  "save_origin ro c = Inr c' \<Longrightarrow> cat_grows c c'"
  "save_instance ri c = Inr c' \<Longrightarrow> cat_grows c c'"
  "Inr (delete_instance_rows i c) = (Inr c' :: catalog port_result) \<Longrightarrow> cat_grows c c'"
proof -
  assume s: "save_workspace ws c = Inr c'"
  then have "cat_wf c \<longrightarrow> cat_wf c'" using save_workspace_wf by blast
  with s show "cat_grows c c'"
    by (auto simp: cat_grows_def save_workspace_def upsert_keys split: if_splits option.splits)
next
  assume s: "save_origin ro c = Inr c'"
  then have "cat_wf c \<longrightarrow> cat_wf c'" using save_origin_wf by blast
  with s show "cat_grows c c'" by (auto simp: cat_grows_def save_origin_def upsert_keys split: if_splits)
next
  assume s: "save_instance ri c = Inr c'"
  then have "cat_wf c \<longrightarrow> cat_wf c'" using save_instance_wf by blast
  with s show "cat_grows c c'" by (auto simp: cat_grows_def save_instance_def Let_def split: if_splits)
next
  assume "Inr (delete_instance_rows i c) = (Inr c' :: catalog port_result)"
  then show "cat_grows c c'" by (auto simp: cat_grows_def delete_instance_wf) (auto simp: delete_instance_rows_def)
qed

definition upkeep :: "world \<Rightarrow> world \<Rightarrow> bool" where
  "upkeep w w' \<longleftrightarrow> grows (wd_db w) (wd_db w') \<and> cat_grows (wd_cat w) (wd_cat w')"

interpretation upkept: effect upkeep
  by unfold_locales (auto simp: upkeep_def intro: grows_trans cat_grows_trans)

lemma growth_upkeep: "growth w w' \<Longrightarrow> upkeep w w'"
  by (simp add: growth_def upkeep_def)

definition tidy :: "('e, 'a) em \<Rightarrow> bool" where
  "tidy m \<longleftrightarrow> within upkeep m"

named_theorems tidy_intros

lemmas tidy_monad [tidy_intros] =
  upkept.bnd [folded tidy_def] upkept.control [folded tidy_def] upkept.loops [folded tidy_def] upkept.prims(1-6) [folded tidy_def]

lemma tidy_prims [tidy_intros]:
  "tidy (id_of env what s)" "tidy (port_read g)" "(\<And>d. grows d (h d)) \<Longrightarrow> tidy (modify_db h)"
  "(\<And>c c'. f c = Inr c' \<Longrightarrow> cat_grows c c') \<Longrightarrow> tidy (cat_write err f)"
  by (auto simp: id_of_def port_read_def tidy_intros tidy_def within_def upkeep_def query_def cat_write_def split: sum.split)

lemma grows_unset_repo: "grows d (unset_repo i d)"
  by (simp add: grows_def unset_repo_def task_log_def update_row_wf)

lemma tidy_writes [tidy_intros]:
  "tidy (save_ws ws)" "tidy (task_write env t src)" "tidy (put_outbox env i m)"
proof -
  show "tidy (task_write env t src)"
    by (auto simp: tidy_def within_def upkeep_def task_write_def timestamp_now_def bnd_def query_def we_port_def
        split: sum.splits dest: grows_writes(1))
qed (simp_all add: save_ws_def put_outbox_def grows_outbox tidy_intros cat_grows_writes del: prim_simps)

lemma save_prefix_loop_tidy [tidy_intros]: "tidy (save_prefix_loop env base n ro)"
proof -
  have "upkeep w (snd (save_prefix_loop env base n ro w))" for w
  proof (induction env base n ro w rule: save_prefix_loop.induct)
    case (1 env base n ro w)
    show ?case
      by (subst save_prefix_loop.simps) (use 1 in \<open>auto simp: upkeep_def dest: cat_grows_writes(2) split: sum.split\<close>)
  qed
  then show ?thesis by (simp add: tidy_def within_def)
qed

lemma workspace_commands_tidy:
  "tidy (wk_create env wr cw)" "tidy (wk_edit env uw)" "tidy (wk_set_project env wr s spec)" "tidy (wk_set_filing_repo env s r)"
  "tidy (wk_set_default_issue_types env s a b)" "tidy (wk_transition env s op)"
  unfolding wk_create_def wk_edit_def wk_set_project_def wk_set_filing_repo_def wk_set_default_issue_types_def wk_transition_def
    scrub_task_def backfill_task_def Let_def
  by (intro tidy_intros grows_outbox | erule cat_grows_writes | assumption)+

lemma binding_commands_tidy:
  "tidy (rb_attach env simplified ar)" "tidy (rb_detach env s)" "tidy (edit_origin env s change err)"
  "tidy (edit_instance env s change')" "tidy (rb_reconcile_worktrees env simplified probe s prune)"
  "tidy (rb_doctor env wired s repair target)"
proof -
  have mark: "tidy (mark_all env simplified ps ri)" for ps ri
    by (induction ps arbitrary: ri) (simp_all add: tidy_intros del: prim_simps)
  have view: "tidy (reconcile_view env simplified probe prune ri sm)" for ri sm
    unfolding reconcile_view_def Let_def by (intro tidy_intros mark | erule cat_grows_writes)+
  have views: "tidy (reconcile_views env simplified probe prune vs sm)" for vs sm
    by (induction vs arbitrary: sm) (simp_all add: tidy_intros view del: prim_simps)
  show "tidy (rb_reconcile_worktrees env simplified probe s prune)"
    unfolding rb_reconcile_worktrees_def by (intro tidy_intros views)
  show "tidy (rb_doctor env wired s repair target)"
    unfolding rb_doctor_def doctor_task_def Let_def by (intro tidy_intros)
  show "tidy (rb_attach env simplified ar)" "tidy (rb_detach env s)" "tidy (edit_origin env s change err)"
    "tidy (edit_instance env s change')"
    unfolding rb_attach_def rb_detach_def edit_origin_def edit_instance_def
    by (intro tidy_intros grows_unset_repo | erule cat_grows_writes)+
qed

section \<open>The system with its workspaces\<close>

text \<open>A command of the two services.  The path functions of the binding service are part of the run.\<close>

datatype workspace_request =
    WqCreate create_workspace_cmd
  | WqEdit update_workspace_cmd
  | WqSetProject rstring "rstring option"
  | WqSetFilingRepo rstring "rstring option"
  | WqSetIssueTypes rstring "rstring option option" "rstring option option"
  | WqActivate rstring
  | WqPause rstring
  | WqArchive rstring
  | WqUnarchive rstring
  | WqAttach attach_repo_cmd
  | WqDetach rstring
  | WqRename rstring rstring
  | WqSetPrefix rstring rstring
  | WqAddAlias rstring rstring
  | WqRemoveAlias rstring rstring
  | WqLinkWorktree rstring rstring "rstring option"
  | WqUnlinkWorktree rstring rstring
  | WqPrune rstring
  | WqReconcile rstring bool
  | WqDoctor rstring bool "repo_id option"

record paths =
  path_simplified :: "rstring \<Rightarrow> rstring"
  path_exists :: "rstring \<Rightarrow> bool port_result"

fun run_workspace :: "env \<Rightarrow> wiring \<Rightarrow> paths \<Rightarrow> workspace_request \<Rightarrow> world \<Rightarrow> world" where
  "run_workspace env wr ps (WqCreate cmd) w = after (wk_create env wr cmd) w"
| "run_workspace env wr ps (WqEdit cmd) w = after (wk_edit env cmd) w"
| "run_workspace env wr ps (WqSetProject s spec) w = after (wk_set_project env wr s spec) w"
| "run_workspace env wr ps (WqSetFilingRepo s r) w = after (wk_set_filing_repo env s r) w"
| "run_workspace env wr ps (WqSetIssueTypes s a b) w = after (wk_set_default_issue_types env s a b) w"
| "run_workspace env wr ps (WqActivate s) w = after (wk_activate env s) w"
| "run_workspace env wr ps (WqPause s) w = after (wk_pause env s) w"
| "run_workspace env wr ps (WqArchive s) w = after (wk_archive env s) w"
| "run_workspace env wr ps (WqUnarchive s) w = after (wk_unarchive env s) w"
| "run_workspace env wr ps (WqAttach cmd) w = after (rb_attach env (path_simplified ps) cmd) w"
| "run_workspace env wr ps (WqDetach s) w = after (rb_detach env s) w"
| "run_workspace env wr ps (WqRename q n) w = after (rb_rename env q n) w"
| "run_workspace env wr ps (WqSetPrefix q n) w = after (rb_set_prefix env q n) w"
| "run_workspace env wr ps (WqAddAlias q a) w = after (rb_add_alias env q a) w"
| "run_workspace env wr ps (WqRemoveAlias q a) w = after (rb_remove_alias env q a) w"
| "run_workspace env wr ps (WqLinkWorktree s p b) w = after (rb_link_worktree env (path_simplified ps) s p b) w"
| "run_workspace env wr ps (WqUnlinkWorktree s p) w = after (rb_unlink_worktree env (path_simplified ps) s p) w"
| "run_workspace env wr ps (WqPrune s) w = after (rb_prune_missing env s) w"
| "run_workspace env wr ps (WqReconcile s prune) w =
     after (rb_reconcile_worktrees env (path_simplified ps) (path_exists ps) s prune) w"
| "run_workspace env wr ps (WqDoctor s repair target) w = after (rb_doctor env True s repair target) w"

lemma run_workspace_upkeep: "upkeep w (run_workspace env wr ps rq w)"
  using workspace_commands_tidy binding_commands_tidy
  by (cases rq) (simp_all add: tidy_def within_def after_def wk_activate_def wk_pause_def wk_archive_def wk_unarchive_def
      rb_rename_def rb_set_prefix_def rb_add_alias_def rb_remove_alias_def rb_link_worktree_def rb_unlink_worktree_def
      rb_prune_missing_def)

datatype process_run =
    ServiceRun system_run
  | WorkspaceRun wiring paths workspace_request

fun run_process :: "env \<times> process_run \<Rightarrow> world \<Rightarrow> world" where
  "run_process (env, ServiceRun r) w = run_system (env, r) w"
| "run_process (env, WorkspaceRun wr ps rq) w = run_workspace env wr ps rq w"

fun is_service_run :: "env \<times> process_run \<Rightarrow> bool" where
  "is_service_run (env, ServiceRun r) = True"
| "is_service_run (env, WorkspaceRun wr ps rq) = False"

lemma run_processes_upkeep: "upkeep w (fold run_process runs w)"
proof (induction runs arbitrary: w)
  case (Cons r runs)
  have "upkeep w (run_process r w)"
    by (cases r rule: is_service_run.cases) (simp_all add: run_workspace_upkeep growth_upkeep run_system_grows)
  with Cons.IH show ?case by (auto intro: upkept.compose)
qed (simp add: upkeep_def)

lemma run_processes_catalog: "list_all is_service_run runs \<Longrightarrow> wd_cat (fold run_process runs w) = wd_cat w"
proof (induction runs arbitrary: w)
  case (Cons r runs)
  then show ?case
    using run_system_grows by (cases r rule: is_service_run.cases) (auto simp: growth_def)
qed simp

end
