(* ===== verification/BoardProps.thy ===== *)
theory BoardProps
  imports WorkspaceProps
begin

text \<open>
  Attaching a project to a workspace and detaching it (\<open>set_project\<close> of
  \<open>application-workspace/src/workspace_service.rs\<close>): rules for the primitives of the two services, how a
  command changes the task rows, and the two theorems.
\<close>

section \<open>Weakest preconditions of the workspace primitives\<close>

lemma we_port_simps [simp]:
  "we_port (Inr x) = Inr x" "we_port (Inl e) = Inl (WePort e)" "we_port r = Inr x \<longleftrightarrow> r = Inr x"
  "we_domain (Inr x) = Inr x" "we_domain (Inl e') = Inl (WeDomain e')" "we_domain q = Inr x \<longleftrightarrow> q = Inr x"
  by (simp_all add: we_port_def we_domain_def split: sum.splits)

lemma parse_ws_id_ok [simp]: "parse_ws_id env what s = Inr i \<longleftrightarrow> env_parse_uuid env s = Some i"
  by (simp add: parse_ws_id_def split: option.split)

lemma wp_workspace [wp_simps]:
  "wp (id_of env what s) Q1 w \<longleftrightarrow> Q1 (parse_ws_id env what s) w"
  "wp (port_read f) Q2 w \<longleftrightarrow> Q2 (we_port (f (wd_cat w))) w"
  "wp (cat_write err g) Q3 w \<longleftrightarrow>
     (case g (wd_cat w) of Inl e \<Rightarrow> Q3 (Inl (err e)) w | Inr c \<Rightarrow> Q3 (Inr ()) (w\<lparr>wd_cat := c\<rparr>))"
  "wp (task_write env t src) Q4 w \<longleftrightarrow>
     (case save_task (env_now env (wd_tick w)) t src (wd_db w) of
        Inl e \<Rightarrow> Q4 (Inl (WePort e)) (w\<lparr>wd_tick := Suc (wd_tick w)\<rparr>)
      | Inr d \<Rightarrow> Q4 (Inr ()) (w\<lparr>wd_tick := Suc (wd_tick w), wd_db := d\<rparr>))"
  "wp (put_outbox env j m) Q5 w \<longleftrightarrow>
     Q5 (Inr ()) (w\<lparr>wd_tick := Suc (wd_tick w), wd_db := (wd_db w)\<lparr>db_outbox :=
       enqueue_entry (outbox_entry_new (env_id env (wd_tick w)) (env_now env (wd_tick w)) j m) (db_outbox (wd_db w))\<rparr>\<rparr>)"
  by (auto simp: id_of_def port_read_def task_write_def put_outbox_def wp_simps split: sum.splits)
    (auto simp: wp_def cat_write_def split: sum.splits)

lemma enqueue_add_item:
  "enqueue_entry (outbox_entry_new k now i (AddItem p n)) es = es @ [outbox_entry_new k now i (AddItem p n)]"
  by (simp add: enqueue_entry_def insert_outbox_in_tx_def outbox_entry_new_def)

text \<open>What a successful run of a step says.\<close>

named_theorems run_simps

lemma bnd_ok [run_simps]: "bnd m f w = (Inr y, w') \<longleftrightarrow> (\<exists>x v. m w = (Inr x, v) \<and> f x v = (Inr y, w'))"
  by (auto simp: bnd_def split: prod.splits sum.splits)

lemma prims_ok [run_simps]:
  "ret x w = (Inr y, w') \<longleftrightarrow> y = x \<and> w' = w" "throw e w \<noteq> (Inr z, w')"
  "reads f w = (Inr y2, w') \<longleftrightarrow> y2 = f w \<and> w' = w"
  "query g w = (Inr y3, w') \<longleftrightarrow> g w = Inr y3 \<and> w' = w"
  "id_of env what s w = (Inr y4, w') \<longleftrightarrow> env_parse_uuid env s = Some y4 \<and> w' = w"
  "port_read h w = (Inr y5, w') \<longleftrightarrow> h (wd_cat w) = Inr y5 \<and> w' = w"
  "cat_write err k w = (Inr u, w') \<longleftrightarrow> (\<exists>c. k (wd_cat w) = Inr c \<and> w' = w\<lparr>wd_cat := c\<rparr>)"
  "timestamp_now env w = (Inr y6, w') \<longleftrightarrow> y6 = env_now env (wd_tick w) \<and> w' = w\<lparr>wd_tick := Suc (wd_tick w)\<rparr>"
  "task_write env t src w = (Inr u', w') \<longleftrightarrow> (\<exists>d. save_task (env_now env (wd_tick w)) t src (wd_db w) = Inr d \<and>
     w' = w\<lparr>wd_tick := Suc (wd_tick w), wd_db := d\<rparr>)"
  by (auto simp: query_def id_of_def port_read_def cat_write_def timestamp_now_def task_write_def bnd_def we_port_def
      split: sum.splits)

section \<open>Attaching a project\<close>

text \<open>The tasks an attach to \<open>p\<close> has to put on the board, and the mutation that does it.\<close>

definition issue_node :: "task \<Rightarrow> rstring option" where
  "issue_node t = Option.bind (t_remote t) rr_node_id"

definition add_waiting :: "project_id \<Rightarrow> task_id \<Rightarrow> db \<Rightarrow> bool" where
  "add_waiting p i d \<longleftrightarrow>
     (\<exists>e \<in> set (db_outbox d). e_task_id e = i \<and> e_status e = Pending \<and> (\<exists>n. e_mutation e = AddItem p n))"

definition owes_board_item :: "project_id \<Rightarrow> db \<Rightarrow> task \<Rightarrow> bool" where
  "owes_board_item p d t \<longleftrightarrow> t_project_item_id t = None \<and> issue_node t \<noteq> None \<and> \<not> add_waiting p (t_id t) d"

definition board_add :: "project_id \<Rightarrow> task \<Rightarrow> task_id \<times> outbox_mutation" where
  "board_add p t = (t_id t, AddItem p (the (issue_node t)))"

definition backfilled :: "project_id \<Rightarrow> task list \<Rightarrow> db \<Rightarrow> db \<Rightarrow> bool" where
  "backfilled p ts d d' \<longleftrightarrow> (\<exists>es. d' = d\<lparr>db_outbox := db_outbox d @ es\<rparr> \<and> list_all (\<lambda>e. e_status e = Pending) es \<and>
     map (\<lambda>e. (e_task_id e, e_mutation e)) es = map (board_add p) (filter (owes_board_item p d) ts))"

lemma already_queued_iff: "already_queued p i d \<longleftrightarrow> add_waiting p i d"
proof -
  have "(case m of AddItem project_node_id n \<Rightarrow> project_node_id = p | _ \<Rightarrow> False) \<longleftrightarrow> (\<exists>n. m = AddItem p n)" for m
    by (cases m) auto
  then show ?thesis by (auto simp: already_queued_def add_waiting_def list_pending_def list_ex_iff)
qed

lemma backfill_step:
  "wp (backfill_task env p t) (\<lambda>r w'. r = Inr () \<and> wd_cat w' = wd_cat w \<and> backfilled p [t] (wd_db w) (wd_db w')) w"
proof -
  have node: "Option.bind (t_remote t) rr_node_id = issue_node t" by (simp add: issue_node_def)
  have none: "backfilled p [t] (wd_db w) (wd_db w)" if "\<not> owes_board_item p (wd_db w) t"
    using that by (auto simp: backfilled_def intro!: exI [of _ "[]"])
  show ?thesis
  proof (cases "owes_board_item p (wd_db w) t")
    case True
    then obtain n where "t_project_item_id t = None" "issue_node t = Some n" "\<not> add_waiting p (t_id t) (wd_db w)"
      by (auto simp: owes_board_item_def)
    with True show ?thesis
      by (simp add: backfill_task_def node already_queued_iff wp_simps backfilled_def board_add_def enqueue_add_item)
        (rule exI [of _ "[outbox_entry_new (env_id env (wd_tick w)) (env_now env (wd_tick w)) (t_id t) (AddItem p n)]"],
          simp add: outbox_entry_new_def)
  next
    case False
    with none [OF False] show ?thesis
      by (auto simp: backfill_task_def node already_queued_iff wp_simps owes_board_item_def split: option.split)
  qed
qed

lemma backfilled_Cons:
  assumes "backfilled p [t] d d1" "backfilled p ts d1 d'" "t_id t \<notin> t_id ` set ts"
  shows "backfilled p (t # ts) d d'"
proof -
  from assms(1) obtain es where es: "d1 = d\<lparr>db_outbox := db_outbox d @ es\<rparr>" "list_all (\<lambda>e. e_status e = Pending) es"
    "map (\<lambda>e. (e_task_id e, e_mutation e)) es = map (board_add p) (filter (owes_board_item p d) [t])"
    by (auto simp: backfilled_def)
  have "(e_task_id e, e_mutation e) \<in> set (map (board_add p) (filter (owes_board_item p d) [t]))" if "e \<in> set es" for e
    unfolding es(3) [symmetric] using that by simp
  then have ids: "e_task_id e = t_id t" if "e \<in> set es" for e
    using that by (force simp: board_add_def split: if_splits)
  have "add_waiting p i d1 \<longleftrightarrow> add_waiting p i d" if "i \<in> t_id ` set ts" for i
    using ids that assms(3) by (auto simp: add_waiting_def es(1))
  then have "filter (owes_board_item p d1) ts = filter (owes_board_item p d) ts"
    by (intro filter_cong) (auto simp: owes_board_item_def)
  with assms(2) obtain fs where "d' = d1\<lparr>db_outbox := db_outbox d1 @ fs\<rparr>" "list_all (\<lambda>e. e_status e = Pending) fs"
    "map (\<lambda>e. (e_task_id e, e_mutation e)) fs = map (board_add p) (filter (owes_board_item p d) ts)"
    by (auto simp: backfilled_def)
  with es show ?thesis by (auto simp: backfilled_def intro!: exI [of _ "es @ fs"])
qed

lemma backfill_each:
  assumes "distinct (map t_id ts)"
  shows "wp (each (backfill_task env p) ts)
    (\<lambda>r w'. r = Inr () \<and> wd_cat w' = wd_cat w \<and> backfilled p ts (wd_db w) (wd_db w')) w"
  using assms
proof (induction ts arbitrary: w)
  case Nil
  show ?case by (simp add: wp_simps backfilled_def del: prim_simps)
next
  case (Cons t ts)
  show ?case
    unfolding each.simps wp_simps
    by (rule wp_conseq [OF backfill_step], clarsimp, rule wp_conseq [OF Cons.IH])
      (use Cons.prems in \<open>auto intro: backfilled_Cons\<close>)
qed

text \<open>The listing of a workspace does not look at the catalog or the queue, and lists a task once.\<close>

lemma list_tasks_frame:
  assumes "\<not> tf_pollable_workspaces_only f"
  shows "list_tasks c f d = list_tasks c' f d" "\<And>d es. list_tasks c f (d\<lparr>db_outbox := es\<rparr>) = list_tasks c f d"
proof -
  have "matches_filter c f = matches_filter c' f" using assms by (simp add: matches_filter_def fun_eq_iff)
  then show "list_tasks c f d = list_tasks c' f d" by (simp add: list_tasks_def)
  have "load_listed (d\<lparr>db_outbox := es\<rparr>) = load_listed d" for d es
    by (simp add: load_listed_def load_relations_def load_latest_baseline_def baseline_rows_def fun_eq_iff)
  then show "list_tasks c f (d\<lparr>db_outbox := es\<rparr>) = list_tasks c f d" for d es by (simp add: list_tasks_def)
qed

lemma workspace_tasks_frame:
  "wd_db w' = (wd_db w)\<lparr>db_outbox := es\<rparr> \<Longrightarrow> workspace_tasks i o1 w' = workspace_tasks i o1 w"
  "wd_db w' = wd_db w \<Longrightarrow> workspace_tasks i o1 w' = workspace_tasks i o1 w"
proof -
  let ?f = "default_filter\<lparr>tf_workspace_id := Some i, tf_is_open := o1\<rparr>"
  have f: "\<not> tf_pollable_workspaces_only ?f" by (simp add: default_filter_def)
  note frame = list_tasks_frame(1) [OF f, of "wd_cat w'" _ "wd_cat w"] list_tasks_frame(2) [OF f]
  show "workspace_tasks i o1 w' = workspace_tasks i o1 w" if "wd_db w' = (wd_db w)\<lparr>db_outbox := es\<rparr>"
    unfolding workspace_tasks_def that frame(1) frame(2) ..
  show "workspace_tasks i o1 w' = workspace_tasks i o1 w" if "wd_db w' = wd_db w"
    unfolding workspace_tasks_def that frame(1) ..
qed

lemma workspace_tasks_catalog [simp]: "workspace_tasks i o1 (w\<lparr>wd_cat := c\<rparr>) = workspace_tasks i o1 w"
  by (rule workspace_tasks_frame(2)) simp

lemma list_tasks_ids:
  assumes "tf_limit f = None" "tf_offset f = None"
  shows "mset (map t_id (list_tasks c f d)) = mset (map t_id (filter (matches_filter c f) (db_tasks d)))"
proof -
  have "map t_id (list_tasks c f d) = map t_id (order_rows f (filter (matches_filter c f) (db_tasks d)))"
    by (simp add: list_tasks_def assms limit_rows_def offset_rows_def)
  then show ?thesis by (simp add: order_rows_def split: option.split)
qed

lemma workspace_tasks_distinct:
  "distinct (map t_id (db_tasks (wd_db w))) \<Longrightarrow> distinct (map t_id (workspace_tasks i o1 w))"
  unfolding workspace_tasks_def
  by (subst mset_eq_imp_distinct_iff [OF list_tasks_ids]) (simp_all add: default_filter_def distinct_map_filter)

lemma attach_run:
  assumes "wk_set_project env wr s (Some spec) w = (Inr dto, w')"
  obtains i ws p c where "env_parse_uuid env s = Some i" "get_workspace i (wd_cat w) = Inr ws"
    "resolve_project_spec wr spec (wd_cat w) = Inr p" "w_project_id ws = None \<or> w_project_id ws = Some p"
    "save_workspace (ws\<lparr>w_project_id := Some p\<rparr>) (wd_cat w) = Inr c" "dto = workspace_to_dto (ws\<lparr>w_project_id := Some p\<rparr>)"
    "if wired_outbox wr \<and> wired_projects wr
     then \<exists>proj. get_project p c = Inr proj \<and>
       each (backfill_task env (p_id proj)) (workspace_tasks i (Some True) w) (w\<lparr>wd_cat := c\<rparr>) = (Inr (), w')
     else w' = w\<lparr>wd_cat := c\<rparr>"
proof -
  from assms show thesis
    unfolding wk_set_project_def save_ws_def Let_def
    apply (simp add: run_simps del: prim_simps)
    apply (elim exE conjE)
    apply (rule that)
    by (auto simp: run_simps split: option.splits if_splits)
qed

lemma get_workspace_id: "get_workspace i c = Inr ws \<Longrightarrow> w_id ws = i"
  by (auto simp: get_workspace_def split: option.splits dest!: find_Some_set)

lemma get_project_id: "get_project p c = Inr proj \<Longrightarrow> p_id proj = p"
  by (auto simp: get_project_def split: option.splits dest!: find_Some_set)

lemma resolve_project_spec_frame:
  assumes "cat_projects c' = cat_projects c"
  shows "resolve_project_spec wr spec c' = resolve_project_spec wr spec c"
proof -
  have "get_project i c' = get_project i c" "list_all_projects c' = list_all_projects c" for i
    using assms by (simp_all add: get_project_def list_all_projects_def)
  then show ?thesis unfolding resolve_project_spec_def by presburger
qed

lemma save_workspace_get:
  assumes "save_workspace ws c = Inr c'" "get_workspace (w_id ws) c = Inr old"
  shows "get_workspace (w_id ws) c' = Inr (ws\<lparr>w_created_at := w_created_at old\<rparr>)"
proof -
  from assms(2) have old: "List.find (\<lambda>x. w_id x = w_id ws) (cat_workspaces c) = Some old"
    by (simp add: get_workspace_def split: option.splits)
  then have row: "old \<in> set (cat_workspaces c)" "w_id old = w_id ws" by (auto dest: find_Some_set)
  then have "cat_workspaces c' = update_where (\<lambda>r. w_id r = w_id ws) (\<lambda>old. ws\<lparr>w_created_at := w_created_at old\<rparr>) (cat_workspaces c)"
    using assms(1) by (auto simp: save_workspace_def upsert_def image_iff split: if_splits)
  with find_update_where [of "\<lambda>r. w_id r = w_id ws" w_id "\<lambda>old. ws\<lparr>w_created_at := w_created_at old\<rparr>" "w_id ws", OF _ old] row(2)
  show ?thesis by (simp add: get_workspace_def)
qed

lemma backfilled_settles:
  assumes "backfilled p ts d d'" "t \<in> set ts"
  shows "\<not> owes_board_item p d' t"
proof (cases "owes_board_item p d t")
  case True
  from assms(1) obtain es where es: "d' = d\<lparr>db_outbox := db_outbox d @ es\<rparr>" "list_all (\<lambda>e. e_status e = Pending) es"
    "map (\<lambda>e. (e_task_id e, e_mutation e)) es = map (board_add p) (filter (owes_board_item p d) ts)"
    by (auto simp: backfilled_def)
  have "board_add p t \<in> set (map (\<lambda>e. (e_task_id e, e_mutation e)) es)" unfolding es(3) using True assms(2) by simp
  then obtain e where "e \<in> set es" "e_task_id e = t_id t" "e_mutation e = AddItem p (the (issue_node t))"
    by (auto simp: board_add_def)
  with es(1,2) have "add_waiting p (t_id t) d'" unfolding add_waiting_def
    by (intro bexI [of _ e]) (auto simp: list_all_iff)
  then show ?thesis by (simp add: owes_board_item_def)
next
  case False
  with assms(1) show ?thesis by (auto simp: backfilled_def owes_board_item_def add_waiting_def)
qed

lemma backfilled_none: "backfilled p ts d d' \<Longrightarrow> \<forall>t \<in> set ts. \<not> owes_board_item p d t \<Longrightarrow> d' = d"
  by (auto simp: backfilled_def)

lemma attach_backfills:
  assumes "db_wf (wd_db w)" "wired_outbox wr" "wk_set_project env wr s (Some spec) w = (Inr dto, w')"
  obtains i p where "env_parse_uuid env s = Some i" "resolve_project_spec wr spec (wd_cat w) = Inr p"
    "\<exists>ws. get_workspace i (wd_cat w') = Inr ws \<and> w_project_id ws = Some p" "wdto_project_id dto = Some p"
    "cat_projects (wd_cat w') = cat_projects (wd_cat w)"
    "backfilled p (workspace_tasks i (Some True) w) (wd_db w) (wd_db w')"
proof -
  obtain i ws p c where run: "env_parse_uuid env s = Some i" "get_workspace i (wd_cat w) = Inr ws"
    "resolve_project_spec wr spec (wd_cat w) = Inr p" "w_project_id ws = None \<or> w_project_id ws = Some p" "save_workspace (ws\<lparr>w_project_id := Some p\<rparr>) (wd_cat w) = Inr c"
    "dto = workspace_to_dto (ws\<lparr>w_project_id := Some p\<rparr>)"
    "if wired_outbox wr \<and> wired_projects wr
     then \<exists>proj. get_project p c = Inr proj \<and>
       each (backfill_task env (p_id proj)) (workspace_tasks i (Some True) w) (w\<lparr>wd_cat := c\<rparr>) = (Inr (), w')
     else w' = w\<lparr>wd_cat := c\<rparr>"
    by (rule attach_run [OF assms(3)])
  from run(3) have "wired_projects wr" by (auto simp: resolve_project_spec_def split: if_splits)
  with run(7) assms(2) obtain proj where proj: "get_project p c = Inr proj"
    "each (backfill_task env (p_id proj)) (workspace_tasks i (Some True) w) (w\<lparr>wd_cat := c\<rparr>) = (Inr (), w')" by auto
  have "distinct (map t_id (workspace_tasks i (Some True) w))"
    using assms(1) by (intro workspace_tasks_distinct) (simp add: db_wf_def)
  from backfill_each [OF this, of env "p_id proj" "w\<lparr>wd_cat := c\<rparr>"] proj get_project_id [OF proj(1)]
  have end_state: "wd_cat w' = c" "backfilled p (workspace_tasks i (Some True) w) (wd_db w) (wd_db w')"
    by (simp_all add: wp_def)
  have "w_id ws = i" by (rule get_workspace_id [OF run(2)])
  with save_workspace_get [OF run(5)] run(2) have "\<exists>ws. get_workspace i c = Inr ws \<and> w_project_id ws = Some p" by auto
  moreover have "cat_projects c = cat_projects (wd_cat w)" using cat_grows_writes(1) [OF run(5)] by (simp add: cat_grows_def)
  ultimately show thesis using that [of i p] run(1,3,6) end_state by (simp add: workspace_to_dto_def)
qed

text \<open>A world to evaluate the commands on: two tasks in two workspaces, a project, a binding.\<close>

definition team_task :: task where
  "team_task = sample_mirror\<lparr>t_id := 5, t_workspace_id := 3, t_hash := lit ''abc'', t_filing_repo_id := Some 99,
     t_remote := Some \<lparr>rr_provider = lit ''github'', rr_remote_id = lit ''1'', rr_node_id = Some (lit ''I_1'')\<rparr>\<rparr>"

definition team_db :: db where
  "team_db = pair_db\<lparr>db_tasks := [team_task, team_task\<lparr>t_id := 6, t_hash := lit ''bcd'', t_workspace_id := 2\<rparr>],
     db_relations := []\<rparr>"

definition team_catalog :: catalog where
  "team_catalog = \<lparr>cat_workspaces = [workspace_new 3 0 (lit ''a'') None False],
     cat_projects = [\<lparr>p_id = lit ''PVT_1'', p_owner_login = lit ''o'', p_number = 1, p_title = [], p_fields = [],
       p_status_mappings = [], p_priority_mappings = [], p_archived = False, p_created_at = 0, p_updated_at = 0\<rparr>],
     cat_issue_types = [],
     cat_instances = [\<lparr>ri_id = 4, ri_workspace_id = 3, ri_origin_id = 9, ri_tracked_branch = None,
       ri_canonical_url = lit ''github.com/o/r'', ri_worktrees = [], ri_created_at = 0, ri_updated_at = 0\<rparr>],
     cat_origins = [\<lparr>ro_id = 9, ro_canonical_url = lit ''github.com/o/r'', ro_remote_url = [], ro_name = lit ''r'',
       ro_aliases = [], ro_prefix = lit ''rl'', ro_created_at = 0, ro_updated_at = 0\<rparr>]\<rparr>"

definition team_world :: world where
  "team_world = pair_world\<lparr>wd_db := team_db, wd_cat := team_catalog\<rparr>"

definition team_env :: env where
  "team_env = idle_env\<lparr>env_parse_uuid := \<lambda>_. Some 3\<rparr>"

definition fully_wired :: wiring where
  "fully_wired = \<lparr>wired_projects = True, wired_outbox = True\<rparr>"

lemma team_world_ok:
  "db_wf (wd_db team_world)" "cat_wf (wd_cat team_world)" "t_workspace_id team_task = 3" "t_repo_id team_task = Some 4"
  "t_project_item_id team_task = None" "lifecycle_str (t_lifecycle team_task) = lit ''open''" "t_id team_task = 5"
proof -
  show t: "t_workspace_id team_task = 3" "t_repo_id team_task = Some 4" "t_project_item_id team_task = None"
    "lifecycle_str (t_lifecycle team_task) = lit ''open''" "t_id team_task = 5"
    by (simp_all add: team_task_def sample_simps)
  show "db_wf (wd_db team_world)"
    by (auto simp: team_world_def team_db_def team_task_def db_wf_def pair_db_def hashes_unique_def mappings_unique_def
        db_refs_def dense_versions_def versions_of_def lit_def)
  show "cat_wf (wd_cat team_world)"
    by (simp add: team_world_def team_catalog_def cat_wf_def workspace_new_def lit_def)
qed

lemma team_listing: "workspace_tasks 3 o1 team_world = (if o1 = Some False then [] else [load_listed team_db team_task])"
proof -
  have "matches_filter c (default_filter\<lparr>tf_workspace_id := Some 3, tf_is_open := o2\<rparr>) team_task \<longleftrightarrow> o2 \<noteq> Some False" for c o2
    by (simp add: matches_filter_def default_filter_def if_given_def team_world_ok split: option.split)
  moreover have "\<not> matches_filter c (default_filter\<lparr>tf_workspace_id := Some 3, tf_is_open := o2\<rparr>) (team_task\<lparr>t_id := 6, t_hash := h, t_workspace_id := 2\<rparr>)" for c h o2
    by (simp add: matches_filter_def default_filter_def if_given_def)
  ultimately show ?thesis
    by (simp add: workspace_tasks_def list_tasks_def team_world_def team_db_def order_rows_def default_filter_def
        limit_rows_def offset_rows_def)
qed

lemma team_project:
  "resolve_project_spec fully_wired (lit ''PVT_1'') team_catalog = Inr (lit ''PVT_1'')"
  by (simp add: resolve_project_spec_def fully_wired_def parse_project_id_def starts_with_def get_project_def team_catalog_def
      trim_def trim_start_def is_whitespace_def lit_def)

text \<open>C9 Attaching a project to a workspace puts its active work on the board once: a successful attach
  appends to the queue exactly one pending \<open>AddItem\<close> for each open task of the workspace that has an issue
  node, is not on a board and has none pending for this project, in the order of the listing, and changes
  no other row; the workspace then targets the project, and repeating the command queues nothing.\<close>

theorem attach_backfills_once:
  assumes "db_wf (wd_db w)" "wired_outbox wr" "wk_set_project env wr s (Some spec) w = (Inr dto, w')"
  shows "\<exists>i p. env_parse_uuid env s = Some i \<and> wdto_project_id dto = Some p \<and>
    (\<exists>ws. get_workspace i (wd_cat w') = Inr ws \<and> w_project_id ws = Some p) \<and>
    (\<exists>es. wd_db w' = (wd_db w)\<lparr>db_outbox := db_outbox (wd_db w) @ es\<rparr> \<and> list_all (\<lambda>e. e_status e = Pending) es \<and>
       map (\<lambda>e. (e_task_id e, e_mutation e)) es =
         map (board_add p) (filter (owes_board_item p (wd_db w)) (workspace_tasks i (Some True) w))) \<and>
    (\<forall>dto' w''. wk_set_project env wr s (Some spec) w' = (Inr dto', w'') \<longrightarrow> wd_db w'' = wd_db w')"
proof -
  obtain i p where first: "env_parse_uuid env s = Some i" "resolve_project_spec wr spec (wd_cat w) = Inr p"
    "\<exists>ws. get_workspace i (wd_cat w') = Inr ws \<and> w_project_id ws = Some p" "wdto_project_id dto = Some p"
    "cat_projects (wd_cat w') = cat_projects (wd_cat w)"
    "backfilled p (workspace_tasks i (Some True) w) (wd_db w) (wd_db w')"
    by (rule attach_backfills [OF assms])
  then have wf: "db_wf (wd_db w')" using assms(1) by (auto simp: backfilled_def db_wf_other_tables)
  have "wd_db w'' = wd_db w'" if again: "wk_set_project env wr s (Some spec) w' = (Inr dto', w'')" for dto' w''
  proof -
    obtain i' p' where second: "env_parse_uuid env s = Some i'" "resolve_project_spec wr spec (wd_cat w') = Inr p'"
      "backfilled p' (workspace_tasks i' (Some True) w') (wd_db w') (wd_db w'')"
      using attach_backfills [OF wf assms(2) again] by blast
    have "i' = i" using first(1) second(1) by simp
    moreover have "p' = p"
      using resolve_project_spec_frame [OF first(5), of wr spec] first(2) second(2) by simp
    moreover have "workspace_tasks i (Some True) w' = workspace_tasks i (Some True) w"
      using first(6) workspace_tasks_frame(1) by (auto simp: backfilled_def)
    ultimately show ?thesis using backfilled_none second(3) backfilled_settles [OF first(6)] by simp
  qed
  with first show ?thesis unfolding backfilled_def by blast
qed

theorem attach_backfills_once_witness:
  "\<exists>dto w'. wk_set_project team_env fully_wired [] (Some (lit ''PVT_1'')) team_world = (Inr dto, w') \<and>
     (\<exists>p. wdto_project_id dto = Some p)"
proof -
  let ?w = "workspace_new 3 0 (lit ''a'') None False"
  let ?c = "team_catalog\<lparr>cat_workspaces := [?w\<lparr>w_project_id := Some (lit ''PVT_1'')\<rparr>]\<rparr>"
  have save: "save_workspace (?w\<lparr>w_project_id := Some (lit ''PVT_1'')\<rparr>) team_catalog = Inr ?c"
    by (simp add: save_workspace_def team_catalog_def upsert_def workspace_new_def)
  have get: "get_workspace 3 team_catalog = Inr ?w" "env_parse_uuid team_env [] = Some 3"
    "\<exists>proj. get_project (lit ''PVT_1'') ?c = Inr proj \<and> p_id proj = lit ''PVT_1''" "wd_cat team_world = team_catalog"
    "w_project_id ?w = None"
    by (simp_all add: get_workspace_def team_catalog_def workspace_new_def team_env_def get_project_def team_world_def)
  then obtain proj where proj: "get_project (lit ''PVT_1'') ?c = Inr proj" by blast
  obtain v where "each (backfill_task team_env (p_id proj)) (workspace_tasks 3 (Some True) team_world) (team_world\<lparr>wd_cat := ?c\<rparr>) = (Inr (), v)"
    using backfill_each [of "workspace_tasks 3 (Some True) team_world" team_env "p_id proj" "team_world\<lparr>wd_cat := ?c\<rparr>"]
    by (auto simp: wp_def team_listing split: prod.splits)
  then have "\<exists>dto w'. wk_set_project team_env fully_wired [] (Some (lit ''PVT_1'')) team_world = (Inr dto, w')"
    using save get proj team_project
    by (simp add: wk_set_project_def save_ws_def Let_def bnd_ok prims_ok fully_wired_def)
  then obtain dto w' where run: "wk_set_project team_env fully_wired [] (Some (lit ''PVT_1'')) team_world = (Inr dto, w')" by blast
  have "wired_outbox fully_wired" by (simp add: fully_wired_def)
  from attach_backfills_once [OF team_world_ok(1) this run] run show ?thesis by blast
qed

section \<open>Detaching it\<close>

definition pending_add :: "outbox_entry \<Rightarrow> bool" where
  "pending_add e \<longleftrightarrow> e_status e = Pending \<and> kind (e_mutation e) = lit ''add_item''"

text \<open>How a command changes the rows: those of the tasks in \<open>I\<close> satisfy \<open>Q\<close> afterwards, the others are as before.\<close>

definition changed_row :: "(task \<Rightarrow> bool) \<Rightarrow> task_id set \<Rightarrow> task \<Rightarrow> task \<Rightarrow> bool" where
  "changed_row Q I r r' \<longleftrightarrow> t_id r' = t_id r \<and> t_workspace_id r' = t_workspace_id r \<and> (if t_id r \<in> I then Q r' else r' = r)"

definition changed_rows :: "(task \<Rightarrow> bool) \<Rightarrow> task_id set \<Rightarrow> db \<Rightarrow> db \<Rightarrow> bool" where
  "changed_rows Q I d d' \<longleftrightarrow> list_all2 (changed_row Q I) (db_tasks d) (db_tasks d')"

lemma changed_rows_refl [simp]: "changed_rows Q {} d d"
  by (simp add: changed_rows_def list_all2_same changed_row_def)

lemma changed_rows_trans:
  assumes "changed_rows Q I d e" "changed_rows Q J e f"
  shows "changed_rows Q (I \<union> J) d f"
  unfolding changed_rows_def
  by (rule list_all2_trans [of "changed_row Q I" "changed_row Q J" "changed_row Q (I \<union> J)"])
    (use assms in \<open>auto simp: changed_rows_def changed_row_def split: if_splits\<close>)

lemma list_all2_members:
  "list_all2 P xs ys \<Longrightarrow> y \<in> set ys \<Longrightarrow> \<exists>x \<in> set xs. P x y" "list_all2 P xs ys \<Longrightarrow> x \<in> set xs \<Longrightarrow> \<exists>y \<in> set ys. P x y"
  by (induction rule: list_all2_induct) auto

lemma changed_rows_ids: "changed_rows Q I d d' \<Longrightarrow> map t_id (db_tasks d') = map t_id (db_tasks d)"
  unfolding changed_rows_def by (induction rule: list_all2_induct) (auto simp: changed_row_def)

lemma changed_rows_members:
  "changed_rows Q I d d' \<Longrightarrow> r' \<in> set (db_tasks d') \<Longrightarrow> \<exists>r \<in> set (db_tasks d). changed_row Q I r r'"
  "changed_rows Q I d d' \<Longrightarrow> r \<in> set (db_tasks d) \<Longrightarrow> \<exists>r' \<in> set (db_tasks d'). changed_row Q I r r'"
  unfolding changed_rows_def by (rule list_all2_members(1), assumption+) (rule list_all2_members(2))

lemma save_task_rows:
  "save_task cap t src d = Inr d' \<Longrightarrow> db_tasks d' = upsert_tasks t (db_tasks d) \<and> db_outbox d' = db_outbox d"
  by (auto simp: save_task_def write_task_in_tx_def Let_def split: if_splits sum.splits)

lemma save_task_changes:
  assumes "save_task cap t src d = Inr d'" "t_id t \<in> t_id ` set (db_tasks d)"
    "\<And>r. r \<in> set (db_tasks d) \<Longrightarrow> t_id r = t_id t \<Longrightarrow> t_workspace_id r = t_workspace_id t \<and> Q (upsert_row t r)"
  shows "changed_rows Q {t_id t} d d'"
proof -
  have "db_tasks d' = update_where (\<lambda>r. t_id r = t_id t) (upsert_row t) (db_tasks d)"
    using save_task_rows [OF assms(1)] assms(2) by (simp add: upsert_tasks_def)
  with assms(3) show ?thesis
    by (auto simp: changed_rows_def update_where_def list_all2_map2 list_all2_same changed_row_def upsert_row_def bare_row_def)
qed

definition scrubbed :: "task_id set \<Rightarrow> db \<Rightarrow> db \<Rightarrow> bool" where
  "scrubbed I d d' \<longleftrightarrow> changed_rows (\<lambda>r. t_project_item_id r = None) I d d' \<and>
     db_outbox d' = filter (\<lambda>e. \<not> (e_task_id e \<in> I \<and> pending_add e)) (db_outbox d)"

text \<open>A task as the listing returned it agrees with its row.\<close>

definition listed :: "db \<Rightarrow> task \<Rightarrow> bool" where
  "listed d t \<longleftrightarrow> t_id t \<in> t_id ` set (db_tasks d) \<and> (\<forall>r \<in> set (db_tasks d). t_id r = t_id t \<longrightarrow>
     t_project_item_id r = t_project_item_id t \<and> t_workspace_id r = t_workspace_id t \<and> t_filing_repo_id r = t_filing_repo_id t)"

lemma listed_changed:
  assumes "listed d t" "changed_rows Q I d d'" "t_id t \<notin> I"
  shows "listed d' t"
proof -
  have "r' \<in> set (db_tasks d) \<and> t_id r' = t_id t" if row: "r' \<in> set (db_tasks d')" "t_id r' = t_id t" for r'
    using changed_rows_members(1) [OF assms(2) row(1)] row assms(3) by (auto simp: changed_row_def)
  moreover obtain r where r: "r \<in> set (db_tasks d)" "t_id r = t_id t" using assms(1) by (auto simp: listed_def)
  then have "t_id t \<in> t_id ` set (db_tasks d')"
    using changed_rows_members(2) [OF assms(2) r(1)] unfolding changed_row_def by (metis image_eqI)
  ultimately show ?thesis using assms(1) by (auto simp: listed_def)
qed

lemma scrubbed_trans: "scrubbed I d e \<Longrightarrow> scrubbed J e f \<Longrightarrow> scrubbed (I \<union> J) d f"
  by (auto simp: scrubbed_def intro!: filter_cong intro: changed_rows_trans)

lemma scrub_step:
  assumes "wired_outbox wr" "listed (wd_db w) t" "scrub_task env wr t w = (Inr u, w')"
  shows "wd_cat w' = wd_cat w \<and> scrubbed {t_id t} (wd_db w) (wd_db w')"
proof -
  let ?d = "(wd_db w)\<lparr>db_outbox := snd (delete_pending_add_items (t_id t) (db_outbox (wd_db w)))\<rparr>"
  have box: "db_outbox ?d = filter (\<lambda>e. \<not> (e_task_id e \<in> {t_id t} \<and> pending_add e)) (db_outbox (wd_db w))"
    by (simp add: delete_pending_add_items_def Let_def pending_add_def)
  show ?thesis
  proof (cases "t_project_item_id t = None")
    case True
    with assms(1,3) have "w' = w\<lparr>wd_db := ?d\<rparr>" by (simp add: scrub_task_def bnd_def)
    with box True assms(2) show ?thesis
      by (auto simp: scrubbed_def changed_rows_def list_all2_same changed_row_def listed_def)
  next
    case False
    let ?t = "t\<lparr>t_project_item_id := None\<rparr>"
    from False assms(1,3) obtain d where d: "save_task (env_now env (wd_tick w)) ?t SrcLocalEdit ?d = Inr d"
      "wd_db w' = d" "wd_cat w' = wd_cat w"
      by (auto simp: scrub_task_def bnd_ok prims_ok)
    have "changed_rows (\<lambda>r. t_project_item_id r = None) {t_id ?t} ?d d"
      by (rule save_task_changes [OF d(1)]) (use assms(2) in \<open>auto simp: listed_def upsert_row_def bare_row_def\<close>)
    then show ?thesis using box d save_task_rows [OF d(1)] by (simp add: scrubbed_def changed_rows_def)
  qed
qed

lemma scrub_each:
  assumes "wired_outbox wr"
  shows "list_all (listed (wd_db w)) ts \<Longrightarrow> distinct (map t_id ts) \<Longrightarrow> each (scrub_task env wr) ts w = (Inr u, w') \<Longrightarrow>
    wd_cat w' = wd_cat w \<and> scrubbed (t_id ` set ts) (wd_db w) (wd_db w')"
proof (induction ts arbitrary: w)
  case Nil
  then show ?case by (auto simp: scrubbed_def)
next
  case (Cons t ts)
  from Cons.prems(3) obtain v where v: "scrub_task env wr t w = (Inr (), v)" "each (scrub_task env wr) ts v = (Inr u, w')"
    by (auto simp: bnd_ok)
  have step: "wd_cat v = wd_cat w" "scrubbed {t_id t} (wd_db w) (wd_db v)"
    using scrub_step [OF assms _ v(1)] Cons.prems(1) by auto
  then have rows: "changed_rows (\<lambda>r. t_project_item_id r = None) {t_id t} (wd_db w) (wd_db v)" by (simp add: scrubbed_def)
  have "list_all (listed (wd_db v)) ts"
    unfolding list_all_iff by (intro ballI listed_changed [OF _ rows]) (use Cons.prems(1,2) in \<open>auto simp: list_all_iff image_iff\<close>)
  from Cons.IH [OF this _ v(2)] Cons.prems(2) step scrubbed_trans [OF step(2)] show ?case by simp
qed

lemma decode_issue_type_idem [simp]: "decode_issue_type (decode_issue_type it) = decode_issue_type it"
proof (cases it)
  case (Some x)
  have "issue_type_from (issue_type_display (issue_type_from s)) = issue_type_from s" for s
  proof (cases "well_known s")
    case (Some w)
    with well_known_display [of w] well_known_cases [OF Some] show ?thesis by (simp add: issue_type_from_def)
  qed (simp add: issue_type_from_def)
  with Some show ?thesis by (simp add: decode_issue_type_def)
qed (simp add: decode_issue_type_def)

text \<open>How a detach leaves the tasks \<open>I\<close> and the others: each reads back as before, those of \<open>I\<close>
  without their board item; a task that had one is saved, and a save of a task whose issue type is
  stored in another spelling than the canonical one raises the flag that the type is to be pushed.\<close>

definition off_board :: "db \<Rightarrow> task \<Rightarrow> task \<Rightarrow> bool" where
  "off_board d t t' \<longleftrightarrow>
     t' = t\<lparr>t_project_item_id := None, t_issue_type_pending := t_issue_type_pending t'\<rparr> \<and>
     (t_issue_type_pending t' \<longleftrightarrow> t_issue_type_pending t \<or> t_project_item_id t \<noteq> None \<and>
        (\<exists>row. find_row d (t_id t) = Some row \<and> issue_type_column (t_issue_type row) \<noteq> issue_type_column (t_issue_type t)))"

lemma get_task_off_board:
  assumes "get_task i d = Inr x" "save_task cap (x\<lparr>t_comments := [], t_project_item_id := None\<rparr>) SrcLocalEdit d = Inr d'"
    "t_project_item_id x \<noteq> None"
  shows "\<exists>x'. get_task i d' = Inr x' \<and> off_board d x x'"
proof -
  let ?y = "x\<lparr>t_comments := [], t_project_item_id := None\<rparr>"
  obtain old where old: "find_row d i = Some old" "x = hydrate d old"
    using assms(1) by (auto simp: get_task_def split: option.splits)
  have id: "t_id ?y = i" using get_task_id [OF assms(1)] by simp
  have "\<not> makes_baseline ?y SrcLocalEdit" by (simp add: makes_baseline_def source_is_baseline_def)
  then have base: "load_latest_baseline d' i = load_latest_baseline d i"
    using load_latest_baseline_save [of cap ?y SrcLocalEdit d d'] assms(2) id by (simp add: save_task_def)
  have rel: "load_relations d' i = load_relations d i"
    using load_saved(1) [OF assms(2)] id old get_task_id [OF assms(1)]
    by (simp add: hydrate_def row_to_task_def) (simp add: load_relations_def sort_key_id_if_sorted)
  show ?thesis
    using get_task_saved [OF assms(2)] id old base rel load_saved(2) [OF assms(2), of i] assms(3)
    by (auto simp: hydrate_def row_to_task_def upsert_row_def bare_row_def off_board_def)
qed

text \<open>One pass of the scrub over listed tasks, seen through the repository.\<close>

definition listed_as :: "db \<Rightarrow> task \<Rightarrow> bool" where
  "listed_as d t \<longleftrightarrow> (\<exists>x. get_task (t_id t) d = Inr x \<and> t = x\<lparr>t_comments := []\<rparr>)"

definition unboarded :: "task list \<Rightarrow> db \<Rightarrow> db \<Rightarrow> bool" where
  "unboarded ts d d' \<longleftrightarrow>
     (\<forall>j x. get_task j d = Inr x \<longrightarrow> (\<exists>x'. get_task j d' = Inr x' \<and> (if j \<in> t_id ` set ts then off_board d x x' else x' = x))) \<and>
     db_comments d' = db_comments d \<and>
     (\<exists>new. db_snapshots d' = db_snapshots d @ new \<and> list_all (\<lambda>s. s_source s = SrcLocalEdit) new \<and>
        map s_task_id new = map t_id (filter (\<lambda>t. t_project_item_id t \<noteq> None) ts))"

lemma off_board_none: "t_project_item_id x = None \<Longrightarrow> off_board d x x"
  by (cases x) (simp add: off_board_def)

lemma unboarded_step:
  assumes "wired_outbox wr" "listed_as (wd_db w) t" "scrub_task env wr t w = (Inr u, w')"
  shows "unboarded [t] (wd_db w) (wd_db w') \<and>
    (\<forall>j. j \<noteq> t_id t \<longrightarrow> get_task j (wd_db w') = get_task j (wd_db w) \<and> find_row (wd_db w') j = find_row (wd_db w) j)"
proof -
  let ?d = "(wd_db w)\<lparr>db_outbox := snd (delete_pending_add_items (t_id t) (db_outbox (wd_db w)))\<rparr>"
  obtain x where x: "get_task (t_id t) (wd_db w) = Inr x" "t = x\<lparr>t_comments := []\<rparr>"
    using assms(2) by (auto simp: listed_as_def)
  have d: "find_row ?d j = find_row (wd_db w) j" "get_task j ?d = get_task j (wd_db w)" for j
    by (simp_all add: get_task_outbox find_row_def)
  show ?thesis
  proof (cases "t_project_item_id t = None")
    case True
    with assms(1,3) have "w' = w\<lparr>wd_db := ?d\<rparr>" by (simp add: scrub_task_def bnd_def)
    moreover have "t_project_item_id x = None" using True x(2) by simp
    ultimately show ?thesis using True x(1) by (auto simp: unboarded_def d off_board_none)
  next
    case False
    let ?t = "x\<lparr>t_comments := [], t_project_item_id := None\<rparr>"
    from False assms(1,3) x(2) obtain cap where save: "save_task cap ?t SrcLocalEdit ?d = Inr (wd_db w')"
      by (auto simp: scrub_task_def bnd_ok prims_ok)
    have id: "t_id x = t_id t" by (rule get_task_id [OF x(1)])
    have item: "t_project_item_id x \<noteq> None" using False x(2) by simp
    have w: "write_task_in_tx cap ?t SrcLocalEdit ?d = Inr (wd_db w')" using save by (simp add: save_task_def)
    have tables: "db_tasks (wd_db w') = upsert_tasks ?t (db_tasks (wd_db w))" "db_comments (wd_db w') = db_comments (wd_db w)"
      "\<exists>s. db_snapshots (wd_db w') = db_snapshots (wd_db w) @ [s] \<and> s_source s = SrcLocalEdit \<and> s_task_id s = t_id t"
      using w id by (auto simp: snapshot_row_def elim!: write_task_cases)
    have other: "get_task j (wd_db w') = get_task j (wd_db w)" if "j \<noteq> t_id t" for j
      using get_save_task_other [OF save, of j] that id d(2) by simp
    moreover obtain x' where "get_task (t_id t) (wd_db w') = Inr x'" "off_board ?d x x'"
      using get_task_off_board [OF _ save item] x(1) d(2) by auto
    moreover have "off_board ?d = off_board (wd_db w)" by (simp add: off_board_def d(1) fun_eq_iff)
    ultimately have reads: "\<exists>z'. get_task j (wd_db w') = Inr z' \<and> (if j \<in> t_id ` set [t] then off_board (wd_db w) z z' else z' = z)"
      if "get_task j (wd_db w) = Inr z" for j z
      using that x(1) by (cases "j = t_id t") auto
    have "find_row (wd_db w') j = find_row (wd_db w) j" if "j \<noteq> t_id t" for j
      using that id by (simp add: find_row_def tables(1) find_row_upsert_other)
    with tables(2,3) False other reads show ?thesis unfolding unboarded_def by (intro conjI; auto)
  qed
qed

lemma unboarded_each:
  assumes "wired_outbox wr"
  shows "list_all (listed_as (wd_db w)) ts \<Longrightarrow> distinct (map t_id ts) \<Longrightarrow> each (scrub_task env wr) ts w = (Inr u, w') \<Longrightarrow>
    unboarded ts (wd_db w) (wd_db w')"
proof (induction ts arbitrary: w)
  case Nil
  then show ?case by (auto simp: unboarded_def)
next
  case (Cons t ts)
  from Cons.prems(3) obtain v where v: "scrub_task env wr t w = (Inr (), v)" "each (scrub_task env wr) ts v = (Inr u, w')"
    by (auto simp: bnd_ok)
  have step: "unboarded [t] (wd_db w) (wd_db v)"
    and same: "\<And>j. j \<noteq> t_id t \<Longrightarrow> get_task j (wd_db v) = get_task j (wd_db w) \<and> find_row (wd_db v) j = find_row (wd_db w) j"
    using unboarded_step [OF assms _ v(1)] Cons.prems(1) by auto
  have "list_all (listed_as (wd_db v)) ts"
    using Cons.prems(1,2) same by (auto simp: list_all_iff listed_as_def image_iff)
  from Cons.IH [OF this _ v(2)] Cons.prems(2) have rest: "unboarded ts (wd_db v) (wd_db w')" by simp
  have off: "off_board (wd_db v) x x' = off_board (wd_db w) x x'" if "t_id x \<noteq> t_id t" for x x'
    using same that by (simp add: off_board_def)
  have "\<exists>x'. get_task j (wd_db w') = Inr x' \<and> (if j \<in> t_id ` set (t # ts) then off_board (wd_db w) x x' else x' = x)"
    if x: "get_task j (wd_db w) = Inr x" for j x
  proof (cases "j = t_id t")
    case True
    with step x obtain y where y: "get_task j (wd_db v) = Inr y" "off_board (wd_db w) x y" by (fastforce simp: unboarded_def)
    moreover have "j \<notin> t_id ` set ts" using True Cons.prems(2) by auto
    ultimately have "get_task j (wd_db w') = Inr y" using rest unfolding unboarded_def by fastforce
    with y(2) True show ?thesis by simp
  next
    case False
    with same x have "get_task j (wd_db v) = Inr x" by simp
    with rest obtain y where "get_task j (wd_db w') = Inr y" "if j \<in> t_id ` set ts then off_board (wd_db v) x y else y = x"
      unfolding unboarded_def by blast
    with off [of x y] False get_task_id [OF x] show ?thesis by auto
  qed
  moreover have "\<exists>new. db_snapshots (wd_db w') = db_snapshots (wd_db w) @ new \<and> list_all (\<lambda>s. s_source s = SrcLocalEdit) new \<and>
        map s_task_id new = map t_id (filter (\<lambda>t. t_project_item_id t \<noteq> None) (t # ts))"
  proof -
    from step obtain a where "db_snapshots (wd_db v) = db_snapshots (wd_db w) @ a" "list_all (\<lambda>s. s_source s = SrcLocalEdit) a"
      "map s_task_id a = map t_id (filter (\<lambda>t. t_project_item_id t \<noteq> None) [t])" unfolding unboarded_def by blast
    moreover from rest obtain b where "db_snapshots (wd_db w') = db_snapshots (wd_db v) @ b" "list_all (\<lambda>s. s_source s = SrcLocalEdit) b"
      "map s_task_id b = map t_id (filter (\<lambda>t. t_project_item_id t \<noteq> None) ts)" unfolding unboarded_def by blast
    ultimately show ?thesis by (intro exI [of _ "a @ b"]) simp
  qed
  moreover have "db_comments (wd_db w') = db_comments (wd_db w)" using step rest by (simp add: unboarded_def)
  ultimately show ?case unfolding unboarded_def by blast
qed

lemma detach_run:
  assumes "wk_set_project env wr s None w = (Inr dto, w')"
  obtains i ws v where "env_parse_uuid env s = Some i" "get_workspace i (wd_cat w) = Inr ws"
    "if wired_outbox wr then each (scrub_task env wr) (workspace_tasks i None w) w = (Inr (), v) else v = w"
    "save_workspace (ws\<lparr>w_project_id := None\<rparr>) (wd_cat v) = Inr (wd_cat w')" "wd_db w' = wd_db v"
    "dto = workspace_to_dto (ws\<lparr>w_project_id := None\<rparr>)"
proof -
  from assms show thesis
    unfolding wk_set_project_def save_ws_def Let_def
    apply (simp add: run_simps del: prim_simps)
    apply (elim exE conjE)
    apply (rule that)
    by (auto simp: run_simps split: option.splits if_splits)
qed

lemma set_workspace_tasks:
  "set (workspace_tasks i o1 w) = load_listed (wd_db w) ` {r \<in> set (db_tasks (wd_db w)). t_workspace_id r = i \<and>
     if_given o1 (\<lambda>open. if open then lifecycle_str (t_lifecycle r) \<in> {lit ''open'', lit ''reopened''}
       else lifecycle_str (t_lifecycle r) \<in> {lit ''completed'', lit ''not_planned''})}"
  by (auto simp: workspace_tasks_def list_tasks_def limit_rows_def offset_rows_def matches_filter_def default_filter_def
      if_given_def)

lemma workspace_tasks_listed:
  "distinct (map t_id (db_tasks (wd_db w))) \<Longrightarrow> list_all (listed (wd_db w)) (workspace_tasks i o1 w)"
  using distinct_map_key_unique
  by (fastforce simp: list_all_iff set_workspace_tasks listed_def load_listed_def row_to_task_def)

lemma workspace_tasks_listed_as:
  assumes "distinct (map t_id (db_tasks (wd_db w)))"
  shows "list_all (listed_as (wd_db w)) (workspace_tasks i o1 w)"
proof -
  have "listed_as (wd_db w) (load_listed (wd_db w) r)" if r: "r \<in> set (db_tasks (wd_db w))" for r
  proof -
    have "find_row (wd_db w) (t_id r) = Some r"
      using r assms by (simp add: find_row_def find_distinct_key)
    then show ?thesis by (auto simp: listed_as_def get_task_def hydrate_def load_listed_def row_to_task_def)
  qed
  then show ?thesis by (auto simp: list_all_iff set_workspace_tasks)
qed



end
