(* ===== verification/DoctorProps.thy ===== *)
theory DoctorProps
  imports BoardProps
begin

text \<open>
  The doctor of the filing repositories and the resolution of a handle
  (\<open>application-workspace/src/repo_binding_service.rs\<close>).
\<close>

section \<open>The doctor\<close>

text \<open>A task whose filing repository is gone.\<close>

definition dangling :: "catalog \<Rightarrow> task \<Rightarrow> bool" where
  "dangling c t \<longleftrightarrow> (\<exists>f. t_filing_repo_id t = Some f \<and> f \<notin> ro_id ` set (cat_origins c))"

lemma get_origin_cases:
  "f \<in> ro_id ` set (cat_origins c) \<Longrightarrow> \<exists>ro. get_origin f c = Inr ro"
  "f \<notin> ro_id ` set (cat_origins c) \<Longrightarrow> \<exists>s. get_origin f c = Inl (NotFound s)"
  by (auto simp: get_origin_def find_None_iff split: option.split dest!: find_Some_set)

lemma get_origin_known: "get_origin f c = Inr ro \<Longrightarrow> f \<in> ro_id ` set (cat_origins c)"
  by (auto simp: get_origin_def split: option.splits dest!: find_Some_set)

text \<open>A target the doctor resolves exists.\<close>

lemma doctor_target_known:
  assumes "cat_wf c" "resolve_doctor_target t c d = Inr (Some x)"
  shows "x \<in> ro_id ` set (cat_origins c)"
proof -
  have known: "ri_origin_id r \<in> ro_id ` set (cat_origins c)" if "r \<in> set (cat_instances c)" for r
    using assms(1) that by (auto simp: cat_wf_def list_all_iff)
  have "x \<in> ro_id ` set (cat_origins c)" if hit: "find_by_remote_mapping ws p i c d = Some x" for ws p i
  proof -
    let ?hits = "concat (map (\<lambda>m. map (\<lambda>r. ri_origin_id r)
          (filter (\<lambda>r. rm_filing_repo_id m = Some (ri_origin_id r) \<and> ri_workspace_id r = ws \<and>
             rm_provider m = p \<and> rm_remote_id m = i) (cat_instances c))) (db_mappings d))"
    have "take 2 ?hits = [x]" using hit by (auto simp: find_by_remote_mapping_def split: list.splits)
    from arg_cong [OF this, of set] have "x \<in> set ?hits" using set_take_subset [of 2 ?hits] by auto
    then show ?thesis using known by auto
  qed
  moreover have "ri_origin_id (fst v) \<in> ro_id ` set (cat_origins c)" if "get_binding i c = Inr v" for i v
    using that known by (auto simp: get_binding_def bind_eq_Some_conv split: option.splits dest!: find_Some_set)
  moreover have "(\<exists>ws p i. find_by_remote_mapping ws p i c d = Some x) \<or> (\<exists>i v. get_binding i c = Inr v \<and> x = ri_origin_id (fst v))"
  proof (cases "\<exists>i v. t_repo_id t = Some i \<and> get_binding i c = Inr v")
    case True
    then obtain i v where v: "t_repo_id t = Some i" "get_binding i c = Inr v" by blast
    with assms(2) have "x = ri_origin_id (fst v)" by (simp add: resolve_doctor_target_def)
    with v(2) show ?thesis by blast
  next
    case False
    with assms(2) have "(case t_remote t of None \<Rightarrow> None
      | Some r \<Rightarrow> find_by_remote_mapping (t_workspace_id t) (rr_provider r) (rr_remote_id r) c d) = Some x"
      by (cases "t_repo_id t"; cases "get_binding (the (t_repo_id t)) c")
        (auto simp: resolve_doctor_target_def split: port_error.splits)
    then show ?thesis by (auto split: option.splits)
  qed
  ultimately show ?thesis by blast
qed

text \<open>The mapping a target is read from is of another issue: the task's own mapping carries the lost repository,
  so a hit is a mapping with the same number in a different repository.\<close>

lemma doctor_mapping_foreign:
  assumes "cat_wf c" "dangling c t" "find_by_remote_mapping ws p i c d = Some x"
  shows "\<exists>m \<in> set (db_mappings d). rm_provider m = p \<and> rm_remote_id m = i \<and> rm_filing_repo_id m = Some x \<and>
    rm_filing_repo_id m \<noteq> t_filing_repo_id t"
proof -
  let ?hits = "concat (map (\<lambda>m. map (\<lambda>r. ri_origin_id r)
        (filter (\<lambda>r. rm_filing_repo_id m = Some (ri_origin_id r) \<and> ri_workspace_id r = ws \<and>
           rm_provider m = p \<and> rm_remote_id m = i) (cat_instances c))) (db_mappings d))"
  have "take 2 ?hits = [x]" using assms(3) by (auto simp: find_by_remote_mapping_def split: list.splits)
  from arg_cong [OF this, of set] have "x \<in> set ?hits" using set_take_subset [of 2 ?hits] by auto
  then show ?thesis using assms(1,2) by (auto simp: dangling_def cat_wf_def list_all_iff)
qed

lemma doctor_step:
  assumes "cat_wf (wd_cat w)" "distinct (map t_id (db_tasks (wd_db w)))" "listed (wd_db w) t"
    "\<And>f. ov = Some f \<Longrightarrow> f \<in> ro_id ` set (cat_origins (wd_cat w))"
    "doctor_task env repair ov t w = (Inr x, w')"
  shows "wd_cat w' = wd_cat w \<and> (x = None \<longleftrightarrow> \<not> dangling (wd_cat w) t) \<and> (\<not> repair \<longrightarrow> wd_db w' = wd_db w) \<and>
    (\<forall>row. x = Some row \<longrightarrow> dr_task_id row = t_id t \<and> (dr_repaired row \<longleftrightarrow> repair \<and> dr_target_repo_id row \<noteq> None)) \<and>
    changed_rows (\<lambda>r. \<not> dangling (wd_cat w) r) (if \<exists>row. x = Some row \<and> dr_repaired row then {t_id t} else {}) (wd_db w) (wd_db w')"
proof (cases "dangling (wd_cat w) t")
  case False
  have "x = None \<and> w' = w"
  proof (cases "t_filing_repo_id t")
    case None
    with assms(5) show ?thesis by (simp add: doctor_task_def)
  next
    case (Some f)
    with False obtain ro where "get_origin f (wd_cat w) = Inr ro" using get_origin_cases(1) by (auto simp: dangling_def)
    with assms(5) Some show ?thesis by (simp add: doctor_task_def bnd_def query_def)
  qed
  with False show ?thesis by simp
next
  case True
  then obtain f where "t_filing_repo_id t = Some f" "f \<notin> ro_id ` set (cat_origins (wd_cat w))" by (auto simp: dangling_def)
  with get_origin_cases(2) obtain s where f: "t_filing_repo_id t = Some f" "get_origin f (wd_cat w) = Inl (NotFound s)"
    by blast
  let ?row = "\<lambda>target. \<lparr>dr_task_id = t_id t, dr_title = t_title t, dr_current_filing_repo_id = f,
    dr_target_repo_id = target, dr_repaired = False\<rparr>"
  from assms(5) f obtain target where target: "(case ov of Some forced \<Rightarrow> Inr (Some forced)
      | None \<Rightarrow> resolve_doctor_target t (wd_cat w) (wd_db w)) = Inr target"
    and rest: "(if repair then (case target of Some target_id \<Rightarrow>
        bnd (query (\<lambda>w. we_port (get_task (t_id t) (wd_db w)))) (\<lambda>t0.
        bnd (timestamp_now env) (\<lambda>now.
        bnd (task_write env (force_set_filing_repo_id now (Some target_id) t0) SrcFilingRepoRepair) (\<lambda>_.
          ret (Some (?row target\<lparr>dr_repaired := True\<rparr>))))) | None \<Rightarrow> ret (Some (?row target)))
      else ret (Some (?row target))) w = (Inr x, w')"
    by (cases ov) (auto simp: doctor_task_def Let_def bnd_def query_def split: sum.splits)
  show ?thesis
  proof (cases "repair \<and> target \<noteq> None")
    case False
    with rest have "w' = w \<and> x = Some (?row target)" by (auto split: if_splits)
    with True False show ?thesis by auto
  next
    case repaired: True
    then obtain y where y: "target = Some y" by auto
    have known: "y \<in> ro_id ` set (cat_origins (wd_cat w))"
      using target y assms(4) doctor_target_known [OF assms(1)] by (auto split: option.splits)
    from rest repaired y obtain t0 d now cap where t0: "get_task (t_id t) (wd_db w) = Inr t0"
      and d: "save_task cap (force_set_filing_repo_id now (Some y) t0) SrcFilingRepoRepair (wd_db w) = Inr d"
      and end_state: "wd_db w' = d" "wd_cat w' = wd_cat w" "x = Some (?row target\<lparr>dr_repaired := True\<rparr>)"
      by (auto simp: run_simps)
    let ?t = "force_set_filing_repo_id now (Some y) t0"
    have id: "t_id ?t = t_id t" using get_task_id [OF t0] by (simp add: force_set_filing_repo_id_def touch_def)
    have "changed_rows (\<lambda>r. \<not> dangling (wd_cat w) r) {t_id ?t} (wd_db w) d"
    proof (rule save_task_changes [OF d])
      show "t_id ?t \<in> t_id ` set (db_tasks (wd_db w))" using assms(3) by (simp add: id listed_def)
      fix r assume r: "r \<in> set (db_tasks (wd_db w))" "t_id r = t_id ?t"
      obtain r0 where "r0 \<in> set (db_tasks (wd_db w))" "t_id r0 = t_id t" "t_workspace_id r0 = t_workspace_id t0"
        using t0 by (auto simp: get_task_def find_row_def hydrate_def row_to_task_def split: option.splits dest!: find_Some_set)
      then have "t_workspace_id r = t_workspace_id t0"
        using distinct_map_key_unique [OF assms(2) r(1)] r(2) id by simp
      moreover have "\<not> dangling (wd_cat w) (upsert_row ?t r)"
        using known by (auto simp: dangling_def upsert_row_def bare_row_def force_set_filing_repo_id_def touch_def)
      ultimately show "t_workspace_id r = t_workspace_id ?t \<and> \<not> dangling (wd_cat w) (upsert_row ?t r)"
        by (simp add: force_set_filing_repo_id_def touch_def)
    qed
    with end_state id True repaired show ?thesis by simp
  qed
qed

lemma doctor_each:
  assumes "cat_wf c" "\<And>f. ov = Some f \<Longrightarrow> f \<in> ro_id ` set (cat_origins c)"
  shows "wd_cat w = c \<Longrightarrow> distinct (map t_id (db_tasks (wd_db w))) \<Longrightarrow> list_all (listed (wd_db w)) ts \<Longrightarrow>
    distinct (map t_id ts) \<Longrightarrow> collect (doctor_task env repair ov) ts w = (Inr xs, w') \<Longrightarrow>
    wd_cat w' = c \<and> map dr_task_id (List.map_filter id xs) = map t_id (filter (dangling c) ts) \<and>
    (\<not> repair \<longrightarrow> wd_db w' = wd_db w) \<and>
    list_all (\<lambda>row. dr_repaired row \<longleftrightarrow> repair \<and> dr_target_repo_id row \<noteq> None) (List.map_filter id xs) \<and>
    changed_rows (\<lambda>r. \<not> dangling c r) (dr_task_id ` set (filter dr_repaired (List.map_filter id xs))) (wd_db w) (wd_db w')"
proof (induction ts arbitrary: w xs)
  case Nil
  then show ?case by (simp add: List.map_filter_def)
next
  case (Cons t ts)
  from Cons.prems(5) obtain x v ys where step: "doctor_task env repair ov t w = (Inr x, v)"
    and rest: "collect (doctor_task env repair ov) ts v = (Inr ys, w')" and xs: "xs = x # ys"
    by (auto simp: bnd_ok prims_ok)
  let ?Q = "\<lambda>r. \<not> dangling c r"
  let ?I = "if \<exists>row. x = Some row \<and> dr_repaired row then {t_id t} else {}"
  have one: "wd_cat v = c" "x = None \<longleftrightarrow> \<not> dangling c t" "\<not> repair \<longrightarrow> wd_db v = wd_db w"
    "\<And>row. x = Some row \<Longrightarrow> dr_task_id row = t_id t \<and> (dr_repaired row \<longleftrightarrow> repair \<and> dr_target_repo_id row \<noteq> None)"
    "changed_rows ?Q ?I (wd_db w) (wd_db v)"
    using doctor_step [of w t ov env repair x v] assms Cons.prems(1-3) step by auto
  have ids: "map t_id (db_tasks (wd_db v)) = map t_id (db_tasks (wd_db w))"
    using one(5) by (rule changed_rows_ids)
  have listed: "list_all (listed (wd_db v)) ts"
    unfolding list_all_iff
    by (intro ballI listed_changed [OF _ one(5)]) (use Cons.prems(3,4) in \<open>auto simp: list_all_iff image_iff split: if_splits\<close>)
  have "distinct (map t_id (db_tasks (wd_db v)))" "distinct (map t_id ts)" using Cons.prems(2,4) by (simp_all add: ids)
  note IH = Cons.IH [OF one(1) this(1) listed this(2) rest]
  have "changed_rows ?Q (?I \<union> dr_task_id ` set (filter dr_repaired (List.map_filter id ys))) (wd_db w) (wd_db w')"
    using IH by (intro changed_rows_trans [OF one(5)]) blast
  with one IH show ?case by (cases x) (auto simp: xs List.map_filter_def split: if_splits)
qed

lemma row_counts:
  "list_all (\<lambda>row. dr_repaired row \<longleftrightarrow> repair \<and> dr_target_repo_id row \<noteq> None) rows \<Longrightarrow>
     length (filter dr_repaired rows) + (if repair then length (filter (\<lambda>r. dr_target_repo_id r = None) rows) else length rows) =
       length rows"
  by (induction rows) auto

lemma dangling_listed [simp]: "dangling c (load_listed d r) = dangling c r"
  by (simp add: dangling_def load_listed_def row_to_task_def)

lemma doctor_run:
  assumes "rb_doctor env wired s repair ov w = (Inr sm, w')"
  obtains i xs where "env_parse_uuid env s = Some i" "\<forall>f. ov = Some f \<longrightarrow> (\<exists>ro. get_origin f (wd_cat w) = Inr ro)"
    "collect (doctor_task env repair ov) (workspace_tasks i None w) w = (Inr xs, w')"
    "sm = \<lparr>ds_affected = length (List.map_filter id xs), ds_repaired = length (filter dr_repaired (List.map_filter id xs)),
      ds_unresolved = length (filter (\<lambda>r. dr_target_repo_id r = None) (List.map_filter id xs)), ds_rows = List.map_filter id xs\<rparr>"
proof -
  from assms show thesis
    unfolding rb_doctor_def Let_def
    apply (cases wired)
     apply (simp_all add: run_simps del: prim_simps id_apply)
    apply (elim exE conjE)
    apply (rule that)
       apply assumption
    by (cases ov; auto simp: run_simps)+
qed

text \<open>C10 The doctor heals exactly what is broken: it lists the tasks of the workspace whose filing repository
  is gone, in order, and no other; without repair it writes nothing; a repair points a listed task at an existing
  repository or, where no target can be resolved, reports it unresolved and leaves it, and no row
  of another task changes.\<close>

theorem doctor_heals:
  assumes "cat_wf (wd_cat w)" "db_wf (wd_db w)" "rb_doctor env wired s repair ov w = (Inr sm, w')"
  shows "\<exists>i. env_parse_uuid env s = Some i \<and> wd_cat w' = wd_cat w \<and>
    map dr_task_id (ds_rows sm) = map t_id (filter (dangling (wd_cat w)) (workspace_tasks i None w)) \<and>
    ds_affected sm = length (ds_rows sm) \<and> ds_repaired sm + (if repair then ds_unresolved sm else ds_affected sm) = ds_affected sm \<and>
    (\<not> repair \<longrightarrow> wd_db w' = wd_db w) \<and>
    (\<forall>t \<in> set (db_tasks (wd_db w)). t_workspace_id t \<noteq> i \<or> \<not> dangling (wd_cat w) t \<longrightarrow> t \<in> set (db_tasks (wd_db w'))) \<and>
    (repair \<longrightarrow> (\<forall>t \<in> set (db_tasks (wd_db w')). t_workspace_id t = i \<and> dangling (wd_cat w) t \<longrightarrow>
       (\<exists>row \<in> set (ds_rows sm). dr_task_id row = t_id t \<and> dr_target_repo_id row = None)))"
proof -
  let ?c = "wd_cat w" and ?Q = "\<lambda>r. \<not> dangling (wd_cat w) r"
  obtain i xs where i: "env_parse_uuid env s = Some i"
    and ov: "\<forall>f. ov = Some f \<longrightarrow> (\<exists>ro. get_origin f ?c = Inr ro)"
    and run: "collect (doctor_task env repair ov) (workspace_tasks i None w) w = (Inr xs, w')"
    and sm: "sm = \<lparr>ds_affected = length (List.map_filter id xs), ds_repaired = length (filter dr_repaired (List.map_filter id xs)),
      ds_unresolved = length (filter (\<lambda>r. dr_target_repo_id r = None) (List.map_filter id xs)), ds_rows = List.map_filter id xs\<rparr>"
    by (rule doctor_run [OF assms(3)])
  let ?rows = "List.map_filter id xs" and ?ts = "workspace_tasks i None w"
  let ?I = "dr_task_id ` set (filter dr_repaired ?rows)"
  have ids: "distinct (map t_id (db_tasks (wd_db w)))" using assms(2) by (simp add: db_wf_def)
  have "f \<in> ro_id ` set (cat_origins ?c)" if forced: "ov = Some f" for f
  proof -
    from ov forced obtain ro where "get_origin f ?c = Inr ro" by auto
    then show ?thesis by (rule get_origin_known)
  qed
  note result = doctor_each [OF assms(1) this refl ids workspace_tasks_listed [OF ids] workspace_tasks_distinct [OF ids] run]
  note all = result [THEN conjunct1] result [THEN conjunct2, THEN conjunct1] result [THEN conjunct2, THEN conjunct2, THEN conjunct1]
    result [THEN conjunct2, THEN conjunct2, THEN conjunct2, THEN conjunct1]
    result [THEN conjunct2, THEN conjunct2, THEN conjunct2, THEN conjunct2]
  have listing: "set ?ts = load_listed (wd_db w) ` {r \<in> set (db_tasks (wd_db w)). t_workspace_id r = i}"
    by (simp add: set_workspace_tasks if_given_def)
  have member: "t_id t \<in> dr_task_id ` set ?rows \<longleftrightarrow> t_workspace_id t = i \<and> dangling ?c t"
    if "t \<in> set (db_tasks (wd_db w))" for t
  proof -
    have "dr_task_id ` set ?rows = t_id ` set (filter (dangling ?c) ?ts)" using arg_cong [OF all(2), of set] by simp
    also have "\<dots> = t_id ` {r \<in> set (db_tasks (wd_db w)). t_workspace_id r = i \<and> dangling ?c r}"
      unfolding set_filter listing Compr_image_eq by (simp add: image_image conj_assoc)
    finally show ?thesis using distinct_map_key_unique [OF ids that] that by auto
  qed
  have kept: "t \<in> set (db_tasks (wd_db w'))"
    if t: "t \<in> set (db_tasks (wd_db w))" "t_workspace_id t \<noteq> i \<or> \<not> dangling ?c t" for t
  proof -
    have "t_id t \<notin> ?I" using member [OF t(1)] t(2) by auto
    with changed_rows_members(2) [OF all(5) t(1)] show ?thesis by (auto simp: changed_row_def)
  qed
  have unresolved: "\<exists>row \<in> set ?rows. dr_task_id row = t_id t \<and> dr_target_repo_id row = None"
    if t: "t \<in> set (db_tasks (wd_db w'))" "t_workspace_id t = i" "dangling ?c t" and repair for t
  proof -
    obtain r where r: "r \<in> set (db_tasks (wd_db w))" "changed_row ?Q ?I r t"
      using changed_rows_members(1) [OF all(5) t(1)] by blast
    with t(3) have "t_id t \<notin> ?I" "r = t" by (auto simp: changed_row_def split: if_splits)
    with member [OF r(1)] t(2,3) obtain row where row: "row \<in> set ?rows" "t_id t = dr_task_id row" by auto
    with \<open>t_id t \<notin> ?I\<close> have "\<not> dr_repaired row" by (auto simp: image_iff)
    with row all(4) \<open>repair\<close> show ?thesis by (auto simp: list_all_iff)
  qed
  have "length (filter dr_repaired ?rows) + (if repair then length (filter (\<lambda>r. dr_target_repo_id r = None) ?rows) else length ?rows) = length ?rows"
    by (rule row_counts [OF all(4)])
  with i all(1-3) kept unresolved show ?thesis by (intro exI [of _ i]) (auto simp: sm)
qed

theorem doctor_heals_witness:
  "\<exists>sm w'. rb_doctor team_env True [] False None team_world = (Inr sm, w') \<and> map dr_task_id (ds_rows sm) = [5]"
proof -
  have row: "t_filing_repo_id (load_listed team_db team_task) = Some 99" "t_repo_id (load_listed team_db team_task) = Some 4"
    "t_id (load_listed team_db team_task) = 5"
    using team_world_ok(4,7) by (simp_all add: load_listed_def row_to_task_def) (simp_all add: team_task_def)
  have cat: "\<exists>ws. get_workspace 3 team_catalog = Inr ws" "env_parse_uuid team_env [] = Some 3" "wd_cat team_world = team_catalog"
    "\<exists>msg. get_origin 99 team_catalog = Inl (NotFound msg)" "\<exists>v. get_binding 4 team_catalog = Inr v"
    by (simp_all add: get_workspace_def team_catalog_def workspace_new_def team_env_def team_world_def get_origin_def get_binding_def)
  then have "\<exists>sm w'. rb_doctor team_env True [] False None team_world = (Inr sm, w')"
    using row by (auto simp: rb_doctor_def Let_def bnd_ok prims_ok team_listing doctor_task_def resolve_doctor_target_def) blast
  then obtain sm w' where run: "rb_doctor team_env True [] False None team_world = (Inr sm, w')" by blast
  obtain i where "env_parse_uuid team_env [] = Some i"
    "map dr_task_id (ds_rows sm) = map t_id (filter (dangling (wd_cat team_world)) (workspace_tasks i None team_world))"
    using doctor_heals [OF team_world_ok(2,1) run] by blast
  then have "map dr_task_id (ds_rows sm) = [5]"
    using cat(2) row by (simp add: team_listing) (simp add: dangling_def team_world_def team_catalog_def team_task_def)
  with run show ?thesis by (intro exI [of _ sm] exI [of _ w']) simp
qed

section \<open>Resolving a handle\<close>

text \<open>A binding with its origin, in a workspace of the given status.\<close>

definition bound :: "catalog \<Rightarrow> binding \<Rightarrow> workspace_status \<Rightarrow> bool" where
  "bound c v st \<longleftrightarrow> fst v \<in> set (cat_instances c) \<and> snd v \<in> set (cat_origins c) \<and> ro_id (snd v) = ri_origin_id (fst v) \<and>
     (\<exists>ws \<in> set (cat_workspaces c). w_id ws = ri_workspace_id (fst v) \<and> w_status ws = st)"

definition prefixed :: "rstring \<Rightarrow> binding \<Rightarrow> bool" where
  "prefixed q v \<longleftrightarrow> q \<noteq> [] \<and> ro_prefix (snd v) = q"

lemma map_filter_member: "y \<in> set (List.map_filter f xs) \<longleftrightarrow> (\<exists>x \<in> set xs. f x = Some y)"
  by (induction xs) (auto simp: List.map_filter_simps split: option.splits)

lemma set_list_by_workspace:
  assumes "cat_wf c"
  shows "v \<in> set (list_by_workspace i c) \<longleftrightarrow> fst v \<in> set (cat_instances c) \<and> ri_workspace_id (fst v) = i \<and>
    snd v \<in> set (cat_origins c) \<and> ro_id (snd v) = ri_origin_id (fst v)"
proof -
  have "List.find (\<lambda>x. ro_id x = k) (cat_origins c) = Some y \<longleftrightarrow> y \<in> set (cat_origins c) \<and> ro_id y = k" for k y
    using assms find_distinct_key [of ro_id "cat_origins c"] by (auto simp: cat_wf_def dest: find_Some_set)
  then show ?thesis
    by (cases v) (auto simp: list_by_workspace_def map_filter_member)
qed

lemma set_live_matches:
  assumes "cat_wf c"
  shows "v \<in> set (live_matches pred ok c) \<longleftrightarrow> (\<exists>st. bound c v st \<and> ok st \<and> pred v)"
  by (auto simp: live_matches_def list_workspaces_def set_list_by_workspace [OF assms] bound_def split: if_splits)
    (blast, metis (mono_tags, lifting) IntI mem_Collect_eq)

text \<open>A binding answers a lookup unless its workspace is deleted; the answers that count are the open ones,
  and the archived ones only when there is none; what the lookup then says.\<close>

definition answers :: "catalog \<Rightarrow> (binding \<Rightarrow> bool) \<Rightarrow> binding \<Rightarrow> workspace_status \<Rightarrow> bool" where
  "answers c pred v st \<longleftrightarrow> bound c v st \<and> st \<noteq> WDeleted \<and> pred v"

definition best_answers :: "catalog \<Rightarrow> (binding \<Rightarrow> bool) \<Rightarrow> binding set" where
  "best_answers c pred =
     (if \<exists>v st. answers c pred v st \<and> st \<noteq> WArchived then {v. \<exists>st. answers c pred v st \<and> st \<noteq> WArchived}
      else {v. answers c pred v WArchived})"

definition candidate :: "binding \<Rightarrow> ambiguous_candidate" where
  "candidate v = \<lparr>amb_id = ri_id (fst v), amb_workspace_id = ri_workspace_id (fst v),
     amb_canonical_url = ri_canonical_url (fst v), amb_name = ro_name (snd v)\<rparr>"

definition lookup_spec :: "rstring \<Rightarrow> (binding \<Rightarrow> bool) \<Rightarrow> catalog \<Rightarrow> binding wsr \<Rightarrow> bool" where
  "lookup_spec q pred c r \<longleftrightarrow> (case r of
     Inr v \<Rightarrow> best_answers c pred = {v}
   | Inl e \<Rightarrow> e = BindingNotFound q \<and> best_answers c pred = {} \<or>
       (\<exists>cands. e = AmbiguousHandle q cands \<and> 2 \<le> card (best_answers c pred) \<and>
          distinct cands \<and> set cands = candidate ` best_answers c pred))"

lemma distinct_concat_map:
  assumes "distinct xs" "\<And>x. x \<in> set xs \<Longrightarrow> distinct (f x)"
    "\<And>x y. x \<in> set xs \<Longrightarrow> y \<in> set xs \<Longrightarrow> x \<noteq> y \<Longrightarrow> set (f x) \<inter> set (f y) = {}"
  shows "distinct (concat (map f xs))"
  using assms
proof (induction xs)
  case (Cons x xs)
  have "set (f x) \<inter> set (f y) = {}" if "y \<in> set xs" for y
    using Cons.prems(1) that by (intro Cons.prems(3)) auto
  with Cons show ?case by auto
qed simp

lemma distinct_list_by_workspace:
  assumes "cat_wf c"
  shows "distinct (list_by_workspace i c)"
proof -
  have members: "distinct (List.map_filter (\<lambda>r. map_option (Pair r) (g r)) rows)" if "distinct rows" for g :: "repo_instance \<Rightarrow> repo_origin option" and rows
    using that by (induction rows) (auto simp: List.map_filter_simps map_filter_member split: option.split)
  show ?thesis
    unfolding list_by_workspace_def by (rule members) (use assms in \<open>simp add: cat_wf_def distinct_map\<close>)
qed

lemma distinct_live_matches:
  assumes "cat_wf c"
  shows "distinct (live_matches pred ok c)"
  unfolding live_matches_def
proof (rule distinct_concat_map)
  show "distinct (list_workspaces True c)"
    using assms by (simp add: list_workspaces_def cat_wf_def distinct_map)
  fix x y assume "x \<in> set (list_workspaces True c)" "y \<in> set (list_workspaces True c)" "x \<noteq> y"
  then have "w_id x \<noteq> w_id y"
    using assms distinct_map_key_unique [of w_id "cat_workspaces c" x y] by (auto simp: list_workspaces_def cat_wf_def)
  then show "set (if ok (w_status x) then filter pred (list_by_workspace (w_id x) c) else []) \<inter>
      set (if ok (w_status y) then filter pred (list_by_workspace (w_id y) c) else []) = {}"
    by (auto simp: set_list_by_workspace [OF assms])
qed (use distinct_list_by_workspace [OF assms] in simp)

lemma candidate_inj: "cat_wf c \<Longrightarrow> inj_on candidate {v. \<exists>st. bound c v st}"
proof (rule inj_onI)
  fix u v assume c: "cat_wf c" and uv: "u \<in> {v. \<exists>st. bound c v st}" "v \<in> {v. \<exists>st. bound c v st}" "candidate u = candidate v"
  then have "fst u = fst v"
    using distinct_map_key_unique [of ri_id "cat_instances c" "fst u" "fst v"] by (auto simp: cat_wf_def bound_def candidate_def)
  moreover from this have "snd u = snd v"
    using c uv distinct_map_key_unique [of ro_id "cat_origins c" "snd u" "snd v"] by (auto simp: cat_wf_def bound_def)
  ultimately show "u = v" by (simp add: prod_eq_iff)
qed

lemma resolve_matching_spec:
  assumes "cat_wf c"
  shows "lookup_spec q pred c (resolve_matching q pred c)"
proof -
  let ?live = "live_matches pred (\<lambda>s. s \<noteq> WDeleted \<and> s \<noteq> WArchived) c" and ?old = "live_matches pred (\<lambda>s. s = WArchived) c"
  define vs where "vs = (if ?live = [] then ?old else ?live)"
  note mem = set_live_matches [OF assms]
  have live: "set ?live = {v. \<exists>st. answers c pred v st \<and> st \<noteq> WArchived}"
    by (auto simp: mem answers_def)
  have old: "set ?old = {v. answers c pred v WArchived}" by (auto simp: mem answers_def)
  have vs: "set vs = best_answers c pred"
  proof (cases "?live = []")
    case True
    then have "\<not> (\<exists>v st. answers c pred v st \<and> st \<noteq> WArchived)" using live by auto
    with True old show ?thesis unfolding best_answers_def vs_def by (simp only: if_False if_True simp_thms)
  next
    case False
    then obtain v where "v \<in> set ?live" by (cases ?live) auto
    then have "\<exists>v st. answers c pred v st \<and> st \<noteq> WArchived" unfolding live by blast
    with False live show ?thesis by (simp add: vs_def best_answers_def)
  qed
  have dist: "distinct vs" using distinct_live_matches [OF assms] by (simp add: vs_def)
  have "set vs \<subseteq> {v. \<exists>st. bound c v st}" unfolding vs by (auto simp: best_answers_def answers_def split: if_splits)
  then have inj: "inj_on candidate (set vs)" using candidate_inj [OF assms] inj_on_subset by blast
  have run: "resolve_matching q pred c = (case vs of [] \<Rightarrow> Inl (BindingNotFound q) | [v] \<Rightarrow> Inr v
      | _ \<Rightarrow> Inl (AmbiguousHandle q (map candidate vs)))"
    by (simp add: resolve_matching_def Let_def vs_def candidate_def [abs_def] split: list.split)
  consider "vs = []" | v where "vs = [v]" | u v rest where "vs = u # v # rest"
    by (metis list.exhaust)
  then show ?thesis
  proof cases
    case 1
    with vs run show ?thesis by (simp add: lookup_spec_def)
  next
    case 2
    with vs run show ?thesis by (simp add: lookup_spec_def)
  next
    case 3
    have "2 \<le> card (set vs)" using 3 distinct_card [OF dist] by simp
    moreover have "distinct (map candidate vs)" using dist inj by (simp add: distinct_map)
    ultimately show ?thesis using run 3 by (simp add: lookup_spec_def vs [symmetric])
  qed
qed

lemma lookup_spec_cong:
  assumes "\<And>v st. bound c v st \<Longrightarrow> P v \<longleftrightarrow> P' v" "lookup_spec q P c r"
  shows "lookup_spec q P' c r"
proof -
  have same: "answers c P = answers c P'" using assms(1) by (auto simp: answers_def fun_eq_iff)
  from assms(2) show ?thesis unfolding lookup_spec_def best_answers_def same .
qed

lemma lookup_spec_hit:
  assumes "lookup_spec q P c r"
  shows "(\<exists>x. r = Inl (BindingNotFound x)) \<longleftrightarrow> \<not> (\<exists>v st. answers c P v st)"
proof -
  have "best_answers c P = {} \<longleftrightarrow> \<not> (\<exists>v st. answers c P v st)" 
    unfolding best_answers_def by (cases "\<exists>v st. answers c P v st \<and> st \<noteq> WArchived") (simp only: if_True, blast, simp only: if_False, blast)
  moreover have "(\<exists>x. r = Inl (BindingNotFound x)) \<longleftrightarrow> best_answers c P = {}"
    using assms by (auto simp: lookup_spec_def split: sum.splits)
  ultimately show ?thesis by simp
qed

lemma prefix_key:
  assumes "cat_wf c" "x \<in> set (cat_origins c)" "y \<in> set (cat_origins c)"
  shows "ro_prefix x = ro_prefix y \<Longrightarrow> ro_prefix x \<noteq> [] \<Longrightarrow> x = y"
proof -
  have "distinct (map ro_prefix (filter (\<lambda>r. ro_prefix r \<noteq> []) (cat_origins c)))"
    using assms(1) by (simp add: cat_wf_def filter_map o_def)
  then show "ro_prefix x = ro_prefix y \<Longrightarrow> ro_prefix x \<noteq> [] \<Longrightarrow> x = y"
    using assms(2,3) distinct_map_key_unique [of ro_prefix _ x y] by fastforce
qed

text \<open>C22 A handle resolves to the binding it names or not at all.  A prefix wins over names and aliases as
  long as its origin is bound in a workspace that is not deleted.  On either level the matches that count are
  those of the open workspaces or, exactly when these have none, those of the archived ones: a single one
  is the answer, so an archived binding never makes an open one ambiguous; two or more are reported
  as ambiguous, and the candidates are exactly they, each once; none is reported as not found.  A deleted
  workspace never answers.\<close>

theorem handle_resolution:
  assumes "cat_wf c" "env_parse_uuid env q = None"
  shows "if \<exists>v st. answers c (prefixed q) v st
    then lookup_spec q (prefixed q) c (rb_resolve env q c)
    else lookup_spec q (named q) c (rb_resolve env q c)"
proof -
  have run: "rb_resolve env q c = resolve_by_handle q c" using assms(2) by (simp add: rb_resolve_def)
  note byname = resolve_matching_spec [OF assms(1), of q "named q"]
  show ?thesis
  proof (cases "find_origin_by_prefix q c")
    case None
    then have "\<not> prefixed q v" if "bound c v st" for v st
      using that by (auto simp: find_origin_by_prefix_def find_None_iff bound_def prefixed_def split: if_splits)
    with None byname show ?thesis by (auto simp: run resolve_by_handle_def answers_def)
  next
    case (Some ro)
    then have ro: "ro \<in> set (cat_origins c)" "ro_prefix ro = q" "q \<noteq> []"
      by (auto simp: find_origin_by_prefix_def split: if_splits dest: find_Some_set)
    let ?P = "\<lambda>v. ro_id (snd v) = ro_id ro"
    have same: "?P v \<longleftrightarrow> prefixed q v" if "bound c v st" for v st
    proof -
      have v: "snd v \<in> set (cat_origins c)" using that by (simp add: bound_def)
      have "ro_id (snd v) = ro_id ro \<longleftrightarrow> snd v = ro"
        using assms(1) v ro(1) distinct_map_key_unique [of ro_id "cat_origins c"] by (auto simp: cat_wf_def)
      moreover have "ro_prefix (snd v) = q \<longleftrightarrow> snd v = ro" using prefix_key [OF assms(1) v ro(1)] ro(2,3) by auto
      ultimately show ?thesis using ro(3) by (simp add: prefixed_def)
    qed
    have byprefix: "lookup_spec q (prefixed q) c (resolve_matching q ?P c)"
      by (rule lookup_spec_cong [OF same resolve_matching_spec [OF assms(1)]])
    show ?thesis
    proof (cases "\<exists>x. resolve_matching q ?P c = Inl (BindingNotFound x)")
      case True
      with lookup_spec_hit [OF byprefix] have "\<not> (\<exists>v st. answers c (prefixed q) v st)" by simp
      with True Some byname show ?thesis by (auto simp: run resolve_by_handle_def)
    next
      case False
      then have "resolve_by_handle q c = resolve_matching q ?P c"
        using Some by (auto simp: resolve_by_handle_def split: sum.split ws_error.split)
      moreover have "\<exists>v st. answers c (prefixed q) v st"
        using lookup_spec_hit [OF byprefix] False by simp
      ultimately show ?thesis using byprefix by (simp add: run)
    qed
  qed
qed

theorem handle_resolution_witness:
  "lookup_spec (lit ''rl'') (prefixed (lit ''rl'')) team_catalog (rb_resolve idle_env (lit ''rl'') team_catalog)"
proof -
  let ?v = "(hd (cat_instances team_catalog), hd (cat_origins team_catalog))"
  have "answers team_catalog (prefixed (lit ''rl'')) ?v WCreated"
    by (simp add: answers_def bound_def prefixed_def team_catalog_def workspace_new_def lit_def)
  then have "\<exists>v st. answers team_catalog (prefixed (lit ''rl'')) v st" by blast
  moreover have "cat_wf team_catalog" using team_world_ok(2) by (simp add: team_world_def)
  moreover have "env_parse_uuid idle_env (lit ''rl'') = None" by (simp add: idle_env_def)
  ultimately show ?thesis using handle_resolution [of team_catalog idle_env "lit ''rl''"] by simp
qed

end
