(* ===== verification/Spec2Isabelle.thy ===== *)
theory Spec2Isabelle
  imports ServiceProps PullProps ChunkProps FoldProps SearchProps DoctorProps
begin

text \<open>
  A verification of the core of repo-link.

  \<^bold>\<open>The program.\<close>  repo-link keeps tasks in a local SQLite store and mirrors them to GitHub issues and
  to items of a GitHub Projects board.  An edit is a command of the task service
  (\<open>src/crates/application-task\<close>): it loads the task, calls a method of the \<open>Task\<close> aggregate
  (\<open>src/crates/domain-task\<close>), and commits, in one transaction of \<open>src/crates/infra-sqlite\<close>, the new
  row, a numbered snapshot of it, and one outbox entry for each outbound mutation the edit owes
  (\<open>src/crates/application-sync/src/enqueue.rs\<close> plans them).  The outbox drainer
  (\<open>src/crates/application-sync/src/drainer.rs\<close>) later claims the entries one by one, in FIFO order
  per task, calls the remote, stamps the task with what was confirmed, and retries or dead-letters
  the entries that failed.  A task is dirty when its mirrored content differs from its baseline, the
  snapshot last known to agree with the remote.

  \<^bold>\<open>Conventions.\<close>  A Rust string is the list of its code points; an id is a number; a timestamp is a
  number of nanoseconds; \<open>Result<T, E>\<close> is the sum \<open>E + T\<close> with the source's errors, texts included,
  as values; a struct is a record whose fields carry a short prefix, an enum is a datatype.
  Machine integers are words where the code computes with their width (the accumulator of the hash
  minter, the limits of a listing).  A service runs in a state-and-error monad over a \<open>world\<close> of the
  tables, the catalog (workspaces, boards, bindings, issue types) and the remote calls made so far.
  What is not in the repository is an argument, mostly through the record \<open>env\<close>: the clock, the id
  generator, random draws, UUID parsing, the iteration order of a hash map, and the answers of the
  remote providers.  A theorem therefore holds for every clock, every remote, and so on, unless
  it names what it relies on.

  \<^bold>\<open>Theories\<close>, in the order of the code:

  \<^item> \<open>Prelude\<close>: strings, options, association lists and their lemmas.  \<open>Core\<close>
    (\<open>domain-core\<close>): errors, project ids, the clock; the locales \<open>aggregate\<close> and \<open>guarded_aggregate\<close>,
    the contract of the \<open>Aggregate\<close> trait, interpreted for tasks, boards, origins, instances and
    workspaces in their theories.
  \<^item> \<open>TaskEnums\<close>, \<open>TaskDomain\<close>, \<open>TaskSync\<close> (\<open>domain-task\<close>: \<open>enums.rs\<close>, \<open>relation.rs\<close>,
    \<open>snapshot.rs\<close>, \<open>task.rs\<close>): every method of the \<open>Task\<close> aggregate; well-formedness over any history
    of calls, refinement of the abstract sync-state machine, which fields a confirmation re-bases,
    what metadata can never dirty.  \<open>TaskHash\<close> (\<open>hash.rs\<close>): the minter with its 64-bit accumulator
    against the plain reading of a bit stream five bits at a time.
  \<^item> \<open>ProjectBoard\<close> (\<open>domain-project\<close>), \<open>Repositories\<close> (\<open>domain-repo\<close> and the prefix allocation of
    \<open>application-workspace/src/repo_binding_service.rs\<close>), \<open>Workspaces\<close> (\<open>domain-workspace\<close>).
  \<^item> \<open>SyncTypes\<close> (\<open>domain-sync\<close>, the structs of \<open>ports\<close>, \<open>application-sync/src/lib.rs\<close> and
    \<open>summary.rs\<close>): outbox entries, the reconciliation policy, the filing chain, inbound and outbound
    projection of the mirrored fields.
  \<^item> \<open>OutboxStore\<close> (\<open>infra-sqlite/src/outbox_repo.rs\<close>): the queue statements over the rows in
    \<open>rowid\<close> order; the contract of the port as the locale \<open>outbox_queue\<close>, interpreted on them.
  \<^item> \<open>TaskStore\<close>, \<open>StoreHistory\<close> (\<open>infra-sqlite/src/task_repo.rs\<close>, \<open>task_snapshot_repo.rs\<close>): the
    tables, the transaction that writes a task with its snapshot, relations, remote mapping and
    outbox entries, the targeted writes; the contract \<open>task_repository\<close> interpreted on them;
    integrity and append-only history over any sequence of statements.  \<open>TaskQuery\<close>: the listing
    with its filters, orders and pages.
  \<^item> \<open>Enqueue\<close> (\<open>application-sync/src/enqueue.rs\<close>): which mutations an edit owes.
  \<^item> \<open>SyncMonad\<close>, \<open>Drainer\<close>, \<open>DrainLoop\<close>, \<open>DrainEffects\<close> (\<open>application-sync/src/drainer.rs\<close>): the
    monad, every arm of the drainer, the loop, and what applying an entry does.
  \<^item> \<open>RelationGraph\<close>, \<open>TaskDto\<close>, \<open>TaskService\<close> (\<open>application-task\<close>, the command structs of
    \<open>dto-shared/src/task.rs\<close>): the cycle guard, parsing and rendering, every public command of
    \<open>TaskService\<close>.  \<open>RelationCommands\<close>, \<open>ServiceStore\<close>, \<open>ServiceProps\<close>: a weakest-precondition
    calculus over the monad (\<open>wp\<close>, with its equations collected in \<open>wp_simps\<close>) and the theorems
    about the commands.
  \<^item> \<open>SyncService\<close> (\<open>application-sync/src/service.rs\<close>, \<open>list_remote.rs\<close>, \<open>summary.rs\<close>): every public command
    of the sync service.  \<open>Poller\<close> (\<open>poller.rs\<close>): one pass of the board poll.
  \<^item> \<open>StoreGrowth\<close>: the locale \<open>effect\<close> of composable relations between worlds, interpreted for store growth,
    and that every program of the four services only lets the store grow; sessions of task-service requests.  \<open>SyncEffects\<close>
    (promote), \<open>PollEffects\<close> (a second interpretation of \<open>effect\<close>), \<open>SyncOutcomes\<close> (push),
    \<open>PullOutcomes\<close> and \<open>PullProps\<close> (pull, transfer, link): the theorems about the sync service.
  \<^item> \<open>SearchText\<close>, \<open>SearchService\<close> (\<open>application-search\<close>: \<open>chunker.rs\<close>, \<open>fold.rs\<close>, \<open>query_mode.rs\<close>;
    \<open>lane.rs\<close>, \<open>service.rs\<close>): cutting tasks into index chunks, the case-folded literal search over raw
    text, query modes, rank fusion, the search and rebuild handlers over the ports of
    \<open>ports/src/search.rs\<close>.  \<open>ChunkProps\<close>, \<open>FoldProps\<close>, \<open>SearchProps\<close>: the theorems about them.
  \<^item> \<open>CatalogStore\<close> (\<open>infra-sqlite/src/workspace_repo.rs\<close>, \<open>repo_binding_repo.rs\<close>): the statements over the
    catalog rows and their integrity.  \<open>WorkspaceService\<close> (\<open>application-workspace\<close>): every public operation of
    \<open>WorkspaceService\<close> and \<open>RepoBindingService\<close>.  \<open>WorkspaceProps\<close> (a third interpretation of \<open>effect\<close>),
    \<open>BoardProps\<close>, \<open>DoctorProps\<close>: what their commands keep, attaching and detaching a board, the doctor, handles.
    This theory: the system as a whole.

  \<^bold>\<open>What is shown.\<close>  The domain keeps its invariants under every sequence of calls.  The store keeps
  its integrity constraints and loses no history; a saved task is read back with the columns its caller owns
  as saved and the others kept.  The queue has at most one entry of a task in flight, and a claim hands
  out the first eligible entry, so that each task is served in order.
  A drain pass ends whatever the clock, the delays and the remote do; it resolves every entry it
  claims and stops when nothing is eligible, and an issue update it stamps leaves a task that waited for it
  in step with the remote.  Creating a draft
  item is done once even if the entry is replayed.  Every sequence of commands of the task service keeps the store's integrity
  and a reciprocal relation graph without cycles in either family; the cycle guard answers exactly whether an edge
  would close a cycle; a relation command changes exactly what was asked; a lifecycle verb stores the
  task with exactly the mutations it owes, or nothing; minting terminates with a unique hash or
  reports exhaustion; what is displayed can be typed back; a rollback restores the chosen version.
  A promote files at most one issue and never without a durable staged task, and its retry adopts the
  issue of a crashed one; a push converges and does not post a comment twice; a pull loses no
  local content; a transfer happens only behind all its guards and stores exactly the issue's new place; a poll only
  leaves hints, and its watermark is exactly the one that loses no recent change.
  Search drops no text when it cuts chunks, finds exactly the occurrences of the folded query and shows
  them, quotes every query safely, orders literal matches ahead where the mode asks for it, gives a
  reason for each missing lane, and neither ranks on partial vectors nor writes a read-only sidecar.
  Attaching a project queues the board additions the workspace owes, once; detaching it scrubs them and nothing else; the doctor
  repairs exactly the lost filing repositories it can resolve; a handle resolves uniquely or reports why not.
  Over any interleaving of whole runs of the services, the drainer and the poller, store and catalog keep
  their integrity, no history is lost, and only workspace commands touch the catalog.

  \<^bold>\<open>Bounds and fuel.\<close>  No definition takes fuel.  Loops are structural recursions or functions with a
  termination proof: the prefix allocation ends by its own cap, minting after 8 draws at each of
  the 14 lengths, the graph walk by the visited set.  The drain loop is a \<open>partial_function\<close> into
  \<open>option\<close>, and that it always returns is a theorem (a measure on the remaining attempts, with
  the follow-ups an entry may append paid for in advance).  The vector fill loop ends by its own batch
  cap.

  \<^bold>\<open>Not modelled.\<close>  Process supervision, timers and signals (\<open>app-daemon\<close>), command-line parsing and
  rendering (\<open>app-cli\<close>), configuration files, embedding inference, git and HTTP adapters: I/O or
  third-party code behind the ports.  Concurrency inside SQLite is not modelled: a transaction is one
  atomic step, and interleaving is covered by theorems over arbitrary sequences of statements.
  Constraints of the database that only a damaged store, a colliding id or a repeated remote id can violate are
  left to the callers: the foreign keys of a task on its workspace and repository instance and of an outbox entry
  on its task, and the keys of \<open>task_comments\<close> (primary key, task, one row for a remote id of a task).
  \<open>write_task_in_tx\<close>, \<open>enqueue_entry\<close>, \<open>replace_comments\<close>, \<open>mark_comments_pushed\<close> and \<open>add_pending_comment\<close>
  therefore succeed in a few states in which the statement of the code would be refused; the tasks' own
  uniqueness constraints, on which the theorems about the store rest, are checked and their errors modelled.
  Log output and the serialised form of payloads are left out.  Fused search scores are \<open>f64\<close> in the
  code and any linearly ordered type here; the sidecar index of \<open>infra-sqlite\<close> and the embedding
  model are arguments of the search, as are the file system probe and the simplification of paths of the
  workspace services, whose log lines are left out.  Not covered: the service of \<open>application-project\<close>, which
  writes the projects of the catalog, and the read models of \<open>application-query\<close>.
\<close>

section \<open>The system as a whole\<close>

lemma find_prefix: "List.find P xs = Some x \<Longrightarrow> prefix xs ys \<Longrightarrow> List.find P ys = Some x"
  by (induction xs arbitrary: ys) (auto elim!: prefixE split: if_splits)

text \<open>C1 Whatever the processes of the system run one after another (commands of the task, sync, workspace and
  binding services, drain passes, the requeue at start-up, board polls, each under its own clock and remote
  answers, successful or not), store and catalog keep their integrity constraints; no recorded version of a task
  is ever lost or changed: the history of each task only grows, and a version that can be read before the
  runs reads the same after them; no workspace and no repository origin disappears; and only workspace and binding commands
  touch the catalog.\<close>

theorem system_keeps_store:
  assumes "db_wf (wd_db w)" "cat_wf (wd_cat w)"
  shows "db_wf (wd_db (fold run_process runs w)) \<and> cat_wf (wd_cat (fold run_process runs w)) \<and>
    prefix (list_snapshots i (wd_db w)) (list_snapshots i (wd_db (fold run_process runs w))) \<and>
    (\<forall>v s. get_snapshot i v (wd_db w) = Inr s \<longrightarrow> get_snapshot i v (wd_db (fold run_process runs w)) = Inr s) \<and>
    w_id ` set (cat_workspaces (wd_cat w)) \<subseteq> w_id ` set (cat_workspaces (wd_cat (fold run_process runs w))) \<and>
    ro_id ` set (cat_origins (wd_cat w)) \<subseteq> ro_id ` set (cat_origins (wd_cat (fold run_process runs w))) \<and>
    (list_all is_service_run runs \<longrightarrow> wd_cat (fold run_process runs w) = wd_cat w)"
proof (intro conjI allI impI)
  let ?d = "wd_db w" and ?d' = "wd_db (fold run_process runs w)"
  have wf: "db_wf ?d'" and log: "prefix (task_log i ?d) (task_log i ?d')" and cat: "cat_grows (wd_cat w) (wd_cat (fold run_process runs w))"
    using run_processes_upkeep [of w runs] assms by (auto simp: upkeep_def grows_def)
  from wf show "db_wf ?d'" .
  from cat assms(2) show "cat_wf (wd_cat (fold run_process runs w))"
    "w_id ` set (cat_workspaces (wd_cat w)) \<subseteq> w_id ` set (cat_workspaces (wd_cat (fold run_process runs w)))"
    "ro_id ` set (cat_origins (wd_cat w)) \<subseteq> ro_id ` set (cat_origins (wd_cat (fold run_process runs w)))"
    by (simp_all add: cat_grows_def)
  have "dense_versions ?d" "dense_versions ?d'" using assms wf by (simp_all add: db_wf_def)
  from list_snapshots_dense(1) [OF this(1)] list_snapshots_dense(1) [OF this(2)] log
  show "prefix (list_snapshots i ?d) (list_snapshots i ?d')" by (simp add: map_mono_prefix)
  fix v s assume "get_snapshot i v ?d = Inr s"
  with find_prefix [OF _ log, of "\<lambda>s. s_version s = v"] show "get_snapshot i v ?d' = Inr s"
    by (auto simp: get_snapshot_def find_conj_filter simp flip: task_log_def split: option.splits)
qed (rule run_processes_catalog)

theorem system_keeps_store_witness:
  "cat_wf (wd_cat (fold run_process [(team_env, WorkspaceRun fully_wired \<lparr>path_simplified = id, path_exists = \<lambda>_. Inr True\<rparr> (WqSetProject [] (Some (lit ''PVT_1'')))),
     (sync_env, ServiceRun (SyncRun (SqPull [] True))), (idle_env, ServiceRun (DrainRun backoff_standard)),
     (idle_env, ServiceRun RequeueRun)] team_world))"
  using system_keeps_store [OF team_world_ok(1,2)] by blast

end
